(* ===== verification/Prelude.thy ===== *)
theory Prelude
  imports Main "HOL-Library.Word"
begin

text \<open>
  Shared vocabulary of the development: the machine integer types of the kernel
  (\<^verbatim>\<open>uint8_t\<close> .. \<^verbatim>\<open>uint64_t\<close> as words of that width), the faults by which kernel code can
  stop, the sequencing combinator for fallible code, and the lemmas on lists, words and
  faults that the component theories share.

  A kernel operation that may hit \<^verbatim>\<open>_ASSERTF\<close> (which halts the machine) or undefined
  behaviour returns \<^typ>\<open>'e + 'a\<close>, the fault on the left.  Because the machine stops, no
  state is returned with a fault.
\<close>

unbundle bit_operations_syntax

named_theorems bind_simps \<open>evaluation of sequenced fallible code\<close>
named_theorems word_facts \<open>bounds and masks of machine words\<close>

section \<open>Machine integers\<close>

type_synonym u8 = "8 word"
type_synonym u16 = "16 word"
type_synonym u32 = "32 word"
type_synonym u64 = "64 word"

section \<open>Faults\<close>

text \<open>
  \<^verbatim>\<open>AssertionFailed\<close> is \<^verbatim>\<open>_ASSERTF\<close> of \<^verbatim>\<open>inc/common/types.h\<close> with its message; the other
  constructors are the places where the C++ code has no defined behaviour: an access outside
  an array or string, a call or access through a null pointer, a division by zero, a signed
  overflow, the use of pool memory that was never initialised, and an access to memory that
  is not mapped.  \<^verbatim>\<open>Halted\<close> is a processor that waits for an interrupt or a device that does not answer,
  \<^verbatim>\<open>RecursionLimit\<close> the answer of a definition whose fuel runs out.
\<close>

datatype fault =
    AssertionFailed string
  | OutOfBounds
  | NullPointer
  | DivideByZero
  | SignedOverflow
  | Uninitialised
  | PageFault
  | Halted
  | RecursionLimit

definition assertf :: "bool \<Rightarrow> string \<Rightarrow> fault + 'a \<Rightarrow> fault + 'a" where
  "assertf c msg k = (if c then k else Inl (AssertionFailed msg))"

definition ok_bind :: "fault + 'a \<Rightarrow> ('a \<Rightarrow> fault + 'b) \<Rightarrow> fault + 'b" where
  "ok_bind x f = (case x of Inl e \<Rightarrow> Inl e | Inr a \<Rightarrow> f a)"

definition returns :: "fault + 'a \<Rightarrow> bool" where
  "returns x = (case x of Inl _ \<Rightarrow> False | Inr _ \<Rightarrow> True)"

lemma ok_bind_Inl [simp, bind_simps]: "ok_bind (Inl e) f = Inl e"
  by (simp add: ok_bind_def)

lemma ok_bind_Inr [simp, bind_simps]: "ok_bind (Inr a) f = f a"
  by (simp add: ok_bind_def)

lemma ok_bind_eq_Inr: "ok_bind x f = Inr b \<longleftrightarrow> (\<exists>a. x = Inr a \<and> f a = Inr b)"
  by (cases x) auto

lemma ok_bind_assoc: "ok_bind (ok_bind x f) g = ok_bind x (\<lambda>a. ok_bind (f a) g)"
  by (cases x) auto

lemma ok_bind_cong [fundef_cong]:
  assumes "x = y" and "\<And>a. y = Inr a \<Longrightarrow> f a = g a"
  shows "ok_bind x f = ok_bind y g"
  using assms by (cases y) auto

lemma assertf_True [simp, bind_simps]: "c \<Longrightarrow> assertf c msg k = k"
  by (simp add: assertf_def)

lemma assertf_False [simp, bind_simps]: "\<not> c \<Longrightarrow> assertf c msg k = Inl (AssertionFailed msg)"
  by (simp add: assertf_def)

lemma assertf_eq_Inr: "assertf c msg k = Inr a \<longleftrightarrow> c \<and> k = Inr a"
  by (simp add: assertf_def)

lemma assertf_cong [fundef_cong]:
  assumes "c = d" and "m = m'" and "d \<Longrightarrow> k = l"
  shows "assertf c m k = assertf d m' l"
  using assms by (simp add: assertf_def)

lemma returns_Inr [simp]: "returns (Inr a)"
  by (simp add: returns_def)

lemma returns_Inl [simp]: "\<not> returns (Inl e)"
  by (simp add: returns_def)

lemma returns_iff: "returns x \<longleftrightarrow> (\<exists>a. x = Inr a)"
  by (cases x) auto

lemma returnsE:
  assumes "returns x"
  obtains a where "x = Inr a"
  using assms by (auto simp: returns_iff)

section \<open>Arrays\<close>

text \<open>
  A C array is a list of its cells. Reading or writing past the end is a fault, never a value.
\<close>

definition array_get :: "'a list \<Rightarrow> nat \<Rightarrow> fault + 'a" where
  "array_get xs i = (if i < length xs then Inr (xs ! i) else Inl OutOfBounds)"

definition array_set :: "'a list \<Rightarrow> nat \<Rightarrow> 'a \<Rightarrow> fault + 'a list" where
  "array_set xs i v = (if i < length xs then Inr (xs[i := v]) else Inl OutOfBounds)"

lemma array_get_in [simp]: "i < length xs \<Longrightarrow> array_get xs i = Inr (xs ! i)"
  by (simp add: array_get_def)

lemma array_get_out [simp]: "length xs \<le> i \<Longrightarrow> array_get xs i = Inl OutOfBounds"
  by (simp add: array_get_def)

lemma array_set_in [simp]: "i < length xs \<Longrightarrow> array_set xs i v = Inr (xs[i := v])"
  by (simp add: array_set_def)

lemma array_set_out [simp]: "length xs \<le> i \<Longrightarrow> array_set xs i v = Inl OutOfBounds"
  by (simp add: array_set_def)

lemma array_set_eq_Inr: "array_set xs i v = Inr ys \<longleftrightarrow> i < length xs \<and> ys = xs[i := v]"
  by (auto simp: array_set_def)

lemma array_get_eq_Inr: "array_get xs i = Inr v \<longleftrightarrow> i < length xs \<and> v = xs ! i"
  by (auto simp: array_get_def)

text \<open>
  The copying loop \<^verbatim>\<open>for (i = 0; i < n; i++) dst[d + i] = src[s + i]\<close> between two arrays that do
  not overlap.
\<close>

fun copy_loop :: "'a list \<Rightarrow> nat \<Rightarrow> 'a list \<Rightarrow> nat \<Rightarrow> nat \<Rightarrow> fault + 'a list" where
  "copy_loop src s dst d 0 = Inr dst"
| "copy_loop src s dst d (Suc n) =
     ok_bind (array_get src s) (\<lambda>v.
     ok_bind (array_set dst d v) (\<lambda>dst. copy_loop src (Suc s) dst (Suc d) n))"

lemma copy_loop_in:
  "s + n \<le> length src \<Longrightarrow> d + n \<le> length dst \<Longrightarrow>
   copy_loop src s dst d n = Inr (take d dst @ take n (drop s src) @ drop (d + n) dst)"
proof (induction n arbitrary: s d dst)
  case (Suc n)
  then have "drop s src = src ! s # drop (Suc s) src"
    by (simp add: Cons_nth_drop_Suc)
  moreover have "take (Suc d) (dst[d := src ! s]) = take d dst @ [src ! s]"
    using Suc.prems by (simp add: take_Suc_conv_app_nth)
  ultimately show ?case using Suc by simp
qed simp

section \<open>Lists\<close>

lemma take_Suc_nth: "i < length xs \<Longrightarrow> take (Suc i) xs = take i xs @ [xs ! i]"
  by (rule take_Suc_conv_app_nth)

lemma list_update_take_drop:
  "i < length xs \<Longrightarrow> xs[i := v] = take i xs @ v # drop (Suc i) xs"
  by (rule upd_conv_take_nth_drop)

section \<open>Words\<close>

lemma unat_less_pow2 [word_facts]: "unat (x :: 'a::len word) < 2 ^ LENGTH('a)"
  by (rule unsigned_less)

lemma unat_add_no_wrap [word_facts]:
  fixes x y :: "'a::len word"
  assumes "unat x + unat y < 2 ^ LENGTH('a)"
  shows "unat (x + y) = unat x + unat y"
  using assms by (rule unat_add_lem [THEN iffD1])

lemma unat_sub_le [word_facts]:
  fixes x y :: "'a::len word"
  assumes "y \<le> x"
  shows "unat (x - y) = unat x - unat y"
  using assms by (rule unat_sub)

end
