(* ===== verification/RangeTree.thy ===== *)
theory RangeTree
  imports Prelude
begin

text \<open>
  The range tree of \<^verbatim>\<open>src/kernel/memory/state.cpp\<close> and \<^verbatim>\<open>inc/kernel/memory/state.h\<close>, which
  tracks for every page of an address space whether it is free, reserved or used.  A branch
  holds the address that divides its two children and caches the remaining and the largest
  free size below it; a leaf holds the upper bound of its range and the state of the range.
  The nodes come from two free lists, modelled by the number of nodes they hold.
\<close>

section \<open>Page addresses\<close>

definition PAGE_MASK :: u64 where
  "PAGE_MASK = 0xFFFFFFFFF000"

definition PAGE_SIZE :: u64 where
  "PAGE_SIZE = 4096"

definition INVALID_ADDRESS :: u64 where
  "INVALID_ADDRESS = NOT 0"

definition aligned :: "u64 \<Rightarrow> bool" where
  "aligned a \<longleftrightarrow> a AND PAGE_MASK = a"

lemma mask_idem [simp]: "(a AND PAGE_MASK) AND PAGE_MASK = a AND PAGE_MASK"
  by (simp add: and.assoc)

lemma aligned_mask [simp]: "aligned (a AND PAGE_MASK)"
  by (simp add: aligned_def)

lemma alignedD: "aligned a \<Longrightarrow> a AND PAGE_MASK = a"
  by (simp add: aligned_def)

lemma aligned_0 [simp]: "aligned 0"
  by (simp add: aligned_def)

section \<open>Nodes\<close>

datatype range_state = Free | Reserved | Used | Branch

text \<open>
  A \<^verbatim>\<open>StateNode\<close> packs the state into the two low bits of its address word.  The functions
  below are the bit field accesses; the tree is built from the unpacked pair.
\<close>

definition state_code :: "range_state \<Rightarrow> u64" where
  "state_code s = (case s of Free \<Rightarrow> 0 | Reserved \<Rightarrow> 1 | Used \<Rightarrow> 2 | Branch \<Rightarrow> 3)"

definition node_word :: "u64 \<Rightarrow> range_state \<Rightarrow> u64" where
  "node_word a s = ((a AND PAGE_MASK) AND NOT 3) OR state_code s"

definition word_address :: "u64 \<Rightarrow> u64" where
  "word_address w = w AND PAGE_MASK"

definition word_state :: "u64 \<Rightarrow> range_state" where
  "word_state w = (if w AND 3 = 0 then Free else if w AND 3 = 1 then Reserved
     else if w AND 3 = 2 then Used else Branch)"

datatype node =
    Leaf u64 range_state
  | BranchNode u64 node node u64 u64 \<comment> \<open>address, left, right, remaining, largest\<close>

fun node_state :: "node \<Rightarrow> range_state" where
  "node_state (Leaf a s) = s"
| "node_state (BranchNode m l r rem lrg) = Branch"

fun get_address :: "node \<Rightarrow> u64" where
  "get_address (Leaf a s) = a AND PAGE_MASK"
| "get_address (BranchNode m l r rem lrg) = m AND PAGE_MASK"

section \<open>Node pools\<close>

text \<open>
  \<^verbatim>\<open>leaf_free\<close> and \<^verbatim>\<open>branch_free\<close> are the lengths of the two free lists;
  \<^verbatim>\<open>leaf_next\<close> and \<^verbatim>\<open>branch_next\<close> say whether a spare page has been allocated.  When a
  free list runs dry the code makes the spare page the list head, although nothing ever
  linked the nodes of that page: the next link it reads is uninitialised memory.
\<close>

record pool =
  leaf_free :: nat
  branch_free :: nat
  leaf_next :: bool
  branch_next :: bool
  used_leaves :: u64
  used_branches :: u64

definition GetFreeLeafState :: "pool \<Rightarrow> fault + pool" where
  "GetFreeLeafState p =
     (if leaf_free p = 0 then Inl (if leaf_next p then Uninitialised else NullPointer)
      else Inr (p\<lparr>leaf_free := leaf_free p - 1, used_leaves := used_leaves p + 1\<rparr>))"

definition GetFreeBranchState :: "pool \<Rightarrow> fault + pool" where
  "GetFreeBranchState p =
     (if branch_free p = 0 then Inl (if branch_next p then Uninitialised else NullPointer)
      else Inr (p\<lparr>branch_free := branch_free p - 1, used_branches := used_branches p + 1\<rparr>))"

definition FreeLeafState :: "pool \<Rightarrow> pool" where
  "FreeLeafState p = p\<lparr>leaf_free := leaf_free p + 1, used_leaves := used_leaves p - 1\<rparr>"

definition FreeStateBranch :: "pool \<Rightarrow> pool" where
  "FreeStateBranch p =
     p\<lparr>branch_free := branch_free p + 1, used_branches := used_branches p - 1\<rparr>"

section \<open>Operations on the tree\<close>

fun GetRemaining :: "node \<Rightarrow> u64 \<Rightarrow> u64 \<Rightarrow> fault + u64" where
  "GetRemaining (BranchNode m l r rem lrg) lo hi = Inr rem"
| "GetRemaining (Leaf a s) lo hi =
     (if s = Free then assertf (hi - lo > 0) ''Found empty node'' (Inr (hi - lo)) else Inr 0)"

fun GetLargestFree :: "node \<Rightarrow> u64 \<Rightarrow> u64 \<Rightarrow> fault + u64" where
  "GetLargestFree (BranchNode m l r rem lrg) lo hi = Inr lrg"
| "GetLargestFree (Leaf a s) lo hi =
     (if s = Free then assertf (hi - lo > 0) ''Found empty node'' (Inr (hi - lo)) else Inr 0)"

text \<open>
  \<^verbatim>\<open>UpdateNode\<close>: merge two leaves of equal state into one, or refresh the cached sizes.
\<close>

definition UpdateNode :: "u64 \<Rightarrow> node \<Rightarrow> node \<Rightarrow> pool \<Rightarrow> u64 \<Rightarrow> u64 \<Rightarrow> fault + node \<times> pool" where
  "UpdateNode m l r p lo hi =
     (if node_state r \<noteq> Branch \<and> node_state l = node_state r then
        ok_bind (GetFreeLeafState p) (\<lambda>p.
          Inr (Leaf (hi AND PAGE_MASK) (node_state l),
               FreeLeafState (FreeLeafState (FreeStateBranch p))))
      else
        let mid = m AND PAGE_MASK in
        ok_bind (GetLargestFree l lo mid) (\<lambda>largest_left.
        ok_bind (GetLargestFree r mid hi) (\<lambda>largest_right.
        assertf (hi - lo > 0) ''Encountered empty block'' (
        ok_bind (GetRemaining l lo mid) (\<lambda>remaining_left.
        ok_bind (GetRemaining r mid hi) (\<lambda>remaining_right.
          Inr (BranchNode m l r (remaining_left + remaining_right)
                 (if largest_left > largest_right then largest_left else largest_right), p)))))))"

fun GetPageStateInternal :: "node \<Rightarrow> u64 \<Rightarrow> range_state" where
  "GetPageStateInternal (BranchNode m l r rem lrg) a =
     (if a < m AND PAGE_MASK then GetPageStateInternal l a else GetPageStateInternal r a)"
| "GetPageStateInternal (Leaf b s) a = s"

fun FindMinimumSizeFreeBlockInternal :: "node \<Rightarrow> u64 \<Rightarrow> u64 \<Rightarrow> u64 \<Rightarrow> fault + u64" where
  "FindMinimumSizeFreeBlockInternal (BranchNode m l r rem lrg) min_size lo hi =
     (let mid = m AND PAGE_MASK in
      ok_bind (GetLargestFree l lo mid) (\<lambda>largest_left.
      ok_bind (GetLargestFree r mid hi) (\<lambda>largest_right.
      ok_bind (if largest_left \<ge> min_size
               then FindMinimumSizeFreeBlockInternal l min_size lo mid else Inr 0) (\<lambda>candidate.
      if candidate \<noteq> 0 then Inr candidate
      else if largest_right \<ge> min_size
           then FindMinimumSizeFreeBlockInternal r min_size mid hi
           else Inr 0))))"
| "FindMinimumSizeFreeBlockInternal (Leaf a s) min_size lo hi =
     (if s = Free then
        ok_bind (GetLargestFree (Leaf a s) lo (a AND PAGE_MASK)) (\<lambda>largest.
          if largest \<ge> min_size then Inr lo else Inr 0)
      else Inr 0)"

text \<open>
  \<^verbatim>\<open>TagRangeInternal\<close>.  A leaf that is only partly covered is split at the low address, or
  at the high address if the low one is already a boundary, and the half that holds the range
  is tagged again; the recursion therefore ends after at most two splits.
\<close>

definition leaf_cuts :: "node \<Rightarrow> u64 \<Rightarrow> u64 \<Rightarrow> u64 \<Rightarrow> nat" where
  "leaf_cuts t low high lo =
     (if low = lo then 0 else 1) + (if high = get_address t then 0 else 1)"

function TagRangeInternal ::
  "node \<Rightarrow> pool \<Rightarrow> u64 \<Rightarrow> u64 \<Rightarrow> range_state \<Rightarrow> u64 \<Rightarrow> u64 \<Rightarrow> fault + node \<times> pool" where
  "TagRangeInternal (BranchNode m l r rem lrg) p low high st lo hi =
     assertf (hi - lo > 0) ''About to create an empty block'' (
     assertf (lo \<le> low) ''Requested address is out of range'' (
     assertf (high \<le> hi) ''Requested address is out of range'' (
     let a = m AND PAGE_MASK in
     assertf (lo \<le> a) ''Requested address is out of range'' (
     assertf (a < hi) ''Requested address is out of range'' (
     if low < a \<and> high \<le> a then
       ok_bind (TagRangeInternal l p low high st lo a) (\<lambda>(l', p). UpdateNode m l' r p lo hi)
     else if low \<ge> a then
       ok_bind (TagRangeInternal r p low high st a hi) (\<lambda>(r', p). UpdateNode m l r' p lo hi)
     else
       ok_bind (TagRangeInternal l p low a st lo a) (\<lambda>(l', p).
       ok_bind (TagRangeInternal r p a high st a hi) (\<lambda>(r', p). UpdateNode m l' r' p lo hi)))))))"
| "TagRangeInternal (Leaf b s) p low high st lo hi =
     assertf (hi - lo > 0) ''About to create an empty block'' (
     assertf (lo \<le> low) ''Requested address is out of range'' (
     assertf (high \<le> hi) ''Requested address is out of range'' (
     let a = b AND PAGE_MASK;
         target = (if s \<noteq> Reserved then st else s) in
     assertf (a \<ge> low) ''Address out of bounds'' (
     assertf (a \<ge> high) ''Address out of bounds'' (
     if \<not> (low = lo \<and> high = a) then
       if low \<ge> lo \<and> high \<le> a \<and> s = target then Inr (Leaf b s, p)
       else
         let mid = (if low = lo then high else low) in
         ok_bind (GetFreeBranchState p) (\<lambda>p.
         assertf (lo < mid) ''About to create zero block'' (
         ok_bind (GetFreeLeafState p) (\<lambda>p.
         assertf (mid = mid AND PAGE_MASK) ''Mismatch on expected block bounds'' (
         assertf (a = hi \<or> hi AND PAGE_MASK = NOT 0 AND PAGE_MASK)
           ''Right block should touch the outer bound'' (
         ok_bind (GetFreeLeafState p) (\<lambda>p.
         let left = Leaf (mid AND PAGE_MASK) s; right = Leaf (a AND PAGE_MASK) s;
             p = FreeLeafState p in
         ok_bind
           (if low < mid \<and> high \<le> mid then
              ok_bind (TagRangeInternal left p low high target lo mid) (\<lambda>(l', p). Inr (l', right, p))
            else if low \<ge> mid \<and> high > mid then
              assertf (mid < a) ''About to create zero block'' (
              ok_bind (TagRangeInternal right p low high target mid a) (\<lambda>(r', p). Inr (left, r', p)))
            else Inl (AssertionFailed ''Incorrect branch state''))
           (\<lambda>(l', r', p).
              assertf (\<not> (node_state r' \<noteq> Branch \<and> node_state l' = node_state r'))
                ''About to perform unexpected state merge'' (
              ok_bind (UpdateNode (mid AND PAGE_MASK) l' r' p lo hi) (\<lambda>(t, p).
              assertf (node_state t = Branch) ''Unexpected node merge'' (Inr (t, p)))))))))))
     else
       assertf (low = lo \<or> high = hi) ''Expected ranges to match.'' (Inr (Leaf b target, p)))))))"
  by pat_completeness auto
termination
  by (relation "measures [\<lambda>(t, p, low, high, st, lo, hi). size t,
        \<lambda>(t, p, low, high, st, lo, hi). leaf_cuts t low high lo]")
    (auto simp: leaf_cuts_def assertf_def split: if_splits)

declare TagRangeInternal.simps [simp del]

section \<open>The tracker of one address space\<close>

text \<open>
  \<^verbatim>\<open>Init\<close> links 4096 leaves and 4096 branches and takes the root, a free leaf, from the
  branch list.  \<^verbatim>\<open>rpmalloc\<close>, the allocator behind \<^verbatim>\<open>InitDynamic\<close>, is not part of the
  kernel: whether it returns memory is an argument.
\<close>

record mem_state =
  state_root :: node
  highest_address :: u64
  node_pool :: pool
  system_index :: int

definition Init :: "int \<Rightarrow> u64 \<Rightarrow> fault + mem_state" where
  "Init sys highest =
     (let p = \<lparr>leaf_free = 4096, branch_free = 4096, leaf_next = False, branch_next = False,
               used_leaves = 0, used_branches = 0\<rparr> in
      ok_bind (GetFreeBranchState p) (\<lambda>p.
        Inr \<lparr>state_root = Leaf (highest AND PAGE_MASK) Free, highest_address = highest,
             node_pool = p, system_index = sys\<rparr>))"

definition InitDynamic :: "bool \<Rightarrow> bool \<Rightarrow> mem_state \<Rightarrow> mem_state" where
  "InitDynamic leaf_ok branch_ok ms =
     ms\<lparr>node_pool := (node_pool ms)\<lparr>leaf_next := leaf_ok, branch_next := branch_ok\<rparr>\<rparr>"

definition TagRange :: "u64 \<Rightarrow> u64 \<Rightarrow> range_state \<Rightarrow> mem_state \<Rightarrow> fault + mem_state" where
  "TagRange low high st ms =
     ok_bind (TagRangeInternal (state_root ms) (node_pool ms) low high st 0 (highest_address ms))
       (\<lambda>(t, p). Inr (ms\<lparr>state_root := t, node_pool := p\<rparr>))"

definition FindMinimumSizeFreeBlock :: "mem_state \<Rightarrow> u64 \<Rightarrow> fault + u64" where
  "FindMinimumSizeFreeBlock ms min_size =
     FindMinimumSizeFreeBlockInternal (state_root ms) min_size 0 (highest_address ms)"

definition GetPageState :: "mem_state \<Rightarrow> u64 \<Rightarrow> range_state" where
  "GetPageState ms a = GetPageStateInternal (state_root ms) a"

end
