(* ===== verification/Paging.thy ===== *)
theory Paging
  imports RangeTree
begin

text \<open>
  The four level page tables of \<^verbatim>\<open>src/kernel/memory/pml4.cpp\<close>.  A paging structure page
  (\<^verbatim>\<open>SPagingStructurePage\<close>) is a list of 512 entries, and \<^verbatim>\<open>Heap\<close> holds the pages by their
  address; \<^verbatim>\<open>Next\<close>, the link of a free page, shares its storage with entry 0.  The code uses
  the addresses in the entries as pointers, so an access to an address that holds no paging
  structure page is a page fault.  \<^verbatim>\<open>clflush\<close> has no effect on the model; \<^verbatim>\<open>invlpg\<close> is
  recorded in \<^verbatim>\<open>Invalidated\<close>.
\<close>

section \<open>Constants\<close>

definition PRESENT :: u64 where "PRESENT = 1"
definition WRITABLE :: u64 where "WRITABLE = 2"
definition USER_CPL :: u64 where "USER_CPL = 4"
definition WRITE_THROUGH :: u64 where "WRITE_THROUGH = 8"
definition CACHE_DISABLE :: u64 where "CACHE_DISABLE = 16"
definition PAGE_2MB :: u64 where "PAGE_2MB = 128"
definition NOT_EXECUTABLE :: u64 where "NOT_EXECUTABLE = 0x8000000000000000"
definition PAGE_SIZE_2MB :: u64 where "PAGE_SIZE_2MB = 0x200000"
definition PM_RESERVED_MASK :: u64 where "PM_RESERVED_MASK = 0xF000000000000"
definition PML4_RESERVED_MASK :: u64 where "PML4_RESERVED_MASK = 0xF000000000000 OR 0x80"
definition PML4AddressMask :: u64 where "PML4AddressMask = 0xFFFFFFFFFF000"
definition STATIC_PAGE_ENTRIES :: nat where "STATIC_PAGE_ENTRIES = 2048"
definition NextPagingBlockSize :: nat where "NextPagingBlockSize = 4096"

text \<open>The makefile builds the kernel with \<^verbatim>\<open>-DENABLE_NX=0\<close>.\<close>

definition ENABLE_NX :: bool where "ENABLE_NX = False"

datatype PrivilegeLevel = Kernel | User | Keep
datatype PageFlags = PageFlags_None | PageFlags_Cache_WriteThrough | PageFlags_Cache_Disable

section \<open>State\<close>

type_synonym table_heap = "u64 \<Rightarrow> u64 list option"

record paging =
  Heap :: table_heap
  PML4 :: u64
  InitialPageTableEntries :: u64
  PagingFreePageHead :: u64
  NextFreePageTableEntriesBlock :: u64
  PhysicalMemoryState :: mem_state
  VirtualMemoryState :: mem_state
  CR3 :: u64
  PML4Set :: bool
  Invalidated :: "u64 list"

definition read_entry :: "table_heap \<Rightarrow> u64 \<Rightarrow> nat \<Rightarrow> fault + u64" where
  "read_entry h p i = (case h p of None \<Rightarrow> Inl PageFault | Some es \<Rightarrow> array_get es i)"

definition write_entry :: "paging \<Rightarrow> u64 \<Rightarrow> nat \<Rightarrow> u64 \<Rightarrow> fault + paging" where
  "write_entry s p i v =
     (case Heap s p of
        None \<Rightarrow> Inl PageFault
      | Some es \<Rightarrow> ok_bind (array_set es i v) (\<lambda>es. Inr (s\<lparr>Heap := (Heap s)(p \<mapsto> es)\<rparr>)))"

definition empty_table :: "u64 list" where
  "empty_table = replicate 512 0"

text \<open>\<^verbatim>\<open>memset\<close> to zero of n paging structure pages in a row.\<close>

definition zero_pages :: "u64 \<Rightarrow> nat \<Rightarrow> table_heap \<Rightarrow> table_heap" where
  "zero_pages base n h =
     (\<lambda>a. if (a - base) AND (PAGE_SIZE - 1) = 0 \<and> unat (a - base) div 4096 < n
          then Some empty_table else h a)"

section \<open>The free list\<close>

fun link_pages :: "u64 \<Rightarrow> nat \<Rightarrow> paging \<Rightarrow> fault + paging" where
  "link_pages base 0 s = Inr s"
| "link_pages base (Suc i) s =
     (let page = base + PAGE_SIZE * of_nat i in
      ok_bind (write_entry s page 0 (PagingFreePageHead s)) (\<lambda>s.
        link_pages base i (s\<lparr>PagingFreePageHead := page\<rparr>)))"

definition PreparePML4FreeList :: "u64 \<Rightarrow> paging \<Rightarrow> fault + paging" where
  "PreparePML4FreeList next_block s =
     link_pages (InitialPageTableEntries s) STATIC_PAGE_ENTRIES
       (s\<lparr>Heap := zero_pages next_block STATIC_PAGE_ENTRIES (Heap s)\<rparr>)"

definition FreePML4Page :: "u64 \<Rightarrow> paging \<Rightarrow> fault + paging" where
  "FreePML4Page page s =
     ok_bind (write_entry s page 0 (PagingFreePageHead s)) (\<lambda>s.
       Inr (s\<lparr>PagingFreePageHead := page\<rparr>))"

text \<open>The end of \<^verbatim>\<open>GetPML4FreePage\<close>: unlink the first page and clear it.\<close>

definition take_page :: "paging \<Rightarrow> fault + u64 \<times> paging" where
  "take_page s =
     (let result = PagingFreePageHead s in
      ok_bind (read_entry (Heap s) result 0) (\<lambda>next.
        Inr (result, s\<lparr>PagingFreePageHead := next,
                        Heap := (Heap s)(result \<mapsto> empty_table)\<rparr>)))"

section \<open>Looking up a translation\<close>

definition pml4_index :: "u64 \<Rightarrow> nat" where
  "pml4_index va = unat (drop_bit 39 va AND 0x1FF)"

definition pdpt_index :: "u64 \<Rightarrow> nat" where
  "pdpt_index va = unat (drop_bit 30 va AND 0x1FF)"

definition pd_index :: "u64 \<Rightarrow> nat" where
  "pd_index va = unat (drop_bit 21 va AND 0x1FF)"

definition pt_index :: "u64 \<Rightarrow> nat" where
  "pt_index va = unat (drop_bit 12 va AND 0x1FF)"

definition GetPhysicalAddress :: "u64 \<Rightarrow> bool \<Rightarrow> paging \<Rightarrow> fault + u64" where
  "GetPhysicalAddress va live s =
     (let active = if live then CR3 s AND PML4AddressMask else PML4 s in
      ok_bind (read_entry (Heap s) active (pml4_index va)) (\<lambda>pml4_entry.
      if pml4_entry AND PRESENT = 0 then Inr INVALID_ADDRESS else
      ok_bind (read_entry (Heap s) (pml4_entry AND PML4AddressMask) (pdpt_index va)) (\<lambda>pdpt_entry.
      if pdpt_entry AND PRESENT = 0 then Inr INVALID_ADDRESS else
      ok_bind (read_entry (Heap s) (pdpt_entry AND PML4AddressMask) (pd_index va)) (\<lambda>pd_entry.
      if pd_entry AND PRESENT = 0 then Inr INVALID_ADDRESS else
      if pd_entry AND PAGE_2MB \<noteq> 0
      then Inr ((pd_entry AND PML4AddressMask) + (va AND (PAGE_SIZE_2MB - 1)))
      else
      ok_bind (read_entry (Heap s) (pd_entry AND PML4AddressMask) (pt_index va)) (\<lambda>pt_entry.
      if pt_entry AND PRESENT = 0 then Inr INVALID_ADDRESS else
      Inr ((pt_entry AND PML4AddressMask) + (va AND (PAGE_SIZE - 1))))))))"

section \<open>Mapping\<close>

text \<open>
  The body of the mapping loop obtains free pages from \<^verbatim>\<open>get\<close>, which stands for
  \<^verbatim>\<open>GetPML4FreePage\<close>: that function maps memory itself when the free list is empty, and the
  recursion is tied below.  \<^verbatim>\<open>next_table\<close> is one of the three steps that follow or create a
  table.
\<close>

type_synonym page_source = "paging \<Rightarrow> fault + u64 \<times> paging"

definition next_table :: "page_source \<Rightarrow> u64 \<Rightarrow> u64 \<Rightarrow> nat \<Rightarrow> paging \<Rightarrow> fault + u64 \<times> paging" where
  "next_table get reserved p i s =
     ok_bind (read_entry (Heap s) p i) (\<lambda>e.
       if e AND PRESENT \<noteq> 0 then Inr (e AND PML4AddressMask, s)
       else
         ok_bind (get s) (\<lambda>(q, s).
         let e = q OR PRESENT OR WRITABLE OR USER_CPL in
         ok_bind (write_entry s p i e) (\<lambda>s.
         assertf (e AND reserved = 0) ''Reserved bits set'' (Inr (q, s)))))"

text \<open>The new page table entry of a page that is not being freed.\<close>

definition page_entry :: "u64 \<Rightarrow> u64 \<Rightarrow> bool \<Rightarrow> bool \<Rightarrow> PrivilegeLevel \<Rightarrow> PageFlags \<Rightarrow> u64" where
  "page_entry old pa writable executable level flags =
     (let was_present = old AND PRESENT \<noteq> 0;
          user = if level = User \<or> (was_present \<and> level = Keep \<and> old AND USER_CPL = USER_CPL)
                 then USER_CPL else 0;
          e = (pa AND PAGE_MASK) OR PRESENT OR user;
          e = if writable then e OR WRITABLE else e;
          e = if \<not> executable \<and> ENABLE_NX then e OR NOT_EXECUTABLE else e;
          e = if flags = PageFlags_Cache_Disable then e OR CACHE_DISABLE else e
      in if flags = PageFlags_Cache_WriteThrough then e OR WRITE_THROUGH else e)"

definition map_page ::
  "page_source \<Rightarrow> u64 \<Rightarrow> u64 \<Rightarrow> bool \<Rightarrow> bool \<Rightarrow> PrivilegeLevel \<Rightarrow> range_state \<Rightarrow> PageFlags \<Rightarrow> paging
    \<Rightarrow> fault + paging" where
  "map_page get va pa writable executable level new_state flags s =
     ok_bind (next_table get PML4_RESERVED_MASK (PML4 s) (pml4_index va) s) (\<lambda>(pdpt, s).
     ok_bind (next_table get PM_RESERVED_MASK pdpt (pdpt_index va) s) (\<lambda>(pd, s).
     ok_bind (next_table get PM_RESERVED_MASK pd (pd_index va) s) (\<lambda>(pt, s).
     ok_bind
       (if new_state = Free then write_entry s pt (pt_index va) (pa AND PAGE_MASK)
        else
          ok_bind (read_entry (Heap s) pt (pt_index va)) (\<lambda>old.
          let e = page_entry old pa writable executable level flags in
          ok_bind (write_entry s pt (pt_index va) e) (\<lambda>s.
          assertf (e AND PM_RESERVED_MASK = 0) ''Reserved bits set'' (
          ok_bind (GetPhysicalAddress va False s) (\<lambda>new_pa.
          assertf (pa = new_pa) ''Physical address mismatch.'' (Inr s))))))
       (\<lambda>s. Inr (if PML4Set s then s\<lparr>Invalidated := va # Invalidated s\<rparr> else s)))))"

text \<open>
  The loop \<^verbatim>\<open>while (virtualAddress < endVirtualAddress)\<close>; the two assertions that compare the
  running addresses with their copies always hold and are left out.  The first argument
  bounds the iterations.
\<close>

fun map_loop ::
  "nat \<Rightarrow> page_source \<Rightarrow> u64 \<Rightarrow> u64 \<Rightarrow> u64 \<Rightarrow> bool \<Rightarrow> bool \<Rightarrow> PrivilegeLevel \<Rightarrow> range_state \<Rightarrow> PageFlags
    \<Rightarrow> paging \<Rightarrow> fault + paging" where
  "map_loop fuel get va end_va pa writable executable level new_state flags s =
     (if va < end_va then
        (case fuel of
           0 \<Rightarrow> Inl RecursionLimit
         | Suc fuel \<Rightarrow>
             ok_bind (map_page get va pa writable executable level new_state flags s)
               (map_loop fuel get (va + PAGE_SIZE) end_va (pa + PAGE_SIZE) writable executable
                  level new_state flags))
      else Inr s)"

declare map_loop.simps [simp del]

definition MapPages ::
  "page_source \<Rightarrow> u64 \<Rightarrow> u64 \<Rightarrow> u64 \<Rightarrow> bool \<Rightarrow> bool \<Rightarrow> PrivilegeLevel \<Rightarrow> range_state \<Rightarrow> PageFlags
    \<Rightarrow> paging \<Rightarrow> fault + paging" where
  "MapPages get va pa byte_size writable executable level new_state flags s =
     assertf (byte_size AND (PAGE_SIZE - 1) = 0) ''Misaligned page size'' (
     let end_va = va + byte_size in
     assertf (va = va AND PAGE_MASK) ''Virtual address mismatch.'' (
     assertf (pa = pa AND PAGE_MASK) ''Physical address mismatch.'' (
     let aligned_size = (byte_size + (PAGE_SIZE - 1)) AND PAGE_MASK; pa_end = pa + aligned_size in
     ok_bind (TagRange pa pa_end new_state (PhysicalMemoryState s)) (\<lambda>phys.
     ok_bind (TagRange va end_va new_state (VirtualMemoryState s)) (\<lambda>virt.
     map_loop (unat (byte_size div PAGE_SIZE)) get va end_va pa writable executable level new_state
       flags (s\<lparr>PhysicalMemoryState := phys, VirtualMemoryState := virt\<rparr>))))))"

end
