(* ===== verification/VirtualMem.thy ===== *)
theory VirtualMem
  imports Paging
begin

text \<open>
  The allocation interface of \<^verbatim>\<open>src/kernel/memory/virtual.cpp\<close> and \<^verbatim>\<open>physical.cpp\<close>, and the
  part of \<^verbatim>\<open>pml4.cpp\<close> that closes the circle: the page tables are extended with pages that
  are themselves allocated with \<^verbatim>\<open>VirtualAlloc\<close>.  As in theory \<^verbatim>\<open>Paging\<close>, \<^verbatim>\<open>get\<close> is the
  source of free paging structure pages.
\<close>

section \<open>virtual.cpp\<close>

datatype MemoryProtection = ReadOnly | ReadWrite | Execute

text \<open>
  The store of a zero through the new address: it needs a translation.  That memory holds
  what was stored, which the second assertion of the code tests, is taken for granted.
\<close>

definition store_through :: "u64 \<Rightarrow> paging \<Rightarrow> fault + paging" where
  "store_through va s =
     ok_bind (GetPhysicalAddress va True s) (\<lambda>pa.
       if pa = INVALID_ADDRESS then Inl PageFault else Inr s)"

definition VirtualAlloc ::
  "page_source \<Rightarrow> u64 \<Rightarrow> PrivilegeLevel \<Rightarrow> PageFlags \<Rightarrow> paging \<Rightarrow> fault + u64 \<times> paging" where
  "VirtualAlloc get byte_size level flags s =
     ok_bind (FindMinimumSizeFreeBlock (PhysicalMemoryState s) byte_size) (\<lambda>pa.
     if pa = 0 then assertf (pa = 0) ''Failed to allocate'' (Inr (0, s))
     else
       ok_bind (FindMinimumSizeFreeBlock (VirtualMemoryState s) byte_size) (\<lambda>va.
       ok_bind (MapPages get va pa byte_size True False level Used flags s) (\<lambda>s.
       ok_bind (store_through va s) (\<lambda>s. Inr (va, s)))))"

definition VirtualFree :: "page_source \<Rightarrow> u64 \<Rightarrow> u64 \<Rightarrow> paging \<Rightarrow> fault + bool \<times> paging" where
  "VirtualFree get address byte_size s =
     ok_bind (GetPhysicalAddress address True s) (\<lambda>pa.
     ok_bind (MapPages get address pa byte_size False False Kernel Free PageFlags_None s) (\<lambda>s.
     Inr (True, s)))"

definition VirtualProtect ::
  "page_source \<Rightarrow> u64 \<Rightarrow> u64 \<Rightarrow> MemoryProtection \<Rightarrow> PageFlags \<Rightarrow> PrivilegeLevel \<Rightarrow> paging
    \<Rightarrow> fault + paging" where
  "VirtualProtect get address byte_size protect flags level s =
     ok_bind (GetPhysicalAddress address True s) (\<lambda>pa.
     let (writable, executable) =
       (case protect of ReadOnly \<Rightarrow> (False, False) | ReadWrite \<Rightarrow> (True, False)
        | Execute \<Rightarrow> (False, True))
     in MapPages get address pa byte_size writable executable level Used flags s)"

section \<open>physical.cpp\<close>

definition PhysicalAlloc ::
  "page_source \<Rightarrow> u64 \<Rightarrow> u64 \<Rightarrow> PrivilegeLevel \<Rightarrow> PageFlags \<Rightarrow> paging \<Rightarrow> fault + u64 \<times> paging" where
  "PhysicalAlloc get pa byte_size level flags s =
     ok_bind (FindMinimumSizeFreeBlock (VirtualMemoryState s) byte_size) (\<lambda>va.
     ok_bind (MapPages get va pa byte_size True False level Used flags s) (\<lambda>s. Inr (va, s)))"

definition PhysicalAllocLowestAddress ::
  "page_source \<Rightarrow> u64 \<Rightarrow> PrivilegeLevel \<Rightarrow> PageFlags \<Rightarrow> paging \<Rightarrow> fault + u64 \<times> paging" where
  "PhysicalAllocLowestAddress get byte_size level flags s =
     ok_bind (FindMinimumSizeFreeBlock (PhysicalMemoryState s) byte_size) (\<lambda>pa.
     ok_bind (FindMinimumSizeFreeBlock (VirtualMemoryState s) byte_size) (\<lambda>va.
     ok_bind (MapPages get va pa byte_size True False level Used flags s) (\<lambda>s. Inr (va, s))))"

section \<open>The source of free pages\<close>

text \<open>
  \<^verbatim>\<open>rpmalloc\<close>, which \<^verbatim>\<open>InitDynamic\<close> calls, is not part of the kernel.  It may call back into
  the allocator, so the argument that stands for it takes and returns the state, and says
  whether it returned memory.
\<close>

type_synonym rpmalloc = "paging \<Rightarrow> fault + bool \<times> paging"

definition init_dynamic ::
  "rpmalloc \<Rightarrow> (paging \<Rightarrow> mem_state) \<Rightarrow> ((mem_state \<Rightarrow> mem_state) \<Rightarrow> paging \<Rightarrow> paging) \<Rightarrow> paging
    \<Rightarrow> fault + paging" where
  "init_dynamic rpmalloc sel upd s =
     ok_bind (rpmalloc s) (\<lambda>(leaf_ok, s).
     let s = upd (\<lambda>ms. InitDynamic leaf_ok (branch_next (node_pool ms)) ms) s in
     ok_bind (rpmalloc s) (\<lambda>(branch_ok, s).
     Inr (upd (\<lambda>ms. InitDynamic (leaf_next (node_pool ms)) branch_ok ms) s)))"

definition AllocateNextFreePageTableEntries ::
  "rpmalloc \<Rightarrow> page_source \<Rightarrow> paging \<Rightarrow> fault + paging" where
  "AllocateNextFreePageTableEntries rpmalloc get s =
     ok_bind (VirtualAlloc get (4096 * of_nat NextPagingBlockSize) Kernel PageFlags_None s)
       (\<lambda>(block, s).
     if block = 0 then Inl NullPointer
     else
       let s = s\<lparr>NextFreePageTableEntriesBlock := block,
                 Heap := zero_pages block NextPagingBlockSize (Heap s)\<rparr> in
       ok_bind (init_dynamic rpmalloc PhysicalMemoryState PhysicalMemoryState_update s) (\<lambda>s.
       init_dynamic rpmalloc VirtualMemoryState VirtualMemoryState_update s))"

text \<open>
  \<^verbatim>\<open>GetPML4FreePage\<close>: when the free list is empty, link the prepared block and prepare
  another one, which maps pages and so needs free pages in turn.  The first argument bounds
  the depth of this recursion; a block of 4096 pages is more than preparing one consumes.
\<close>

primrec GetPML4FreePage :: "nat \<Rightarrow> rpmalloc \<Rightarrow> page_source" where
  "GetPML4FreePage 0 rpmalloc = (\<lambda>s.
     if PagingFreePageHead s = 0 then Inl RecursionLimit else take_page s)"
| "GetPML4FreePage (Suc depth) rpmalloc = (\<lambda>s.
     ok_bind
       (if PagingFreePageHead s = 0 then
          ok_bind (link_pages (NextFreePageTableEntriesBlock s) NextPagingBlockSize s) (\<lambda>s.
            AllocateNextFreePageTableEntries rpmalloc (GetPML4FreePage depth rpmalloc) s)
        else Inr s)
       take_page)"

end
