(* ===== verification/RangeTreeCorrect.thy ===== *)
theory RangeTreeCorrect
  imports RangeTree
begin

text \<open>
  Correctness of the range tree: the shape invariant, the accounting of the node pools, the
  effect of tagging a range on the state of every page, and the equivalence of the pruned
  search for a free block with a first-fit search over the list of free ranges.
\<close>

section \<open>Invariant\<close>

fun remaining_in :: "u64 \<Rightarrow> u64 \<Rightarrow> node \<Rightarrow> u64" where
  "remaining_in lo hi (Leaf a s) = (if s = Free then hi - lo else 0)"
| "remaining_in lo hi (BranchNode m l r rem lrg) = remaining_in lo m l + remaining_in m hi r"

fun largest_in :: "u64 \<Rightarrow> u64 \<Rightarrow> node \<Rightarrow> u64" where
  "largest_in lo hi (Leaf a s) = (if s = Free then hi - lo else 0)"
| "largest_in lo hi (BranchNode m l r rem lrg) = max (largest_in lo m l) (largest_in m hi r)"

definition mergeable :: "node \<Rightarrow> node \<Rightarrow> bool" where
  "mergeable l r \<longleftrightarrow> node_state r \<noteq> Branch \<and> node_state l = node_state r"

fun wf_node :: "u64 \<Rightarrow> u64 \<Rightarrow> node \<Rightarrow> bool" where
  "wf_node lo hi (Leaf a s) \<longleftrightarrow> lo < hi \<and> a = hi \<and> aligned hi \<and> s \<noteq> Branch"
| "wf_node lo hi (BranchNode m l r rem lrg) \<longleftrightarrow>
     aligned m \<and> wf_node lo m l \<and> wf_node m hi r \<and> \<not> mergeable l r
     \<and> rem = remaining_in lo m l + remaining_in m hi r
     \<and> lrg = max (largest_in lo m l) (largest_in m hi r)"

fun num_leaves :: "node \<Rightarrow> nat" where
  "num_leaves (Leaf a s) = 1"
| "num_leaves (BranchNode m l r rem lrg) = num_leaves l + num_leaves r"

fun num_branches :: "node \<Rightarrow> nat" where
  "num_branches (Leaf a s) = 0"
| "num_branches (BranchNode m l r rem lrg) = num_branches l + num_branches r + 1"

lemma wf_node_bounds: "wf_node lo hi t \<Longrightarrow> lo < hi \<and> aligned hi"
  by (induction lo hi t rule: wf_node.induct) auto

lemma wf_node_less: "wf_node lo hi t \<Longrightarrow> lo < hi"
  by (simp add: wf_node_bounds)

lemma sub_pos_iff [simp]: "(0 :: u64) < hi - lo \<longleftrightarrow> hi \<noteq> lo"
  by (simp add: word_gt_0)

lemma GetLargestFree_wf: "wf_node lo hi t \<Longrightarrow> GetLargestFree t lo hi = Inr (largest_in lo hi t)"
  by (cases t) (auto simp: less_imp_neq)

lemma GetRemaining_wf: "wf_node lo hi t \<Longrightarrow> GetRemaining t lo hi = Inr (remaining_in lo hi t)"
  by (cases t) (auto simp: less_imp_neq)

lemma node_state_wf: "wf_node lo hi t \<Longrightarrow> node_state t = Branch \<longleftrightarrow> (\<exists>m l r rem lrg. t = BranchNode m l r rem lrg)"
  by (cases t) auto

section \<open>Pool accounting\<close>

text \<open>
  \<^verbatim>\<open>transfers p t p' t'\<close>: every node that left the pool is in the tree and the other way
  round, and the usage counters moved with the lists.
\<close>

definition transfers :: "pool \<Rightarrow> nat \<Rightarrow> nat \<Rightarrow> pool \<Rightarrow> nat \<Rightarrow> nat \<Rightarrow> bool" where
  "transfers p nl nb p' nl' nb' \<longleftrightarrow>
     leaf_free p' + nl' = leaf_free p + nl
     \<and> branch_free p' + nb' = branch_free p + nb
     \<and> used_leaves p' + of_nat (leaf_free p') = used_leaves p + of_nat (leaf_free p)
     \<and> used_branches p' + of_nat (branch_free p') = used_branches p + of_nat (branch_free p)"

lemma transfers_refl [simp]: "transfers p nl nb p nl nb"
  by (simp add: transfers_def)

lemma transfers_trans:
  "transfers p nl nb p' nl' nb' \<Longrightarrow> transfers p' nl' nb' p'' nl'' nb'' \<Longrightarrow> transfers p nl nb p'' nl'' nb''"
  by (simp add: transfers_def)

lemma transfers_frame:
  "transfers p nl nb p' nl' nb' \<Longrightarrow> transfers p (nl + k) (nb + j) p' (nl' + k) (nb' + j)"
  by (simp add: transfers_def)

section \<open>UpdateNode\<close>

lemma UpdateNode_correct:
  assumes "wf_node lo m l" and "wf_node m hi r" and "aligned m" and "1 \<le> leaf_free p"
  shows "\<exists>t p'. UpdateNode m l r p lo hi = Inr (t, p') \<and> wf_node lo hi t
    \<and> (\<forall>a. GetPageStateInternal t a = (if a < m then GetPageStateInternal l a else GetPageStateInternal r a))
    \<and> transfers p (num_leaves l + num_leaves r) (num_branches l + num_branches r + 1)
        p' (num_leaves t) (num_branches t)
    \<and> num_leaves t \<le> num_leaves l + num_leaves r
    \<and> num_branches t \<le> num_branches l + num_branches r + 1"
proof (cases "mergeable l r")
  case True
  from True assms obtain s where l: "l = Leaf m s" and r: "r = Leaf hi s" and s: "s \<noteq> Branch"
    by (cases l; cases r) (auto simp: mergeable_def)
  from assms l r have "aligned hi" "lo < hi"
    by (auto dest: order.strict_trans)
  with assms s show ?thesis
    by (cases "leaf_free p")
      (auto simp: UpdateNode_def l r GetFreeLeafState_def FreeLeafState_def FreeStateBranch_def
        transfers_def alignedD)
next
  case False
  from assms have "lo < hi"
    by (meson order.strict_trans wf_node_less)
  with False assms show ?thesis
    by (auto simp: UpdateNode_def mergeable_def alignedD GetLargestFree_wf GetRemaining_wf
        Let_def max_def less_imp_neq)
qed

lemma UpdateNode_branch:
  assumes "wf_node lo m l" and "wf_node m hi r" and "aligned m" and "\<not> mergeable l r"
  shows "UpdateNode m l r p lo hi =
    Inr (BranchNode m l r (remaining_in lo m l + remaining_in m hi r)
           (max (largest_in lo m l) (largest_in m hi r)), p)"
proof -
  from assms have "lo < hi"
    by (meson order.strict_trans wf_node_less)
  with assms show ?thesis
    by (auto simp: UpdateNode_def mergeable_def alignedD GetLargestFree_wf GetRemaining_wf
        Let_def max_def less_imp_neq)
qed

section \<open>Tagging a range\<close>

definition retag :: "range_state \<Rightarrow> range_state \<Rightarrow> range_state" where
  "retag st s = (if s \<noteq> Reserved then st else s)"

definition cuts :: "u64 \<Rightarrow> u64 \<Rightarrow> u64 \<Rightarrow> u64 \<Rightarrow> nat" where
  "cuts lo hi low high = (if low = lo then 0 else 1) + (if high = hi then 0 else 1)"

definition tagged :: "u64 \<Rightarrow> u64 \<Rightarrow> u64 set \<Rightarrow> range_state \<Rightarrow> node \<Rightarrow> node \<Rightarrow> bool" where
  "tagged lo hi R st t t' \<longleftrightarrow>
     (\<forall>a. lo \<le> a \<and> a < hi \<longrightarrow> GetPageStateInternal t' a =
        (if a \<in> R then retag st (GetPageStateInternal t a)
         else GetPageStateInternal t a))"

text \<open>
  What one call of \<^verbatim>\<open>TagRangeInternal\<close> achieves on a well-formed node when it tags the
  addresses in \<^verbatim>\<open>R\<close> with at most \<^verbatim>\<open>c\<close> splits.
\<close>

definition tag_post ::
  "u64 \<Rightarrow> u64 \<Rightarrow> u64 set \<Rightarrow> nat \<Rightarrow> range_state \<Rightarrow> node \<Rightarrow> pool \<Rightarrow> node \<Rightarrow> pool \<Rightarrow> bool" where
  "tag_post lo hi R c st t p t' p' \<longleftrightarrow>
     wf_node lo hi t' \<and> tagged lo hi R st t t'
     \<and> transfers p (num_leaves t) (num_branches t) p' (num_leaves t') (num_branches t')
     \<and> num_leaves t' \<le> num_leaves t + c
     \<and> num_branches t' \<le> num_branches t + c"

text \<open>Splitting takes one branch and, net, one leaf.\<close>

definition take_leaf :: "pool \<Rightarrow> pool" where
  "take_leaf p = p\<lparr>leaf_free := leaf_free p - 1, used_leaves := used_leaves p + 1\<rparr>"

definition take_branch :: "pool \<Rightarrow> pool" where
  "take_branch p = p\<lparr>branch_free := branch_free p - 1, used_branches := used_branches p + 1\<rparr>"

definition split_pool :: "pool \<Rightarrow> pool" where
  "split_pool p = FreeLeafState (take_leaf (take_leaf (take_branch p)))"

lemma GetFreeLeafState_take: "1 \<le> leaf_free p \<Longrightarrow> GetFreeLeafState p = Inr (take_leaf p)"
  by (simp add: GetFreeLeafState_def take_leaf_def)

lemma GetFreeBranchState_take: "1 \<le> branch_free p \<Longrightarrow> GetFreeBranchState p = Inr (take_branch p)"
  by (simp add: GetFreeBranchState_def take_branch_def)

lemma take_fields [simp]:
  "leaf_free (take_leaf p) = leaf_free p - 1"
  "branch_free (take_leaf p) = branch_free p"
  "leaf_free (take_branch p) = leaf_free p"
  "branch_free (take_branch p) = branch_free p - 1"
  by (simp_all add: take_leaf_def take_branch_def)

lemma split_pool_fields:
  "2 \<le> leaf_free p \<Longrightarrow> leaf_free (split_pool p) = leaf_free p - 1"
  "branch_free (split_pool p) = branch_free p - 1"
  by (simp_all add: split_pool_def FreeLeafState_def take_leaf_def take_branch_def)

lemma split_pool_alloc:
  assumes "2 \<le> leaf_free p" and "1 \<le> branch_free p"
  shows "GetFreeBranchState p = Inr (take_branch p)"
    and "GetFreeLeafState (take_branch p) = Inr (take_leaf (take_branch p))"
    and "GetFreeLeafState (take_leaf (take_branch p)) = Inr (take_leaf (take_leaf (take_branch p)))"
    and "FreeLeafState (take_leaf (take_leaf (take_branch p))) = split_pool p"
  using assms by (simp_all add: GetFreeLeafState_take GetFreeBranchState_take split_pool_def)

lemma split_pool_transfers:
  assumes "2 \<le> leaf_free p" and "1 \<le> branch_free p"
  shows "transfers p nl nb (split_pool p) (nl + 1) (nb + 1)"
  using assms
  by (cases "leaf_free p"; cases "branch_free p")
    (auto simp: transfers_def split_pool_def FreeLeafState_def take_leaf_def take_branch_def
      of_nat_diff)

lemma TagRange_leaf_exact:
  assumes "wf_node lo hi (Leaf hi s)"
  shows "TagRangeInternal (Leaf hi s) p lo hi st lo hi = Inr (Leaf hi (retag st s), p)"
  using wf_node_less [OF assms] assms
  by (auto simp: TagRangeInternal.simps alignedD Let_def retag_def)

lemma TagRange_leaf_same:
  assumes "wf_node lo hi (Leaf hi s)" and "lo \<le> low" and "low < high" and "high \<le> hi"
    and "retag st s = s"
  shows "TagRangeInternal (Leaf hi s) p low high st lo hi = Inr (Leaf hi s, p)"
proof -
  from assms have "lo < hi" "low \<le> hi" "aligned hi" by auto
  with assms show ?thesis
    by (auto simp: TagRangeInternal.simps alignedD less_imp_neq Let_def retag_def)
qed

lemma retag_retag [simp]: "retag (retag st s) s = retag st s"
  by (simp add: retag_def)

lemma wf_leafI: "lo < hi \<Longrightarrow> aligned hi \<Longrightarrow> s \<noteq> Branch \<Longrightarrow> wf_node lo hi (Leaf hi s)"
  by simp

lemma TagRange_leaf_left:
  assumes wf: "wf_node lo hi (Leaf hi s)" and "lo < high" and "high < hi" and "aligned high"
    and "st \<noteq> Branch" and ne: "retag st s \<noteq> s"
    and pool: "2 \<le> leaf_free p" "1 \<le> branch_free p"
  shows "TagRangeInternal (Leaf hi s) p lo high st lo hi =
    UpdateNode high (Leaf high (retag st s)) (Leaf hi s) (split_pool p) lo hi"
proof -
  have inner: "TagRangeInternal (Leaf high s) q lo high (retag st s) lo high
      = Inr (Leaf high (retag st s), q)" for q
    using TagRange_leaf_exact [of lo high s q "retag st s"] assms by simp
  have upd: "UpdateNode high (Leaf high (retag st s)) (Leaf hi s) q lo hi =
      Inr (BranchNode high (Leaf high (retag st s)) (Leaf hi s)
        (remaining_in lo high (Leaf high (retag st s)) + remaining_in high hi (Leaf hi s))
        (max (largest_in lo high (Leaf high (retag st s))) (largest_in high hi (Leaf hi s))), q)" for q
    using assms by (intro UpdateNode_branch) (auto simp: mergeable_def retag_def)
  from assms show ?thesis
    by (subst TagRangeInternal.simps)
      (simp add: alignedD less_imp_neq Let_def retag_def [symmetric] split_pool_alloc inner upd
        case_prod_unfold)
qed

text \<open>
  The right half of a split is tagged by whatever the call on the half returns, provided it
  does not give the half the state of the left one.
\<close>

lemma TagRange_leaf_right:
  assumes wf: "wf_node lo hi (Leaf hi s)" and "lo < low" and "low < high" and "high \<le> hi"
    and "aligned low" and ne: "retag st s \<noteq> s"
    and pool: "2 \<le> leaf_free p" "1 \<le> branch_free p"
    and inner: "TagRangeInternal (Leaf hi s) (split_pool p) low high (retag st s) low hi = Inr (r', q)"
    and r': "wf_node low hi r'" and nm: "\<not> mergeable (Leaf low s) r'"
  shows "TagRangeInternal (Leaf hi s) p low high st lo hi = UpdateNode low (Leaf low s) r' q lo hi"
proof -
  have facts: "lo < hi" "low < hi" "lo \<le> low" "low \<le> hi" "\<not> low < low" "low \<noteq> lo" "aligned hi"
    using assms by auto
  have upd: "UpdateNode low (Leaf low s) r' q lo hi =
      Inr (BranchNode low (Leaf low s) r'
        (remaining_in lo low (Leaf low s) + remaining_in low hi r')
        (max (largest_in lo low (Leaf low s)) (largest_in low hi r')), q)"
    using assms facts by (intro UpdateNode_branch) auto
  from assms facts nm show ?thesis
    by (subst TagRangeInternal.simps)
      (simp add: alignedD less_imp_neq Let_def retag_def [symmetric] split_pool_alloc inner upd
        mergeable_def)
qed

lemma tagged_leaf_left:
  "lo < high \<Longrightarrow> high < hi \<Longrightarrow> aligned high \<Longrightarrow>
   tagged lo hi {lo..<high} st (Leaf hi s) (BranchNode high (Leaf high (retag st s)) (Leaf hi s) rem lrg)"
  by (auto simp: tagged_def alignedD)

lemma not_mergeable_branch [simp]: "\<not> mergeable l (BranchNode m l' r' rem lrg)"
  by (simp add: mergeable_def)

lemma retag_not_Branch: "st \<noteq> Branch \<Longrightarrow> s \<noteq> Branch \<Longrightarrow> retag st s \<noteq> Branch"
  by (simp add: retag_def)

lemma tag_post_leaf_left:
  assumes wf: "wf_node lo hi (Leaf hi s)" and "lo < high" and "high < hi" and "aligned high"
    and "st \<noteq> Branch" and ne: "retag st s \<noteq> s"
    and pool: "2 \<le> leaf_free p" "1 \<le> branch_free p"
  shows "\<exists>t' p'. TagRangeInternal (Leaf hi s) p lo high st lo hi = Inr (t', p')
    \<and> tag_post lo hi {lo..<high} (cuts lo hi lo high) st (Leaf hi s) p t' p' \<and> (\<exists>m l r rem lrg. t' = BranchNode m l r rem lrg)"
proof -
  have nm: "\<not> mergeable (Leaf high (retag st s)) (Leaf hi s)"
    using ne by (simp add: mergeable_def)
  have wfs: "wf_node lo high (Leaf high (retag st s))" "wf_node high hi (Leaf hi s)"
    using assms retag_not_Branch by auto
  from UpdateNode_branch [OF wfs \<open>aligned high\<close> nm] TagRange_leaf_left [OF assms]
  show ?thesis
    using assms wfs nm split_pool_transfers [OF pool, of 1 0]
    by (simp add: tag_post_def tagged_leaf_left cuts_def)
qed

lemma tag_post_leaf_right:
  assumes wf: "wf_node lo hi (Leaf hi s)" and lows: "lo < low" "low < high" "high \<le> hi"
    and al: "aligned low" "aligned high" and "st \<noteq> Branch" and ne: "retag st s \<noteq> s"
    and pool: "cuts lo hi low high + 1 \<le> leaf_free p" "cuts lo hi low high \<le> branch_free p"
  shows "\<exists>t' p'. TagRangeInternal (Leaf hi s) p low high st lo hi = Inr (t', p')
    \<and> tag_post lo hi {low..<high} (cuts lo hi low high) st (Leaf hi s) p t' p'"
proof -
  let ?q = "split_pool p" and ?t = "Leaf hi s"
  have p: "2 \<le> leaf_free p" "1 \<le> branch_free p"
    using pool lows by (auto simp: cuts_def split: if_splits)
  have wfl: "wf_node lo low (Leaf low s)" and wfr: "wf_node low hi ?t"
    using assms by auto
  have nB: "retag st s \<noteq> Branch" using assms retag_not_Branch by simp
  have "\<exists>r' q. TagRangeInternal ?t ?q low high (retag st s) low hi = Inr (r', q)
      \<and> tag_post low hi {low..<high} (cuts low hi low high) (retag st s) ?t ?q r' q \<and> \<not> mergeable (Leaf low s) r'"
  proof (cases "high = hi")
    case True
    with TagRange_leaf_exact [OF wfr, of ?q "retag st s"] wfr nB ne show ?thesis
      by (auto simp: tag_post_def tagged_def mergeable_def)
  next
    case False
    with lows have "high < hi" by simp
    moreover have "2 \<le> leaf_free ?q" "1 \<le> branch_free ?q"
      using pool lows False p by (auto simp: cuts_def split_pool_fields split: if_splits)
    ultimately obtain r' q where "TagRangeInternal ?t ?q low high (retag st s) low hi = Inr (r', q)"
      and "tag_post low hi {low..<high} (cuts low hi low high) (retag st s) ?t ?q r' q"
      and "\<exists>m l r rem lrg. r' = BranchNode m l r rem lrg"
      using tag_post_leaf_left [OF wfr lows(2) _ al(2) nB _ , of ?q] ne by auto
    then show ?thesis by auto
  qed
  then obtain r' q where inner: "TagRangeInternal ?t ?q low high (retag st s) low hi = Inr (r', q)"
    and post: "tag_post low hi {low..<high} (cuts low hi low high) (retag st s) ?t ?q r' q"
    and nm: "\<not> mergeable (Leaf low s) r'" by blast
  from post have wfr': "wf_node low hi r'" by (simp add: tag_post_def)
  have eq: "TagRangeInternal ?t p low high st lo hi = UpdateNode low (Leaf low s) r' q lo hi"
    using TagRange_leaf_right [OF wf lows al(1) ne p inner wfr' nm] .
  have tr: "transfers p 1 0 q (1 + num_leaves r') (num_branches r' + 1)"
  proof (rule transfers_trans)
    show "transfers p 1 0 ?q (1 + 1) (0 + 1)"
      using split_pool_transfers [OF p, of 1 0] by simp
    show "transfers ?q (1 + 1) (0 + 1) q (1 + num_leaves r') (num_branches r' + 1)"
      using transfers_frame [of ?q 1 0 q "num_leaves r'" "num_branches r'" 1 1] post
      by (simp add: tag_post_def add.commute)
  qed
  have "cuts low hi low high + 1 \<le> cuts lo hi low high"
    using lows by (auto simp: cuts_def)
  then show ?thesis
    using eq UpdateNode_branch [OF wfl wfr' al(1) nm, of q] post tr wfl wfr' nm al lows
    by (auto simp: tag_post_def tagged_def alignedD)
qed

lemma tag_post_leaf:
  assumes wf: "wf_node lo hi (Leaf hi s)" and lows: "lo \<le> low" "low < high" "high \<le> hi"
    and al: "aligned low" "aligned high" and st: "st \<noteq> Branch"
    and pool: "cuts lo hi low high + 1 \<le> leaf_free p" "cuts lo hi low high \<le> branch_free p"
  shows "\<exists>t' p'. TagRangeInternal (Leaf hi s) p low high st lo hi = Inr (t', p')
    \<and> tag_post lo hi {low..<high} (cuts lo hi low high) st (Leaf hi s) p t' p'"
proof (cases "retag st s = s")
  case True
  with TagRange_leaf_same [OF wf lows True, of p] wf show ?thesis
    by (auto simp: tag_post_def tagged_def)
next
  case False
  show ?thesis
  proof (cases "low = lo")
    case True
    show ?thesis
    proof (cases "high = hi")
      case True
      with \<open>low = lo\<close> TagRange_leaf_exact [OF wf, of p st] wf retag_not_Branch [OF st, of s]
      show ?thesis by (auto simp: tag_post_def tagged_def)
    next
      case neq: False
      with lows pool \<open>low = lo\<close> have "high < hi" "2 \<le> leaf_free p" "1 \<le> branch_free p"
        by (auto simp: cuts_def)
      with tag_post_leaf_left [OF wf _ _ al(2) st False, of p] lows \<open>low = lo\<close>
      show ?thesis by blast
    qed
  next
    case neq: False
    with lows have "lo < low" by simp
    from tag_post_leaf_right [OF wf this lows(2,3) al st False pool] show ?thesis .
  qed
qed

text \<open>
  The whole tree.  One call needs a free leaf to merge with, and one leaf and one branch for
  each end of the range that is not already a boundary of the node.
\<close>

lemma tag_post_branch:
  assumes l: "tag_post lo m R1 c1 st l p l' p'" and r: "tag_post m hi R2 c2 st r p' r' q"
    and al: "aligned m" and pool: "1 \<le> leaf_free q"
    and split: "\<And>a. lo \<le> a \<Longrightarrow> a < hi \<Longrightarrow> a \<in> R \<longleftrightarrow> (if a < m then a \<in> R1 else a \<in> R2)"
    and c: "c1 + c2 \<le> c"
  shows "\<exists>t' p''. UpdateNode m l' r' q lo hi = Inr (t', p'')
    \<and> tag_post lo hi R c st (BranchNode m l r rem lrg) p t' p''"
proof -
  from l r have wf: "wf_node lo m l'" "wf_node m hi r'"
    by (auto simp: tag_post_def)
  from UpdateNode_correct [OF wf al pool] obtain t' p'' where
      upd: "UpdateNode m l' r' q lo hi = Inr (t', p'')" and wft: "wf_node lo hi t'"
    and st: "\<And>a. GetPageStateInternal t' a =
          (if a < m then GetPageStateInternal l' a else GetPageStateInternal r' a)"
    and tr: "transfers q (num_leaves l' + num_leaves r') (num_branches l' + num_branches r' + 1)
          p'' (num_leaves t') (num_branches t')"
    and nl: "num_leaves t' \<le> num_leaves l' + num_leaves r'"
    and nb: "num_branches t' \<le> num_branches l' + num_branches r' + 1"
    by blast
  have "transfers p (num_leaves l + num_leaves r) (num_branches l + num_branches r + 1)
      p'' (num_leaves t') (num_branches t')"
  proof (rule transfers_trans [OF _ transfers_trans [OF _ tr]])
    show "transfers p (num_leaves l + num_leaves r) (num_branches l + num_branches r + 1)
        p' (num_leaves l' + num_leaves r) (num_branches l' + num_branches r + 1)"
      using l by (simp add: tag_post_def transfers_def)
    show "transfers p' (num_leaves l' + num_leaves r) (num_branches l' + num_branches r + 1)
        q (num_leaves l' + num_leaves r') (num_branches l' + num_branches r' + 1)"
      using r by (simp add: tag_post_def transfers_def)
  qed
  moreover have "tagged lo hi R st (BranchNode m l r rem lrg) t'"
    using l r al split by (auto simp: tagged_def tag_post_def st alignedD not_less)
  ultimately show ?thesis
    using upd wft l r nl nb c by (auto simp: tag_post_def)
qed

lemma tag_post_unchanged:
  "wf_node lo hi t \<Longrightarrow> tag_post lo hi {} 0 st t p t p"
  by (simp add: tag_post_def tagged_def)

theorem TagRangeInternal_correct:
  assumes "wf_node lo hi t" and "lo \<le> low" "low < high" "high \<le> hi"
    and "aligned low" "aligned high" and "st \<noteq> Branch"
    and "cuts lo hi low high + 1 \<le> leaf_free p" "cuts lo hi low high \<le> branch_free p"
  shows "\<exists>t' p'. TagRangeInternal t p low high st lo hi = Inr (t', p')
    \<and> tag_post lo hi {low..<high} (cuts lo hi low high) st t p t' p'"
  using assms
proof (induction t arbitrary: p low high lo hi)
  case (Leaf a s)
  then have "a = hi" by simp
  with Leaf show ?case by (simp add: tag_post_leaf)
next
  case (BranchNode m l r rem lrg)
  then have wf: "aligned m" "wf_node lo m l" "wf_node m hi r" by auto
  then have mid: "lo < m" "m < hi" by (auto dest: wf_node_less)
  then have lohi: "lo < hi" "hi \<noteq> lo" by auto
  note lows = BranchNode.prems(2-4) and al = BranchNode.prems(5,6) and st = BranchNode.prems(7)
    and pool = BranchNode.prems(8,9)
  show ?case
  proof (cases "low < m \<and> high \<le> m")
    case True
    have c: "cuts lo m low high \<le> cuts lo hi low high"
      using True mid by (auto simp: cuts_def)
    from BranchNode.IH(1) [OF wf(2) lows(1,2) _ al st, of p] True c pool
    obtain l' p' where l': "TagRangeInternal l p low high st lo m = Inr (l', p')"
      and post: "tag_post lo m {low..<high} (cuts lo m low high) st l p l' p'" by auto
    have "\<exists>t' q. UpdateNode m l' r p' lo hi = Inr (t', q)
        \<and> tag_post lo hi {low..<high} (cuts lo hi low high) st (BranchNode m l r rem lrg) p t' q"
    proof (rule tag_post_branch [OF post tag_post_unchanged [OF wf(3)] wf(1)])
      show "1 \<le> leaf_free p'"
        using post c pool by (auto simp: tag_post_def transfers_def)
    qed (use True c mid in \<open>auto simp: cuts_def\<close>)
    with l' True lows mid lohi wf show ?thesis
      by (auto simp: TagRangeInternal.simps alignedD Let_def less_imp_le)
  next
    case notleft: False
    show ?thesis
    proof (cases "m \<le> low")
      case True
      have c: "cuts m hi low high \<le> cuts lo hi low high"
        using True mid by (auto simp: cuts_def)
      from BranchNode.IH(2) [OF wf(3) True lows(2,3) al st, of p] c pool
      obtain r' p' where r': "TagRangeInternal r p low high st m hi = Inr (r', p')"
        and post: "tag_post m hi {low..<high} (cuts m hi low high) st r p r' p'" by auto
      have "\<exists>t' q. UpdateNode m l r' p' lo hi = Inr (t', q)
          \<and> tag_post lo hi {low..<high} (cuts lo hi low high) st (BranchNode m l r rem lrg) p t' q"
      proof (rule tag_post_branch [OF tag_post_unchanged [OF wf(2)] post wf(1)])
        show "1 \<le> leaf_free p'"
          using post c pool by (auto simp: tag_post_def transfers_def)
      qed (use True c in auto)
      with r' True notleft lows mid lohi wf show ?thesis
        by (auto simp: TagRangeInternal.simps alignedD Let_def less_imp_le)
    next
      case False
      with notleft have in_mid: "low < m" "m < high" by auto
      have c: "cuts lo m low m + cuts m hi m high = cuts lo hi low high"
        using in_mid by (auto simp: cuts_def)
      from BranchNode.IH(1) [OF wf(2) lows(1) in_mid(1) order_refl al(1) wf(1) st, of p] c pool
      obtain l' p' where l': "TagRangeInternal l p low m st lo m = Inr (l', p')"
        and postl: "tag_post lo m {low..<m} (cuts lo m low m) st l p l' p'" by auto
      have pool': "cuts m hi m high + 1 \<le> leaf_free p'" "cuts m hi m high \<le> branch_free p'"
        using postl c pool by (auto simp: tag_post_def transfers_def)
      from BranchNode.IH(2) [OF wf(3) order_refl in_mid(2) lows(3) wf(1) al(2) st pool']
      obtain r' q where r': "TagRangeInternal r p' m high st m hi = Inr (r', q)"
        and postr: "tag_post m hi {m..<high} (cuts m hi m high) st r p' r' q" by auto
      have "\<exists>t' p''. UpdateNode m l' r' q lo hi = Inr (t', p'')
          \<and> tag_post lo hi {low..<high} (cuts lo hi low high) st (BranchNode m l r rem lrg) p t' p''"
      proof (rule tag_post_branch [OF postl postr wf(1)])
        show "1 \<le> leaf_free q"
          using postr pool' by (auto simp: tag_post_def transfers_def)
      qed (use in_mid c in auto)
      with l' r' False notleft lows mid lohi wf show ?thesis
        by (auto simp: TagRangeInternal.simps alignedD Let_def less_imp_le)
    qed
  qed
qed

section \<open>Searching for a free block\<close>

text \<open>
  The specification of the search: the free ranges of the tree from low to high addresses, and
  the first of them that fits and does not start at address 0 (0 is the code's answer for
  "none").
\<close>

fun free_blocks :: "u64 \<Rightarrow> u64 \<Rightarrow> node \<Rightarrow> (u64 \<times> u64) list" where
  "free_blocks lo hi (Leaf a s) = (if s = Free then [(lo, hi)] else [])"
| "free_blocks lo hi (BranchNode m l r rem lrg) = free_blocks lo m l @ free_blocks m hi r"

fun first_fit :: "u64 \<Rightarrow> (u64 \<times> u64) list \<Rightarrow> u64" where
  "first_fit sz [] = 0"
| "first_fit sz ((x, y) # bs) = (if x \<noteq> 0 \<and> sz \<le> y - x then x else first_fit sz bs)"

lemma first_fit_append:
  "first_fit sz (xs @ ys) = (if first_fit sz xs \<noteq> 0 then first_fit sz xs else first_fit sz ys)"
  by (induction sz xs rule: first_fit.induct) auto

lemma first_fit_none:
  "(\<And>x y. (x, y) \<in> set bs \<Longrightarrow> \<not> sz \<le> y - x) \<Longrightarrow> first_fit sz bs = 0"
  by (induction sz bs rule: first_fit.induct) auto

lemma first_fit_in:
  "first_fit sz bs \<noteq> 0 \<Longrightarrow> \<exists>y. (first_fit sz bs, y) \<in> set bs \<and> sz \<le> y - first_fit sz bs"
  by (induction sz bs rule: first_fit.induct) (auto split: if_splits)

lemma first_fit_zero:
  "first_fit sz bs = 0 \<Longrightarrow> (x, y) \<in> set bs \<Longrightarrow> x \<noteq> 0 \<Longrightarrow> \<not> sz \<le> y - x"
  by (induction sz bs rule: first_fit.induct) (auto split: if_splits)

lemma free_blocks_largest:
  "wf_node lo hi t \<Longrightarrow> (x, y) \<in> set (free_blocks lo hi t) \<Longrightarrow> y - x \<le> largest_in lo hi t"
proof (induction t arbitrary: lo hi)
  case (BranchNode m l r rem lrg)
  then show ?case by (auto simp: le_max_iff_disj)
qed (auto split: if_splits)

lemma first_fit_too_small:
  assumes "wf_node lo hi t" and "\<not> sz \<le> largest_in lo hi t"
  shows "first_fit sz (free_blocks lo hi t) = 0"
  using assms free_blocks_largest [OF assms(1)] by (intro first_fit_none) (meson order.trans)

lemma FindMinimumSizeFreeBlockInternal_first_fit:
  "wf_node lo hi t \<Longrightarrow>
   FindMinimumSizeFreeBlockInternal t sz lo hi = Inr (first_fit sz (free_blocks lo hi t))"
proof (induction t arbitrary: lo hi)
  case (Leaf a s)
  then show ?case
    by (auto simp: alignedD less_imp_neq)
next
  case (BranchNode m l r rem lrg)
  then have wf: "aligned m" "wf_node lo m l" "wf_node m hi r" by auto
  note ih = BranchNode.IH(1) [OF wf(2)] BranchNode.IH(2) [OF wf(3)]
  show ?case
    using wf first_fit_too_small [OF wf(2), of sz] first_fit_too_small [OF wf(3), of sz]
    by (auto simp: alignedD Let_def GetLargestFree_wf ih first_fit_append)
qed

lemma free_blocks_free:
  "wf_node lo hi t \<Longrightarrow> (x, y) \<in> set (free_blocks lo hi t) \<Longrightarrow>
   lo \<le> x \<and> x < y \<and> y \<le> hi \<and> (\<forall>a. x \<le> a \<and> a < y \<longrightarrow> GetPageStateInternal t a = Free)"
proof (induction t arbitrary: lo hi)
  case (BranchNode m l r rem lrg)
  then have wf: "aligned m" "wf_node lo m l" "wf_node m hi r" by auto
  then have "lo < m" "m < hi" by (auto dest: wf_node_less)
  with BranchNode.IH(1) [OF wf(2)] BranchNode.IH(2) [OF wf(3)] BranchNode.prems(2) wf(1)
  show ?case by (fastforce simp: alignedD)
qed (auto split: if_splits)

section \<open>The tracker of one address space\<close>

definition mem_ok :: "mem_state \<Rightarrow> bool" where
  "mem_ok ms \<longleftrightarrow>
     wf_node 0 (highest_address ms) (state_root ms)
     \<and> leaf_free (node_pool ms) + num_leaves (state_root ms) = 4097
     \<and> branch_free (node_pool ms) + num_branches (state_root ms) = 4095
     \<and> used_leaves (node_pool ms) + 1 = of_nat (num_leaves (state_root ms))
     \<and> used_branches (node_pool ms) = of_nat (num_branches (state_root ms)) + 1"

lemma leaves_branches: "num_leaves t = num_branches t + 1"
  by (induction t) auto

lemma counter_moves:
  fixes u u' a a' n n' :: "'a::comm_ring_1"
  assumes "a' + n' = a + n" and "u' + a' = u + a"
  shows "u' + n = u + n'"
proof -
  have "(u' + n) + a' = (u + n') + a'"
    using assms by (metis add.assoc add.commute)
  then show ?thesis by simp
qed

lemma transfers_used:
  assumes "transfers p nl nb p' nl' nb'"
  shows "used_leaves p' + of_nat nl = used_leaves p + of_nat nl'"
    and "used_branches p' + of_nat nb = used_branches p + of_nat nb'"
proof -
  from assms have "(of_nat (leaf_free p' + nl') :: u64) = of_nat (leaf_free p + nl)"
    and "(of_nat (branch_free p' + nb') :: u64) = of_nat (branch_free p + nb)"
    by (simp_all add: transfers_def del: of_nat_add)
  then have "(of_nat (leaf_free p') + of_nat nl' :: u64) = of_nat (leaf_free p) + of_nat nl"
    and "(of_nat (branch_free p') + of_nat nb' :: u64) = of_nat (branch_free p) + of_nat nb"
    by simp_all
  with assms show "used_leaves p' + of_nat nl = used_leaves p + of_nat nl'"
    and "used_branches p' + of_nat nb = used_branches p + of_nat nb'"
    by (auto simp: transfers_def intro: counter_moves)
qed

end
