(* ===== verification/PageTracker.thy ===== *)
theory PageTracker
  imports RangeTreeCorrect
begin

text \<open>
  The contract the allocators have with a tracker of pages (\<^verbatim>\<open>PhysicalMemoryState\<close> and
  \<^verbatim>\<open>VirtualMemoryState\<close>), stated as a locale, proved for the range tree, and the properties
  of \<^verbatim>\<open>MemoryState\<close> that follow.
\<close>

section \<open>The interface\<close>

locale page_tracker =
  fixes ok :: "'s \<Rightarrow> bool"
    and room :: "'s \<Rightarrow> nat \<Rightarrow> bool"
    and limit :: "'s \<Rightarrow> u64"
    and state_of :: "'s \<Rightarrow> u64 \<Rightarrow> range_state"
    and tag :: "u64 \<Rightarrow> u64 \<Rightarrow> range_state \<Rightarrow> 's \<Rightarrow> fault + 's"
    and search :: "'s \<Rightarrow> u64 \<Rightarrow> fault + u64"
  assumes tag_law: "ok s \<Longrightarrow> room s (Suc k) \<Longrightarrow> low < high \<Longrightarrow> high \<le> limit s \<Longrightarrow> aligned low
      \<Longrightarrow> aligned high \<Longrightarrow> st \<noteq> Branch \<Longrightarrow>
      \<exists>s'. tag low high st s = Inr s' \<and> ok s' \<and> room s' k \<and> limit s' = limit s
        \<and> (\<forall>a < limit s. state_of s' a =
              (if low \<le> a \<and> a < high then retag st (state_of s a) else state_of s a))"
    and search_law: "ok s \<Longrightarrow> \<exists>r. search s n = Inr r \<and> (r \<noteq> 0 \<longrightarrow>
        aligned r \<and> r \<le> r + n \<and> r + n \<le> limit s \<and> (\<forall>a. r \<le> a \<and> a < r + n \<longrightarrow> state_of s a = Free))"
begin

text \<open>Searching and tagging what was found cannot fail and marks free pages only.\<close>

lemma claim_found:
  assumes "ok s" and "room s (Suc k)" and "search s n = Inr r" and "r \<noteq> 0"
    and "n \<noteq> 0" and "aligned (r + n)" and st: "st \<noteq> Branch"
  shows "\<exists>s'. tag r (r + n) st s = Inr s' \<and> ok s' \<and> room s' k \<and> limit s' = limit s
    \<and> (\<forall>a < limit s. state_of s' a = (if r \<le> a \<and> a < r + n then st else state_of s a))"
proof -
  from search_law [OF \<open>ok s\<close>, of n] assms(3,4) have r: "aligned r" "r \<le> r + n" "r + n \<le> limit s"
    and free: "\<And>a. r \<le> a \<Longrightarrow> a < r + n \<Longrightarrow> state_of s a = Free" by auto
  from r(2) \<open>n \<noteq> 0\<close> have "r < r + n"
    by (simp add: order.strict_iff_order)
  from tag_law [OF \<open>ok s\<close> assms(2) this r(3,1) assms(6) st] free show ?thesis
    by (auto simp: retag_def)
qed

text \<open>Two claims in a row never overlap.\<close>

lemma claims_disjoint:
  assumes "ok s" and "room s (Suc k)" and "search s n = Inr r" and "r \<noteq> 0"
    and "n \<noteq> 0" and "aligned (r + n)" and "st \<noteq> Branch" and "st \<noteq> Free"
    and "tag r (r + n) st s = Inr s'" and "search s' n' = Inr r'" and "r' \<noteq> 0"
  shows "{r ..< r + n} \<inter> {r' ..< r' + n'} = {}"
proof -
  from claim_found [OF assms(1-7)] assms(9) have s': "ok s'" "limit s' = limit s"
    and taken: "\<And>a. a < limit s \<Longrightarrow> r \<le> a \<Longrightarrow> a < r + n \<Longrightarrow> state_of s' a = st" by auto
  from search_law [OF s'(1), of n'] assms(10,11) s'(2) have "r' + n' \<le> limit s"
    and free: "\<And>a. r' \<le> a \<Longrightarrow> a < r' + n' \<Longrightarrow> state_of s' a = Free" by auto
  then show ?thesis
    using taken \<open>st \<noteq> Free\<close> by fastforce
qed

end

section \<open>The range tree keeps the contract\<close>

definition tree_room :: "mem_state \<Rightarrow> nat \<Rightarrow> bool" where
  "tree_room ms k \<longleftrightarrow> num_leaves (state_root ms) + 2 * k \<le> 4096"

lemma mem_ok_pool:
  assumes "mem_ok ms"
  shows "leaf_free (node_pool ms) = 4097 - num_leaves (state_root ms)"
    and "branch_free (node_pool ms) = 4096 - num_leaves (state_root ms)"
  using assms leaves_branches [of "state_root ms"] by (auto simp: mem_ok_def)

lemma cuts_le_2: "cuts lo hi low high \<le> 2"
  by (simp add: cuts_def)

lemma TagRange_mem_ok:
  assumes ok: "mem_ok ms" and room: "tree_room ms (Suc k)" and r: "low < high" "high \<le> highest_address ms"
    and al: "aligned low" "aligned high" and st: "st \<noteq> Branch"
  shows "\<exists>ms'. TagRange low high st ms = Inr ms' \<and> mem_ok ms' \<and> tree_room ms' k
    \<and> highest_address ms' = highest_address ms
    \<and> (\<forall>a < highest_address ms. GetPageState ms' a =
          (if low \<le> a \<and> a < high then retag st (GetPageState ms a) else GetPageState ms a))"
proof -
  let ?h = "highest_address ms" and ?t = "state_root ms" and ?p = "node_pool ms"
  have wf: "wf_node 0 ?h ?t" using ok by (simp add: mem_ok_def)
  have pool: "cuts 0 ?h low high + 1 \<le> leaf_free ?p" "cuts 0 ?h low high \<le> branch_free ?p"
    using room cuts_le_2 [of 0 ?h low high] by (simp_all add: mem_ok_pool [OF ok] tree_room_def)
  from TagRangeInternal_correct [OF wf _ r al st pool] obtain t p where
      t: "TagRangeInternal ?t ?p low high st 0 ?h = Inr (t, p)"
    and post: "tag_post 0 ?h {low..<high} (cuts 0 ?h low high) st ?t ?p t p" by auto
  have tr: "transfers ?p (num_leaves ?t) (num_branches ?t) p (num_leaves t) (num_branches t)"
    using post by (simp add: tag_post_def)
  have "used_leaves p + of_nat (num_leaves ?t) = used_leaves ?p + of_nat (num_leaves t)"
    and "used_branches p + of_nat (num_branches ?t) = used_branches ?p + of_nat (num_branches t)"
    using transfers_used [OF tr] by auto
  with ok have "used_leaves p + (used_leaves ?p + 1) = used_leaves ?p + of_nat (num_leaves t)"
    and "used_branches p + of_nat (num_branches ?t)
      = (of_nat (num_branches ?t) + 1) + of_nat (num_branches t)"
    by (simp_all add: mem_ok_def)
  then have used: "used_leaves p + 1 = of_nat (num_leaves t)"
    "used_branches p = of_nat (num_branches t) + 1"
    by (simp_all add: add.assoc [symmetric] add.commute [of "used_leaves p"])
  have "mem_ok (ms\<lparr>state_root := t, node_pool := p\<rparr>)"
    using ok post tr used by (auto simp: mem_ok_def tag_post_def transfers_def)
  moreover have "tree_room (ms\<lparr>state_root := t, node_pool := p\<rparr>) k"
    using post room cuts_le_2 [of 0 ?h low high] by (simp add: tree_room_def tag_post_def)
  ultimately show ?thesis
    using t post by (auto simp: TagRange_def GetPageState_def tag_post_def tagged_def)
qed

lemma free_blocks_aligned:
  "wf_node lo hi t \<Longrightarrow> aligned lo \<Longrightarrow> (x, y) \<in> set (free_blocks lo hi t) \<Longrightarrow> aligned x"
  by (induction t arbitrary: lo hi) (auto split: if_splits)

lemma fits_no_wrap:
  fixes x y n :: u64
  assumes "x < y" and "n \<le> y - x"
  shows "x \<le> x + n \<and> x + n \<le> y"
proof -
  have "unat n \<le> unat y - unat x"
    using assms unat_sub_le [of x y] by (simp add: word_le_nat_alt word_less_nat_alt)
  moreover have "unat x < unat y" using assms by (simp add: word_less_nat_alt)
  moreover have "unat y < 2 ^ 64" using unat_less_pow2 [of y] by simp
  ultimately have "unat (x + n) = unat x + unat n" "unat x + unat n \<le> unat y"
    by (auto intro: unat_add_no_wrap)
  then show ?thesis by (simp add: word_le_nat_alt)
qed

lemma FindMinimumSizeFreeBlock_mem_ok:
  assumes "mem_ok ms"
  shows "\<exists>r. FindMinimumSizeFreeBlock ms n = Inr r \<and> (r \<noteq> 0 \<longrightarrow>
      aligned r \<and> r \<le> r + n \<and> r + n \<le> highest_address ms
      \<and> (\<forall>a. r \<le> a \<and> a < r + n \<longrightarrow> GetPageState ms a = Free))"
proof -
  let ?h = "highest_address ms" and ?t = "state_root ms"
  let ?r = "first_fit n (free_blocks 0 ?h ?t)"
  have wf: "wf_node 0 ?h ?t" using assms by (simp add: mem_ok_def)
  have "?r \<noteq> 0 \<longrightarrow> aligned ?r \<and> ?r \<le> ?r + n \<and> ?r + n \<le> ?h
      \<and> (\<forall>a. ?r \<le> a \<and> a < ?r + n \<longrightarrow> GetPageState ms a = Free)"
  proof
    assume "?r \<noteq> 0"
    then obtain y where y: "(?r, y) \<in> set (free_blocks 0 ?h ?t)" "n \<le> y - ?r"
      using first_fit_in by blast
    with free_blocks_free [OF wf y(1)] free_blocks_aligned [OF wf _ y(1)] fits_no_wrap [of ?r y n]
    show "aligned ?r \<and> ?r \<le> ?r + n \<and> ?r + n \<le> ?h
      \<and> (\<forall>a. ?r \<le> a \<and> a < ?r + n \<longrightarrow> GetPageState ms a = Free)"
      by (force simp: GetPageState_def)
  qed
  then show ?thesis
    using FindMinimumSizeFreeBlockInternal_first_fit [OF wf, of n]
    by (simp add: FindMinimumSizeFreeBlock_def)
qed

interpretation tracker: page_tracker mem_ok tree_room highest_address GetPageState TagRange
    FindMinimumSizeFreeBlock
  by unfold_locales (use TagRange_mem_ok FindMinimumSizeFreeBlock_mem_ok in \<open>blast+\<close>)

section \<open>Properties of MemoryState\<close>

lemma Init_mem_ok:
  assumes "aligned h" and "0 < h"
  shows "\<exists>ms. Init sys h = Inr ms \<and> mem_ok ms \<and> highest_address ms = h
    \<and> num_leaves (state_root ms) = 1 \<and> (\<forall>a. GetPageState ms a = Free)"
  using assms
  by (auto simp: Init_def Let_def GetFreeBranchState_def mem_ok_def GetPageState_def alignedD)

text \<open>
  The tracker of a 1 MiB address space, as the witnesses use it.
\<close>

definition demo_tracker :: mem_state where
  "demo_tracker = (case Init 0 0x100000 of Inr ms \<Rightarrow> ms | Inl _ \<Rightarrow> undefined)"

lemma demo_init: "Init 0 0x100000 = Inr demo_tracker"
  by (simp add: demo_tracker_def Init_def Let_def GetFreeBranchState_def)

lemma demo_tracker_ok:
  "mem_ok demo_tracker" "highest_address demo_tracker = 0x100000"
  "num_leaves (state_root demo_tracker) = 1" "GetPageState demo_tracker a = Free"
  "state_root demo_tracker = Leaf 0x100000 Free"
  using Init_mem_ok [of "0x100000" 0] demo_init
  by (auto simp: aligned_def PAGE_MASK_def demo_tracker_def Init_def Let_def GetFreeBranchState_def)

text \<open>
  C1: tagging a non-empty, page aligned range inside the tracked space never stops the
  machine while at most 4094 ranges are tracked; it keeps the tree, the cached sizes and the
  node accounting consistent, and afterwards exactly the pages of the range have the new
  state, except that reserved pages stay reserved.
\<close>

theorem TagRange_correct:
  assumes "mem_ok ms" and "num_leaves (state_root ms) \<le> 4094"
    and "low < high" and "high \<le> highest_address ms" and "aligned low" and "aligned high"
    and "st \<noteq> Branch"
  shows "\<exists>ms'. TagRange low high st ms = Inr ms' \<and> mem_ok ms'
    \<and> highest_address ms' = highest_address ms
    \<and> (\<forall>a < highest_address ms. GetPageState ms' a =
          (if low \<le> a \<and> a < high \<and> GetPageState ms a \<noteq> Reserved then st
           else GetPageState ms a))"
proof -
  have "tree_room ms (Suc 0)" using assms(2) by (simp add: tree_room_def)
  from tracker.tag_law [OF assms(1) this assms(3-7)] show ?thesis
    by (auto simp: retag_def)
qed

theorem TagRange_correct_witness:
  "\<exists>ms'. TagRange 0x1000 0x3000 Used demo_tracker = Inr ms' \<and> mem_ok ms'
    \<and> GetPageState ms' 0x2000 = Used \<and> GetPageState ms' 0x3000 = Free"
proof -
  have "aligned 0x1000" "aligned 0x3000" by (simp_all add: aligned_def PAGE_MASK_def)
  with TagRange_correct [of demo_tracker "0x1000" "0x3000" Used] show ?thesis
    by (auto simp: demo_tracker_ok)
qed

text \<open>
  C2: the search for a free block, which prunes by the cached largest sizes, gives on every
  consistent tree the same answer as a first-fit search over the list of all free ranges in
  ascending order; 0 means that no range with a non-zero start fits.
\<close>

theorem FindMinimumSizeFreeBlock_first_fit:
  assumes "mem_ok ms"
  shows "FindMinimumSizeFreeBlock ms n =
    Inr (first_fit n (free_blocks 0 (highest_address ms) (state_root ms)))"
  using assms FindMinimumSizeFreeBlockInternal_first_fit
  by (simp add: FindMinimumSizeFreeBlock_def mem_ok_def)

theorem FindMinimumSizeFreeBlock_first_fit_witness:
  "FindMinimumSizeFreeBlock demo_tracker 0x1000 = Inr 0"
  using FindMinimumSizeFreeBlock_first_fit [OF demo_tracker_ok(1), of "0x1000"]
  by (simp add: demo_tracker_ok)

text \<open>
  A block that is found, if any, lies inside the tracked space without wrapping around,
  starts on a page boundary and consists of free pages only.
\<close>

theorem FindMinimumSizeFreeBlock_sound:
  assumes "mem_ok ms" and "FindMinimumSizeFreeBlock ms n = Inr r" and "r \<noteq> 0"
  shows "aligned r \<and> r \<le> r + n \<and> r + n \<le> highest_address ms
    \<and> (\<forall>a. r \<le> a \<and> a < r + n \<longrightarrow> GetPageState ms a = Free)"
  using tracker.search_law [OF assms(1), of n] assms(2,3) by auto

lemmas tracker_eval = TagRange_def TagRangeInternal.simps UpdateNode_def Let_def PAGE_MASK_def
  GetFreeBranchState_def GetFreeLeafState_def FreeLeafState_def FreeStateBranch_def
  demo_tracker_def Init_def

text \<open>The demonstration space with its first page in use.\<close>

definition demo_used :: mem_state where
  "demo_used = demo_tracker\<lparr>
     state_root := BranchNode 0x1000 (Leaf 0x1000 Used) (Leaf 0x100000 Free) 0xFF000 0xFF000,
     node_pool := \<lparr>leaf_free = 4095, branch_free = 4094, leaf_next = False, branch_next = False,
       used_leaves = 1, used_branches = 2\<rparr>\<rparr>"

lemma demo_used_tag: "TagRange 0 0x1000 Used demo_tracker = Inr demo_used"
  by (simp add: tracker_eval demo_used_def)

lemma demo_used_ok: "mem_ok demo_used" "num_leaves (state_root demo_used) = 2"
  by (simp_all add: demo_used_def mem_ok_def aligned_def PAGE_MASK_def mergeable_def
      demo_tracker_ok)

lemma demo_used_find: "FindMinimumSizeFreeBlock demo_used 0x2000 = Inr 0x1000"
  by (simp add: FindMinimumSizeFreeBlock_def demo_used_def demo_tracker_ok PAGE_MASK_def)

theorem FindMinimumSizeFreeBlock_sound_witness:
  "aligned 0x1000 \<and> GetPageState demo_used 0x2FFF = Free"
  using FindMinimumSizeFreeBlock_sound [OF demo_used_ok(1) demo_used_find] by simp

text \<open>
  C3: claiming what the search found and searching again never hands out overlapping blocks.
\<close>

theorem claims_never_overlap:
  assumes "mem_ok ms" and "num_leaves (state_root ms) \<le> 4094"
    and "FindMinimumSizeFreeBlock ms n = Inr r" and "r \<noteq> 0" and "n \<noteq> 0" and "aligned (r + n)"
    and "TagRange r (r + n) Used ms = Inr ms'"
    and "FindMinimumSizeFreeBlock ms' n' = Inr r'" and "r' \<noteq> 0"
  shows "{r ..< r + n} \<inter> {r' ..< r' + n'} = {}"
proof -
  have "tree_room ms (Suc 0)" using assms(2) by (simp add: tree_room_def)
  then show ?thesis
    by (rule tracker.claims_disjoint [OF assms(1) _ assms(3-6) _ _ assms(7-9)]) simp_all
qed

theorem claims_never_overlap_witness:
  "\<exists>ms' r'. TagRange 0x1000 0x3000 Used demo_used = Inr ms'
    \<and> FindMinimumSizeFreeBlock ms' 0x1000 = Inr r' \<and> r' \<noteq> 0
    \<and> {0x1000 ..< 0x3000} \<inter> {r' ..< r' + 0x1000} = ({} :: u64 set)"
proof -
  obtain ms' where tag: "TagRange 0x1000 0x3000 Used demo_used = Inr ms'"
    and find: "FindMinimumSizeFreeBlock ms' 0x1000 = Inr 0x3000"
    by (simp add: tracker_eval demo_used_def FindMinimumSizeFreeBlock_def)
  have "aligned (0x1000 + 0x2000)" by (simp add: aligned_def PAGE_MASK_def)
  with tag find claims_never_overlap [OF demo_used_ok(1) _ demo_used_find, of ms' "0x1000" "0x3000"]
  show ?thesis by (simp add: demo_used_ok)
qed

text \<open>
  A fresh tracker of a non-empty, page aligned space is consistent and every page is
  free.
\<close>

theorem Init_correct:
  assumes "aligned h" and "0 < h"
  shows "\<exists>ms. Init sys h = Inr ms \<and> mem_ok ms \<and> highest_address ms = h
    \<and> (\<forall>a. GetPageState ms a = Free)"
  using Init_mem_ok [OF assms] by blast

theorem Init_correct_witness: "\<exists>ms. Init 1 0x1000 = Inr ms \<and> mem_ok ms \<and> GetPageState ms 5 = Free"
  using Init_correct [of "0x1000" 1] by (auto simp: aligned_def PAGE_MASK_def)

text \<open>
  When the list of branch nodes is empty, tagging part of a leaf with a new state faults:
  on the spare page, whose nodes nothing links, the allocator reads uninitialised memory, and
  without a spare page it follows a null pointer.
\<close>

theorem TagRangeInternal_pool_exhausted:
  assumes "wf_node lo hi (Leaf hi s)" and "lo \<le> low" and "low < high" and "high \<le> hi"
    and "\<not> (low = lo \<and> high = hi)" and "s \<noteq> Reserved" and "st \<noteq> s" and "branch_free p = 0"
  shows "TagRangeInternal (Leaf hi s) p low high st lo hi =
    Inl (if branch_next p then Uninitialised else NullPointer)"
proof -
  have "low \<le> hi" "hi \<noteq> lo" using assms by auto
  with assms show ?thesis
    by (auto simp: TagRangeInternal.simps alignedD Let_def GetFreeBranchState_def)
qed

theorem TagRangeInternal_pool_exhausted_witness:
  "TagRangeInternal (Leaf 0x3000 Free)
     \<lparr>leaf_free = 2, branch_free = 0, leaf_next = True, branch_next = True,
      used_leaves = 7, used_branches = 7\<rparr> 0 0x1000 Used 0 0x3000 = Inl Uninitialised"
  by (subst TagRangeInternal_pool_exhausted) (simp_all add: aligned_def PAGE_MASK_def)

text \<open>
  An empty range is not ignored: tagging the empty range at a page inside a leaf of
  another state trips an assertion, so that a request for zero bytes stops the machine.
\<close>

theorem TagRangeInternal_empty_range:
  assumes "wf_node lo hi (Leaf hi s)" and "lo < low" and "low < hi" and "aligned low"
    and "s \<noteq> Reserved" and "st \<noteq> s" and "2 \<le> leaf_free p" and "1 \<le> branch_free p"
  shows "TagRangeInternal (Leaf hi s) p low low st lo hi =
    Inl (AssertionFailed ''Incorrect branch state'')"
  using assms by (auto simp: TagRangeInternal.simps alignedD Let_def split_pool_alloc)

theorem TagRangeInternal_empty_range_witness:
  "TagRangeInternal (Leaf 0x3000 Free) (node_pool demo_used) 0x1000 0x1000 Used 0 0x3000 =
    Inl (AssertionFailed ''Incorrect branch state'')"
  by (rule TagRangeInternal_empty_range) (simp_all add: aligned_def PAGE_MASK_def demo_used_def)

definition tag_all :: "(u64 \<times> u64 \<times> range_state) list \<Rightarrow> mem_state \<Rightarrow> fault + mem_state" where
  "tag_all ops ms = foldl (\<lambda>m (low, high, st). ok_bind m (TagRange low high st)) (Inr ms) ops"

text \<open>
  Free ranges that touch are merged only if they are siblings in the tree.  After
  tagging the pages of a four page space used, used and free again in the order below, the
  middle two pages are free, and yet the search for two free pages finds nothing.
\<close>

theorem FindMinimumSizeFreeBlock_fragmentation:
  "\<exists>ms0 ms. Init 0 0x4000 = Inr ms0
    \<and> tag_all [(0x2000, 0x4000, Used), (0, 0x1000, Used), (0x2000, 0x3000, Free)] ms0 = Inr ms
    \<and> GetPageState ms 0x1000 = Free \<and> GetPageState ms 0x2000 = Free
    \<and> FindMinimumSizeFreeBlock ms 0x2000 = Inr 0"
  by (simp add: tracker_eval tag_all_def GetPageState_def FindMinimumSizeFreeBlock_def)

end
