(* ===== verification/PagingCorrect.thy ===== *)
theory PagingCorrect
  imports VirtualMem PageTracker
begin

text \<open>
  The page tables are correct: the tables reachable from the root form a tree whose pages are
  shared by no two paths and do not occur on the free list, extending the tree changes no
  translation, and mapping changes the entries of exactly the pages asked for.
\<close>

section \<open>Entries\<close>

definition table_flags :: u64 where
  "table_flags = 7"

lemma or_and_masked:
  fixes q :: u64
  assumes "q AND PAGE_MASK = q"
  shows "(q OR c) AND m = (q AND (PAGE_MASK AND m)) OR (c AND m)"
proof -
  have "(q OR c) AND m = (q AND m) OR (c AND m)" by (rule bit.conj_disj_distrib2)
  also have "q AND m = q AND (PAGE_MASK AND m)" by (simp only: assms and.assoc [symmetric])
  finally show ?thesis .
qed

lemma flag_word: "q OR PRESENT OR WRITABLE OR USER_CPL = q OR table_flags"
  by (simp add: PRESENT_def WRITABLE_def USER_CPL_def table_flags_def or.assoc)

lemma masked_flags:
  assumes "q AND PAGE_MASK = q"
  shows "(q OR table_flags) AND PRESENT = 1" "(q OR table_flags) AND PML4AddressMask = q"
    "(q OR table_flags) AND PM_RESERVED_MASK = 0" "(q OR table_flags) AND PML4_RESERVED_MASK = 0"
    "(q OR table_flags) AND PAGE_2MB = 0"
  using assms
  by (simp_all add: or_and_masked table_flags_def PRESENT_def PML4AddressMask_def
      PM_RESERVED_MASK_def PML4_RESERVED_MASK_def PAGE_2MB_def)
    (simp_all add: PAGE_MASK_def)

lemma page_entry_form:
  "\<exists>c \<in> {1, 3, 5, 7, 9, 11, 13, 15, 17, 19, 21, 23}.
     page_entry old pa writable executable level flags = (pa AND PAGE_MASK) OR c"
  by (cases flags)
    (auto simp: page_entry_def Let_def ENABLE_NX_def PRESENT_def WRITABLE_def USER_CPL_def
      CACHE_DISABLE_def WRITE_THROUGH_def or.assoc)

lemma page_entry_bits:
  assumes "pa AND PAGE_MASK = pa"
  shows "page_entry old pa w x l f AND PRESENT = 1"
    "page_entry old pa w x l f AND PML4AddressMask = pa"
    "page_entry old pa w x l f AND PM_RESERVED_MASK = 0"
proof -
  obtain c where "c \<in> {1, 3, 5, 7, 9, 11, 13, 15, 17, 19, 21, 23}"
    and e: "page_entry old pa w x l f = pa OR c"
    using page_entry_form [of old pa w x l f] assms by auto
  then show "page_entry old pa w x l f AND PRESENT = 1"
    "page_entry old pa w x l f AND PML4AddressMask = pa"
    "page_entry old pa w x l f AND PM_RESERVED_MASK = 0"
    unfolding e or_and_masked [OF assms] PRESENT_def PML4AddressMask_def PM_RESERVED_MASK_def PAGE_MASK_def
    using assms by (auto simp: PAGE_MASK_def)
qed

lemma and_exp_cases: "a AND 2 ^ n = 0 \<or> a AND 2 ^ n = (2 ^ n :: 'a::len word)"
proof (cases "bit a n")
  case True
  then have "a AND 2 ^ n = 2 ^ n" by (intro bit_word_eqI) (auto simp: bit_and_iff bit_exp_iff)
  then show ?thesis ..
qed (simp add: and_exp_eq_0_iff_not_bit)

lemma and_bit_2: "(a :: u64) AND 4 = 4 \<longleftrightarrow> a AND 4 \<noteq> 0"
  using and_exp_cases [of a 2] by auto

lemma page_entry_flags:
  assumes "pa AND PAGE_MASK = pa"
  shows "page_entry old pa w x l f AND WRITABLE \<noteq> 0 \<longleftrightarrow> w"
    "page_entry old pa w x l f AND USER_CPL \<noteq> 0
      \<longleftrightarrow> l = User \<or> l = Keep \<and> old AND PRESENT \<noteq> 0 \<and> old AND USER_CPL \<noteq> 0"
proof -
  have u: "old AND 4 = 4 \<longleftrightarrow> old AND 4 \<noteq> 0" by (rule and_bit_2)
  show "page_entry old pa w x l f AND WRITABLE \<noteq> 0 \<longleftrightarrow> w"
    unfolding page_entry_def Let_def ENABLE_NX_def assms PRESENT_def WRITABLE_def USER_CPL_def
      CACHE_DISABLE_def WRITE_THROUGH_def
    using or_and_masked [OF assms] by (cases f) (auto simp: or.assoc PAGE_MASK_def)
  show "page_entry old pa w x l f AND USER_CPL \<noteq> 0
      \<longleftrightarrow> l = User \<or> l = Keep \<and> old AND PRESENT \<noteq> 0 \<and> old AND USER_CPL \<noteq> 0"
    unfolding page_entry_def Let_def ENABLE_NX_def assms PRESENT_def WRITABLE_def USER_CPL_def
      CACHE_DISABLE_def WRITE_THROUGH_def
    using or_and_masked [OF assms] u by (cases f) (auto simp: or.assoc PAGE_MASK_def)
qed

section \<open>The tree of tables\<close>

text \<open>
  A path lists table indices, the last one first.  \<^verbatim>\<open>table_at\<close> is the table that a path leads
  to, and \<^verbatim>\<open>pte\<close> the page table entry of an address, 0 when one of the tables is missing.
\<close>

definition follow :: "table_heap \<Rightarrow> u64 \<Rightarrow> nat \<Rightarrow> u64 option" where
  "follow h p i =
     (case h p of
        None \<Rightarrow> None
      | Some es \<Rightarrow> if i < length es \<and> es ! i AND PRESENT \<noteq> 0
                   then Some (es ! i AND PML4AddressMask) else None)"

fun table_at :: "table_heap \<Rightarrow> u64 \<Rightarrow> nat list \<Rightarrow> u64 option" where
  "table_at h root [] = Some root"
| "table_at h root (i # ps) =
     (case table_at h root ps of None \<Rightarrow> None | Some p \<Rightarrow> follow h p i)"

definition directories :: "u64 \<Rightarrow> nat list" where
  "directories va = [pd_index va, pdpt_index va, pml4_index va]"

definition pte :: "table_heap \<Rightarrow> u64 \<Rightarrow> u64 \<Rightarrow> u64" where
  "pte h root va =
     (case table_at h root (directories va) of
        None \<Rightarrow> 0
      | Some pt \<Rightarrow> the (h pt) ! pt_index va)"

definition is_table :: "table_heap \<Rightarrow> u64 \<Rightarrow> bool" where
  "is_table h p \<longleftrightarrow> (\<exists>es. h p = Some es \<and> length es = 512)"

definition tables_ok :: "table_heap \<Rightarrow> u64 \<Rightarrow> bool" where
  "tables_ok h root \<longleftrightarrow>
     (\<forall>ps p. length ps \<le> 3 \<longrightarrow> table_at h root ps = Some p \<longrightarrow> is_table h p) \<and>
     (\<forall>ps qs p. length ps \<le> 3 \<longrightarrow> length qs \<le> 3 \<longrightarrow> table_at h root ps = Some p
        \<longrightarrow> table_at h root qs = Some p \<longrightarrow> ps = qs) \<and>
     (\<forall>ps p i. length ps = 2 \<longrightarrow> table_at h root ps = Some p \<longrightarrow> i < 512
        \<longrightarrow> the (h p) ! i AND PRESENT \<noteq> 0 \<longrightarrow> the (h p) ! i AND PAGE_2MB = 0)"

fun free_chain :: "table_heap \<Rightarrow> u64 \<Rightarrow> u64 list \<Rightarrow> bool" where
  "free_chain h head [] \<longleftrightarrow> head = 0"
| "free_chain h head (p # ps) \<longleftrightarrow>
     head = p \<and> p \<noteq> 0 \<and> p AND PAGE_MASK = p \<and> is_table h p \<and> free_chain h (the (h p) ! 0) ps"

definition paging_ok :: "paging \<Rightarrow> u64 list \<Rightarrow> bool" where
  "paging_ok s fs \<longleftrightarrow>
     tables_ok (Heap s) (PML4 s) \<and> free_chain (Heap s) (PagingFreePageHead s) fs \<and> distinct fs \<and>
     (\<forall>ps. length ps \<le> 3 \<longrightarrow> (\<forall>p \<in> set fs. table_at (Heap s) (PML4 s) ps \<noteq> Some p))"

lemma tables_okD:
  assumes "tables_ok h root"
  shows "length ps \<le> 3 \<Longrightarrow> table_at h root ps = Some p \<Longrightarrow> is_table h p"
    and "length ps \<le> 3 \<Longrightarrow> length qs \<le> 3 \<Longrightarrow> table_at h root ps = Some p
      \<Longrightarrow> table_at h root qs = Some p \<Longrightarrow> ps = qs"
    and "length ps = 2 \<Longrightarrow> table_at h root ps = Some p \<Longrightarrow> i < 512
      \<Longrightarrow> the (h p) ! i AND PRESENT \<noteq> 0 \<Longrightarrow> the (h p) ! i AND PAGE_2MB = 0"
  using assms unfolding tables_ok_def by blast+

lemma is_tableE:
  assumes "is_table h p"
  obtains es where "h p = Some es" and "length es = 512"
  using assms by (auto simp: is_table_def)

lemma is_table_read: "is_table h p \<Longrightarrow> i < 512 \<Longrightarrow> read_entry h p i = Inr (the (h p) ! i)"
  by (auto simp: is_table_def read_entry_def)

lemma is_table_follow:
  "is_table h p \<Longrightarrow> i < 512 \<Longrightarrow>
   follow h p i = (if the (h p) ! i AND PRESENT \<noteq> 0 then Some (the (h p) ! i AND PML4AddressMask) else None)"
  by (auto simp: is_table_def follow_def)

lemma is_table_write:
  "is_table (Heap s) p \<Longrightarrow> i < 512 \<Longrightarrow>
   write_entry s p i v = Inr (s\<lparr>Heap := (Heap s)(p \<mapsto> (the (Heap s p))[i := v])\<rparr>)"
  by (auto simp: is_table_def write_entry_def)

lemma index_less [simp]:
  "pml4_index va < 512" "pdpt_index va < 512" "pd_index va < 512" "pt_index va < 512"
proof -
  have "unat (x AND 0x1FF) < 512" for x :: u64
  proof -
    have "x AND 0x1FF \<le> 0x1FF" by (rule word_and_le1)
    then show ?thesis by (simp add: word_le_nat_alt)
  qed
  then show "pml4_index va < 512" "pdpt_index va < 512" "pd_index va < 512" "pt_index va < 512"
    by (simp_all add: pml4_index_def pdpt_index_def pd_index_def pt_index_def)
qed

lemma empty_table_facts [simp]:
  "length empty_table = 512" "i < 512 \<Longrightarrow> empty_table ! i = 0"
  by (simp_all add: empty_table_def)

lemma follow_empty: "h p = Some empty_table \<Longrightarrow> follow h p i = None"
  by (simp add: follow_def)

text \<open>The tables on the paths of length at most 3 depend on the pages at the paths of length 2.\<close>

lemma table_at_cong:
  assumes "\<And>rs p. length rs < length ps \<Longrightarrow> table_at h root rs = Some p \<Longrightarrow> h' p = h p"
  shows "table_at h' root ps = table_at h root ps"
  using assms
proof (induction ps)
  case (Cons i ps)
  have "table_at h' root ps = table_at h root ps"
    by (rule Cons.IH) (erule Cons.prems [rotated], simp)
  moreover have "follow h' p i = follow h p i" if "table_at h root ps = Some p" for p
    using Cons.prems [of ps p] that by (simp add: follow_def)
  ultimately show ?case by (auto split: option.splits)
qed simp

text \<open>Looking up an address comes down to its page table entry.\<close>

lemma GetPhysicalAddress_pte:
  assumes ok: "tables_ok (Heap s) (PML4 s)"
  shows "GetPhysicalAddress va False s =
    Inr (if pte (Heap s) (PML4 s) va AND PRESENT = 0 then INVALID_ADDRESS
         else (pte (Heap s) (PML4 s) va AND PML4AddressMask) + (va AND (PAGE_SIZE - 1)))"
proof -
  let ?h = "Heap s" and ?r = "PML4 s"
  have t0: "is_table ?h ?r" using tables_okD(1) [OF ok, of "[]"] by simp
  show ?thesis
  proof (cases "follow ?h ?r (pml4_index va)")
    case None
    then show ?thesis
      using t0 by (auto simp: GetPhysicalAddress_def is_table_read is_table_follow pte_def
          directories_def split: if_splits)
  next
    case (Some p1)
    then have "table_at ?h ?r [pml4_index va] = Some p1" by simp
    then have t1: "is_table ?h p1" using tables_okD(1) [OF ok, of "[pml4_index va]"] by simp
    show ?thesis
    proof (cases "follow ?h p1 (pdpt_index va)")
      case None
      then show ?thesis
        using t0 t1 Some by (auto simp: GetPhysicalAddress_def is_table_read is_table_follow pte_def
            directories_def split: if_splits)
    next
      case (Some p2)
      then have p2: "table_at ?h ?r [pdpt_index va, pml4_index va] = Some p2"
        using \<open>table_at ?h ?r [pml4_index va] = Some p1\<close> by simp
      then have t2: "is_table ?h p2"
        using tables_okD(1) [OF ok, of "[pdpt_index va, pml4_index va]"] by simp
      have small: "the (?h p2) ! pd_index va AND PAGE_2MB = 0" if "the (?h p2) ! pd_index va AND PRESENT \<noteq> 0"
        using tables_okD(3) [OF ok _ p2 _ that] by simp
      have lookup: "GetPhysicalAddress va False s =
        (case follow ?h p2 (pd_index va) of None \<Rightarrow> Inr INVALID_ADDRESS
         | Some p3 \<Rightarrow> ok_bind (read_entry ?h p3 (pt_index va)) (\<lambda>e.
             if e AND PRESENT = 0 then Inr INVALID_ADDRESS
             else Inr ((e AND PML4AddressMask) + (va AND (PAGE_SIZE - 1)))))"
        using t0 t1 t2 Some \<open>follow ?h ?r (pml4_index va) = Some p1\<close> small
        by (auto simp: GetPhysicalAddress_def is_table_read is_table_follow split: if_splits)
      have tab: "table_at ?h ?r (directories va) = follow ?h p2 (pd_index va)"
        using p2 by (simp add: directories_def)
      show ?thesis
      proof (cases "follow ?h p2 (pd_index va)")
        case None
        then show ?thesis using lookup tab by (simp add: pte_def)
      next
        case (Some p3)
        then have "is_table ?h p3"
          using tables_okD(1) [OF ok, of "directories va"] tab by (simp add: directories_def)
        then show ?thesis using lookup tab Some by (simp add: pte_def is_table_read)
      qed
    qed
  qed
qed

section \<open>Extending the tree\<close>

text \<open>
  Linking an empty page q, which is no table yet, under entry i of the table p at a path adds
  exactly one table.
\<close>

lemma table_at_attach:
  assumes ok: "tables_ok h root" and p: "table_at h root ps = Some p" "length ps \<le> 2"
    and i: "i < 512" and absent: "the (h p) ! i AND PRESENT = 0"
    and q: "q AND PAGE_MASK = q" "\<And>rs. length rs \<le> 3 \<Longrightarrow> table_at h root rs \<noteq> Some q"
    and h': "h' = h(q \<mapsto> empty_table, p \<mapsto> (the (h p))[i := q OR table_flags])"
    and len: "length rs \<le> 3"
  shows "table_at h' root rs = (if rs = i # ps then Some q else table_at h root rs)"
  using len
proof (induction rs)
  case (Cons j rs)
  have tp: "is_table h p" using tables_okD(1) [OF ok _ p(1)] p(2) by simp
  then have none: "table_at h root (i # ps) = None"
    using i absent p(1) by (simp add: is_table_follow)
  have pq: "p \<noteq> q" using q(2) [of ps] p by auto
  show ?case
  proof (cases "rs = i # ps")
    case True
    then have "table_at h' root (j # rs) = follow h' q j" using Cons by simp
    also have "\<dots> = None" using pq by (simp add: h' follow_empty)
    finally show ?thesis using True none by auto
  next
    case False
    then have same: "table_at h' root rs = table_at h root rs" using Cons by simp
    show ?thesis
    proof (cases "table_at h root rs")
      case None
      then have "j # rs \<noteq> i # ps" using p by auto
      with None same show ?thesis by simp
    next
      case (Some t)
      have tq: "t \<noteq> q" using q(2) [of rs] Some Cons.prems by auto
      show ?thesis
      proof (cases "t = p")
        case True
        then have rs: "rs = ps" using tables_okD(2) [OF ok, of rs ps p] Some p Cons.prems by simp
        have "follow h' p j = (if j = i then Some q else follow h p j)"
          using tp pq i masked_flags [OF q(1)]
          by (auto simp: h' follow_def is_table_def nth_list_update)
        then show ?thesis using same Some True rs by simp
      next
        case False
        then have "follow h' t j = follow h t j" using tq by (simp add: h' follow_def)
        moreover have "rs \<noteq> ps" using False Some p by auto
        ultimately show ?thesis using same Some by simp
      qed
    qed
  qed
qed simp

lemma free_chain_cong:
  "free_chain h head fs \<Longrightarrow> (\<And>p. p \<in> set fs \<Longrightarrow> h' p = h p) \<Longrightarrow> free_chain h' head fs"
proof (induction fs arbitrary: head)
  case (Cons p fs)
  then have "h' p = h p" by simp
  with Cons show ?case by (simp add: is_table_def)
qed simp

lemma attach_tables_ok:
  assumes ok: "tables_ok h root" and p: "table_at h root ps = Some p" "length ps \<le> 2"
    and i: "i < 512" and absent: "the (h p) ! i AND PRESENT = 0"
    and q: "q AND PAGE_MASK = q" "\<And>rs. length rs \<le> 3 \<Longrightarrow> table_at h root rs \<noteq> Some q"
    and h': "h' = h(q \<mapsto> empty_table, p \<mapsto> (the (h p))[i := q OR table_flags])"
  shows "tables_ok h' root \<and> pte h' root va = pte h root va"
proof -
  note at = table_at_attach [OF assms]
  have tp: "is_table h p" using tables_okD(1) [OF ok _ p(1)] p(2) by simp
  then have none: "table_at h root (i # ps) = None"
    using i absent p(1) by (simp add: is_table_follow)
  have pq: "p \<noteq> q" using q(2) [of ps] p by auto
  have page: "is_table h' t" if "is_table h t \<or> t = q" for t
    using that tp by (auto simp: h' is_table_def)
  have keep: "the (h' t) = (if t = p then (the (h p))[i := q OR table_flags]
      else if t = q then empty_table else the (h t))" for t
    by (simp add: h')
  have one: "is_table h' t" if "length rs \<le> 3" "table_at h' root rs = Some t" for rs t
    using that at [of rs] tables_okD(1) [OF ok, of rs t] page by (auto split: if_splits)
  have two: "rs = rs'" if "length rs \<le> 3" "length rs' \<le> 3" "table_at h' root rs = Some t"
    "table_at h' root rs' = Some t" for rs rs' t
    using that at [of rs] at [of rs'] tables_okD(2) [OF ok, of rs rs' t] q(2)
    by (auto split: if_splits)
  have three: "the (h' t) ! j AND PAGE_2MB = 0"
    if "length rs = 2" "table_at h' root rs = Some t" "j < 512" "the (h' t) ! j AND PRESENT \<noteq> 0" for rs t j
  proof (cases "t = q")
    case True
    then show ?thesis using that keep pq by simp
  next
    case False
    then have "table_at h root rs = Some t" using that at [of rs] by (auto split: if_splits)
    then show ?thesis
      using that False keep [of t] tables_okD(3) [OF ok, of rs t j] tp masked_flags [OF q(1)] i
      by (auto simp: is_table_def nth_list_update split: if_splits)
  qed
  have "tables_ok h' root"
    unfolding tables_ok_def using one two three by blast
  moreover have "pte h' root va = pte h root va"
  proof (cases "table_at h root (directories va)")
    case None
    then show ?thesis
      using at [of "directories va"] pq by (auto simp: pte_def directories_def keep)
  next
    case (Some t)
    then have "directories va \<noteq> i # ps" using none by auto
    moreover have "t \<noteq> p"
      using tables_okD(2) [OF ok, of "directories va" ps p] Some p by (auto simp: directories_def)
    moreover have "t \<noteq> q" using q(2) [of "directories va"] Some by (auto simp: directories_def)
    moreover have "length (directories va) \<le> 3" by (simp add: directories_def)
    ultimately show ?thesis
      using Some at [of "directories va"] by (simp add: pte_def keep)
  qed
  ultimately show ?thesis by simp
qed

section \<open>Mapping one page\<close>

text \<open>Two addresses lie in the same page if they use the same entry.\<close>

definition same_page :: "u64 \<Rightarrow> u64 \<Rightarrow> bool" where
  "same_page a b \<longleftrightarrow> a AND PAGE_MASK = b AND PAGE_MASK"

lemma index_eq_iff:
  fixes a b :: u64
  assumes "k + 9 \<le> 64"
  shows "unat (drop_bit k a AND 0x1FF) = unat (drop_bit k b AND 0x1FF)
    \<longleftrightarrow> (\<forall>n. k \<le> n \<and> n < k + 9 \<longrightarrow> bit a n = bit b n)"
proof -
  have m: "(0x1FF :: u64) = mask 9" by (simp add: mask_eq_exp_minus_1)
  have "drop_bit k a AND mask 9 = drop_bit k b AND mask 9
    \<longleftrightarrow> (\<forall>n. k \<le> n \<and> n < k + 9 \<longrightarrow> bit a n = bit b n)" (is "?l \<longleftrightarrow> ?r")
  proof
    assume l: ?l
    show ?r
    proof (intro allI impI)
      fix n assume n: "k \<le> n \<and> n < k + 9"
      have "bit (drop_bit k a AND mask 9) (n - k) = bit (drop_bit k b AND mask 9) (n - k)"
        using l by simp
      then show "bit a n = bit b n" using n assms by (auto simp: bit_simps)
    qed
  next
    assume ?r
    then show ?l by (intro bit_word_eqI) (auto simp: bit_simps)
  qed
  then show ?thesis by (simp add: m word_unat_eq_iff)
qed

lemma bit_PAGE_MASK: "bit PAGE_MASK n \<longleftrightarrow> 12 \<le> n \<and> n < 48"
proof -
  have m: "PAGE_MASK = push_bit 12 (mask 36)" by (simp add: PAGE_MASK_def mask_eq_exp_minus_1 push_bit_eq_mult)
  show ?thesis unfolding m by (auto simp: bit_simps)
qed

lemma same_page_iff:
  "same_page a b \<longleftrightarrow> directories a = directories b \<and> pt_index a = pt_index b"
proof -
  have "same_page a b \<longleftrightarrow> (\<forall>n. 12 \<le> n \<and> n < 48 \<longrightarrow> bit a n = bit b n)"
  proof
    assume "same_page a b"
    then have "bit (a AND PAGE_MASK) n = bit (b AND PAGE_MASK) n" for n by (simp add: same_page_def)
    then show "\<forall>n. 12 \<le> n \<and> n < 48 \<longrightarrow> bit a n = bit b n"
      by (simp add: bit_and_iff bit_PAGE_MASK) blast
  next
    assume "\<forall>n. 12 \<le> n \<and> n < 48 \<longrightarrow> bit a n = bit b n"
    then show "same_page a b"
      unfolding same_page_def by (intro bit_word_eqI) (auto simp: bit_and_iff bit_PAGE_MASK)
  qed
  also have "\<dots> \<longleftrightarrow> (\<forall>n. 39 \<le> n \<and> n < 48 \<longrightarrow> bit a n = bit b n) \<and> (\<forall>n. 30 \<le> n \<and> n < 39 \<longrightarrow> bit a n = bit b n)
      \<and> (\<forall>n. 21 \<le> n \<and> n < 30 \<longrightarrow> bit a n = bit b n) \<and> (\<forall>n. 12 \<le> n \<and> n < 21 \<longrightarrow> bit a n = bit b n)"
    (is "?l \<longleftrightarrow> ?a \<and> ?b \<and> ?c \<and> ?d")
  proof
    assume "?a \<and> ?b \<and> ?c \<and> ?d"
    then show ?l by (metis linorder_not_le)
  qed auto
  also have "\<dots> \<longleftrightarrow> directories a = directories b \<and> pt_index a = pt_index b"
    by (auto simp: directories_def pml4_index_def pdpt_index_def pd_index_def pt_index_def index_eq_iff)
  finally show ?thesis .
qed

lemma leaf_write_ok:
  assumes ok: "paging_ok s fs" and pt: "table_at (Heap s) (PML4 s) (directories va) = Some pt"
  shows "write_entry s pt (pt_index va) v
      = Inr (s\<lparr>Heap := (Heap s)(pt \<mapsto> (the (Heap s pt))[pt_index va := v])\<rparr>)"
    and "paging_ok (s\<lparr>Heap := (Heap s)(pt \<mapsto> (the (Heap s pt))[pt_index va := v])\<rparr>) fs"
    and "pte ((Heap s)(pt \<mapsto> (the (Heap s pt))[pt_index va := v])) (PML4 s) va'
      = (if same_page va' va then v else pte (Heap s) (PML4 s) va')"
    and "the (Heap s pt) ! pt_index va = pte (Heap s) (PML4 s) va"
    and "is_table (Heap s) pt"
proof -
  let ?h = "Heap s" and ?r = "PML4 s"
  let ?h' = "?h(pt \<mapsto> (the (?h pt))[pt_index va := v])"
  have tok: "tables_ok ?h ?r" and chain: "free_chain ?h (PagingFreePageHead s) fs"
    and apart: "\<And>rs g. length rs \<le> 3 \<Longrightarrow> g \<in> set fs \<Longrightarrow> table_at ?h ?r rs \<noteq> Some g"
    using ok by (auto simp: paging_ok_def)
  have l3: "length (directories va) = 3" for va by (simp add: directories_def)
  show tpt: "is_table ?h pt" using tables_okD(1) [OF tok _ pt] l3 [of va] by simp
  show "the (?h pt) ! pt_index va = pte ?h ?r va" using pt by (simp add: pte_def)
  show "write_entry s pt (pt_index va) v = Inr (s\<lparr>Heap := ?h'\<rparr>)"
    using tpt by (simp add: is_table_write)
  have low: "?h' p = ?h p" if "length rs \<le> 2" "table_at ?h ?r rs = Some p" for rs p
    using tables_okD(2) [OF tok, of rs "directories va" p] that pt l3 [of va] by auto
  have at: "table_at ?h' ?r rs = table_at ?h ?r rs" if "length rs \<le> 3" for rs
  proof (rule table_at_cong)
    fix rs' p assume "length rs' < length rs" "table_at ?h ?r rs' = Some p"
    then show "?h' p = ?h p" using that by (intro low [of rs']) simp_all
  qed
  have tab: "is_table ?h' p \<longleftrightarrow> is_table ?h p" for p
    using tpt by (auto simp: is_table_def)
  have "tables_ok ?h' ?r"
    unfolding tables_ok_def tab
  proof (intro conjI allI impI)
    fix rs p i assume a: "length rs = 2" "table_at ?h' ?r rs = Some p" "i < 512"
      "the (?h' p) ! i AND PRESENT \<noteq> 0"
    then have "table_at ?h ?r rs = Some p" and "?h' p = ?h p" using at [of rs] low [of rs] by auto
    with a show "the (?h' p) ! i AND PAGE_2MB = 0" using tables_okD(3) [OF tok, of rs p i] by auto
  qed (use at tables_okD(1,2) [OF tok] in auto)
  moreover have "pt \<notin> set fs" using apart [of "directories va" pt] pt l3 [of va] by auto
  then have "free_chain ?h' (PagingFreePageHead s) fs"
    using chain by (intro free_chain_cong [OF chain]) auto
  ultimately show "paging_ok (s\<lparr>Heap := ?h'\<rparr>) fs"
    using ok at by (simp add: paging_ok_def)
  show "pte ?h' ?r va' = (if same_page va' va then v else pte ?h ?r va')"
  proof (cases "table_at ?h ?r (directories va')")
    case None
    then have "directories va' \<noteq> directories va" using pt by auto
    then show ?thesis using None at [of "directories va'"] l3 [of va'] by (simp add: pte_def same_page_iff)
  next
    case (Some t)
    then have "t = pt \<longleftrightarrow> directories va' = directories va"
      using tables_okD(2) [OF tok, of "directories va'" "directories va" pt] pt l3 by auto
    then show ?thesis
      using Some at [of "directories va'"] l3 [of va'] tpt
      by (auto simp: pte_def same_page_iff is_table_def nth_list_update)
  qed
qed

lemma unat_take_bit: "unat (take_bit n a) = unat (a :: u64) mod 2 ^ n"
  unfolding unsigned_take_bit_eq take_bit_nat_def ..

lemma page_aligned_iff:
  fixes a :: u64
  shows "a AND PAGE_MASK = a \<longleftrightarrow> unat a mod 4096 = 0 \<and> unat a < 2 ^ 48"
proof
  assume a: "a AND PAGE_MASK = a"
  have "take_bit 12 a = a AND (PAGE_MASK AND mask 12)"
    using a by (metis and.assoc take_bit_eq_mask)
  then have "take_bit 12 a = 0" by (simp add: PAGE_MASK_def mask_eq_exp_minus_1)
  moreover have "take_bit 48 a = a AND (PAGE_MASK AND mask 48)"
    using a by (metis and.assoc take_bit_eq_mask)
  then have "take_bit 48 a = a" using a by (simp add: PAGE_MASK_def mask_eq_exp_minus_1)
  moreover have "unat a mod 2 ^ 48 < 2 ^ 48" by simp
  ultimately show "unat a mod 4096 = 0 \<and> unat a < 2 ^ 48"
    using unat_take_bit [of 12 a] unat_take_bit [of 48 a] by auto
next
  assume a: "unat a mod 4096 = 0 \<and> unat a < 2 ^ 48"
  then have "unat (take_bit 12 a) = 0" and "unat (take_bit 48 a) = unat a"
    unfolding unat_take_bit by simp_all
  then have "take_bit 12 a = 0" and "take_bit 48 a = a" by (simp_all only: unat_eq_zero word_unat_eq_iff)
  then have "12 \<le> n \<and> n < 48" if "bit a n" for n
    using that bit_take_bit_iff [of 12 a n] bit_take_bit_iff [of 48 a n] by auto
  then show "a AND PAGE_MASK = a"
    by (intro bit_word_eqI) (auto simp: bit_and_iff bit_PAGE_MASK)
qed

lemma page_offset: "a AND (PAGE_SIZE - 1) = take_bit 12 a"
proof -
  have "PAGE_SIZE - 1 = mask 12" by (simp add: PAGE_SIZE_def mask_eq_exp_minus_1)
  then show ?thesis by (simp only: take_bit_eq_mask)
qed

lemma page_offset_zero: "a AND (PAGE_SIZE - 1) = 0 \<longleftrightarrow> unat a mod 4096 = 0"
proof -
  have "a AND (PAGE_SIZE - 1) = 0 \<longleftrightarrow> unat (take_bit 12 a) = 0"
    unfolding page_offset by (simp only: unat_eq_zero)
  then show ?thesis unfolding unat_take_bit by simp
qed

text \<open>The page k of a range.\<close>

definition page :: "u64 \<Rightarrow> nat \<Rightarrow> u64" where
  "page a k = a + of_nat (4096 * k)"

lemma unat_of_nat_u64: "n < 2 ^ 64 \<Longrightarrow> unat (of_nat n :: u64) = n"
  unfolding unat_of_nat by simp

lemma unat_page:
  assumes "unat a + 4096 * n \<le> 2 ^ 48" and "k \<le> n"
  shows "unat (page a k) = unat a + 4096 * k"
proof -
  have "4096 * k < 2 ^ 64" and "unat a + 4096 * k < 2 ^ 64" using assms by simp_all
  then have "unat (of_nat (4096 * k) :: u64) = 4096 * k" by (intro unat_of_nat_u64)
  then show ?thesis unfolding page_def using \<open>unat a + 4096 * k < 2 ^ 64\<close>
    by (subst unat_add_no_wrap) simp_all
qed

lemma page_Suc: "page (a + PAGE_SIZE) k = page a (Suc k)" and page_0 [simp]: "page a 0 = a"
  by (simp_all add: page_def PAGE_SIZE_def algebra_simps)

lemma page_aligned:
  assumes "unat a + 4096 * n \<le> 2 ^ 48" and "k < n" and "unat a mod 4096 = 0"
  shows "page a k AND PAGE_MASK = page a k"
proof -
  have "unat (page a k) = unat a + 4096 * k" by (rule unat_page [OF assms(1)]) (use assms in simp)
  then show ?thesis unfolding page_aligned_iff using assms by simp
qed

lemma same_page_page:
  assumes "unat a + 4096 * n \<le> 2 ^ 48" and "j < n" and "k < n" and "unat a mod 4096 = 0"
  shows "same_page (page a j) (page a k) \<longleftrightarrow> j = k"
proof
  assume "same_page (page a j) (page a k)"
  then have "page a j = page a k"
    using page_aligned [OF assms(1) _ assms(4)] assms by (simp add: same_page_def)
  then have "unat (page a j) = unat (page a k)" by simp
  then show "j = k"
    using assms(2,3) unat_page [OF assms(1), of j] unat_page [OF assms(1), of k] by simp
qed (simp add: same_page_def)

lemma same_page_trans: "same_page a b \<Longrightarrow> same_page a c \<longleftrightarrow> same_page b c"
  and same_page_sym: "same_page a b \<longleftrightarrow> same_page b a"
  by (auto simp: same_page_def)

lemma same_page_pte: "same_page a b \<Longrightarrow> pte h r a = pte h r b"
  by (simp add: same_page_iff pte_def split: option.split)

definition new_entry ::
  "range_state \<Rightarrow> bool \<Rightarrow> bool \<Rightarrow> PrivilegeLevel \<Rightarrow> PageFlags \<Rightarrow> u64 \<Rightarrow> u64 \<Rightarrow> u64" where
  "new_entry st writable executable level flags old pa =
     (if st = Free then pa else page_entry old pa writable executable level flags)"

text \<open>What mapping n pages should do to the page tables.\<close>

definition mapped ::
  "nat \<Rightarrow> u64 \<Rightarrow> u64 \<Rightarrow> (u64 \<Rightarrow> u64 \<Rightarrow> u64) \<Rightarrow> (u64 \<Rightarrow> u64) \<Rightarrow> (u64 \<Rightarrow> u64) \<Rightarrow> bool" where
  "mapped n va pa entry old new \<longleftrightarrow>
     (\<forall>k < n. \<forall>a. same_page a (page va k) \<longrightarrow> new a = entry (old a) (page pa k)) \<and>
     (\<forall>a. (\<forall>k < n. \<not> same_page a (page va k)) \<longrightarrow> new a = old a)"

lemma mapped_Suc:
  assumes va: "unat va + 4096 * Suc n \<le> 2 ^ 48" "unat va mod 4096 = 0"
    and one: "\<And>a. mid a = (if same_page a va then entry (old va) pa else old a)"
    and rest: "mapped n (va + PAGE_SIZE) (pa + PAGE_SIZE) entry mid new"
    and same: "\<And>a b. same_page a b \<Longrightarrow> old a = old b"
  shows "mapped (Suc n) va pa entry old new"
proof -
  have other: "mid a = old a" if "same_page a (page va (Suc k))" "k < n" for a k
  proof -
    have "\<not> same_page (page va (Suc k)) (page va 0)"
      using same_page_page [OF va(1), of "Suc k" 0] that va by simp
    then show ?thesis using one [of a] that same_page_trans [OF that(1), of va] by simp
  qed
  have first: "\<not> same_page a (page va (Suc k))" if "same_page a va" "k < n" for a k
    using same_page_page [OF va(1), of 0 "Suc k"] that va same_page_trans [OF that(1)] by simp
  have hit: "new a = entry (old a) (page pa k)" if "k < Suc n" "same_page a (page va k)" for k a
  proof (cases k)
    case 0
    then have "new a = mid a" using rest first [of a] that by (simp add: mapped_def page_Suc)
    then show ?thesis using one [of a] same [of a va] that 0 by simp
  next
    case (Suc j)
    then show ?thesis using rest other [of a j] that by (simp add: mapped_def page_Suc)
  qed
  have miss: "new a = old a" if "\<forall>k < Suc n. \<not> same_page a (page va k)" for a
  proof -
    have "\<not> same_page a va" using that by (metis page_0 zero_less_Suc)
    moreover have "\<forall>k < n. \<not> same_page a (page (va + PAGE_SIZE) k)"
      using that by (simp add: page_Suc)
    ultimately show ?thesis using rest one [of a] by (simp add: mapped_def)
  qed
  show ?thesis unfolding mapped_def using hit miss by blast
qed

locale page_provider =
  fixes get :: page_source
  assumes get_free: "PagingFreePageHead s \<noteq> 0 \<Longrightarrow> get s = take_page s"
begin

lemma next_table_ok:
  assumes ok: "paging_ok s (f # fs)" and p: "table_at (Heap s) (PML4 s) ps = Some p" "length ps \<le> 2"
    and i: "i < 512" and res: "reserved \<in> {PM_RESERVED_MASK, PML4_RESERVED_MASK}"
  shows "\<exists>q s' fs'. next_table get reserved p i s = Inr (q, s')
    \<and> paging_ok s' fs' \<and> fs' \<in> {f # fs, fs}
    \<and> s' = s\<lparr>Heap := Heap s', PagingFreePageHead := PagingFreePageHead s'\<rparr>
    \<and> table_at (Heap s') (PML4 s) (i # ps) = Some q
    \<and> (\<forall>va. pte (Heap s') (PML4 s) va = pte (Heap s) (PML4 s) va)"
proof -
  let ?h = "Heap s" and ?r = "PML4 s"
  have tok: "tables_ok ?h ?r" using ok by (simp add: paging_ok_def)
  have tp: "is_table ?h p" using tables_okD(1) [OF tok _ p(1)] p(2) by simp
  show ?thesis
  proof (cases "the (?h p) ! i AND PRESENT = 0")
    case False
    then show ?thesis
      using ok p i tp by (intro exI [of _ s] exI [of _ "the (?h p) ! i AND PML4AddressMask"])
        (auto simp: next_table_def is_table_read is_table_follow)
  next
    case True
    have f: "PagingFreePageHead s = f" "f \<noteq> 0" "f AND PAGE_MASK = f" "is_table ?h f"
      "free_chain ?h (the (?h f) ! 0) fs" "f \<notin> set fs" "distinct fs"
      "\<And>rs. length rs \<le> 3 \<Longrightarrow> table_at ?h ?r rs \<noteq> Some f"
      "\<And>rs g. length rs \<le> 3 \<Longrightarrow> g \<in> set fs \<Longrightarrow> table_at ?h ?r rs \<noteq> Some g"
      using ok by (auto simp: paging_ok_def)
    have pf: "p \<noteq> f" and pfs: "p \<notin> set fs" using f(8,9) [of ps] p by auto
    define h' where "h' = ?h(f \<mapsto> empty_table, p \<mapsto> (the (?h p))[i := f OR table_flags])"
    define s' where "s' = s\<lparr>Heap := h', PagingFreePageHead := the (?h f) ! 0\<rparr>"
    have run: "next_table get reserved p i s = Inr (f, s')"
      using True res tp i pf f masked_flags [OF f(3)] get_free [of s]
      by (auto simp: next_table_def is_table_read take_page_def Let_def flag_word write_entry_def
          s'_def h'_def is_table_def elim!: is_tableE)
    note at = table_at_attach [OF tok p i True f(3) f(8) h'_def]
    note att = attach_tables_ok [OF tok p i True f(3) f(8) h'_def]
    have "free_chain h' (the (?h f) ! 0) fs"
      using f(5) by (rule free_chain_cong) (use f pfs in \<open>auto simp: h'_def\<close>)
    moreover have "table_at h' ?r rs \<noteq> Some g" if "length rs \<le> 3" "g \<in> set fs" for rs g
      using at [of rs] f(6) f(9) that by auto
    ultimately have "paging_ok s' fs"
      using att f(7) by (simp add: paging_ok_def s'_def)
    moreover have "table_at h' ?r (i # ps) = Some f" using at [of "i # ps"] p by simp
    ultimately show ?thesis
      using run att by (intro exI [of _ f] exI [of _ s'] exI [of _ fs]) (simp add: s'_def)
  qed
qed

lemma map_page_ok:
  assumes ok: "paging_ok s fs" and room: "length fs \<ge> 3" and pa: "pa AND PAGE_MASK = pa"
    and va: "va AND PAGE_MASK = va"
  shows "\<exists>s' fs'. map_page get va pa writable executable level st flags s = Inr s'
    \<and> paging_ok s' fs' \<and> length fs \<le> length fs' + 3
    \<and> s' = s\<lparr>Heap := Heap s', PagingFreePageHead := PagingFreePageHead s', Invalidated := Invalidated s'\<rparr>
    \<and> Invalidated s' = (if PML4Set s then [va] else []) @ Invalidated s
    \<and> (\<forall>va'. pte (Heap s') (PML4 s) va' =
         (if same_page va' va
          then if st = Free then pa
               else page_entry (pte (Heap s) (PML4 s) va) pa writable executable level flags
          else pte (Heap s) (PML4 s) va'))"
proof -
  obtain f1 fs1 where fs: "fs = f1 # fs1" using room by (cases fs) auto
  obtain p1 s1 fs1' where 1: "next_table get PML4_RESERVED_MASK (PML4 s) (pml4_index va) s = Inr (p1, s1)"
    "paging_ok s1 fs1'" "fs1' \<in> {f1 # fs1, fs1}"
    "s1 = s\<lparr>Heap := Heap s1, PagingFreePageHead := PagingFreePageHead s1\<rparr>"
    "table_at (Heap s1) (PML4 s) [pml4_index va] = Some p1"
    "\<forall>va. pte (Heap s1) (PML4 s) va = pte (Heap s) (PML4 s) va"
    using next_table_ok [OF ok [unfolded fs], of "[]" "PML4 s" "pml4_index va" PML4_RESERVED_MASK] by auto
  have r1: "PML4 s1 = PML4 s" by (subst 1(4)) simp
  obtain f2 fs2 where fs1': "fs1' = f2 # fs2" using 1(3) room fs by (cases fs1') auto
  obtain p2 s2 fs2' where 2: "next_table get PM_RESERVED_MASK p1 (pdpt_index va) s1 = Inr (p2, s2)"
    "paging_ok s2 fs2'" "fs2' \<in> {f2 # fs2, fs2}"
    "s2 = s1\<lparr>Heap := Heap s2, PagingFreePageHead := PagingFreePageHead s2\<rparr>"
    "table_at (Heap s2) (PML4 s) [pdpt_index va, pml4_index va] = Some p2"
    "\<forall>va. pte (Heap s2) (PML4 s) va = pte (Heap s1) (PML4 s) va"
    using next_table_ok [OF 1(2) [unfolded fs1'], of "[pml4_index va]" p1 "pdpt_index va" PM_RESERVED_MASK]
      1(5) r1 by auto
  have r2: "PML4 s2 = PML4 s" by (subst 2(4)) (simp add: r1)
  obtain f3 fs3 where fs2': "fs2' = f3 # fs3" using 1(3) 2(3) room fs fs1' by (cases fs2') auto
  obtain p3 s3 fs3' where 3: "next_table get PM_RESERVED_MASK p2 (pd_index va) s2 = Inr (p3, s3)"
    "paging_ok s3 fs3'" "fs3' \<in> {f3 # fs3, fs3}"
    "s3 = s2\<lparr>Heap := Heap s3, PagingFreePageHead := PagingFreePageHead s3\<rparr>"
    "table_at (Heap s3) (PML4 s) (directories va) = Some p3"
    "\<forall>va. pte (Heap s3) (PML4 s) va = pte (Heap s2) (PML4 s) va"
    using next_table_ok [OF 2(2) [unfolded fs2'], of "[pdpt_index va, pml4_index va]" p2 "pd_index va" PM_RESERVED_MASK]
      2(5) r2 by (auto simp: directories_def)
  have r3: "PML4 s3 = PML4 s" by (subst 3(4)) (simp add: r2)
  have s3: "s3 = s\<lparr>Heap := Heap s3, PagingFreePageHead := PagingFreePageHead s3\<rparr>"
    by (subst 3(4), subst 2(4), subst 1(4)) simp
  have fields: "PML4 s3 = PML4 s" "InitialPageTableEntries s3 = InitialPageTableEntries s"
    "NextFreePageTableEntriesBlock s3 = NextFreePageTableEntriesBlock s"
    "PhysicalMemoryState s3 = PhysicalMemoryState s" "VirtualMemoryState s3 = VirtualMemoryState s"
    "CR3 s3 = CR3 s" "PML4Set s3 = PML4Set s" "Invalidated s3 = Invalidated s"
    by (subst s3, simp)+
  have len: "length fs \<le> length fs3' + 3" using 1(3) 2(3) 3(3) fs fs1' fs2' by auto
  have pte3: "pte (Heap s3) (PML4 s) va' = pte (Heap s) (PML4 s) va'" for va'
    using 1(6) 2(6) 3(6) by simp
  let ?e = "page_entry (pte (Heap s) (PML4 s) va) pa writable executable level flags"
  define v where "v = (if st = Free then pa else ?e)"
  let ?s4 = "s3\<lparr>Heap := (Heap s3)(p3 \<mapsto> (the (Heap s3 p3))[pt_index va := v])\<rparr>"
  let ?s5 = "if PML4Set ?s4 then ?s4\<lparr>Invalidated := va # Invalidated ?s4\<rparr> else ?s4"
  note leaf = leaf_write_ok [OF 3(2), of va p3, unfolded r3, OF 3(5)]
  have ok4: "paging_ok ?s4 fs3'" by (rule leaf(2))
  have pte4: "pte (Heap ?s4) (PML4 s) va' = (if same_page va' va then v else pte (Heap s) (PML4 s) va')" for va'
    using leaf(3) [of v va'] pte3 by simp
  have "same_page va va" by (simp add: same_page_def)
  have off: "va AND (PAGE_SIZE - 1) = 0"
  proof -
    have "va AND (PAGE_SIZE - 1) = va AND (PAGE_MASK AND (PAGE_SIZE - 1))"
      using va by (metis and.assoc)
    then show ?thesis by (simp add: PAGE_MASK_def PAGE_SIZE_def)
  qed
  have new: "GetPhysicalAddress va False ?s4 = Inr pa" if "st \<noteq> Free"
  proof -
    have "tables_ok (Heap ?s4) (PML4 ?s4)" using ok4 by (simp add: paging_ok_def)
    then show ?thesis
      using GetPhysicalAddress_pte [of ?s4 va] pte4 [of va] that \<open>same_page va va\<close> off page_entry_bits [OF pa]
      by (simp add: r3 v_def)
  qed
  have "map_page get va pa writable executable level st flags s = Inr ?s5"
    unfolding map_page_def 1(1) ok_bind_Inr prod.case 2(1) 3(1)
    using leaf(1,4,5) pte3 new page_entry_bits [OF pa] pa
    by (cases "st = Free") (auto simp: is_table_read Let_def v_def)
  moreover have "paging_ok ?s5 fs3'" using ok4 by (simp add: paging_ok_def)
  moreover have "?s5 = s\<lparr>Heap := Heap ?s5, PagingFreePageHead := PagingFreePageHead ?s5, Invalidated := Invalidated ?s5\<rparr>"
    by (rule paging.equality) (simp_all add: fields)
  moreover have "Invalidated ?s5 = (if PML4Set s then [va] else []) @ Invalidated s"
    by (simp add: fields)
  moreover have "\<forall>va'. pte (Heap ?s5) (PML4 s) va' = (if same_page va' va then v else pte (Heap s) (PML4 s) va')"
    using pte4 by simp
  ultimately show ?thesis using len unfolding v_def by blast
qed

lemma map_loop_ok:
  assumes "paging_ok s fs" and "3 * n \<le> length fs" and "unat va mod 4096 = 0" and "unat pa mod 4096 = 0"
    and "unat va + 4096 * n \<le> 2 ^ 48" and "unat pa + 4096 * n \<le> 2 ^ 48" and "end_va = page va n"
  shows "\<exists>s' fs'. map_loop n get va end_va pa writable executable level st flags s = Inr s'
    \<and> paging_ok s' fs' \<and> length fs \<le> length fs' + 3 * n
    \<and> s' = s\<lparr>Heap := Heap s', PagingFreePageHead := PagingFreePageHead s', Invalidated := Invalidated s'\<rparr>
    \<and> Invalidated s' = (if PML4Set s then rev (map (page va) [0 ..< n]) else []) @ Invalidated s
    \<and> mapped n va pa (new_entry st writable executable level flags)
        (pte (Heap s) (PML4 s)) (pte (Heap s') (PML4 s))"
  using assms
proof (induction n arbitrary: s fs va pa)
  case 0
  then show ?case
    by (intro exI [of _ s] exI [of _ fs]) (simp add: map_loop.simps mapped_def)
next
  case (Suc n)
  have va: "va AND PAGE_MASK = va" and pa: "pa AND PAGE_MASK = pa"
    using Suc.prems unfolding page_aligned_iff by simp_all
  have less: "va < end_va"
    using unat_page [OF Suc.prems(5), of "Suc n"] Suc.prems by (simp add: word_less_nat_alt)
  from map_page_ok [OF Suc.prems(1) _ pa va, of writable executable level st flags] Suc.prems(2)
  obtain s1 fs1 where 1: "map_page get va pa writable executable level st flags s = Inr s1"
    "paging_ok s1 fs1" "length fs \<le> length fs1 + 3"
    "s1 = s\<lparr>Heap := Heap s1, PagingFreePageHead := PagingFreePageHead s1, Invalidated := Invalidated s1\<rparr>"
    "Invalidated s1 = (if PML4Set s then [va] else []) @ Invalidated s"
    "\<forall>va'. pte (Heap s1) (PML4 s) va' = (if same_page va' va
       then new_entry st writable executable level flags (pte (Heap s) (PML4 s) va) pa
       else pte (Heap s) (PML4 s) va')"
    unfolding new_entry_def by auto
  have f1: "PML4 s1 = PML4 s" "PML4Set s1 = PML4Set s" by (subst 1(4), simp)+
  have next_va: "unat (va + PAGE_SIZE) = unat va + 4096" and next_pa: "unat (pa + PAGE_SIZE) = unat pa + 4096"
    using unat_page [OF Suc.prems(5), of 1] unat_page [OF Suc.prems(6), of 1]
    by (simp_all add: page_def PAGE_SIZE_def)
  have end_va: "end_va = page (va + PAGE_SIZE) n" using Suc.prems(7) by (simp add: page_Suc)
  from Suc.IH [OF 1(2) _ _ _ _ _ end_va, of "pa + PAGE_SIZE"] 1(3) Suc.prems next_va next_pa
  obtain s2 fs2 where 2: "map_loop n get (va + PAGE_SIZE) end_va (pa + PAGE_SIZE) writable executable level st flags s1 = Inr s2"
    "paging_ok s2 fs2" "length fs1 \<le> length fs2 + 3 * n"
    "s2 = s1\<lparr>Heap := Heap s2, PagingFreePageHead := PagingFreePageHead s2, Invalidated := Invalidated s2\<rparr>"
    "Invalidated s2 = (if PML4Set s1 then rev (map (page (va + PAGE_SIZE)) [0 ..< n]) else []) @ Invalidated s1"
    "mapped n (va + PAGE_SIZE) (pa + PAGE_SIZE) (new_entry st writable executable level flags)
      (pte (Heap s1) (PML4 s1)) (pte (Heap s2) (PML4 s1))"
    by auto
  have run: "map_loop (Suc n) get va end_va pa writable executable level st flags s = Inr s2"
    using less 1(1) 2(1) by (simp add: map_loop.simps [of "Suc n"])
  have "s2 = s\<lparr>Heap := Heap s2, PagingFreePageHead := PagingFreePageHead s2, Invalidated := Invalidated s2\<rparr>"
    by (subst 2(4), subst 1(4)) simp
  moreover have "Invalidated s2 = (if PML4Set s then rev (map (page va) [0 ..< Suc n]) else []) @ Invalidated s"
    using 1(5) 2(5) f1 by (simp add: page_Suc upt_conv_Cons map_Suc_upt [symmetric] del: upt_Suc)
  moreover have "mapped (Suc n) va pa (new_entry st writable executable level flags)
      (pte (Heap s) (PML4 s)) (pte (Heap s2) (PML4 s))"
    using Suc.prems(5,3) 1(6) 2(6) f1 same_page_pte
    by (intro mapped_Suc [where mid = "pte (Heap s1) (PML4 s)"]) auto
  ultimately show ?case using run 2(2,3) 1(3) by (intro exI [of _ s2] exI [of _ fs2]) simp
qed

end

interpretation pages: page_provider "GetPML4FreePage depth rpmalloc" for depth rpmalloc
  by unfold_locales (cases depth; simp)

end
