(* ===== verification/MappingCorrect.thy ===== *)
theory MappingCorrect
  imports PagingCorrect
begin

text \<open>
  The properties of the memory manager as its callers see it: building the list of free paging
  structure pages, mapping, allocating and freeing pages.
\<close>

section \<open>The free list\<close>

lemma link_pages_ok:
  assumes "\<forall>k < n. is_table (Heap s) (page base k)" and "unat base + 4096 * n \<le> 2 ^ 48"
    and "unat base mod 4096 = 0" and "base \<noteq> 0"
    and "free_chain (Heap s) (PagingFreePageHead s) fs" and "\<forall>k < n. page base k \<notin> set fs"
  shows "\<exists>s'. link_pages base n s = Inr s'
    \<and> free_chain (Heap s') (PagingFreePageHead s') (map (page base) [0 ..< n] @ fs)
    \<and> s' = s\<lparr>Heap := Heap s', PagingFreePageHead := PagingFreePageHead s'\<rparr>
    \<and> (\<forall>a. (\<forall>k < n. a \<noteq> page base k) \<longrightarrow> Heap s' a = Heap s a)
    \<and> (\<forall>a. is_table (Heap s) a \<longrightarrow> is_table (Heap s') a)"
  using assms
proof (induction n arbitrary: s fs)
  case 0
  then show ?case by (intro exI [of _ s]) simp
next
  case (Suc n)
  let ?p = "page base n"
  let ?h = "(Heap s)(?p \<mapsto> (the (Heap s ?p))[0 := PagingFreePageHead s])"
  let ?s = "s\<lparr>Heap := ?h, PagingFreePageHead := ?p\<rparr>"
  have t: "is_table (Heap s) ?p" using Suc.prems(1) by simp
  have al: "?p AND PAGE_MASK = ?p" by (rule page_aligned [OF Suc.prems(2)]) (use Suc.prems(3) in simp_all)
  have tab: "is_table (Heap ?s) a \<longleftrightarrow> is_table (Heap s) a" for a
    using t by (auto simp: is_table_def)
  have "unat ?p = unat base + 4096 * n"
    by (rule unat_page [OF Suc.prems(2)]) simp
  then have "?p \<noteq> 0" using Suc.prems(4) unat_eq_zero [of base] by (metis add_is_0 unat_0)
  moreover have "free_chain ?h (PagingFreePageHead s) fs"
    using Suc.prems(5) by (rule free_chain_cong) (use Suc.prems(6) in auto)
  ultimately have chain: "free_chain (Heap ?s) (PagingFreePageHead ?s) (?p # fs)"
    using al t by (auto simp: is_table_def)
  have distinct: "page base j \<noteq> ?p" if "j < n" for j
    using same_page_page [OF Suc.prems(2), of j n] that Suc.prems(3) by (auto simp: same_page_def)
  have 2: "unat base + 4096 * n \<le> 2 ^ 48" using Suc.prems(2) by simp
  have 1: "\<forall>k < n. is_table (Heap ?s) (page base k)" unfolding tab using Suc.prems(1) by simp
  have 3: "\<forall>k < n. page base k \<notin> set (?p # fs)" using distinct Suc.prems(6) by auto
  from Suc.IH [OF 1 2 Suc.prems(3,4) chain 3] obtain s' where s':
    "link_pages base n ?s = Inr s'"
    "free_chain (Heap s') (PagingFreePageHead s') (map (page base) [0 ..< n] @ ?p # fs)"
    "s' = ?s\<lparr>Heap := Heap s', PagingFreePageHead := PagingFreePageHead s'\<rparr>"
    "\<forall>a. (\<forall>k < n. a \<noteq> page base k) \<longrightarrow> Heap s' a = Heap ?s a"
    "\<forall>a. is_table (Heap ?s) a \<longrightarrow> is_table (Heap s') a"
    by blast
  have "base + PAGE_SIZE * of_nat n = ?p" by (simp add: page_def PAGE_SIZE_def)
  then have "link_pages base (Suc n) s = Inr s'"
    using s'(1) is_table_write [OF t, of 0] by (simp add: Let_def)
  moreover have "s' = s\<lparr>Heap := Heap s', PagingFreePageHead := PagingFreePageHead s'\<rparr>"
    by (subst s'(3)) simp
  moreover have "\<forall>a. (\<forall>k < Suc n. a \<noteq> page base k) \<longrightarrow> Heap s' a = Heap s a"
    using s'(4) by auto
  ultimately show ?case using s'(2,5) tab by (intro exI [of _ s']) simp
qed

lemma zero_pages_at:
  assumes "unat base + 4096 * n \<le> 2 ^ 48" and "k < n"
  shows "zero_pages base n h (page base k) = Some empty_table"
proof -
  have "4096 * k < 2 ^ 64" using assms by simp
  then have "unat (page base k - base) = 4096 * k"
    unfolding page_def add_diff_cancel_left' by (rule unat_of_nat_u64)
  then have "unat (page base k - base) mod 4096 = 0" "unat (page base k - base) div 4096 = k"
    by simp_all
  then show ?thesis
    using assms(2) unfolding zero_pages_def page_offset_zero by simp
qed

lemma zero_pages_outside:
  assumes "\<forall>k < n. a \<noteq> page base k"
  shows "zero_pages base n h a = h a"
proof -
  define d where "d = unat (a - base)"
  have "\<not> (d mod 4096 = 0 \<and> d div 4096 < n)"
  proof
    assume d: "d mod 4096 = 0 \<and> d div 4096 < n"
    then have "4096 * (d div 4096) = d" by auto
    then have "page base (d div 4096) = base + of_nat d" unfolding page_def by (simp only:)
    also have "\<dots> = a" unfolding d_def by simp
    finally show False using assms d by metis
  qed
  then show ?thesis unfolding zero_pages_def page_offset_zero d_def by (rule if_not_P)
qed

text \<open>A root without entries is a tree of one table.\<close>

lemma empty_root:
  assumes "h root = Some empty_table"
  shows "table_at h root ps = (if ps = [] then Some root else None)"
  using assms by (induction ps) (auto simp: follow_def)

lemma empty_root_tables_ok:
  assumes "h root = Some empty_table"
  shows "tables_ok h root" and "pte h root va = 0"
proof -
  note at = empty_root [of h root, OF assms]
  show "tables_ok h root"
    unfolding tables_ok_def at using assms by (auto simp: is_table_def split: if_splits)
  show "pte h root va = 0"
    unfolding pte_def at by (simp add: directories_def)
qed

text \<open>
  The memory that \<^verbatim>\<open>BuildPML4\<close> starts from: an empty root and the static pages, which are
  somewhere else.
\<close>

definition boot_state :: "paging \<Rightarrow> bool" where
  "boot_state s \<longleftrightarrow>
     Heap s (PML4 s) = Some empty_table \<and> PagingFreePageHead s = 0 \<and>
     InitialPageTableEntries s \<noteq> 0 \<and> unat (InitialPageTableEntries s) mod 4096 = 0 \<and>
     unat (InitialPageTableEntries s) + 4096 * 2048 \<le> 2 ^ 48 \<and>
     \<not> (\<exists>k < 2048. PML4 s = page (InitialPageTableEntries s) k)"

lemma distinct_pages:
  assumes "unat base + 4096 * n \<le> 2 ^ 48" and "unat base mod 4096 = 0"
  shows "distinct (map (page base) [0 ..< n])"
proof -
  have "j = k" if "j < n" "k < n" "page base j = page base k" for j k
    using same_page_page [OF assms(1) that(1,2) assms(2)] that(3) by (simp add: same_page_def)
  then show ?thesis by (auto simp: distinct_map inj_on_def)
qed

lemma PreparePML4FreeList_ok:
  assumes "boot_state s"
  shows "\<exists>s'. PreparePML4FreeList (InitialPageTableEntries s) s = Inr s'
    \<and> paging_ok s' (map (page (InitialPageTableEntries s)) [0 ..< 2048])
    \<and> s' = s\<lparr>Heap := Heap s', PagingFreePageHead := PagingFreePageHead s'\<rparr>
    \<and> (\<forall>va. pte (Heap s') (PML4 s') va = 0)"
proof -
  let ?b = "InitialPageTableEntries s"
  let ?s = "s\<lparr>Heap := zero_pages ?b 2048 (Heap s)\<rparr>"
  have b: "unat ?b + 4096 * 2048 \<le> 2 ^ 48" "unat ?b mod 4096 = 0" "?b \<noteq> 0"
    "Heap s (PML4 s) = Some empty_table" "PagingFreePageHead s = 0" "\<forall>k < 2048. PML4 s \<noteq> page ?b k"
    using assms by (auto simp: boot_state_def)
  have zero: "\<forall>k < 2048. is_table (Heap ?s) (page ?b k)"
    using zero_pages_at [OF b(1)] by (simp add: is_table_def)
  have root: "Heap ?s (PML4 s) = Some empty_table"
    using zero_pages_outside [OF b(6)] b(4) by simp
  from link_pages_ok [OF zero b(1-3), of "[]"] b(5) obtain s' where s':
    "link_pages ?b 2048 ?s = Inr s'"
    "free_chain (Heap s') (PagingFreePageHead s') (map (page ?b) [0 ..< 2048])"
    "s' = ?s\<lparr>Heap := Heap s', PagingFreePageHead := PagingFreePageHead s'\<rparr>"
    "\<forall>a. (\<forall>k < 2048. a \<noteq> page ?b k) \<longrightarrow> Heap s' a = Heap ?s a"
    by auto
  have pml4: "PML4 s' = PML4 s" by (subst s'(3)) simp
  then have root': "Heap s' (PML4 s') = Some empty_table" using s'(4) b(6) root by simp
  have "paging_ok s' (map (page ?b) [0 ..< 2048])"
    unfolding paging_ok_def empty_root [of "Heap s'" "PML4 s'", OF root']
    using empty_root_tables_ok(1) [of "Heap s'" "PML4 s'", OF root'] s'(2) distinct_pages [OF b(1,2)] b(6) pml4
    by (auto simp del: upt_Suc)
  moreover have "PreparePML4FreeList ?b s = Inr s'"
    using s'(1) by (simp add: PreparePML4FreeList_def STATIC_PAGE_ENTRIES_def)
  moreover have "s' = s\<lparr>Heap := Heap s', PagingFreePageHead := PagingFreePageHead s'\<rparr>"
    by (subst s'(3)) simp
  ultimately show ?thesis using empty_root_tables_ok(2) [of "Heap s'" "PML4 s'", OF root'] by blast
qed

section \<open>Mapping a range\<close>

text \<open>
  The memory manager is consistent, has room for k more changes of its trackers and n free
  paging structure pages.
\<close>

definition manager_ok :: "paging \<Rightarrow> nat \<Rightarrow> nat \<Rightarrow> bool" where
  "manager_ok s k n \<longleftrightarrow>
     (\<exists>fs. paging_ok s fs \<and> n \<le> length fs) \<and>
     mem_ok (PhysicalMemoryState s) \<and> tree_room (PhysicalMemoryState s) k \<and>
     mem_ok (VirtualMemoryState s) \<and> tree_room (VirtualMemoryState s) k"

text \<open>A whole number of pages that the tracker covers and that 48 address bits can reach.\<close>

definition page_range :: "mem_state \<Rightarrow> u64 \<Rightarrow> u64 \<Rightarrow> bool" where
  "page_range ms a byte_size \<longleftrightarrow>
     unat a mod 4096 = 0 \<and> unat byte_size mod 4096 = 0 \<and> byte_size \<noteq> 0 \<and>
     unat a + unat byte_size < 2 ^ 48 \<and> a + byte_size \<le> highest_address ms"

definition in_range :: "u64 \<Rightarrow> u64 \<Rightarrow> u64 \<Rightarrow> bool" where
  "in_range a start byte_size \<longleftrightarrow> (\<exists>k < unat byte_size div 4096. same_page a (page start k))"

text \<open>A tracker after its pages from a on have been tagged; reserved pages keep their state.\<close>

definition tracked :: "u64 \<Rightarrow> u64 \<Rightarrow> range_state \<Rightarrow> mem_state \<Rightarrow> mem_state \<Rightarrow> bool" where
  "tracked a byte_size st ms ms' \<longleftrightarrow>
     highest_address ms' = highest_address ms \<and>
     (\<forall>x < highest_address ms. GetPageState ms' x =
        (if a \<le> x \<and> x < a + byte_size \<and> GetPageState ms x \<noteq> Reserved then st
         else GetPageState ms x))"

lemma page_range_facts:
  assumes "page_range ms a n"
  shows "aligned a" "aligned (a + n)" "a < a + n" "n AND (PAGE_SIZE - 1) = 0"
    "unat (a + n) = unat a + unat n" "(n + (PAGE_SIZE - 1)) AND PAGE_MASK = n"
    "a + n = page a (unat n div 4096)" "4096 * (unat n div 4096) = unat n"
    "unat (n div PAGE_SIZE) = unat n div 4096"
proof -
  have r: "unat a mod 4096 = 0" "unat n mod 4096 = 0" "n \<noteq> 0" "unat a + unat n < 2 ^ 48"
    using assms by (auto simp: page_range_def)
  show sum: "unat (a + n) = unat a + unat n" using r(4) by (intro unat_add_no_wrap) simp
  show whole: "4096 * (unat n div 4096) = unat n" using r(2) by auto
  show "a + n = page a (unat n div 4096)" unfolding page_def whole by simp
  show "aligned a" unfolding aligned_def page_aligned_iff using r by simp
  have "(unat a + unat n) mod 4096 = 0" using r(1,2) by (simp add: mod_eq_0_iff_dvd)
  then show "aligned (a + n)" unfolding aligned_def page_aligned_iff sum using r by simp
  have "0 < unat n" using r(3) by (simp add: unat_gt_0)
  then show "a < a + n" using sum by (simp add: word_less_nat_alt)
  show "n AND (PAGE_SIZE - 1) = 0" unfolding page_offset_zero by (rule r(2))
  have "n AND PAGE_MASK = n" unfolding page_aligned_iff using r by simp
  have "n + (PAGE_SIZE - 1) = n OR (PAGE_SIZE - 1)"
    using \<open>n AND (PAGE_SIZE - 1) = 0\<close> by (rule disjunctive_add_eq_or)
  then have "(n + (PAGE_SIZE - 1)) AND PAGE_MASK = (n AND PAGE_MASK) OR ((PAGE_SIZE - 1) AND PAGE_MASK)"
    by (simp only: bit.conj_disj_distrib2)
  then show "(n + (PAGE_SIZE - 1)) AND PAGE_MASK = n"
    using \<open>n AND PAGE_MASK = n\<close> by (simp add: PAGE_SIZE_def PAGE_MASK_def)
  show "unat (n div PAGE_SIZE) = unat n div 4096" by (simp add: unat_div PAGE_SIZE_def)
qed

lemma manager_okD:
  assumes "manager_ok s k n"
  shows "mem_ok (PhysicalMemoryState s)" "mem_ok (VirtualMemoryState s)" "tables_ok (Heap s) (PML4 s)"
  using assms by (auto simp: manager_ok_def paging_ok_def)

lemma TagRange_tracked:
  assumes "mem_ok ms" and "tree_room ms (Suc k)" and r: "page_range ms a n" and "st \<noteq> Branch"
  shows "\<exists>ms'. TagRange a (a + n) st ms = Inr ms' \<and> mem_ok ms' \<and> tree_room ms' k \<and> tracked a n st ms ms'"
proof -
  have "a + n \<le> highest_address ms" using r by (simp add: page_range_def)
  from tracker.tag_law [OF assms(1,2) page_range_facts(3) [OF r] this page_range_facts(1,2) [OF r] assms(4)]
  show ?thesis by (auto simp: tracked_def retag_def)
qed

lemma MapPages_core:
  assumes ok: "manager_ok s (Suc k) m" and room: "3 * (unat byte_size div 4096) \<le> m"
    and va: "page_range (VirtualMemoryState s) va byte_size"
    and pa: "page_range (PhysicalMemoryState s) pa byte_size" and st: "st \<noteq> Branch"
  shows "\<exists>s'. MapPages (GetPML4FreePage depth rpmalloc) va pa byte_size writable executable level st flags s = Inr s'
    \<and> manager_ok s' k (m - 3 * (unat byte_size div 4096))
    \<and> mapped (unat byte_size div 4096) va pa (new_entry st writable executable level flags)
        (pte (Heap s) (PML4 s)) (pte (Heap s') (PML4 s'))
    \<and> tracked pa byte_size st (PhysicalMemoryState s) (PhysicalMemoryState s')
    \<and> tracked va byte_size st (VirtualMemoryState s) (VirtualMemoryState s')
    \<and> Invalidated s' = (if PML4Set s then rev (map (page va) [0 ..< unat byte_size div 4096]) else [])
        @ Invalidated s
    \<and> PML4 s' = PML4 s \<and> CR3 s' = CR3 s \<and> PML4Set s' = PML4Set s"
proof -
  let ?n = "unat byte_size div 4096"
  let ?get = "GetPML4FreePage depth rpmalloc"
  note vf = page_range_facts [OF va] and pf = page_range_facts [OF pa]
  obtain fs where fs: "paging_ok s fs" "m \<le> length fs" using ok by (auto simp: manager_ok_def)
  obtain phys where phys: "TagRange pa (pa + byte_size) st (PhysicalMemoryState s) = Inr phys"
    "mem_ok phys" "tree_room phys k" "tracked pa byte_size st (PhysicalMemoryState s) phys"
    using TagRange_tracked [OF _ _ pa st] ok by (auto simp: manager_ok_def)
  obtain virt where virt: "TagRange va (va + byte_size) st (VirtualMemoryState s) = Inr virt"
    "mem_ok virt" "tree_room virt k" "tracked va byte_size st (VirtualMemoryState s) virt"
    using TagRange_tracked [OF _ _ va st] ok by (auto simp: manager_ok_def)
  let ?s = "s\<lparr>PhysicalMemoryState := phys, VirtualMemoryState := virt\<rparr>"
  have ok1: "paging_ok ?s fs" using fs(1) by (simp add: paging_ok_def)
  have r: "unat va mod 4096 = 0" "unat pa mod 4096 = 0"
    "unat va + unat byte_size < 2 ^ 48" "unat pa + unat byte_size < 2 ^ 48"
    using va pa by (auto simp: page_range_def)
  have bounds: "3 * ?n \<le> length fs" "unat va + 4096 * ?n \<le> 2 ^ 48" "unat pa + 4096 * ?n \<le> 2 ^ 48"
    using fs(2) room r(3,4) unfolding vf(8) by simp_all
  from pages.map_loop_ok [OF ok1 bounds(1) r(1,2) bounds(2,3) vf(7),
      of depth rpmalloc writable executable level st flags]
  obtain s' fs' where s': "map_loop ?n ?get va (va + byte_size) pa writable executable level st flags ?s = Inr s'"
    "paging_ok s' fs'" "length fs \<le> length fs' + 3 * ?n"
    "s' = ?s\<lparr>Heap := Heap s', PagingFreePageHead := PagingFreePageHead s', Invalidated := Invalidated s'\<rparr>"
    "Invalidated s' = (if PML4Set ?s then rev (map (page va) [0 ..< ?n]) else []) @ Invalidated ?s"
    "mapped ?n va pa (new_entry st writable executable level flags)
        (pte (Heap ?s) (PML4 ?s)) (pte (Heap s') (PML4 ?s))"
    by blast
  have fields: "PhysicalMemoryState s' = phys" "VirtualMemoryState s' = virt" "PML4 s' = PML4 s"
    "CR3 s' = CR3 s" "PML4Set s' = PML4Set s"
    by (subst s'(4), simp)+
  have "MapPages ?get va pa byte_size writable executable level st flags s = Inr s'"
    using s'(1) phys(1) virt(1) vf pf by (simp add: MapPages_def aligned_def Let_def)
  moreover have "manager_ok s' k (m - 3 * ?n)"
    using s'(2,3) fs(2) phys(2,3) virt(2,3) by (auto simp: manager_ok_def fields intro!: exI [of _ fs'])
  ultimately show ?thesis
    using s'(5,6) phys(4) virt(4) fields by (intro exI [of _ s']) simp
qed

text \<open>The translation of an address, by page table entries.\<close>

definition translation :: "u64 \<Rightarrow> u64 \<Rightarrow> u64" where
  "translation e va =
     (if e AND PRESENT = 0 then INVALID_ADDRESS else (e AND PML4AddressMask) + (va AND (PAGE_SIZE - 1)))"

lemma GetPhysicalAddress_translation:
  "manager_ok s k n \<Longrightarrow>
   GetPhysicalAddress va False s = Inr (translation (pte (Heap s) (PML4 s) va) va)"
  using GetPhysicalAddress_pte [OF manager_okD(3)] by (simp add: translation_def)

lemma new_entry_translation:
  assumes "pa AND PAGE_MASK = pa"
  shows "translation (new_entry st w x l f old pa) va =
    (if st = Free then INVALID_ADDRESS else pa + (va AND (PAGE_SIZE - 1)))"
proof -
  have "pa AND PRESENT = pa AND (PAGE_MASK AND PRESENT)" using assms by (metis and.assoc)
  then have "pa AND PRESENT = 0" by (simp add: PAGE_MASK_def PRESENT_def)
  then show ?thesis
    using page_entry_bits [OF assms] by (simp add: translation_def new_entry_def)
qed

section \<open>Allocating\<close>

text \<open>The processor walks the tables of the kernel, and both spaces end below 48 bits.\<close>

definition live_ok :: "paging \<Rightarrow> bool" where
  "live_ok s \<longleftrightarrow> CR3 s AND PML4AddressMask = PML4 s
     \<and> highest_address (PhysicalMemoryState s) \<le> PAGE_MASK
     \<and> highest_address (VirtualMemoryState s) \<le> PAGE_MASK"

lemma GetPhysicalAddress_live:
  "CR3 s AND PML4AddressMask = PML4 s \<Longrightarrow> GetPhysicalAddress va True s = GetPhysicalAddress va False s"
  by (simp add: GetPhysicalAddress_def)

lemma found_page_range:
  assumes ok: "mem_ok ms" and f: "FindMinimumSizeFreeBlock ms n = Inr r" "r \<noteq> 0"
    and n: "unat n mod 4096 = 0" "n \<noteq> 0" and h: "highest_address ms \<le> PAGE_MASK"
  shows "page_range ms r n" and "\<forall>a. r \<le> a \<and> a < r + n \<longrightarrow> GetPageState ms a = Free"
proof -
  have r: "aligned r" "r \<le> r + n" "r + n \<le> highest_address ms"
    "\<forall>a. r \<le> a \<and> a < r + n \<longrightarrow> GetPageState ms a = Free"
    using tracker.search_law [OF ok, of n] f by auto
  then have "unat (r + n) = unat r + unat n" by (simp only: unat_plus_simple)
  moreover have "unat (r + n) \<le> unat PAGE_MASK" using r(3) h by (simp add: word_le_nat_alt)
  ultimately have "unat r + unat n < 2 ^ 48" by (simp add: PAGE_MASK_def)
  moreover have "unat r mod 4096 = 0" using r(1) page_aligned_iff [of r] by (simp add: aligned_def)
  ultimately show "page_range ms r n" using n r(3) by (simp add: page_range_def)
  show "\<forall>a. r \<le> a \<and> a < r + n \<longrightarrow> GetPageState ms a = Free" by (rule r(4))
qed

lemma in_first_page: "page_range ms va n \<Longrightarrow> 0 < unat n div 4096"
  using page_range_facts(8) [of ms va n] by (auto simp: page_range_def unat_eq_zero intro!: gr0I)

lemma VirtualAlloc_core:
  assumes ok: "manager_ok s (Suc k) m" and room: "3 * (unat n div 4096) \<le> m" and live: "live_ok s"
    and pa: "FindMinimumSizeFreeBlock (PhysicalMemoryState s) n = Inr pa" "pa \<noteq> 0"
    and va: "FindMinimumSizeFreeBlock (VirtualMemoryState s) n = Inr va" "va \<noteq> 0"
    and n: "unat n mod 4096 = 0" "n \<noteq> 0"
  shows "\<exists>s'. VirtualAlloc (GetPML4FreePage depth rpmalloc) n level flags s = Inr (va, s')
    \<and> MapPages (GetPML4FreePage depth rpmalloc) va pa n True False level Used flags s = Inr s'
    \<and> manager_ok s' k (m - 3 * (unat n div 4096)) \<and> live_ok s'
    \<and> (\<forall>i < unat n div 4096. \<forall>a. same_page a (page va i) \<longrightarrow>
         GetPhysicalAddress a True s' = Inr (page pa i + (a AND (PAGE_SIZE - 1))))
    \<and> (\<forall>a. \<not> in_range a va n \<longrightarrow> GetPhysicalAddress a True s' = GetPhysicalAddress a True s)
    \<and> tracked pa n Used (PhysicalMemoryState s) (PhysicalMemoryState s')
    \<and> tracked va n Used (VirtualMemoryState s) (VirtualMemoryState s')
    \<and> page_range (VirtualMemoryState s) va n \<and> page_range (PhysicalMemoryState s) pa n"
proof -
  have lv: "CR3 s AND PML4AddressMask = PML4 s" using live by (simp add: live_ok_def)
  have vr: "page_range (VirtualMemoryState s) va n" and pr: "page_range (PhysicalMemoryState s) pa n"
    using found_page_range(1) [OF _ va n] found_page_range(1) [OF _ pa n] manager_okD [OF ok] live
    by (auto simp: live_ok_def)
  from MapPages_core [OF ok room vr pr, of Used depth rpmalloc True False level flags] obtain s' where s':
    "MapPages (GetPML4FreePage depth rpmalloc) va pa n True False level Used flags s = Inr s'"
    "manager_ok s' k (m - 3 * (unat n div 4096))"
    and m: "mapped (unat n div 4096) va pa (new_entry Used True False level flags)
        (pte (Heap s) (PML4 s)) (pte (Heap s') (PML4 s'))"
    and t: "tracked pa n Used (PhysicalMemoryState s) (PhysicalMemoryState s')"
      "tracked va n Used (VirtualMemoryState s) (VirtualMemoryState s')"
    and same: "PML4 s' = PML4 s" "CR3 s' = CR3 s"
    by auto
  have lv': "CR3 s' AND PML4AddressMask = PML4 s'" using lv same by simp
  have "live_ok s'" using live t lv' by (simp add: live_ok_def tracked_def)
  have al: "page pa i AND PAGE_MASK = page pa i" if "i < unat n div 4096" for i
    using pr that page_range_facts(8) [OF pr]
    by (intro page_aligned [of pa "unat n div 4096"]) (auto simp: page_range_def)
  have hit: "GetPhysicalAddress a True s' = Inr (page pa i + (a AND (PAGE_SIZE - 1)))"
    if "i < unat n div 4096" "same_page a (page va i)" for i a
    using m that new_entry_translation [OF al [OF that(1)]]
    by (simp add: GetPhysicalAddress_live [OF lv'] GetPhysicalAddress_translation [OF s'(2)] mapped_def)
  have miss: "GetPhysicalAddress a True s' = GetPhysicalAddress a True s" if "\<not> in_range a va n" for a
    using m that
    by (simp add: GetPhysicalAddress_live [OF lv'] GetPhysicalAddress_live [OF lv]
        GetPhysicalAddress_translation [OF s'(2)] GetPhysicalAddress_translation [OF ok] mapped_def in_range_def)
  have "va AND (PAGE_SIZE - 1) = 0"
    using vr unfolding page_offset_zero by (simp add: page_range_def)
  then have "GetPhysicalAddress va True s' = Inr pa"
    using hit [OF in_first_page [OF vr], of va] by (simp add: same_page_def)
  moreover have "pa \<noteq> INVALID_ADDRESS"
  proof
    assume "pa = INVALID_ADDRESS"
    then show False
      using page_range_facts(1) [OF pr] by (simp add: aligned_def INVALID_ADDRESS_def PAGE_MASK_def)
  qed
  ultimately have "store_through va s' = Inr s'" by (simp add: store_through_def)
  then have "VirtualAlloc (GetPML4FreePage depth rpmalloc) n level flags s = Inr (va, s')"
    using pa va s'(1) by (simp add: VirtualAlloc_def)
  then show ?thesis using s' t hit miss vr pr \<open>live_ok s'\<close> by blast
qed

end
