(* ===== verification/MemoryManager.thy ===== *)
theory MemoryManager
  imports MappingCorrect
begin

text \<open>
  The properties of the memory manager as its callers see it: the list of free paging
  structure pages, mapping, and allocating, freeing and protecting ranges of pages.
\<close>

section \<open>A small machine\<close>

text \<open>
  The state that the witnesses use: 1 MiB of physical and of virtual memory whose first page
  is in use, an empty root table and the static pages above.
\<close>

definition demo_boot :: paging where
  "demo_boot = \<lparr>Heap = [0x100000 \<mapsto> empty_table], PML4 = 0x100000,
     InitialPageTableEntries = 0x200000, PagingFreePageHead = 0,
     NextFreePageTableEntriesBlock = 0, PhysicalMemoryState = demo_used,
     VirtualMemoryState = demo_used, CR3 = 0x100000, PML4Set = True, Invalidated = []\<rparr>"

definition demo_rpmalloc :: rpmalloc where
  "demo_rpmalloc s = Inr (False, s)"

definition demo_manager :: paging where
  "demo_manager = (case PreparePML4FreeList 0x200000 demo_boot of Inr s \<Rightarrow> s | Inl _ \<Rightarrow> demo_boot)"

lemma demo_boot_state: "boot_state demo_boot"
proof -
  have "0x100000 \<noteq> page 0x200000 k" if "k < 2048" for k
  proof
    assume "0x100000 = page 0x200000 k"
    then have "unat (0x100000 :: u64) = unat (0x200000 :: u64) + 4096 * k"
      using that unat_page [of "0x200000" 2048 k] by simp
    then show False by simp
  qed
  then show ?thesis by (auto simp: boot_state_def demo_boot_def)
qed

lemma demo_manager_boot:
  "demo_manager = demo_boot\<lparr>Heap := Heap demo_manager, PagingFreePageHead := PagingFreePageHead demo_manager\<rparr>"
  "paging_ok demo_manager (map (page 0x200000) [0 ..< 2048])"
  "pte (Heap demo_manager) (PML4 demo_manager) va = 0"
  using PreparePML4FreeList_ok [OF demo_boot_state]
  by (auto simp: demo_manager_def demo_boot_def simp del: upt_Suc)

lemma demo_manager_fields:
  "PML4 demo_manager = 0x100000" "CR3 demo_manager = 0x100000" "PML4Set demo_manager"
  "PhysicalMemoryState demo_manager = demo_used" "VirtualMemoryState demo_manager = demo_used"
  by (subst demo_manager_boot(1), simp add: demo_boot_def)+

lemma demo_used_highest: "highest_address demo_used = 0x100000"
  by (simp add: demo_used_def demo_tracker_ok)

lemma demo_manager_ok: "manager_ok demo_manager 10 2048" "live_ok demo_manager"
proof -
  have "\<exists>fs. paging_ok demo_manager fs \<and> 2048 \<le> length fs"
    by (rule exI, rule conjI, rule demo_manager_boot(2)) simp
  then show "manager_ok demo_manager 10 2048"
    using demo_used_ok by (simp add: manager_ok_def demo_manager_fields tree_room_def)
  show "live_ok demo_manager"
    by (simp add: live_ok_def demo_manager_fields demo_used_highest PML4AddressMask_def PAGE_MASK_def)
qed

section \<open>Properties\<close>

text \<open>
  C7: mapping a range of whole pages, with at least three free paging structure pages for
  each page, returns, keeps the memory manager consistent and does exactly what it should:
  every address of the range translates to the same offset in the physical range, or to
  nothing when the range is freed, every other address translates as before, and both
  trackers record the new state for the range and nothing else.
\<close>

theorem MapPages_correct:
  assumes "manager_ok s (Suc k) m" and "3 * (unat byte_size div 4096) \<le> m"
    and "page_range (VirtualMemoryState s) va byte_size"
    and "page_range (PhysicalMemoryState s) pa byte_size" and "st \<noteq> Branch"
  shows "\<exists>s'. MapPages (GetPML4FreePage depth rpmalloc) va pa byte_size writable executable level st flags s = Inr s'
    \<and> manager_ok s' k (m - 3 * (unat byte_size div 4096))
    \<and> (\<forall>i < unat byte_size div 4096. \<forall>a. same_page a (page va i) \<longrightarrow>
         GetPhysicalAddress a False s' =
           Inr (if st = Free then INVALID_ADDRESS else page pa i + (a AND (PAGE_SIZE - 1))))
    \<and> (\<forall>a. \<not> in_range a va byte_size \<longrightarrow> GetPhysicalAddress a False s' = GetPhysicalAddress a False s)
    \<and> tracked pa byte_size st (PhysicalMemoryState s) (PhysicalMemoryState s')
    \<and> tracked va byte_size st (VirtualMemoryState s) (VirtualMemoryState s')"
proof -
  from MapPages_core [OF assms] obtain s' where s':
    "MapPages (GetPML4FreePage depth rpmalloc) va pa byte_size writable executable level st flags s = Inr s'"
    "manager_ok s' k (m - 3 * (unat byte_size div 4096))"
    and m: "mapped (unat byte_size div 4096) va pa (new_entry st writable executable level flags)
        (pte (Heap s) (PML4 s)) (pte (Heap s') (PML4 s'))"
    and t: "tracked pa byte_size st (PhysicalMemoryState s) (PhysicalMemoryState s')"
      "tracked va byte_size st (VirtualMemoryState s) (VirtualMemoryState s')"
    by blast
  have pa: "page pa i AND PAGE_MASK = page pa i" if "i < unat byte_size div 4096" for i
    using assms(4) that page_range_facts(8) [OF assms(4)]
    by (intro page_aligned [of pa "unat byte_size div 4096"]) (auto simp: page_range_def)
  show ?thesis
    using s' m t new_entry_translation [OF pa]
    by (intro exI [of _ s'])
      (auto simp: GetPhysicalAddress_translation [OF assms(1)] GetPhysicalAddress_translation [OF s'(2)]
        mapped_def in_range_def)
qed

lemma in_range_two: "in_range a v 0x2000 \<longleftrightarrow> same_page a v \<or> same_page a (page v 1)"
proof -
  have "(\<exists>k < 2. P k) \<longleftrightarrow> P 0 \<or> P (1 :: nat)" for P
    by (metis One_nat_def less_2_cases_iff)
  then show ?thesis by (simp add: in_range_def)
qed

lemma demo_range: "page_range demo_used 0x5000 0x2000" "page_range demo_used 0x8000 0x2000"
  by (simp_all add: page_range_def demo_used_highest)

theorem MapPages_correct_witness:
  "\<exists>s'. MapPages (GetPML4FreePage 1 demo_rpmalloc) 0x5000 0x8000 0x2000 True False User Used PageFlags_None demo_manager = Inr s'
    \<and> GetPhysicalAddress 0x6123 False s' = Inr 0x9123
    \<and> GetPhysicalAddress 0x7000 False s' = Inr INVALID_ADDRESS"
proof -
  have r: "page_range (VirtualMemoryState demo_manager) 0x5000 0x2000"
    "page_range (PhysicalMemoryState demo_manager) 0x8000 0x2000"
    by (simp_all only: demo_manager_fields demo_range)
  have ok: "manager_ok demo_manager (Suc 9) 2048" using demo_manager_ok(1) by simp
  have n: "3 * (unat (0x2000 :: u64) div 4096) \<le> 2048" by simp
  from MapPages_correct [OF ok n r, of Used 1 demo_rpmalloc True False User PageFlags_None] obtain s' where s':
    "MapPages (GetPML4FreePage 1 demo_rpmalloc) 0x5000 0x8000 0x2000 True False User Used PageFlags_None demo_manager = Inr s'"
    "\<forall>i < unat (0x2000 :: u64) div 4096. \<forall>a. same_page a (page 0x5000 i) \<longrightarrow>
         GetPhysicalAddress a False s' = Inr (page 0x8000 i + (a AND (PAGE_SIZE - 1)))"
    "\<forall>a. \<not> in_range a 0x5000 0x2000 \<longrightarrow> GetPhysicalAddress a False s' = GetPhysicalAddress a False demo_manager"
    by auto
  have "same_page 0x6123 (page 0x5000 1)" by (simp add: same_page_def page_def PAGE_MASK_def)
  then have hit: "GetPhysicalAddress 0x6123 False s' = Inr 0x9123"
    using s'(2) [rule_format, of 1 "0x6123"] by (simp add: page_def PAGE_SIZE_def)
  have "\<not> in_range 0x7000 0x5000 0x2000"
    by (simp add: in_range_two same_page_def page_def PAGE_MASK_def)
  then have miss: "GetPhysicalAddress 0x7000 False s' = Inr INVALID_ADDRESS"
    using s'(3) GetPhysicalAddress_translation [OF ok, of "0x7000"] demo_manager_boot(3)
    by (simp add: translation_def)
  show ?thesis using s'(1) hit miss by blast
qed

text \<open>
  C8: the permissions of a mapped page: it is writable exactly as asked, the user may use it
  if asked or if it was mapped for the user before and the level is kept, and freeing leaves
  an entry that is not present.
\<close>

theorem MapPages_permissions:
  assumes "manager_ok s (Suc k) m" and "3 * (unat byte_size div 4096) \<le> m"
    and "page_range (VirtualMemoryState s) va byte_size"
    and "page_range (PhysicalMemoryState s) pa byte_size" and "st \<noteq> Branch"
    and "MapPages (GetPML4FreePage depth rpmalloc) va pa byte_size writable executable level st flags s = Inr s'"
    and "in_range a va byte_size"
  shows "(pte (Heap s') (PML4 s') a AND PRESENT \<noteq> 0 \<longleftrightarrow> st \<noteq> Free)
    \<and> (st \<noteq> Free \<longrightarrow>
        (pte (Heap s') (PML4 s') a AND WRITABLE \<noteq> 0 \<longleftrightarrow> writable) \<and>
        (pte (Heap s') (PML4 s') a AND USER_CPL \<noteq> 0 \<longleftrightarrow>
           level = User \<or> level = Keep \<and> pte (Heap s) (PML4 s) a AND PRESENT \<noteq> 0
             \<and> pte (Heap s) (PML4 s) a AND USER_CPL \<noteq> 0))"
proof -
  obtain i where i: "i < unat byte_size div 4096" "same_page a (page va i)"
    using assms(7) by (auto simp: in_range_def)
  have pa: "page pa i AND PAGE_MASK = page pa i"
    using assms(4) i page_range_facts(8) [OF assms(4)]
    by (intro page_aligned [of pa "unat byte_size div 4096"]) (auto simp: page_range_def)
  have "mapped (unat byte_size div 4096) va pa (new_entry st writable executable level flags)
        (pte (Heap s) (PML4 s)) (pte (Heap s') (PML4 s'))"
    using MapPages_core [OF assms(1-5), of depth rpmalloc writable executable level flags] assms(6) by auto
  then have e: "pte (Heap s') (PML4 s') a
      = new_entry st writable executable level flags (pte (Heap s) (PML4 s) a) (page pa i)"
    using i by (simp add: mapped_def)
  have "page pa i AND PRESENT = page pa i AND (PAGE_MASK AND PRESENT)" using pa by (metis and.assoc)
  then have "page pa i AND PRESENT = 0" by (simp add: PAGE_MASK_def PRESENT_def)
  then show ?thesis
    using page_entry_bits(1) [OF pa] page_entry_flags [OF pa] by (simp add: e new_entry_def)
qed

theorem MapPages_permissions_witness:
  "\<exists>s'. MapPages (GetPML4FreePage 1 demo_rpmalloc) 0x5000 0x8000 0x2000 False False User Used PageFlags_None demo_manager = Inr s'
    \<and> pte (Heap s') (PML4 s') 0x6123 AND WRITABLE = 0 \<and> pte (Heap s') (PML4 s') 0x6123 AND USER_CPL \<noteq> 0"
proof -
  have r: "page_range (VirtualMemoryState demo_manager) 0x5000 0x2000"
    "page_range (PhysicalMemoryState demo_manager) 0x8000 0x2000"
    by (simp_all only: demo_manager_fields demo_range)
  have ok: "manager_ok demo_manager (Suc 9) 2048" using demo_manager_ok(1) by simp
  have n: "3 * (unat (0x2000 :: u64) div 4096) \<le> 2048" by simp
  have i: "in_range 0x6123 0x5000 0x2000"
    by (simp add: in_range_two same_page_def page_def PAGE_MASK_def)
  obtain s' where
    "MapPages (GetPML4FreePage 1 demo_rpmalloc) 0x5000 0x8000 0x2000 False False User Used PageFlags_None demo_manager = Inr s'"
    using MapPages_core [OF ok n r, of Used 1 demo_rpmalloc False False User PageFlags_None] by auto
  with MapPages_permissions [OF ok n r _ this i] show ?thesis by auto
qed

text \<open>
  Linking the static pages succeeds and gives a list of exactly these 2048 pages, in
  ascending order and without repetition, none of which is in use as a table, while nothing is
  mapped yet.
\<close>

theorem PreparePML4FreeList_correct:
  assumes "boot_state s"
  shows "\<exists>s'. PreparePML4FreeList (InitialPageTableEntries s) s = Inr s'
    \<and> paging_ok s' (map (page (InitialPageTableEntries s)) [0 ..< 2048])
    \<and> (\<forall>va. GetPhysicalAddress va False s' = Inr INVALID_ADDRESS)"
proof -
  from PreparePML4FreeList_ok [OF assms] obtain s' where s':
    "PreparePML4FreeList (InitialPageTableEntries s) s = Inr s'"
    "paging_ok s' (map (page (InitialPageTableEntries s)) [0 ..< 2048])"
    "\<forall>va. pte (Heap s') (PML4 s') va = 0"
    by blast
  have "tables_ok (Heap s') (PML4 s')" using s'(2) by (simp add: paging_ok_def)
  then show ?thesis using s' GetPhysicalAddress_pte [of s'] by (intro exI [of _ s']) simp
qed

theorem PreparePML4FreeList_correct_witness:
  "\<exists>s'. PreparePML4FreeList 0x200000 demo_boot = Inr s' \<and> GetPhysicalAddress 0x5000 False s' = Inr INVALID_ADDRESS"
  using PreparePML4FreeList_correct [OF demo_boot_state] by (auto simp: demo_boot_def)

text \<open>
  C9: an allocation for which both trackers have room returns the first virtual block that
  fits, backed page by page by the first physical block that fits; the pages of both were free
  and are in use afterwards, and nothing else changes: every other page keeps its state and
  every other address its translation.
\<close>

theorem VirtualAlloc_correct:
  assumes "manager_ok s (Suc k) m" and "3 * (unat n div 4096) \<le> m" and "live_ok s"
    and "FindMinimumSizeFreeBlock (PhysicalMemoryState s) n = Inr pa" and "pa \<noteq> 0"
    and "FindMinimumSizeFreeBlock (VirtualMemoryState s) n = Inr va" and "va \<noteq> 0"
    and "unat n mod 4096 = 0" and "n \<noteq> 0"
  shows "\<exists>s'. VirtualAlloc (GetPML4FreePage depth rpmalloc) n level flags s = Inr (va, s')
    \<and> manager_ok s' k (m - 3 * (unat n div 4096)) \<and> live_ok s'
    \<and> (\<forall>i < unat n div 4096. \<forall>a. same_page a (page va i) \<longrightarrow>
         GetPhysicalAddress a True s' = Inr (page pa i + (a AND (PAGE_SIZE - 1))))
    \<and> (\<forall>a. \<not> in_range a va n \<longrightarrow> GetPhysicalAddress a True s' = GetPhysicalAddress a True s)
    \<and> (\<forall>a < highest_address (VirtualMemoryState s).
         GetPageState (VirtualMemoryState s') a =
           (if va \<le> a \<and> a < va + n then Used else GetPageState (VirtualMemoryState s) a)
         \<and> (va \<le> a \<and> a < va + n \<longrightarrow> GetPageState (VirtualMemoryState s) a = Free))
    \<and> (\<forall>a < highest_address (PhysicalMemoryState s).
         GetPageState (PhysicalMemoryState s') a =
           (if pa \<le> a \<and> a < pa + n then Used else GetPageState (PhysicalMemoryState s) a)
         \<and> (pa \<le> a \<and> a < pa + n \<longrightarrow> GetPageState (PhysicalMemoryState s) a = Free))"
proof -
  have free: "\<forall>a. va \<le> a \<and> a < va + n \<longrightarrow> GetPageState (VirtualMemoryState s) a = Free"
    "\<forall>a. pa \<le> a \<and> a < pa + n \<longrightarrow> GetPageState (PhysicalMemoryState s) a = Free"
    using found_page_range(2) [OF manager_okD(2) [OF assms(1)] assms(6-9)]
      found_page_range(2) [OF manager_okD(1) [OF assms(1)] assms(4,5,8,9)] assms(3)
    by (auto simp: live_ok_def)
  from VirtualAlloc_core [OF assms, of depth rpmalloc level flags] show ?thesis
    using free by (auto simp: tracked_def)
qed

theorem VirtualAlloc_correct_witness:
  "\<exists>s'. VirtualAlloc (GetPML4FreePage 1 demo_rpmalloc) 0x2000 Kernel PageFlags_None demo_manager = Inr (0x1000, s')
    \<and> GetPhysicalAddress 0x2042 True s' = Inr 0x2042"
proof -
  have ok: "manager_ok demo_manager (Suc 9) 2048" using demo_manager_ok(1) by simp
  have n: "3 * (unat (0x2000 :: u64) div 4096) \<le> 2048" "unat (0x2000 :: u64) mod 4096 = 0" by simp_all
  have f: "FindMinimumSizeFreeBlock (PhysicalMemoryState demo_manager) 0x2000 = Inr 0x1000"
    "FindMinimumSizeFreeBlock (VirtualMemoryState demo_manager) 0x2000 = Inr 0x1000"
    by (simp_all only: demo_manager_fields demo_used_find)
  from VirtualAlloc_correct [OF ok n(1) demo_manager_ok(2) f(1) _ f(2) _ n(2), of 1 demo_rpmalloc Kernel PageFlags_None]
  obtain s' where s': "VirtualAlloc (GetPML4FreePage 1 demo_rpmalloc) 0x2000 Kernel PageFlags_None demo_manager = Inr (0x1000, s')"
    and t: "\<forall>i < unat (0x2000 :: u64) div 4096. \<forall>a. same_page a (page 0x1000 i) \<longrightarrow>
         GetPhysicalAddress a True s' = Inr (page 0x1000 i + (a AND (PAGE_SIZE - 1)))"
    by auto
  have "same_page 0x2042 (page 0x1000 1)" by (simp add: same_page_def page_def PAGE_MASK_def)
  then have "GetPhysicalAddress 0x2042 True s' = Inr 0x2042"
    using t [rule_format, of 1 "0x2042"] by (simp add: page_def PAGE_SIZE_def)
  with s' show ?thesis by blast
qed

lemma VirtualFree_core:
  assumes ok: "manager_ok s (Suc k) m" and room: "3 * (unat n div 4096) \<le> m" and live: "live_ok s"
    and va: "page_range (VirtualMemoryState s) va n" and pa: "page_range (PhysicalMemoryState s) pa n"
    and hit: "\<forall>i < unat n div 4096. \<forall>a. same_page a (page va i) \<longrightarrow>
      GetPhysicalAddress a True s = Inr (page pa i + (a AND (PAGE_SIZE - 1)))"
  shows "\<exists>s'. VirtualFree (GetPML4FreePage depth rpmalloc) va n s = Inr (True, s')
    \<and> (\<forall>a. GetPhysicalAddress a True s' =
          (if in_range a va n then Inr INVALID_ADDRESS else GetPhysicalAddress a True s))
    \<and> tracked pa n Free (PhysicalMemoryState s) (PhysicalMemoryState s')
    \<and> tracked va n Free (VirtualMemoryState s) (VirtualMemoryState s')"
proof -
  let ?n = "unat n div 4096"
  from MapPages_core [OF ok room va pa, of Free depth rpmalloc False False Kernel PageFlags_None]
  obtain s' where s': "MapPages (GetPML4FreePage depth rpmalloc) va pa n False False Kernel Free PageFlags_None s = Inr s'"
    "manager_ok s' k (m - 3 * ?n)"
    and m: "mapped ?n va pa (new_entry Free False False Kernel PageFlags_None)
        (pte (Heap s) (PML4 s)) (pte (Heap s') (PML4 s'))"
    and t: "tracked pa n Free (PhysicalMemoryState s) (PhysicalMemoryState s')"
      "tracked va n Free (VirtualMemoryState s) (VirtualMemoryState s')"
    and same: "PML4 s' = PML4 s" "CR3 s' = CR3 s"
    by auto
  have "va AND (PAGE_SIZE - 1) = 0"
    using va unfolding page_offset_zero by (simp add: page_range_def)
  then have "GetPhysicalAddress va True s = Inr pa"
    using hit in_first_page [OF va] by (auto simp: same_page_def dest!: spec [of _ 0])
  then have run: "VirtualFree (GetPML4FreePage depth rpmalloc) va n s = Inr (True, s')"
    using s'(1) by (simp add: VirtualFree_def)
  have lv: "CR3 s AND PML4AddressMask = PML4 s" "CR3 s' AND PML4AddressMask = PML4 s'"
    using live same by (simp_all add: live_ok_def)
  note addr = GetPhysicalAddress_live [OF lv(1)] GetPhysicalAddress_live [OF lv(2)]
    GetPhysicalAddress_translation [OF ok] GetPhysicalAddress_translation [OF s'(2)]
  have gone: "GetPhysicalAddress a True s' = Inr INVALID_ADDRESS" if a: "in_range a va n" for a
  proof -
    obtain i where i: "i < ?n" "same_page a (page va i)" using a by (auto simp: in_range_def)
    have "page pa i AND PAGE_MASK = page pa i"
      using pa i page_range_facts(8) [OF pa]
      by (intro page_aligned [of pa ?n]) (auto simp: page_range_def)
    then show ?thesis
      using m i new_entry_translation [of "page pa i" Free] by (simp add: addr mapped_def)
  qed
  have "GetPhysicalAddress a True s' = GetPhysicalAddress a True s" if "\<not> in_range a va n" for a
    using m that by (simp add: addr mapped_def in_range_def)
  then show ?thesis using run gone t by auto
qed

lemma VirtualFree_after_VirtualAlloc:
  assumes "manager_ok s (Suc (Suc k)) m" and "6 * (unat n div 4096) \<le> m" and "live_ok s"
    and "FindMinimumSizeFreeBlock (PhysicalMemoryState s) n = Inr pa" and "pa \<noteq> 0"
    and "FindMinimumSizeFreeBlock (VirtualMemoryState s) n = Inr va" and "va \<noteq> 0"
    and "unat n mod 4096 = 0" and "n \<noteq> 0"
    and "VirtualAlloc (GetPML4FreePage depth rpmalloc) n level flags s = Inr (va, s')"
  shows "\<exists>s''. VirtualFree (GetPML4FreePage depth rpmalloc) va n s' = Inr (True, s'')
    \<and> (\<forall>a. GetPhysicalAddress a True s'' =
          (if in_range a va n then Inr INVALID_ADDRESS else GetPhysicalAddress a True s))
    \<and> (\<forall>a < highest_address (VirtualMemoryState s).
         GetPageState (VirtualMemoryState s'') a = GetPageState (VirtualMemoryState s) a)
    \<and> (\<forall>a < highest_address (PhysicalMemoryState s).
         GetPageState (PhysicalMemoryState s'') a = GetPageState (PhysicalMemoryState s) a)"
proof -
  have room: "3 * (unat n div 4096) \<le> m" "3 * (unat n div 4096) \<le> m - 3 * (unat n div 4096)"
    using assms(2) by simp_all
  note alloc = VirtualAlloc_core [OF assms(1) room(1) assms(3-9), of depth rpmalloc level flags]
  have ok': "manager_ok s' (Suc k) (m - 3 * (unat n div 4096))" and live': "live_ok s'"
    and hit: "\<forall>i < unat n div 4096. \<forall>a. same_page a (page va i) \<longrightarrow>
      GetPhysicalAddress a True s' = Inr (page pa i + (a AND (PAGE_SIZE - 1)))"
    and miss: "\<forall>a. \<not> in_range a va n \<longrightarrow> GetPhysicalAddress a True s' = GetPhysicalAddress a True s"
    and t': "tracked pa n Used (PhysicalMemoryState s) (PhysicalMemoryState s')"
      "tracked va n Used (VirtualMemoryState s) (VirtualMemoryState s')"
    and r: "page_range (VirtualMemoryState s) va n" "page_range (PhysicalMemoryState s) pa n"
    using alloc assms(10) by auto
  have r': "page_range (VirtualMemoryState s') va n" "page_range (PhysicalMemoryState s') pa n"
    using r t' by (auto simp: page_range_def tracked_def)
  have free: "\<forall>a. va \<le> a \<and> a < va + n \<longrightarrow> GetPageState (VirtualMemoryState s) a = Free"
    "\<forall>a. pa \<le> a \<and> a < pa + n \<longrightarrow> GetPageState (PhysicalMemoryState s) a = Free"
    using found_page_range(2) [OF manager_okD(2) [OF assms(1)] assms(6-9)]
      found_page_range(2) [OF manager_okD(1) [OF assms(1)] assms(4,5,8,9)] assms(3)
    by (auto simp: live_ok_def)
  from VirtualFree_core [OF ok' room(2) live' r' hit, of depth rpmalloc] show ?thesis
    using t' free miss by (auto simp: tracked_def)
qed

text \<open>
  C10: freeing what was just allocated undoes the allocation: it returns true, nothing
  translates in the range any more, every other address translates as before the allocation,
  and both trackers report the state that every page had before it.
\<close>

theorem VirtualFree_undoes_VirtualAlloc:
  assumes "manager_ok s (Suc (Suc k)) m" and "6 * (unat n div 4096) \<le> m" and "live_ok s"
    and "FindMinimumSizeFreeBlock (PhysicalMemoryState s) n = Inr pa" and "pa \<noteq> 0"
    and "FindMinimumSizeFreeBlock (VirtualMemoryState s) n = Inr va" and "va \<noteq> 0"
    and "unat n mod 4096 = 0" and "n \<noteq> 0"
    and "VirtualAlloc (GetPML4FreePage depth rpmalloc) n level flags s = Inr (va, s')"
  shows "\<exists>s''. VirtualFree (GetPML4FreePage depth rpmalloc) va n s' = Inr (True, s'')
    \<and> (\<forall>a. GetPhysicalAddress a True s'' =
          (if in_range a va n then Inr INVALID_ADDRESS else GetPhysicalAddress a True s))
    \<and> (\<forall>a < highest_address (VirtualMemoryState s).
         GetPageState (VirtualMemoryState s'') a = GetPageState (VirtualMemoryState s) a)
    \<and> (\<forall>a < highest_address (PhysicalMemoryState s).
         GetPageState (PhysicalMemoryState s'') a = GetPageState (PhysicalMemoryState s) a)"
  using assms by (rule VirtualFree_after_VirtualAlloc)

theorem VirtualFree_undoes_VirtualAlloc_witness:
  "\<exists>s' s''. VirtualAlloc (GetPML4FreePage 1 demo_rpmalloc) 0x2000 Kernel PageFlags_None demo_manager = Inr (0x1000, s')
    \<and> VirtualFree (GetPML4FreePage 1 demo_rpmalloc) 0x1000 0x2000 s' = Inr (True, s'')"
proof -
  have ok: "manager_ok demo_manager (Suc (Suc 8)) 2048" "manager_ok demo_manager (Suc 9) 2048"
    using demo_manager_ok(1) by simp_all
  have n: "3 * (unat (0x2000 :: u64) div 4096) \<le> 2048" "unat (0x2000 :: u64) mod 4096 = 0"
    "6 * (unat (0x2000 :: u64) div 4096) \<le> 2048" by simp_all
  have f: "FindMinimumSizeFreeBlock (PhysicalMemoryState demo_manager) 0x2000 = Inr 0x1000"
    "FindMinimumSizeFreeBlock (VirtualMemoryState demo_manager) 0x2000 = Inr 0x1000"
    by (simp_all only: demo_manager_fields demo_used_find)
  obtain s' where s': "VirtualAlloc (GetPML4FreePage 1 demo_rpmalloc) 0x2000 Kernel PageFlags_None demo_manager = Inr (0x1000, s')"
    using VirtualAlloc_core [OF ok(2) n(1) demo_manager_ok(2) f(1) _ f(2) _ n(2), of 1 demo_rpmalloc Kernel PageFlags_None] by auto
  with VirtualFree_undoes_VirtualAlloc [OF ok(1) n(3) demo_manager_ok(2) f(1) _ f(2) _ n(2) _ this]
  show ?thesis by auto
qed

text \<open>
  Freeing or protecting an address that is not mapped stops the machine: the lookup
  answers with the invalid address, which is no page address, and the mapping asserts.
\<close>

theorem VirtualFree_unmapped:
  assumes "GetPhysicalAddress va True s = Inr INVALID_ADDRESS" and "n AND (PAGE_SIZE - 1) = 0"
    and "va AND PAGE_MASK = va"
  shows "VirtualFree get va n s = Inl (AssertionFailed ''Physical address mismatch.'')
    \<and> VirtualProtect get va n protect flags level s = Inl (AssertionFailed ''Physical address mismatch.'')"
proof -
  have "INVALID_ADDRESS \<noteq> INVALID_ADDRESS AND PAGE_MASK"
    by (simp add: INVALID_ADDRESS_def PAGE_MASK_def)
  then show ?thesis
    using assms by (cases protect) (simp_all add: VirtualFree_def VirtualProtect_def MapPages_def Let_def)
qed

theorem VirtualFree_unmapped_witness:
  "VirtualFree (GetPML4FreePage 1 demo_rpmalloc) 0x5000 0x1000 demo_manager = Inl (AssertionFailed ''Physical address mismatch.'')"
proof -
  have "GetPhysicalAddress 0x5000 True demo_manager = Inr INVALID_ADDRESS"
    using GetPhysicalAddress_translation [OF demo_manager_ok(1), of "0x5000"] demo_manager_boot(3)
      GetPhysicalAddress_live [of demo_manager "0x5000"] demo_manager_ok(2)
    by (simp add: translation_def live_ok_def)
  then show ?thesis
    by (rule VirtualFree_unmapped [THEN conjunct1]) (simp_all add: PAGE_SIZE_def PAGE_MASK_def)
qed

end
