(* ===== verification/BootMap.thy ===== *)
theory BootMap
  imports VirtualMem
begin

text \<open>
  The part of \<^verbatim>\<open>src/kernel/memory/pml4.cpp\<close> that runs once at boot: building the page tables
  from the memory map of the firmware, and the memory check.  A descriptor of the memory map
  is a record; the constants of the UEFI headers are the constructors of
  \<^verbatim>\<open>efi_memory_type\<close>.  The printing of the map (\<^verbatim>\<open>PRINT_MEMORY_MAP\<close> is 0) and of the amount of
  memory is left out.
\<close>

section \<open>The boot data\<close>

datatype efi_memory_type =
    EfiReservedMemoryType | EfiLoaderCode | EfiLoaderData | EfiBootServicesCode
  | EfiBootServicesData | EfiRuntimeServicesCode | EfiRuntimeServicesData
  | EfiConventionalMemory | EfiUnusableMemory | EfiACPIReclaimMemory | EfiACPIMemoryNVS
  | EfiMemoryMappedIO | EfiMemoryMappedIOPortSpace | EfiPalCode | EfiPersistentMemory
  | EfiOtherType u32

definition EfiMemoryMapType_Kernel :: efi_memory_type where
  "EfiMemoryMapType_Kernel = EfiLoaderCode"

record efi_descriptor =
  Type :: efi_memory_type
  PhysicalStart :: u64
  VirtualStart :: u64
  NumberOfPages :: u64
  Attribute :: u64

record KernelMemoryLocation =
  LocVirtualStart :: u64
  LocPhysicalStart :: u64
  ByteSize :: u64

record KernelMemoryLayout =
  KernelBinary :: KernelMemoryLocation
  KernelStack :: KernelMemoryLocation
  KernelImage :: KernelMemoryLocation
  Framebuffer :: KernelMemoryLocation
  APBootstrap :: KernelMemoryLocation
  Tables :: KernelMemoryLocation
  Map :: "efi_descriptor list"

definition ENKEL_MEMORY_FLAG_STACK :: u64 where "ENKEL_MEMORY_FLAG_STACK = 0x100000"
definition ENKEL_MEMORY_FLAG_TABLES :: u64 where "ENKEL_MEMORY_FLAG_TABLES = 0x200000"
definition ENKEL_MEMORY_FLAG_BOOTSTRAP :: u64 where "ENKEL_MEMORY_FLAG_BOOTSTRAP = 0x400000"
definition ENKEL_MEMORY_FLAG_FRAMEBUFFER :: u64 where "ENKEL_MEMORY_FLAG_FRAMEBUFFER = 0x800000"
definition ENKEL_MEMORY_FLAG_BINARY :: u64 where "ENKEL_MEMORY_FLAG_BINARY = 0x1000000"
definition UEFI_MEMORY_RO :: u64 where "UEFI_MEMORY_RO = 0x20000"
definition UEFI_MEMORY_RUNTIME :: u64 where "UEFI_MEMORY_RUNTIME = 0x8000000000000000"

fun MemoryMapTypeToString :: "efi_memory_type \<Rightarrow> string" where
  "MemoryMapTypeToString EfiReservedMemoryType = ''EfiReservedMemoryType''"
| "MemoryMapTypeToString EfiLoaderCode = ''EfiLoaderCode''"
| "MemoryMapTypeToString EfiLoaderData = ''EfiLoaderData''"
| "MemoryMapTypeToString EfiBootServicesCode = ''EfiBootServicesCode''"
| "MemoryMapTypeToString EfiBootServicesData = ''EfiBootServicesData''"
| "MemoryMapTypeToString EfiRuntimeServicesCode = ''EfiRuntimeServicesCode''"
| "MemoryMapTypeToString EfiRuntimeServicesData = ''EfiRuntimeServicesData''"
| "MemoryMapTypeToString EfiConventionalMemory = ''EfiConventionalMemory''"
| "MemoryMapTypeToString EfiUnusableMemory = ''EfiUnusableMemory''"
| "MemoryMapTypeToString EfiACPIReclaimMemory = ''EfiACPIReclaimMemory''"
| "MemoryMapTypeToString EfiACPIMemoryNVS = ''EfiACPIMemoryNVS''"
| "MemoryMapTypeToString EfiMemoryMappedIO = ''EfiMemoryMappedIO''"
| "MemoryMapTypeToString EfiMemoryMappedIOPortSpace = ''EfiMemoryMappedIOPortSpace''"
| "MemoryMapTypeToString EfiPalCode = ''EfiPalCode''"
| "MemoryMapTypeToString EfiPersistentMemory = ''EfiPersistentMemory''"
| "MemoryMapTypeToString (EfiOtherType n) = ''EfiUnknown''"

section \<open>Building the tables\<close>

definition desc_size :: "efi_descriptor \<Rightarrow> u64" where
  "desc_size d = NumberOfPages d * PAGE_SIZE"

definition desc_end :: "efi_descriptor \<Rightarrow> u64" where
  "desc_end d = PhysicalStart d + desc_size d"

definition highest_end :: "efi_descriptor list \<Rightarrow> u64" where
  "highest_end ds = foldl (\<lambda>h d. if desc_end d > h then desc_end d else h) 0 ds"

text \<open>The marks that \<^verbatim>\<open>BuildPML4\<close> leaves in the attributes.\<close>

definition mark_descriptor :: "KernelMemoryLayout \<Rightarrow> efi_descriptor \<Rightarrow> efi_descriptor" where
  "mark_descriptor lay d =
     (let fb = LocPhysicalStart (Framebuffer lay) AND PAGE_MASK in
      if PhysicalStart d = LocPhysicalStart (KernelStack lay)
      then d\<lparr>Attribute := Attribute d OR ENKEL_MEMORY_FLAG_STACK\<rparr>
      else if PhysicalStart d = LocPhysicalStart (Tables lay)
      then d\<lparr>Attribute := Attribute d OR ENKEL_MEMORY_FLAG_TABLES\<rparr>
      else if PhysicalStart d = LocPhysicalStart (APBootstrap lay)
      then d\<lparr>Attribute := Attribute d OR ENKEL_MEMORY_FLAG_BOOTSTRAP\<rparr>
      else if PhysicalStart d = LocPhysicalStart (KernelBinary lay) AND PAGE_MASK
      then d\<lparr>Attribute := Attribute d OR ENKEL_MEMORY_FLAG_BINARY\<rparr>
      else if fb \<ge> PhysicalStart d \<and> fb \<le> desc_end d
      then d\<lparr>Attribute := Attribute d OR ENKEL_MEMORY_FLAG_FRAMEBUFFER\<rparr>
      else d)"

definition IsFree :: "efi_descriptor \<Rightarrow> bool" where
  "IsFree d \<longleftrightarrow> Type d = EfiConventionalMemory \<or> Type d = EfiBootServicesCode
     \<or> Type d = EfiBootServicesData"

definition IsReserved :: "efi_descriptor \<Rightarrow> bool" where
  "IsReserved d \<longleftrightarrow> Type d = EfiACPIMemoryNVS \<or> Type d = EfiRuntimeServicesCode
     \<or> Type d = EfiRuntimeServicesData \<or> Type d = EfiACPIReclaimMemory
     \<or> Type d = EfiUnusableMemory \<or> Type d = EfiReservedMemoryType
     \<or> Type d = EfiMemoryMappedIO \<or> Attribute d AND UEFI_MEMORY_RUNTIME \<noteq> 0"

definition IsReadOnly :: "efi_descriptor \<Rightarrow> bool" where
  "IsReadOnly d \<longleftrightarrow> Type d = EfiACPIReclaimMemory \<or> Type d = EfiACPIMemoryNVS
     \<or> Type d = EfiUnusableMemory \<or> Attribute d AND UEFI_MEMORY_RO \<noteq> 0"

definition IsExecutable :: "efi_descriptor \<Rightarrow> bool" where
  "IsExecutable d \<longleftrightarrow> Type d = EfiRuntimeServicesCode \<or> Type d = EfiMemoryMapType_Kernel"

text \<open>The loop over the descriptors; it returns the changed descriptors and the free memory.\<close>

fun map_descriptors ::
  "page_source \<Rightarrow> KernelMemoryLayout \<Rightarrow> efi_descriptor list \<Rightarrow> u64 \<Rightarrow> paging
    \<Rightarrow> fault + efi_descriptor list \<times> u64 \<times> paging" where
  "map_descriptors get lay [] free_memory s = Inr ([], free_memory, s)"
| "map_descriptors get lay (d # ds) free_memory s =
     (let d = mark_descriptor lay d;
          d = (if VirtualStart d = 0 then d\<lparr>VirtualStart := PhysicalStart d\<rparr> else d) in
      ok_bind
        (if \<not> IsFree d
         then MapPages get (VirtualStart d) (PhysicalStart d) (desc_size d) (\<not> IsReadOnly d)
                (IsExecutable d) User (if IsReserved d then Reserved else Used) PageFlags_None s
         else Inr s) (\<lambda>s.
      ok_bind
        (map_descriptors get lay ds
           (if \<not> IsReserved d \<and> IsFree d then free_memory + desc_size d else free_memory) s)
        (\<lambda>(ds, free_memory, s). Inr (d # ds, free_memory, s))))"

text \<open>
  The search for gaps between the descriptors, which become reserved.  The first argument
  bounds the iterations: a descriptor without pages makes the code loop for ever.
\<close>

definition next_start :: "efi_descriptor list \<Rightarrow> u64 \<Rightarrow> u64" where
  "next_start ds start =
     foldl (\<lambda>lowest d. if PhysicalStart d > start \<and> PhysicalStart d < lowest then PhysicalStart d
                        else lowest) (NOT 0) ds"

fun gap_loop ::
  "nat \<Rightarrow> efi_descriptor list \<Rightarrow> u64 \<Rightarrow> u64 \<Rightarrow> mem_state \<Rightarrow> fault + mem_state" where
  "gap_loop fuel ds highest start phys =
     (if start = highest then Inr phys
      else
        (case fuel of
           0 \<Rightarrow> Inl RecursionLimit
         | Suc fuel \<Rightarrow>
             (case find (\<lambda>d. start = PhysicalStart d) ds of
                Some d \<Rightarrow> gap_loop fuel ds highest (desc_end d) phys
              | None \<Rightarrow>
                  let lowest = next_start ds start in
                  assertf (lowest \<noteq> NOT 0) ''Unexpected memory map mismatch'' (
                  ok_bind (TagRange start lowest Reserved phys)
                    (gap_loop fuel ds highest lowest)))))"

declare gap_loop.simps [simp del]

definition BuildPML4 ::
  "nat \<Rightarrow> page_source \<Rightarrow> KernelMemoryLayout \<Rightarrow> paging
    \<Rightarrow> fault + KernelMemoryLayout \<times> u64 \<times> paging" where
  "BuildPML4 fuel get lay s =
     (let untrimmed = highest_end (Map lay); fb = Framebuffer lay; bin = KernelBinary lay in
      ok_bind (GetPhysicalAddress (LocVirtualStart fb) True s) (\<lambda>physical_framebuffer.
      ok_bind (Init 0 (untrimmed AND PAGE_MASK)) (\<lambda>phys.
      ok_bind (Init 1 PAGE_MASK) (\<lambda>virt.
      let s = s\<lparr>PhysicalMemoryState := phys, VirtualMemoryState := virt,
                Heap := (Heap s)(PML4 s \<mapsto> empty_table)\<rparr> in
      ok_bind (PreparePML4FreeList (InitialPageTableEntries s) s) (\<lambda>s.
      assertf (PML4 s > LocVirtualStart bin \<and> PML4 s < LocVirtualStart bin + ByteSize bin)
        ''PML4 is not inside the kernel virtual range'' (
      ok_bind (map_descriptors get lay (Map lay) 0 s) (\<lambda>(ds, free_memory, s).
      ok_bind (gap_loop fuel ds untrimmed 0 (PhysicalMemoryState s)) (\<lambda>phys.
      let s = s\<lparr>PhysicalMemoryState := phys\<rparr>;
          fb_size = (ByteSize fb + (PAGE_SIZE - 1)) AND PAGE_MASK in
      ok_bind (MapPages get (LocVirtualStart fb) physical_framebuffer fb_size True False User
                 Reserved PageFlags_None s) (\<lambda>s.
      Inr (lay\<lparr>Map := ds\<rparr>, free_memory - fb_size, s))))))))))"

definition BuildAndLoadPML4 ::
  "nat \<Rightarrow> page_source \<Rightarrow> KernelMemoryLayout \<Rightarrow> paging \<Rightarrow> fault + KernelMemoryLayout \<times> paging" where
  "BuildAndLoadPML4 fuel get lay s =
     ok_bind (BuildPML4 fuel get lay (s\<lparr>PML4Set := False\<rparr>)) (\<lambda>(lay, free_memory, s).
       Inr (lay, s\<lparr>CR3 := PML4 s, PML4Set := True\<rparr>))"

section \<open>The memory check\<close>

text \<open>The loop over every tenth page of a free descriptor; k is the number of steps left.\<close>

fun check_pages ::
  "page_source \<Rightarrow> u64 \<Rightarrow> u64 \<Rightarrow> nat \<Rightarrow> u64 \<Rightarrow> u64 \<Rightarrow> paging \<Rightarrow> fault + u64 \<times> paging" where
  "check_pages get target start 0 pg written s = Inr (written, s)"
| "check_pages get target start (Suc k) pg written s =
     (let pa = start + pg * PAGE_SIZE in
      ok_bind
        (if GetPageState (PhysicalMemoryState s) pa = Free then
           ok_bind (MapPages get target pa PAGE_SIZE True False Kernel Used PageFlags_None s) (\<lambda>s.
           ok_bind (store_through target s) (\<lambda>s.
           ok_bind (MapPages get target pa PAGE_SIZE False False Kernel Free PageFlags_None s) (\<lambda>s.
           Inr (if target > written then target else written, s))))
         else Inr (written, s))
        (\<lambda>(written, s). check_pages get target start k (pg + 10) written s))"

fun check_descriptors ::
  "page_source \<Rightarrow> u64 \<Rightarrow> efi_descriptor list \<Rightarrow> u64 \<Rightarrow> paging \<Rightarrow> fault + u64 \<times> paging" where
  "check_descriptors get target [] written s = Inr (written, s)"
| "check_descriptors get target (d # ds) written s =
     ok_bind
       (if IsFree d \<and> \<not> (Type d = EfiACPIReclaimMemory \<or> Type d = EfiACPIMemoryNVS
           \<or> Type d = EfiUnusableMemory)
        then check_pages get target (PhysicalStart d)
               ((unat (desc_size d div PAGE_SIZE) + 9) div 10) 0 written s
        else Inr (written, s))
       (\<lambda>(written, s). check_descriptors get target ds written s)"

definition MemCheck :: "page_source \<Rightarrow> KernelMemoryLayout \<Rightarrow> paging \<Rightarrow> fault + u64 \<times> paging" where
  "MemCheck get lay s =
     ok_bind (FindMinimumSizeFreeBlock (VirtualMemoryState s) PAGE_SIZE) (\<lambda>target.
     ok_bind (check_descriptors get target (Map lay) 0 s) (\<lambda>(written, s).
     ok_bind (MapPages get target 0 PAGE_SIZE True False Kernel Used PageFlags_None s) (\<lambda>s.
     ok_bind (VirtualFree get target PAGE_SIZE s) (\<lambda>(ok, s). Inr (written, s)))))"

end
