(* ===== verification/BootMapCorrect.thy ===== *)
theory BootMapCorrect
  imports BootMap PageTracker
begin

text \<open>
  The search for gaps in the memory map of the firmware: for a map whose descriptors are not
  empty and do not overlap it ends, and it reserves exactly the addresses that no descriptor
  covers.
\<close>

definition covered :: "efi_descriptor list \<Rightarrow> u64 \<Rightarrow> bool" where
  "covered ds a \<longleftrightarrow> (\<exists>d \<in> set ds. PhysicalStart d \<le> a \<and> a < desc_end d)"

definition good_map :: "efi_descriptor list \<Rightarrow> bool" where
  "good_map ds \<longleftrightarrow>
     (\<forall>d \<in> set ds. PhysicalStart d < desc_end d \<and> aligned (PhysicalStart d) \<and> aligned (desc_end d)) \<and>
     (\<forall>d \<in> set ds. \<forall>e \<in> set ds. PhysicalStart d < PhysicalStart e \<longrightarrow> desc_end d \<le> PhysicalStart e) \<and>
     (\<forall>d \<in> set ds. \<forall>e \<in> set ds. PhysicalStart d = PhysicalStart e \<longrightarrow> desc_end d = desc_end e)"

lemma good_mapD:
  assumes "good_map ds"
  shows "d \<in> set ds \<Longrightarrow> PhysicalStart d < desc_end d" "d \<in> set ds \<Longrightarrow> aligned (PhysicalStart d)"
    "d \<in> set ds \<Longrightarrow> aligned (desc_end d)"
    "d \<in> set ds \<Longrightarrow> e \<in> set ds \<Longrightarrow> PhysicalStart d < PhysicalStart e \<Longrightarrow> desc_end d \<le> PhysicalStart e"
    "d \<in> set ds \<Longrightarrow> e \<in> set ds \<Longrightarrow> PhysicalStart d = PhysicalStart e \<Longrightarrow> desc_end d = desc_end e"
  using assms unfolding good_map_def by blast+

lemma highest_end_bound:
  "(\<forall>d \<in> set ds. desc_end d \<le> highest_end ds)
    \<and> (highest_end ds = 0 \<or> (\<exists>d \<in> set ds. desc_end d = highest_end ds))"
proof -
  have "h \<le> foldl (\<lambda>h d. if desc_end d > h then desc_end d else h) h ds
    \<and> (\<forall>d \<in> set ds. desc_end d \<le> foldl (\<lambda>h d. if desc_end d > h then desc_end d else h) h ds)
    \<and> (foldl (\<lambda>h d. if desc_end d > h then desc_end d else h) h ds = h
       \<or> (\<exists>d \<in> set ds. desc_end d = foldl (\<lambda>h d. if desc_end d > h then desc_end d else h) h ds))" for h
  proof (induction ds arbitrary: h)
    case (Cons d ds)
    show ?case using Cons.IH [of "if desc_end d > h then desc_end d else h"]
      by (cases "desc_end d > h") auto
  qed simp
  from this [of 0] show ?thesis by (auto simp: highest_end_def)
qed

lemma next_start_bound:
  "(\<forall>d \<in> set ds. PhysicalStart d > start \<longrightarrow> next_start ds start \<le> PhysicalStart d)
    \<and> (next_start ds start = NOT 0
       \<or> (\<exists>d \<in> set ds. PhysicalStart d = next_start ds start \<and> PhysicalStart d > start))"
proof -
  let ?f = "\<lambda>lowest d. if PhysicalStart d > start \<and> PhysicalStart d < lowest then PhysicalStart d else lowest"
  have "foldl ?f h ds \<le> h
    \<and> (\<forall>d \<in> set ds. PhysicalStart d > start \<longrightarrow> foldl ?f h ds \<le> PhysicalStart d)
    \<and> (foldl ?f h ds = h \<or> (\<exists>d \<in> set ds. PhysicalStart d = foldl ?f h ds \<and> PhysicalStart d > start))" for h
  proof (induction ds arbitrary: h)
    case (Cons d ds)
    show ?case using Cons.IH [of "?f h d"]
      by (cases "PhysicalStart d > start \<and> PhysicalStart d < h") auto
  qed simp
  from this [of "NOT 0"] show ?thesis by (auto simp: next_start_def)
qed

text \<open>The descriptors that the scan has not passed, and the number of steps that they need.\<close>

definition steps_left :: "efi_descriptor list \<Rightarrow> u64 \<Rightarrow> nat" where
  "steps_left ds start = 2 * length (filter (\<lambda>d. start \<le> PhysicalStart d) ds)
     + (if \<exists>d \<in> set ds. PhysicalStart d = start then 0 else 1)"

definition between :: "efi_descriptor list \<Rightarrow> u64 \<Rightarrow> bool" where
  "between ds start \<longleftrightarrow> aligned start \<and> start \<le> highest_end ds
     \<and> (\<forall>d \<in> set ds. desc_end d \<le> start \<or> start \<le> PhysicalStart d)"

lemma steps_left_less:
  assumes "d \<in> set ds" and "PhysicalStart d = start" and "start < stop"
  shows "steps_left ds stop < steps_left ds start"
proof -
  have "length (filter (\<lambda>d. stop \<le> PhysicalStart d) ds) < length (filter (\<lambda>d. start \<le> PhysicalStart d) ds)"
    using assms
  proof (induction ds)
    case (Cons e ds)
    have le: "length (filter (\<lambda>d. stop \<le> PhysicalStart d) ds) \<le> length (filter (\<lambda>d. start \<le> PhysicalStart d) ds)"
      using assms(3) by (induction ds) auto
    show ?case using Cons le by auto
  qed simp
  then show ?thesis using assms(1,2) by (auto simp: steps_left_def)
qed

lemma between_end:
  assumes good: "good_map ds" and d: "d \<in> set ds"
  shows "between ds (desc_end d)"
proof -
  have "desc_end e \<le> desc_end d \<or> desc_end d \<le> PhysicalStart e" if e: "e \<in> set ds" for e
  proof (cases "PhysicalStart e" "PhysicalStart d" rule: linorder_cases)
    case less
    then have "desc_end e \<le> PhysicalStart d" by (rule good_mapD(4) [OF good e d])
    also have "\<dots> < desc_end d" by (rule good_mapD(1) [OF good d])
    finally show ?thesis by (intro disjI1 less_imp_le)
  next
    case equal
    then show ?thesis using good_mapD(5) [OF good e d] by simp
  next
    case greater
    then show ?thesis using good_mapD(4) [OF good d e] by simp
  qed
  then show ?thesis
    using good_mapD(3) [OF good d] highest_end_bound [of ds] d by (simp add: between_def)
qed

lemma next_start_props:
  assumes good: "good_map ds" and st: "between ds start" "start \<noteq> highest_end ds"
    and none: "\<forall>d \<in> set ds. PhysicalStart d \<noteq> start"
  shows "\<exists>d \<in> set ds. PhysicalStart d = next_start ds start" "start < next_start ds start"
    "next_start ds start \<noteq> NOT 0" "between ds (next_start ds start)"
    "\<forall>a. start \<le> a \<and> a < next_start ds start \<longrightarrow> \<not> covered ds a"
    "steps_left ds (next_start ds start) < steps_left ds start"
proof -
  let ?n = "next_start ds start"
  have "start < highest_end ds" using st by (auto simp: between_def)
  then have "highest_end ds \<noteq> 0" by auto
  then obtain e where e: "e \<in> set ds" "desc_end e = highest_end ds"
    using highest_end_bound [of ds] by blast
  then have "start \<le> PhysicalStart e"
    using st(1) \<open>start < highest_end ds\<close> unfolding between_def by (metis leD)
  then have above: "start < PhysicalStart e" using none e(1) by force
  have "PhysicalStart e < desc_end e" by (rule good_mapD(1) [OF good e(1)])
  moreover have "?n \<le> PhysicalStart e" using next_start_bound [of ds start] e(1) above by blast
  ultimately have "?n < desc_end e" by (rule order_le_less_trans [rotated])
  moreover have "desc_end e \<le> NOT 0" by simp
  ultimately show n: "?n \<noteq> NOT 0" by (metis leD)
  then obtain d where d: "d \<in> set ds" "PhysicalStart d = ?n" "start < ?n"
    using next_start_bound [of ds start] by metis
  then show "\<exists>d \<in> set ds. PhysicalStart d = ?n" and "start < ?n" by auto
  have split: "desc_end x \<le> start \<or> ?n \<le> PhysicalStart x" if "x \<in> set ds" for x
  proof -
    have "desc_end x \<le> start \<or> start < PhysicalStart x"
      using that st(1) none unfolding between_def by (metis order_le_less)
    then show ?thesis using next_start_bound [of ds start] that by blast
  qed
  have "?n < desc_end d" using good_mapD(1) [OF good d(1)] d(2) by simp
  also have "\<dots> \<le> highest_end ds" using highest_end_bound [of ds] d by auto
  finally have top: "?n \<le> highest_end ds" by (rule less_imp_le)
  moreover have "aligned ?n" using good_mapD(2) [OF good d(1)] d(2) by simp
  moreover have "desc_end x \<le> ?n \<or> ?n \<le> PhysicalStart x" if "x \<in> set ds" for x
    using split [OF that] \<open>start < ?n\<close> by auto
  ultimately show "between ds ?n" unfolding between_def by blast
  show "\<forall>a. start \<le> a \<and> a < ?n \<longrightarrow> \<not> covered ds a"
  proof (intro allI impI notI)
    fix a assume a: "start \<le> a \<and> a < ?n" and "covered ds a"
    then obtain x where "x \<in> set ds" "PhysicalStart x \<le> a" "a < desc_end x" by (auto simp: covered_def)
    with split [of x] a show False by auto
  qed
  have "filter (\<lambda>x. ?n \<le> PhysicalStart x) ds = filter (\<lambda>x. start \<le> PhysicalStart x) ds"
  proof (rule filter_cong)
    fix x assume x: "x \<in> set ds"
    have "start \<le> PhysicalStart x \<Longrightarrow> start < PhysicalStart x" using none x by force
    then show "?n \<le> PhysicalStart x \<longleftrightarrow> start \<le> PhysicalStart x"
      using next_start_bound [of ds start] x \<open>start < ?n\<close> by (meson less_imp_le order_less_le_trans)
  qed simp
  then show "steps_left ds ?n < steps_left ds start"
    using none d(1,2) unfolding steps_left_def by auto
qed

lemma gap_loop_ok:
  assumes "good_map ds" and "between ds start" and "steps_left ds start \<le> fuel"
    and "mem_ok phys" and "tree_room phys fuel" and "highest_address phys = highest_end ds"
  shows "\<exists>phys'. gap_loop fuel ds (highest_end ds) start phys = Inr phys' \<and> mem_ok phys'
    \<and> highest_address phys' = highest_end ds
    \<and> (\<forall>a < highest_end ds. GetPageState phys' a =
         (if start \<le> a \<and> \<not> covered ds a then Reserved else GetPageState phys a))"
  using assms
proof (induction fuel arbitrary: start phys)
  case 0
  have "start = highest_end ds"
  proof (rule ccontr)
    assume ne: "start \<noteq> highest_end ds"
    show False
    proof (cases "\<exists>d \<in> set ds. PhysicalStart d = start")
      case True
      then show False using 0(3) by (auto simp: steps_left_def filter_empty_conv)
    qed (use 0(3) in \<open>auto simp: steps_left_def\<close>)
  qed
  then show ?case using 0 by (auto simp: gap_loop.simps)
next
  case (Suc fuel)
  show ?case
  proof (cases "start = highest_end ds")
    case True
    then show ?thesis using Suc.prems by (auto simp: gap_loop.simps)
  next
    case False
    show ?thesis
    proof (cases "find (\<lambda>d. start = PhysicalStart d) ds")
      case (Some d)
      then have d: "d \<in> set ds" "PhysicalStart d = start" by (auto simp: find_Some_iff)
      have up: "start < desc_end d" using good_mapD(1) [OF Suc.prems(1) d(1)] d(2) by simp
      have next_ok: "between ds (desc_end d)" by (rule between_end [OF Suc.prems(1) d(1)])
      have fuel: "steps_left ds (desc_end d) \<le> fuel"
        using steps_left_less [OF d up] Suc.prems(3) by simp
      have "tree_room phys fuel" using Suc.prems(5) by (simp add: tree_room_def)
      from Suc.IH [OF Suc.prems(1) next_ok fuel Suc.prems(4) this Suc.prems(6)] obtain phys' where phys':
        "gap_loop fuel ds (highest_end ds) (desc_end d) phys = Inr phys'" "mem_ok phys'"
        "highest_address phys' = highest_end ds"
        "\<forall>a < highest_end ds. GetPageState phys' a =
          (if desc_end d \<le> a \<and> \<not> covered ds a then Reserved else GetPageState phys a)" by auto
      have "covered ds a" if "start \<le> a" "a < desc_end d" for a
        using that d by (auto simp: covered_def)
      then show ?thesis
        using phys' False Some up by (intro exI [of _ phys']) (auto simp: gap_loop.simps [of "Suc fuel"])
    next
      case None
      then have none: "\<forall>d \<in> set ds. PhysicalStart d \<noteq> start" by (auto simp: find_None_iff)
      note np = next_start_props [OF Suc.prems(1,2) False none]
      let ?n = "next_start ds start"
      have "?n \<le> highest_end ds" using np(4) by (simp add: between_def)
      then obtain phys1 where p1: "TagRange start ?n Reserved phys = Inr phys1" "mem_ok phys1"
        "tree_room phys1 fuel" "highest_address phys1 = highest_end ds"
        "\<forall>a < highest_end ds. GetPageState phys1 a =
          (if start \<le> a \<and> a < ?n then retag Reserved (GetPageState phys a) else GetPageState phys a)"
        using tracker.tag_law [OF Suc.prems(4,5) np(2), of Reserved] Suc.prems(2,6) np(4)
        by (auto simp: between_def)
      have fuel: "steps_left ds ?n \<le> fuel" using np(6) Suc.prems(3) by simp
      from Suc.IH [OF Suc.prems(1) np(4) fuel p1(2,3,4)] obtain phys' where phys':
        "gap_loop fuel ds (highest_end ds) ?n phys1 = Inr phys'" "mem_ok phys'"
        "highest_address phys' = highest_end ds"
        "\<forall>a < highest_end ds. GetPageState phys' a =
          (if ?n \<le> a \<and> \<not> covered ds a then Reserved else GetPageState phys1 a)" by auto
      have "GetPageState phys' a = (if start \<le> a \<and> \<not> covered ds a then Reserved else GetPageState phys a)"
        if "a < highest_end ds" for a
        using that phys'(4) p1(5) np(2,5) by (cases "a < ?n") (auto simp: retag_def)
      then show ?thesis
        using phys'(1-3) False None np(3) p1(1)
        by (intro exI [of _ phys']) (simp add: gap_loop.simps [of "Suc fuel"] Let_def)
    qed
  qed
qed

section \<open>Properties\<close>

text \<open>A map with a hole between 0x1000 and 0x3000.\<close>

definition demo_map :: "efi_descriptor list" where
  "demo_map =
     [\<lparr>Type = EfiLoaderData, PhysicalStart = 0x3000, VirtualStart = 0, NumberOfPages = 2, Attribute = 0\<rparr>,
      \<lparr>Type = EfiConventionalMemory, PhysicalStart = 0, VirtualStart = 0, NumberOfPages = 1, Attribute = 0\<rparr>]"

text \<open>
  C11: for a memory map of non-empty, page aligned descriptors that do not overlap, the search
  for gaps ends after at most two steps for each descriptor and one more, trips no assertion,
  and leaves exactly the addresses that no descriptor covers reserved; all others keep their
  state.
\<close>

theorem gap_loop_correct:
  assumes "good_map ds" and "mem_ok phys" and "tree_room phys (2 * length ds + 1)"
    and "highest_address phys = highest_end ds"
  shows "\<exists>phys'. gap_loop (2 * length ds + 1) ds (highest_end ds) 0 phys = Inr phys' \<and> mem_ok phys'
    \<and> (\<forall>a < highest_end ds. GetPageState phys' a =
         (if covered ds a then GetPageState phys a else Reserved))"
proof -
  have "between ds 0" by (simp add: between_def)
  moreover have "steps_left ds 0 \<le> 2 * length ds + 1" by (auto simp: steps_left_def)
  ultimately obtain phys' where
    "gap_loop (2 * length ds + 1) ds (highest_end ds) 0 phys = Inr phys'" "mem_ok phys'"
    "\<forall>a < highest_end ds. GetPageState phys' a =
       (if 0 \<le> a \<and> \<not> covered ds a then Reserved else GetPageState phys a)"
    using gap_loop_ok [OF assms(1) _ _ assms(2-4), of 0] by blast
  then show ?thesis by (intro exI [of _ phys']) simp
qed

theorem gap_loop_correct_witness:
  "\<exists>phys phys'. Init 0 0x5000 = Inr phys \<and> gap_loop 5 demo_map 0x5000 0 phys = Inr phys'
    \<and> GetPageState phys' 0x2000 = Reserved \<and> GetPageState phys' 0x4000 = Free"
proof -
  have h: "highest_end demo_map = 0x5000"
    by (simp add: demo_map_def highest_end_def desc_end_def desc_size_def PAGE_SIZE_def)
  have good: "good_map demo_map"
    by (simp add: good_map_def demo_map_def desc_end_def desc_size_def PAGE_SIZE_def aligned_def PAGE_MASK_def)
  have "aligned 0x5000" by (simp add: aligned_def PAGE_MASK_def)
  then obtain phys where phys: "Init 0 0x5000 = Inr phys" "mem_ok phys" "highest_address phys = 0x5000"
    "num_leaves (state_root phys) = 1" "\<forall>a. GetPageState phys a = Free"
    using Init_mem_ok [of "0x5000" 0] by auto
  have l: "length demo_map = 2" by (simp add: demo_map_def)
  have "tree_room phys (2 * length demo_map + 1)" using phys(4) by (simp add: tree_room_def l)
  from gap_loop_correct [OF good phys(2) this] phys(3) h obtain phys' where
    "gap_loop 5 demo_map 0x5000 0 phys = Inr phys'"
    "\<forall>a < 0x5000. GetPageState phys' a = (if covered demo_map a then GetPageState phys a else Reserved)"
    by (auto simp: l)
  moreover have "covered demo_map 0x4000" "\<not> covered demo_map 0x2000"
    by (simp_all add: covered_def demo_map_def desc_end_def desc_size_def PAGE_SIZE_def)
  ultimately show ?thesis using phys(1,5) by auto
qed

text \<open>
  A descriptor without pages makes the search for gaps run for ever, whatever the bound
  on its steps: it stays at the start of the descriptor.
\<close>

theorem gap_loop_empty_descriptor:
  assumes "find (\<lambda>d. start = PhysicalStart d) ds = Some d" and "NumberOfPages d = 0"
    and "start \<noteq> highest"
  shows "gap_loop fuel ds highest start phys = Inl RecursionLimit"
proof (induction fuel)
  case (Suc fuel)
  have "PhysicalStart d = start" using assms(1) by (auto simp: find_Some_iff)
  then have "desc_end d = start" using assms(2) by (simp add: desc_end_def desc_size_def)
  then show ?case using Suc assms(1,3) by (simp add: gap_loop.simps [of "Suc fuel"])
qed (use assms in \<open>simp add: gap_loop.simps\<close>)

theorem gap_loop_empty_descriptor_witness:
  "gap_loop 7 [\<lparr>Type = EfiLoaderData, PhysicalStart = 0, VirtualStart = 0, NumberOfPages = 0, Attribute = 0\<rparr>,
     \<lparr>Type = EfiLoaderData, PhysicalStart = 0, VirtualStart = 0, NumberOfPages = 4, Attribute = 0\<rparr>]
     0x4000 0 demo_tracker = Inl RecursionLimit"
  by (rule gap_loop_empty_descriptor [where d = "\<lparr>Type = EfiLoaderData, PhysicalStart = 0,
        VirtualStart = 0, NumberOfPages = 0, Attribute = 0\<rparr>"]) simp_all

end
