(* ===== verification/RingBuffer.thy ===== *)
theory RingBuffer
  imports Prelude
begin

text \<open>
  The template \<^verbatim>\<open>RingBuffer\<close> of \<^verbatim>\<open>inc/common/ring_buffer.h\<close>, which holds the keyboard input of
  the console: its three fields and its buffer, its operations, and its refinement of a
  bounded first-in first-out queue.  The template parameter \<^verbatim>\<open>Size\<close> is the length of the
  buffer; \<^verbatim>\<open>DropOnFull\<close> is an argument.
\<close>

record 'a ring =
  Head :: nat
  Tail :: nat
  IsFull :: bool
  Buffer :: "'a list"

definition ring_new :: "'a list \<Rightarrow> 'a ring" where
  "ring_new buf = \<lparr>Head = 0, Tail = 0, IsFull = False, Buffer = buf\<rparr>"

definition IsEmpty :: "'a ring \<Rightarrow> bool" where
  "IsEmpty r \<longleftrightarrow> \<not> IsFull r \<and> Head r = Tail r"

definition PopDiscard :: "'a ring \<Rightarrow> 'a ring" where
  "PopDiscard r =
     (if \<not> IsEmpty r
      then r\<lparr>Tail := (Tail r + 1) mod length (Buffer r), IsFull := False\<rparr> else r)"

definition Push :: "bool \<Rightarrow> 'a \<Rightarrow> 'a ring \<Rightarrow> fault + bool \<times> 'a ring" where
  "Push drop_on_full item r =
     (if IsFull r \<and> \<not> drop_on_full then Inr (False, r)
      else
        let r = (if IsFull r then PopDiscard r else r) in
        ok_bind (array_set (Buffer r) (Head r) item) (\<lambda>buf.
          let r = r\<lparr>Buffer := buf, Head := (Head r + 1) mod length (Buffer r)\<rparr>;
              r = (if Head r = Tail r then r\<lparr>IsFull := True\<rparr> else r)
          in Inr (True, r)))"

definition Pop :: "'a ring \<Rightarrow> fault + 'a option \<times> 'a ring" where
  "Pop r =
     (if IsEmpty r then Inr (None, r)
      else ok_bind (array_get (Buffer r) (Tail r)) (\<lambda>item.
        Inr (Some item, r\<lparr>Tail := (Tail r + 1) mod length (Buffer r), IsFull := False\<rparr>)))"

definition Clear :: "'a ring \<Rightarrow> 'a ring" where
  "Clear r = r\<lparr>Head := 0, Tail := 0, IsFull := False\<rparr>"

definition PopElements :: "'a list \<Rightarrow> nat \<Rightarrow> 'a ring \<Rightarrow> fault + nat \<times> 'a list \<times> 'a ring" where
  "PopElements out cnt r =
     (if IsEmpty r then Inr (0, out, r)
      else
        let sz = length (Buffer r);
            n = (if IsFull r then sz else if Head r > Tail r then Head r - Tail r
                 else sz - Tail r + Head r);
            n = (if cnt < n then cnt else n)
        in ok_bind
             (if Head r > Tail r then copy_loop (Buffer r) (Tail r) out 0 n
              else
                let first_part = (if sz - Tail r > n then n else sz - Tail r) in
                ok_bind (copy_loop (Buffer r) (Tail r) out 0 first_part) (\<lambda>out.
                  copy_loop (Buffer r) 0 out first_part (n - first_part)))
             (\<lambda>out. Inr (n, out, r\<lparr>Tail := (Tail r + n) mod sz, IsFull := False\<rparr>)))"

section \<open>The queue a ring stands for\<close>

definition ring_ok :: "'a ring \<Rightarrow> bool" where
  "ring_ok r \<longleftrightarrow> Head r < length (Buffer r) \<and> Tail r < length (Buffer r)
     \<and> (IsFull r \<longrightarrow> Head r = Tail r)"

definition fill :: "'a ring \<Rightarrow> nat" where
  "fill r = (if IsEmpty r then 0 else if Tail r < Head r then Head r - Tail r
     else length (Buffer r) - Tail r + Head r)"

definition contents :: "'a ring \<Rightarrow> 'a list" where
  "contents r = take (fill r) (rotate (Tail r) (Buffer r))"

lemma mod_once: "(i :: nat) < 2 * n \<Longrightarrow> i mod n = (if i < n then i else i - n)"
  by (simp add: le_mod_geq)

text \<open>The head is the tail advanced by the fill level, and full means filled to the size.\<close>

lemma fill_char:
  assumes "ring_ok r"
  shows "fill r \<le> length (Buffer r)" and "Head r = (Tail r + fill r) mod length (Buffer r)"
    and "IsFull r \<longleftrightarrow> fill r = length (Buffer r)" and "IsEmpty r \<longleftrightarrow> fill r = 0"
  using assms by (auto simp: fill_def ring_ok_def IsEmpty_def mod_once)

lemma fill_unique:
  assumes "Tail r < length (Buffer r)" and "c \<le> length (Buffer r)"
    and "Head r = (Tail r + c) mod length (Buffer r)" and "IsFull r \<longleftrightarrow> c = length (Buffer r)"
  shows "ring_ok r" and "fill r = c"
  using assms by (auto simp: fill_def ring_ok_def IsEmpty_def mod_once split: if_splits)

lemma length_contents: "ring_ok r \<Longrightarrow> length (contents r) = fill r"
  by (simp add: contents_def fill_char(1))

lemma IsEmpty_contents: "ring_ok r \<Longrightarrow> IsEmpty r \<longleftrightarrow> contents r = []"
  using length_contents [of r] fill_char(4) [of r] by auto

lemma IsFull_contents: "ring_ok r \<Longrightarrow> IsFull r \<longleftrightarrow> length (contents r) = length (Buffer r)"
  by (simp add: length_contents fill_char(3))

text \<open>Advancing the tail by \<^verbatim>\<open>k\<close> elements drops them.\<close>

lemma rotate_le: "k \<le> length ys \<Longrightarrow> rotate k ys = drop k ys @ take k ys"
  by (cases "k = length ys") (simp_all add: rotate_id rotate_drop_take)

lemma take_rotate_add:
  assumes "k \<le> c" and "c \<le> length xs"
  shows "take (c - k) (rotate (t + k) xs) = drop k (take c (rotate t xs))"
proof -
  have "rotate (t + k) xs = rotate k (rotate t xs)"
    by (simp add: rotate_rotate add.commute)
  also have "\<dots> = drop k (rotate t xs) @ take k (rotate t xs)"
    using assms by (simp add: rotate_le)
  finally show ?thesis using assms by (simp add: drop_take)
qed

lemma advance_tail:
  assumes "ring_ok r" and "k \<le> fill r" and "0 < fill r"
    and "k = 0 \<longrightarrow> \<not> IsFull r"
  defines "r' \<equiv> r\<lparr>Tail := (Tail r + k) mod length (Buffer r), IsFull := False\<rparr>"
  shows "ring_ok r' \<and> contents r' = drop k (contents r)"
proof -
  let ?n = "length (Buffer r)"
  have n: "0 < ?n" using assms(1) by (auto simp: ring_ok_def)
  note ch = fill_char [OF assms(1)]
  have "Head r = ((Tail r + k) mod ?n + (fill r - k)) mod ?n"
    using ch(2) assms(2) mod_add_left_eq [of "Tail r + k" ?n "fill r - k"] by simp
  moreover have "\<not> fill r - k = ?n"
    using ch assms(2-4) n by auto
  ultimately have r': "ring_ok r'" "fill r' = fill r - k"
    using fill_unique [of r' "fill r - k"] n ch(1) by (simp_all add: r'_def)
  have "contents r' = take (fill r - k) (rotate (Tail r + k) (Buffer r))"
    by (simp add: contents_def r') (simp add: r'_def rotate_conv_mod [symmetric])
  then show ?thesis
    using r' ch(1) assms(2) by (simp add: take_rotate_add contents_def)
qed

lemma mod_add_inj:
  fixes n :: nat
  assumes "c < n" and "i < n"
  shows "(t + c) mod n = (t + i) mod n \<longleftrightarrow> c = i"
proof -
  have inj: "(u + c) mod n = (u + i) mod n \<longleftrightarrow> c = i" if "u < n" for u
    using that assms by (auto simp: mod_once split: if_splits)
  from inj [of "t mod n"] assms show ?thesis
    by (simp add: mod_add_left_eq)
qed

lemma rotate_update:
  assumes "c < length xs"
  shows "rotate t (xs[(t + c) mod length xs := x]) = (rotate t xs)[c := x]"
proof (rule nth_equalityI)
  fix i assume "i < length (rotate t (xs[(t + c) mod length xs := x]))"
  then have i: "i < length xs" by simp
  have "(t + c) mod length xs = (t + i) mod length xs \<longleftrightarrow> c = i"
    using assms i by (rule mod_add_inj)
  moreover have "(t + i) mod length xs < length xs" using i by (intro mod_less_divisor) auto
  ultimately show "rotate t (xs[(t + c) mod length xs := x]) ! i = (rotate t xs)[c := x] ! i"
    using i assms by (auto simp: nth_rotate nth_list_update)
qed simp

section \<open>Functional behaviour\<close>

lemma PopDiscard_ok:
  assumes "ring_ok r"
  shows "ring_ok (PopDiscard r) \<and> contents (PopDiscard r) = tl (contents r)"
proof (cases "IsEmpty r")
  case True
  then show ?thesis
    using assms IsEmpty_contents [OF assms] by (simp add: PopDiscard_def)
next
  case False
  then have "0 < fill r" using fill_char(4) [OF assms] by simp
  with advance_tail [OF assms, of 1] False show ?thesis
    by (simp add: PopDiscard_def drop_Suc)
qed

lemma Pop_ok:
  assumes "ring_ok r"
  shows "\<exists>r'. Pop r = Inr (case contents r of [] \<Rightarrow> None | x # _ \<Rightarrow> Some x, r')
    \<and> ring_ok r' \<and> contents r' = tl (contents r) \<and> length (Buffer r') = length (Buffer r)"
proof (cases "IsEmpty r")
  case True
  then show ?thesis
    using assms IsEmpty_contents [OF assms] by (simp add: Pop_def)
next
  case False
  then have "0 < fill r" using fill_char(4) [OF assms] by simp
  moreover have t: "Tail r < length (Buffer r)" using assms by (simp add: ring_ok_def)
  moreover have "Buffer r \<noteq> []" using t by auto
  ultimately have "contents r ! 0 = Buffer r ! Tail r" "contents r \<noteq> []"
    using length_contents [OF assms] nth_rotate [of 0 "Buffer r" "Tail r"]
    by (auto simp: contents_def)
  with False t \<open>0 < fill r\<close> advance_tail [OF assms, of 1] show ?thesis
    by (cases "contents r") (auto simp: Pop_def drop_Suc)
qed

lemma store_at_head:
  fixes r :: "'a ring" and x :: 'a
  assumes ok: "ring_ok r" and "\<not> IsFull r"
  defines "r' \<equiv> r\<lparr>Buffer := (Buffer r)[Head r := x], Head := (Head r + 1) mod length (Buffer r)\<rparr>"
  defines "r'' \<equiv> (if Head r' = Tail r' then r'\<lparr>IsFull := True\<rparr> else r')"
  shows "ring_ok r'' \<and> contents r'' = contents r @ [x] \<and> length (Buffer r'') = length (Buffer r)"
proof -
  let ?n = "length (Buffer r)" and ?c = "fill r"
  note ch = fill_char [OF ok]
  have c: "?c < ?n" using ch(1,3) assms(2) by simp
  have h: "Head r' = (Tail r + (?c + 1)) mod ?n"
    using ch(2) by (simp add: r'_def mod_add_left_eq mod_Suc_eq)
  have t: "Tail r < ?n" using ok by (simp add: ring_ok_def)
  then have "Head r' = Tail r \<longleftrightarrow> ?c + 1 = ?n"
    using c h by (auto simp: mod_once split: if_splits)
  with h c t assms(2) have r'': "ring_ok r''" "fill r'' = ?c + 1"
    using fill_unique [of r'' "?c + 1"] by (auto simp: r''_def r'_def)
  have buf: "Buffer r'' = (Buffer r)[(Tail r + ?c) mod ?n := x]" "Tail r'' = Tail r"
    using ch(2) by (simp_all add: r''_def r'_def)
  have "contents r'' = take (?c + 1) ((rotate (Tail r) (Buffer r))[?c := x])"
    using c by (simp add: contents_def r'' buf rotate_update)
  also have "\<dots> = contents r @ [x]"
    using c by (simp add: take_Suc_conv_app_nth contents_def)
  finally show ?thesis using r'' buf by simp
qed

lemma Push_ok:
  assumes "ring_ok r"
  shows "\<exists>r'. Push drop_on_full x r = Inr (drop_on_full \<or> \<not> IsFull r, r') \<and> ring_ok r'
    \<and> contents r' =
        (if \<not> IsFull r then contents r @ [x] else if drop_on_full then tl (contents r) @ [x]
         else contents r)"
proof -
  have put: "Push drop_on_full x q = Inr (True, q') \<Longrightarrow> ring_ok q'" if "\<not> IsFull q" "ring_ok q" for q q'
    using that store_at_head [of q x] by (auto simp: Push_def Let_def ring_ok_def split: if_splits)
  consider "\<not> IsFull r" | "IsFull r" "\<not> drop_on_full" | "IsFull r" "drop_on_full" by blast
  then show ?thesis
  proof cases
    case 1
    with store_at_head [OF assms, of x] assms show ?thesis
      by (auto simp: Push_def Let_def ring_ok_def)
  next
    case 2
    with assms show ?thesis by (auto simp: Push_def)
  next
    case 3
    let ?q = "PopDiscard r"
    have "\<not> IsFull ?q" using 3 by (auto simp: PopDiscard_def IsEmpty_def)
    with 3 store_at_head [of ?q x] PopDiscard_ok [OF assms] show ?thesis
      by (auto simp: Push_def Let_def ring_ok_def)
  qed
qed

lemma take_rotate_parts:
  assumes "t < length xs" and "n \<le> length xs"
  shows "take n (rotate t xs) = take n (drop t xs) @ take (n - (length xs - t)) xs"
  using assms by (simp add: rotate_le)

lemma PopElements_ok:
  assumes ok: "ring_ok r" and out: "cnt \<le> length out" and "cnt = 0 \<longrightarrow> \<not> IsFull r"
  defines "n \<equiv> min cnt (length (contents r))"
  shows "\<exists>r'. PopElements out cnt r = Inr (n, take n (contents r) @ drop n out, r')
    \<and> ring_ok r' \<and> contents r' = drop n (contents r)"
proof (cases "IsEmpty r")
  case True
  then show ?thesis
    using ok IsEmpty_contents [OF ok] by (simp add: PopElements_def n_def)
next
  case False
  note ch = fill_char [OF ok] and len = length_contents [OF ok]
  have t: "Tail r < length (Buffer r)" and h: "Head r < length (Buffer r)"
    using ok by (auto simp: ring_ok_def)
  have pos: "0 < fill r" and n: "n \<le> fill r" "n \<le> length out"
    using False ch(4) out len by (auto simp: n_def)
  have level: "(if IsFull r then length (Buffer r) else if Head r > Tail r then Head r - Tail r
      else length (Buffer r) - Tail r + Head r) = fill r"
    using False ch(3) by (auto simp: fill_def)
  have cnt: "(if cnt < fill r then cnt else fill r) = n"
    by (simp add: n_def len min_def)
  let ?t = "Tail r" and ?b = "Buffer r" and ?fp = "if length (Buffer r) - Tail r > n then n else length (Buffer r) - Tail r"
  have elems: "take n (contents r) = take n (drop ?t ?b) @ take (n - (length ?b - ?t)) ?b"
  proof -
    have "take n (contents r) = take n (rotate ?t ?b)"
      using n by (simp add: contents_def min_absorb1)
    also have "\<dots> = take n (drop ?t ?b) @ take (n - (length ?b - ?t)) ?b"
      using n ch(1) t by (intro take_rotate_parts) auto
    finally show ?thesis .
  qed
  have copy: "(if Head r > ?t then copy_loop ?b ?t out 0 n
      else ok_bind (copy_loop ?b ?t out 0 ?fp) (\<lambda>out. copy_loop ?b 0 out ?fp (n - ?fp)))
    = Inr (take n (contents r) @ drop n out)"
  proof (cases "Head r > ?t")
    case True
    then have "?t + n \<le> length ?b" using n False h by (simp add: fill_def)
    with True n show ?thesis by (simp add: copy_loop_in elems)
  next
    case nle: False
    define fp where "fp = ?fp"
    have fp: "fp \<le> n" "?t + fp \<le> length ?b" "n - fp = n - (length ?b - ?t)" "n - fp \<le> length ?b"
      using t n(1) ch(1) by (auto simp: fp_def)
    define out1 where "out1 = take fp (drop ?t ?b) @ drop fp out"
    have c1: "copy_loop ?b ?t out 0 fp = Inr out1"
      using fp n by (simp add: copy_loop_in out1_def)
    have l1: "length out1 = length out" "take fp out1 = take fp (drop ?t ?b)" "drop n out1 = drop n out"
      using fp(1,2) n by (simp_all add: out1_def)
    have c2: "copy_loop ?b 0 out1 fp (n - fp) = Inr (take fp out1 @ take (n - fp) ?b @ drop n out1)"
      using copy_loop_in [of 0 "n - fp" ?b fp out1] fp(1,4) n(2) l1(1) by simp
    have "take n (drop ?t ?b) = take fp (drop ?t ?b)"
      using t by (auto simp: fp_def)
    with nle c1 c2 l1 fp(3) show ?thesis
      by (simp add: elems fp_def [symmetric])
  qed
  have "n = 0 \<longrightarrow> \<not> IsFull r" using assms(3) pos len by (auto simp: n_def)
  note adv = advance_tail [OF ok n(1) pos this]
  have "PopElements out cnt r = Inr (n, take n (contents r) @ drop n out,
      r\<lparr>Tail := (Tail r + n) mod length (Buffer r), IsFull := False\<rparr>)"
    unfolding PopElements_def Let_def level cnt copy using False by simp
  with adv show ?thesis by blast
qed

section \<open>The queue interface\<close>

fun push_all :: "('a \<Rightarrow> 'q \<Rightarrow> fault + bool \<times> 'q) \<Rightarrow> 'a list \<Rightarrow> 'q \<Rightarrow> fault + 'q" where
  "push_all push [] q = Inr q"
| "push_all push (x # xs) q = ok_bind (push x q) (\<lambda>(b, q). push_all push xs q)"

fun pop_all :: "('q \<Rightarrow> fault + 'a option \<times> 'q) \<Rightarrow> nat \<Rightarrow> 'q \<Rightarrow> fault + 'a list \<times> 'q" where
  "pop_all pop 0 q = Inr ([], q)"
| "pop_all pop (Suc n) q =
     ok_bind (pop q) (\<lambda>(x, q). case x of None \<Rightarrow> Inr ([], q)
       | Some x \<Rightarrow> ok_bind (pop_all pop n q) (\<lambda>(xs, q). Inr (x # xs, q)))"

locale bounded_queue =
  fixes ok :: "'q \<Rightarrow> bool"
    and view :: "'q \<Rightarrow> 'a list"
    and capacity :: "'q \<Rightarrow> nat"
    and push :: "'a \<Rightarrow> 'q \<Rightarrow> fault + bool \<times> 'q"
    and pop :: "'q \<Rightarrow> fault + 'a option \<times> 'q"
  assumes push_law: "ok q \<Longrightarrow> length (view q) < capacity q \<Longrightarrow>
      \<exists>q'. push x q = Inr (True, q') \<and> ok q' \<and> view q' = view q @ [x] \<and> capacity q' = capacity q"
    and pop_law: "ok q \<Longrightarrow>
      \<exists>q'. pop q = Inr (case view q of [] \<Rightarrow> None | x # _ \<Rightarrow> Some x, q') \<and> ok q'
        \<and> view q' = tl (view q) \<and> capacity q' = capacity q"
begin

lemma push_all_view:
  "ok q \<Longrightarrow> length (view q) + length xs \<le> capacity q \<Longrightarrow>
   \<exists>q'. push_all push xs q = Inr q' \<and> ok q' \<and> view q' = view q @ xs \<and> capacity q' = capacity q"
proof (induction xs arbitrary: q)
  case (Cons x xs)
  then have "length (view q) < capacity q" by simp
  from push_law [OF Cons.prems(1) this, of x] obtain q' where
    "push x q = Inr (True, q')" "ok q'" "view q' = view q @ [x]" "capacity q' = capacity q" by blast
  with Cons.IH [of q'] Cons.prems show ?case by auto
qed simp

lemma pop_all_view:
  "ok q \<Longrightarrow> \<exists>q'. pop_all pop n q = Inr (take n (view q), q') \<and> ok q'
     \<and> view q' = drop n (view q) \<and> capacity q' = capacity q"
proof (induction n arbitrary: q)
  case (Suc n)
  from pop_law [OF Suc.prems] obtain q' where q':
    "pop q = Inr (case view q of [] \<Rightarrow> None | x # _ \<Rightarrow> Some x, q')" "ok q'"
    "view q' = tl (view q)" "capacity q' = capacity q" by blast
  with Suc.IH [OF q'(2)] show ?case
    by (cases "view q") (auto simp: drop_Suc)
qed simp

lemma first_in_first_out:
  assumes "ok q" and "length (view q) + length xs \<le> capacity q"
  shows "\<exists>q'. ok_bind (push_all push xs q) (pop_all pop (length (view q) + length xs))
    = Inr (view q @ xs, q') \<and> ok q' \<and> view q' = []"
proof -
  from push_all_view [OF assms] obtain q1 where q1: "push_all push xs q = Inr q1" "ok q1"
    "view q1 = view q @ xs" by blast
  from pop_all_view [OF q1(2), of "length (view q) + length xs"] q1 show ?thesis by auto
qed

end

interpretation ring: bounded_queue ring_ok contents "\<lambda>r. length (Buffer r)" "Push drop_on_full" Pop
proof unfold_locales
  fix q :: "'a ring" and x :: 'a
  assume ok: "ring_ok q" and len: "length (contents q) < length (Buffer q)"
  then have nf: "\<not> IsFull q" by (simp add: IsFull_contents)
  have h: "Head q < length (Buffer q)" using ok by (simp add: ring_ok_def)
  from store_at_head [OF ok nf, of x] nf h
  show "\<exists>q'. Push drop_on_full x q = Inr (True, q') \<and> ring_ok q' \<and> contents q' = contents q @ [x]
      \<and> length (Buffer q') = length (Buffer q)"
    by (auto simp: Push_def Let_def)
qed (rule Pop_ok)

section \<open>Properties\<close>

lemma ring_new_facts:
  "buf \<noteq> [] \<Longrightarrow> ring_ok (ring_new buf)" "contents (ring_new buf) = []"
  "Buffer (ring_new buf) = buf"
  by (simp_all add: ring_new_def ring_ok_def contents_def fill_def IsEmpty_def)

lemma Clear_facts: "ring_ok r \<Longrightarrow> ring_ok (Clear r)" "contents (Clear r) = []"
  by (auto simp: Clear_def ring_ok_def contents_def fill_def IsEmpty_def)

text \<open>A full ring of three bytes whose oldest element is in the middle of the buffer.\<close>

definition demo_ring :: "u8 ring" where
  "demo_ring = \<lparr>Head = 1, Tail = 1, IsFull = True, Buffer = [3, 1, 2]\<rparr>"

lemma demo_ring_facts:
  "ring_ok demo_ring" "contents demo_ring = [1, 2, 3]" "IsFull demo_ring"
  by (simp_all add: demo_ring_def ring_ok_def contents_def fill_def IsEmpty_def)

text \<open>
  C4: the ring is a first-in first-out queue: after any contents that leave enough room,
  everything that was in the ring and everything pushed comes out once, in order, and the
  ring is empty again.
\<close>

theorem ring_first_in_first_out:
  assumes "ring_ok r" and "length (contents r) + length xs \<le> length (Buffer r)"
  shows "\<exists>r'. ok_bind (push_all (Push drop_on_full) xs r) (pop_all Pop (length (contents r) + length xs))
    = Inr (contents r @ xs, r') \<and> ring_ok r' \<and> contents r' = []"
  using ring.first_in_first_out [OF assms] .

theorem ring_first_in_first_out_witness:
  "\<exists>r'. ok_bind (push_all (Push False) [7, 8] (ring_new [0, 0 :: u8])) (pop_all Pop 2)
    = Inr ([7, 8], r') \<and> ring_ok r' \<and> contents r' = []"
  using ring_first_in_first_out [of "ring_new [0, 0 :: u8]" "[7, 8]" False]
  by (simp add: ring_new_facts numeral_2_eq_2)

text \<open>
  A push on a full ring either reports failure and keeps the contents or, with
  \<^verbatim>\<open>DropOnFull\<close>, discards exactly the oldest element; in every case it stays in bounds.
\<close>

theorem Push_on_full:
  assumes "ring_ok r"
  shows "\<exists>r'. Push drop_on_full x r = Inr (drop_on_full \<or> \<not> IsFull r, r') \<and> ring_ok r'
    \<and> contents r' =
        (if \<not> IsFull r then contents r @ [x] else if drop_on_full then tl (contents r) @ [x]
         else contents r)"
  using Push_ok [OF assms] .

theorem Push_on_full_witness:
  "\<exists>r'. Push True 9 demo_ring = Inr (True, r') \<and> contents r' = [2, 3, 9]"
  using Push_on_full [OF demo_ring_facts(1), of True 9] by (auto simp: demo_ring_facts)

text \<open>
  Reading up to \<^verbatim>\<open>count\<close> elements copies the oldest ones to the front of the caller's
  buffer, leaves the rest of the buffer alone, and removes exactly what it copied, also when
  the elements wrap around the end of the ring.
\<close>

theorem PopElements_correct:
  assumes "ring_ok r" and "cnt \<le> length out" and "0 < cnt \<or> \<not> IsFull r"
  shows "\<exists>r'. PopElements out cnt r =
      Inr (min cnt (length (contents r)),
           take (min cnt (length (contents r))) (contents r) @ drop (min cnt (length (contents r))) out, r')
    \<and> ring_ok r' \<and> contents r' = drop cnt (contents r)"
  using PopElements_ok [OF assms(1,2)] assms(3) by (cases "cnt \<le> length (contents r)") auto

theorem PopElements_correct_witness:
  "\<exists>r'. PopElements [0, 0, 0] 2 demo_ring = Inr (2, [1, 2, 0], r') \<and> contents r' = [3]"
  using PopElements_correct [OF demo_ring_facts(1), of 2 "[0, 0, 0]"]
  by (auto simp: demo_ring_facts)

text \<open>
  A read of zero elements is not neutral on a full ring: it clears the full flag without
  moving the tail, and everything that was buffered is lost.
\<close>

theorem PopElements_zero_loses_data:
  assumes "ring_ok r" and "IsFull r"
  shows "\<exists>r'. PopElements out 0 r = Inr (0, out, r') \<and> length (contents r) = length (Buffer r)
    \<and> contents r' = []"
proof -
  have "PopElements out 0 r = Inr (0, out, r\<lparr>IsFull := False\<rparr>)"
    using assms by (simp add: PopElements_def IsEmpty_def ring_ok_def Let_def)
  moreover have "contents (r\<lparr>IsFull := False\<rparr>) = []"
    using assms by (simp add: contents_def fill_def IsEmpty_def ring_ok_def)
  ultimately show ?thesis
    using IsFull_contents [OF assms(1)] assms(2) by blast
qed

theorem PopElements_zero_loses_data_witness:
  "\<exists>r'. PopElements [] 0 demo_ring = Inr (0, [], r') \<and> contents r' = []"
  using PopElements_zero_loses_data [OF demo_ring_facts(1,3), of "[]"] by blast

end
