(* ===== verification/CStrings.thy ===== *)
theory CStrings
  imports Prelude
begin

text \<open>
  The string library \<^verbatim>\<open>src/kernel/common/string.cpp\<close>.  A pointer to characters is the list
  of the cells from the pointer to the end of the object it points into; the functions exist
  for \<^verbatim>\<open>char\<close> and for \<^verbatim>\<open>char16_t\<close>, and where the two bodies agree they are one function of a
  word type of any width.  What differs is how a character becomes an \<^verbatim>\<open>int\<close>: a \<^verbatim>\<open>char\<close> is
  sign extended, a \<^verbatim>\<open>char16_t\<close> is not.  Objects are shorter than \<^verbatim>\<open>2^31\<close> cells, so that the
  \<^verbatim>\<open>int\<close> and \<^verbatim>\<open>uint32_t\<close> indices do not wrap.
\<close>

type_synonym cstr = "u8 list"
type_synonym wstr = "u16 list"

definition char_code :: "char \<Rightarrow> 'w::len word" where
  "char_code c = of_nat (of_char c)"

section \<open>Searching\<close>

function find_index :: "('w::len word \<Rightarrow> bool) \<Rightarrow> 'w word list \<Rightarrow> nat \<Rightarrow> fault + u64" where
  "find_index hit input index =
     ok_bind (array_get input index) (\<lambda>c.
       if c = 0 then Inr (- 1)
       else if hit c then Inr (of_nat index)
       else find_index hit input (Suc index))"
  by pat_completeness auto
termination
  by (relation "measure (\<lambda>(hit, input, index). length input - index)")
    (auto simp: array_get_eq_Inr)

declare find_index.simps [simp del]

definition is_whitespace :: "'w::len word \<Rightarrow> bool" where
  "is_whitespace c \<longleftrightarrow> c = 32 \<or> c = 9 \<or> c = 13 \<or> c = 10"

definition is_separator :: "'w::len word \<Rightarrow> bool" where
  "is_separator c \<longleftrightarrow> c = 92 \<or> c = 47"

text \<open>The index is a \<^verbatim>\<open>uint32_t\<close>: the 64 bit offset is truncated.\<close>

definition IndexOfWhitespace :: "cstr \<Rightarrow> u64 \<Rightarrow> fault + u64" where
  "IndexOfWhitespace input offset = find_index is_whitespace input (unat (ucast offset :: u32))"

definition IndexOfWhitespace16 :: "wstr \<Rightarrow> u64 \<Rightarrow> fault + u64" where
  "IndexOfWhitespace16 input offset = find_index is_whitespace input (unat (ucast offset :: u32))"

definition IndexOfChar :: "cstr \<Rightarrow> u8 \<Rightarrow> fault + u64" where
  "IndexOfChar input c = find_index (\<lambda>x. sint x = sint c) input 0"

definition IndexOfChar16 :: "wstr \<Rightarrow> u8 \<Rightarrow> fault + u64" where
  "IndexOfChar16 input c = find_index (\<lambda>x. uint x = sint c) input 0"

definition IndexOfSeparator :: "cstr \<Rightarrow> fault + u64" where
  "IndexOfSeparator input = find_index is_separator input 0"

definition IndexOfSeparator16 :: "wstr \<Rightarrow> fault + u64" where
  "IndexOfSeparator16 input = find_index is_separator input 0"

section \<open>Character classes\<close>

definition isalpha :: "int \<Rightarrow> int" where
  "isalpha c = (if (c \<ge> 65 \<and> c \<le> 90) \<or> (c \<ge> 97 \<and> c \<le> 122) then 1 else 0)"

definition isupper :: "int \<Rightarrow> int" where
  "isupper c = (if c \<ge> 65 \<and> c \<le> 90 then 1 else 0)"

definition islower :: "int \<Rightarrow> int" where
  "islower c = (if c \<ge> 97 \<and> c \<le> 122 then 1 else 0)"

definition tolower :: "int \<Rightarrow> int" where
  "tolower c = (if isupper c \<noteq> 0 then 97 + (c - 65) else c)"

definition toupper :: "int \<Rightarrow> int" where
  "toupper c = (if islower c \<noteq> 0 then 65 + (c - 97) else c)"

section \<open>Length and comparison\<close>

fun strlen_loop :: "'w::len word list \<Rightarrow> nat \<Rightarrow> fault + nat" where
  "strlen_loop [] n = Inl OutOfBounds"
| "strlen_loop (c # cs) n = (if c \<noteq> 0 then strlen_loop cs (Suc n) else Inr n)"

definition strlen :: "cstr \<Rightarrow> fault + nat" where
  "strlen str = strlen_loop str 0"

definition strlen16 :: "wstr \<Rightarrow> fault + nat" where
  "strlen16 str = strlen_loop str 0"

fun strcmp_loop :: "('w::len word \<Rightarrow> int) \<Rightarrow> 'w word list \<Rightarrow> 'w word list \<Rightarrow> fault + int" where
  "strcmp_loop conv (a # as) (b # bs) =
     (if a \<noteq> 0 \<and> a = b then strcmp_loop conv as bs else Inr (conv a - conv b))"
| "strcmp_loop conv _ _ = Inl OutOfBounds"

definition strcmp :: "cstr \<Rightarrow> cstr \<Rightarrow> fault + int" where
  "strcmp = strcmp_loop sint"

definition strcmp16 :: "wstr \<Rightarrow> wstr \<Rightarrow> fault + int" where
  "strcmp16 = strcmp_loop uint"

fun stricmp_loop :: "('w::len word \<Rightarrow> int) \<Rightarrow> 'w word list \<Rightarrow> 'w word list \<Rightarrow> fault + int" where
  "stricmp_loop conv (a # as) (b # bs) =
     (if a \<noteq> 0 \<and> tolower (conv a) = tolower (conv b) then stricmp_loop conv as bs
      else Inr (tolower (conv a) - tolower (conv b)))"
| "stricmp_loop conv _ _ = Inl OutOfBounds"

definition stricmp :: "cstr \<Rightarrow> cstr \<Rightarrow> fault + int" where
  "stricmp = stricmp_loop sint"

definition stricmp16 :: "wstr \<Rightarrow> wstr \<Rightarrow> fault + int" where
  "stricmp16 = stricmp_loop uint"

fun strnicmp_loop ::
  "('w::len word \<Rightarrow> int) \<Rightarrow> 'w word list \<Rightarrow> 'w word list \<Rightarrow> nat \<Rightarrow> fault + int" where
  "strnicmp_loop conv as bs 0 = Inr 0"
| "strnicmp_loop conv (a # as) (b # bs) (Suc n) =
     (if a \<noteq> 0 \<and> tolower (conv a) = tolower (conv b) then strnicmp_loop conv as bs n
      else Inr (tolower (conv a) - tolower (conv b)))"
| "strnicmp_loop conv _ _ (Suc n) = Inl OutOfBounds"

definition strnicmp :: "cstr \<Rightarrow> cstr \<Rightarrow> nat \<Rightarrow> fault + int" where
  "strnicmp = strnicmp_loop sint"

definition strnicmp16 :: "wstr \<Rightarrow> wstr \<Rightarrow> nat \<Rightarrow> fault + int" where
  "strnicmp16 = strnicmp_loop uint"

section \<open>Copying\<close>

fun strcpy_loop :: "'w::len word list \<Rightarrow> nat \<Rightarrow> 'w word list \<Rightarrow> fault + 'w word list" where
  "strcpy_loop dest d [] = Inl OutOfBounds"
| "strcpy_loop dest d (c # src) =
     ok_bind (array_set dest d c) (\<lambda>dest. if c \<noteq> 0 then strcpy_loop dest (Suc d) src else Inr dest)"

definition strcpy :: "cstr \<Rightarrow> cstr \<Rightarrow> fault + cstr" where
  "strcpy dest src = strcpy_loop dest 0 src"

definition strcpy16 :: "wstr \<Rightarrow> wstr \<Rightarrow> fault + wstr" where
  "strcpy16 dest src = strcpy_loop dest 0 src"

fun strncpy_pad :: "'w::len word list \<Rightarrow> nat \<Rightarrow> nat \<Rightarrow> fault + 'w word list" where
  "strncpy_pad dest i 0 = Inr dest"
| "strncpy_pad dest i (Suc k) = ok_bind (array_set dest i 0) (\<lambda>dest. strncpy_pad dest (Suc i) k)"

fun strncpy_loop :: "'w::len word list \<Rightarrow> nat \<Rightarrow> 'w word list \<Rightarrow> nat \<Rightarrow> fault + 'w word list" where
  "strncpy_loop dest i src 0 = Inr dest"
| "strncpy_loop dest i src (Suc k) =
     ok_bind (array_get src i) (\<lambda>c.
       if c \<noteq> 0 then ok_bind (array_set dest i c) (\<lambda>dest. strncpy_loop dest (Suc i) src k)
       else strncpy_pad dest i (Suc k))"

definition strncpy :: "cstr \<Rightarrow> cstr \<Rightarrow> nat \<Rightarrow> fault + cstr" where
  "strncpy dest src n = strncpy_loop dest 0 src n"

definition strncpy16 :: "wstr \<Rightarrow> wstr \<Rightarrow> nat \<Rightarrow> fault + wstr" where
  "strncpy16 dest src n = strncpy_loop dest 0 src n"

definition strcat :: "cstr \<Rightarrow> cstr \<Rightarrow> fault + cstr" where
  "strcat dest src = ok_bind (strlen_loop dest 0) (\<lambda>d. strcpy_loop dest d src)"

definition strcat16 :: "wstr \<Rightarrow> wstr \<Rightarrow> fault + wstr" where
  "strcat16 dest src = ok_bind (strlen_loop dest 0) (\<lambda>d. strcpy_loop dest d src)"

text \<open>
  Conversion between the widths.  The output may be the null pointer; the terminator is
  written behind the last converted character without a check against the size given.
\<close>

function convert_loop ::
  "('a::len word \<Rightarrow> 'b::len word) \<Rightarrow> 'b word list option \<Rightarrow> 'a word list \<Rightarrow> int \<Rightarrow> nat
    \<Rightarrow> fault + nat \<times> 'b word list option" where
  "convert_loop conv out input limit index =
     ok_bind (array_get input index) (\<lambda>c.
       if c \<noteq> 0 \<and> int index < limit then
         (case out of
            None \<Rightarrow> convert_loop conv None input limit (Suc index)
          | Some buf \<Rightarrow> ok_bind (array_set buf index (conv c)) (\<lambda>buf.
              convert_loop conv (Some buf) input limit (Suc index)))
       else
         (case out of
            None \<Rightarrow> Inr (index, None)
          | Some buf \<Rightarrow> ok_bind (array_set buf index 0) (\<lambda>buf. Inr (index, Some buf))))"
  by pat_completeness auto
termination
  by (relation "measure (\<lambda>(conv, out, input, limit, index). length input - index)")
    (auto simp: array_get_eq_Inr)

declare convert_loop.simps [simp del]

definition ascii_to_wide :: "wstr option \<Rightarrow> cstr \<Rightarrow> int \<Rightarrow> fault + nat \<times> wstr option" where
  "ascii_to_wide out input limit = convert_loop scast out input limit 0"

definition wide_to_ascii :: "cstr option \<Rightarrow> wstr \<Rightarrow> int \<Rightarrow> fault + nat \<times> cstr option" where
  "wide_to_ascii out input limit = convert_loop ucast out input limit 0"

section \<open>Integers to text\<close>

text \<open>C division truncates towards zero.\<close>

definition trunc_div :: "int \<Rightarrow> int \<Rightarrow> int" where
  "trunc_div a b = sgn a * sgn b * (\<bar>a\<bar> div \<bar>b\<bar>)"

definition digit_characters :: "'w::len word list" where
  "digit_characters = map char_code ''0123456789ABCDEF''"

text \<open>
  The template parameter is a width and a signedness.  In \<^verbatim>\<open>currentValue / base\<close> the \<^verbatim>\<open>int\<close>
  base is converted to the type of the value when that is unsigned.
\<close>

definition base_as :: "bool \<Rightarrow> nat \<Rightarrow> int \<Rightarrow> int" where
  "base_as sgnd w base = (if sgnd then base else base mod 2 ^ w)"

function digit_loop :: "int \<Rightarrow> 'w::len word list \<Rightarrow> nat \<Rightarrow> int \<Rightarrow> fault + 'w word list \<times> nat" where
  "digit_loop base buf offset cur =
     (if base = 0 then Inl DivideByZero
      else
        let nxt = trunc_div cur base; rem = cur - nxt * base in
        if rem < 0 then Inl OutOfBounds
        else
          ok_bind (array_get digit_characters (nat rem)) (\<lambda>ch.
          ok_bind (array_set buf offset ch) (\<lambda>buf.
            if nxt \<noteq> 0 then digit_loop base buf (Suc offset) nxt else Inr (buf, Suc offset))))"
  by pat_completeness auto
termination
  by (relation "measure (\<lambda>(base, buf, offset, cur). length buf - offset)")
    (auto simp: array_set_eq_Inr)

declare digit_loop.simps [simp del]

fun zero_loop :: "'w::len word list \<Rightarrow> nat \<Rightarrow> nat \<Rightarrow> fault + 'w word list \<times> nat" where
  "zero_loop buf offset 0 = Inr (buf, offset)"
| "zero_loop buf offset (Suc k) =
     ok_bind (array_set buf offset (char_code CHR ''0'')) (\<lambda>buf. zero_loop buf (Suc offset) k)"

text \<open>The swaps of the last loop; all indices are below the terminator written before.\<close>

definition flip_loop :: "'w::len word list \<Rightarrow> nat \<Rightarrow> 'w word list" where
  "flip_loop buf offset =
     fold (\<lambda>index b. b[index := b ! (offset - index - 1), offset - index - 1 := b ! index])
       [0 ..< Suc ((offset - 1) div 2)] buf"

definition finish_number :: "'w::len word list \<Rightarrow> nat \<Rightarrow> bool \<Rightarrow> fault + 'w word list \<times> nat" where
  "finish_number buf offset negative =
     ok_bind (if negative
              then ok_bind (array_set buf offset (char_code CHR ''-'')) (\<lambda>buf. Inr (buf, Suc offset))
              else Inr (buf, offset)) (\<lambda>(buf, offset).
     ok_bind (array_set buf offset 0) (\<lambda>buf. Inr (flip_loop buf offset, offset)))"

definition magnitude :: "bool \<Rightarrow> nat \<Rightarrow> int \<Rightarrow> int \<Rightarrow> fault + bool \<times> int" where
  "magnitude sgnd w value base =
     (let negative = (value < 0 \<and> base = 10) in
      if negative \<and> sgnd \<and> - value \<ge> 2 ^ (w - 1) then Inl SignedOverflow
      else Inr (negative, if negative then - value else value))"

text \<open>
  The two bodies of \<^verbatim>\<open>witoabuf\<close> differ in the padding: the one for \<^verbatim>\<open>char16_t\<close> pads while
  the text is too short, the one for \<^verbatim>\<open>char\<close> writes a zero first and tests afterwards.
\<close>

definition witoabuf16 ::
  "bool \<Rightarrow> nat \<Rightarrow> wstr \<Rightarrow> int \<Rightarrow> int \<Rightarrow> int \<Rightarrow> fault + wstr \<times> nat" where
  "witoabuf16 sgnd w buf value base pad =
     ok_bind (magnitude sgnd w value base) (\<lambda>(negative, abs_value).
     ok_bind (digit_loop (base_as sgnd w base) buf 0 abs_value) (\<lambda>(buf, offset).
     ok_bind (zero_loop buf offset (nat (pad - int offset))) (\<lambda>(buf, offset).
     finish_number buf offset negative)))"

definition witoabuf8 ::
  "bool \<Rightarrow> nat \<Rightarrow> cstr \<Rightarrow> int \<Rightarrow> int \<Rightarrow> int \<Rightarrow> fault + cstr \<times> nat" where
  "witoabuf8 sgnd w buf value base pad =
     ok_bind (magnitude sgnd w value base) (\<lambda>(negative, abs_value).
     ok_bind (digit_loop (base_as sgnd w base) buf 0 abs_value) (\<lambda>(buf, offset).
     ok_bind (zero_loop buf offset (max 1 (nat (pad - int offset)))) (\<lambda>(buf, offset).
     finish_number buf offset negative)))"

end
