(* ===== verification/CStringsCorrect.thy ===== *)
theory CStringsCorrect
  imports CStrings
begin

text \<open>
  What the string library computes: the string a pointer stands for, the results of searching,
  comparing, copying and converting in terms of it, and the exact text, bounds included, that
  the number printer leaves in its buffer.
\<close>

section \<open>The string behind a pointer\<close>

definition c_string :: "'w::len word list \<Rightarrow> 'w word list" where
  "c_string s = takeWhile (\<lambda>c. c \<noteq> 0) s"

definition terminated :: "'w::len word list \<Rightarrow> bool" where
  "terminated s \<longleftrightarrow> 0 \<in> set s"

lemma c_string_nonzero: "0 \<notin> set (c_string s)"
  by (auto simp: c_string_def dest: set_takeWhileD)

lemma c_string_append: "0 \<notin> set x \<Longrightarrow> c_string (x @ 0 # t) = x"
  by (induction x) (auto simp: c_string_def)

lemma terminated_append [simp]: "terminated (x @ 0 # t)"
  by (simp add: terminated_def)

lemma terminatedE:
  assumes "terminated s"
  obtains x t where "s = x @ 0 # t" and "0 \<notin> set x" and "c_string s = x"
  using assms split_list_first [of 0 s] by (auto simp: terminated_def c_string_append)

section \<open>Searching and length\<close>

lemma find_index_first:
  assumes "terminated s" and "length (takeWhile (\<lambda>c. c \<noteq> 0) (drop i s)) + i < length s"
  shows "find_index hit s i =
    (let x = takeWhile (\<lambda>c. c \<noteq> 0) (drop i s); k = length (takeWhile (\<lambda>c. \<not> hit c) x)
     in if k < length x then Inr (of_nat (i + k)) else Inr (- 1))"
  using assms(2)
proof (induction "length s - i" arbitrary: i)
  case 0
  then show ?case by simp
next
  case (Suc n)
  then have i: "i < length s" by simp
  then have d: "drop i s = s ! i # drop (Suc i) s"
    by (simp add: Cons_nth_drop_Suc)
  show ?case
  proof (cases "s ! i = 0 \<or> hit (s ! i)")
    case True
    with i d show ?thesis by (subst find_index.simps) (auto simp: Let_def)
  next
    case False
    with Suc.prems d have "length (takeWhile (\<lambda>c. c \<noteq> 0) (drop (Suc i) s)) + Suc i < length s"
      by simp
    moreover have "n = length s - Suc i" using Suc.hyps(2) by simp
    ultimately show ?thesis
      using Suc.hyps(1) [of "Suc i"] False i d
      by (subst find_index.simps) (simp add: Let_def)
  qed
qed

lemma strlen_loop_c_string:
  "0 \<notin> set x \<Longrightarrow> strlen_loop (x @ 0 # t) n = Inr (n + length x)"
  by (induction x arbitrary: n) auto

lemma strlen_loop_unterminated: "0 \<notin> set s \<Longrightarrow> strlen_loop s n = Inl OutOfBounds"
  by (induction s arbitrary: n) auto

section \<open>Comparison\<close>

text \<open>The lexicographic comparison of two strings of integers, with 0 behind the end.\<close>

fun lex_diff :: "int list \<Rightarrow> int list \<Rightarrow> int" where
  "lex_diff [] [] = 0"
| "lex_diff [] (y # ys) = - y"
| "lex_diff (x # xs) [] = x"
| "lex_diff (x # xs) (y # ys) = (if x = y then lex_diff xs ys else x - y)"

lemma strcmp_loop_lex:
  assumes "0 \<notin> set x" and "0 \<notin> set y" and "inj conv" and "conv 0 = 0"
  shows "strcmp_loop conv (x @ 0 # t) (y @ 0 # u) = Inr (lex_diff (map conv x) (map conv y))"
  using assms(1,2)
proof (induction "map conv x" "map conv y" arbitrary: x y rule: lex_diff.induct)
  case (2 b bs)
  then obtain b' bs' where "y = b' # bs'" "x = []" by (cases y) auto
  with 2 assms(4) show ?case by auto
next
  case (3 a as)
  then obtain a' as' where "x = a' # as'" "y = []" by (cases x) auto
  with 3 assms(4) show ?case by auto
next
  case (4 a as b bs)
  then obtain a' as' b' bs' where xy: "x = a' # as'" "y = b' # bs'"
    by (cases x; cases y) auto
  with 4 assms(3) show ?case by (auto simp: inj_eq)
qed (use assms in simp)

lemma lex_diff_zero:
  assumes "0 \<notin> set xs" and "0 \<notin> set ys"
  shows "lex_diff xs ys = 0 \<longleftrightarrow> xs = ys"
  using assms by (induction xs ys rule: lex_diff.induct) auto

lemma lex_diff_antisym: "lex_diff xs ys = - lex_diff ys xs"
  by (induction xs ys rule: lex_diff.induct) auto

section \<open>Copying\<close>

lemma strcpy_loop_exact:
  assumes "0 \<notin> set x"
  shows "strcpy_loop dest d (x @ 0 # t) =
    (if d + length x < length dest
     then Inr (take d dest @ x @ 0 # drop (Suc (d + length x)) dest) else Inl OutOfBounds)"
  using assms
proof (induction x arbitrary: dest d)
  case Nil
  then show ?case
    by (cases "d < length dest") (auto simp: upd_conv_take_nth_drop)
next
  case (Cons c x)
  show ?case
  proof (cases "d < length dest")
    case True
    then have "take (Suc d) (dest[d := c]) = take d dest @ [c]"
      by (simp add: take_Suc_conv_app_nth)
    with True Cons show ?thesis by auto
  next
    case False
    with Cons.prems show ?thesis by auto
  qed
qed

lemma convert_loop_exact:
  assumes "0 \<notin> set x" and "length x = n" and "int (length x) \<le> limit"
    and "int (length x) < limit \<longrightarrow> c = 0"
  shows "i \<le> n \<Longrightarrow> convert_loop conv (Some buf) (x @ c # t) limit i =
    (if n < length buf
     then Inr (n, Some (take i buf @ map conv (drop i x) @ 0 # drop (Suc n) buf))
     else Inl OutOfBounds)"
proof (induction "n - i" arbitrary: i buf)
  case 0
  then have "i = n" by simp
  moreover have "\<not> (c \<noteq> 0 \<and> int n < limit)" using assms by auto
  ultimately show ?case
    using assms(2) by (subst convert_loop.simps)
      (auto simp: nth_append array_get_def upd_conv_take_nth_drop not_less)
next
  case (Suc k)
  then have i: "i < n" "k = n - Suc i" "Suc i \<le> n" by auto
  have "x ! i \<in> set x" using i assms(2) by simp
  then have nz: "x ! i \<noteq> 0" "int i < limit" using assms i by (metis, auto)
  have d: "drop i x = x ! i # drop (Suc i) x" using i assms(2) by (simp add: Cons_nth_drop_Suc)
  have get: "array_get (x @ c # t) i = Inr (x ! i)"
    using i assms(2) by (simp add: array_get_def nth_append)
  show ?case
  proof (cases "i < length buf")
    case True
    then have "take (Suc i) (buf[i := conv (x ! i)]) = take i buf @ [conv (x ! i)]"
      by (simp add: take_Suc_conv_app_nth)
    with True Suc.hyps(1) [OF i(2,3), of "buf[i := conv (x ! i)]"] nz get d i show ?thesis
      by (subst convert_loop.simps) simp
  next
    case False
    with nz get i show ?thesis by (subst convert_loop.simps) simp
  qed
qed

section \<open>Integers to text\<close>

text \<open>The digits of a number, most significant first, and the number they denote.\<close>

function digits :: "nat \<Rightarrow> nat \<Rightarrow> nat list" where
  "digits b n = (if n < b \<or> b < 2 then [n] else digits b (n div b) @ [n mod b])"
  by pat_completeness auto
termination
  by (relation "measure (\<lambda>(b, n). n)") auto

declare digits.simps [simp del]

fun number_of :: "nat \<Rightarrow> nat list \<Rightarrow> nat" where
  "number_of b ds = foldl (\<lambda>n d. n * b + d) 0 ds"

definition digit_char :: "nat \<Rightarrow> 'w::len word" where
  "digit_char d = digit_characters ! d"

lemma number_of_digits: "2 \<le> b \<Longrightarrow> number_of b (digits b n) = n"
proof (induction b n rule: digits.induct)
  case (1 b n)
  show ?case
  proof (cases "n < b")
    case True
    then show ?thesis by (subst digits.simps) simp
  next
    case False
    with 1 have "number_of b (digits b (n div b)) = n div b" by simp
    with False 1(2) show ?thesis by (subst digits.simps) simp
  qed
qed

lemma digits_bound: "2 \<le> b \<Longrightarrow> d \<in> set (digits b n) \<Longrightarrow> d < b"
proof (induction b n rule: digits.induct)
  case (1 b n)
  then show ?case by (subst (asm) digits.simps) (auto split: if_splits)
qed

lemma digits_nonempty: "digits b n \<noteq> []"
  by (subst digits.simps) simp

lemma digits_no_leading_zero: "2 \<le> b \<Longrightarrow> 0 < n \<Longrightarrow> hd (digits b n) \<noteq> 0"
proof (induction b n rule: digits.induct)
  case (1 b n)
  show ?case
  proof (cases "n < b")
    case True
    with 1 show ?thesis by (subst digits.simps) simp
  next
    case False
    with 1 have "hd (digits b (n div b)) \<noteq> 0" by (simp add: div_greater_zero_iff)
    with False 1(2) show ?thesis by (subst digits.simps) (simp add: digits_nonempty)
  qed
qed

lemma length_digit_characters [simp]: "length (digit_characters :: 'w::len word list) = 16"
  by (simp add: digit_characters_def)

lemma trunc_div_nat: "0 < b \<Longrightarrow> trunc_div (int n) (int b) = int (n div b)"
  by (cases "n = 0") (simp_all add: trunc_div_def zdiv_int)

lemma take_update_append:
  "i < length xs \<Longrightarrow> take (Suc i) (xs[i := v]) = take i xs @ [v]"
  by (simp add: take_Suc_conv_app_nth)

lemma digit_loop_step:
  assumes "2 \<le> b" and "b \<le> 16"
  shows "digit_loop (int b) buf off (int n) =
    ok_bind (array_set buf off (digit_char (n mod b))) (\<lambda>buf.
      if n div b \<noteq> 0 then digit_loop (int b) buf (Suc off) (int (n div b)) else Inr (buf, Suc off))"
proof -
  have b: "0 < b" "int b \<noteq> 0" using assms by auto
  have r: "int n - int (n div b) * int b = int (n mod b)"
    by (metis minus_div_mult_eq_mod of_nat_diff of_nat_mult times_div_less_eq_dividend mult.commute)
  have "n mod b < b" using b by simp
  then have "n mod b < 16" using assms(2) by linarith
  then have g: "array_get digit_characters (n mod b) = Inr (digit_char (n mod b))"
    by (simp add: digit_char_def)
  have nn: "\<not> int (n mod b) < 0" by simp
  have z: "(int (n div b) \<noteq> 0) = (n div b \<noteq> 0)" by simp
  show ?thesis
    by (subst digit_loop.simps)
      (simp only: Let_def trunc_div_nat [OF b(1)] r nat_int g ok_bind_Inr b(2) if_False nn z)
qed

lemma digit_loop_exact:
  assumes "2 \<le> b" and "b \<le> 16"
  shows "digit_loop (int b) buf off (int n) =
    (if off + length (digits b n) \<le> length buf
     then Inr (take off buf @ rev (map digit_char (digits b n)) @ drop (off + length (digits b n)) buf,
               off + length (digits b n))
     else Inl OutOfBounds)"
  using assms
proof (induction b n arbitrary: buf off rule: digits.induct)
  case (1 b n)
  have pos: "0 < length (digits b n)" by (simp add: digits_nonempty)
  show ?case
  proof (cases "off < length buf")
    case False
    with pos have "\<not> off + length (digits b n) \<le> length buf" by linarith
    with False show ?thesis using 1(2,3) by (simp add: digit_loop_step)
  next
    case True
    show ?thesis
    proof (cases "n < b")
      case small: True
      with True 1(2,3) show ?thesis
        by (simp add: digit_loop_step digits.simps [of b n] upd_conv_take_nth_drop)
    next
      case big: False
      then have nz: "n div b \<noteq> 0" using 1(2) by (simp add: div_eq_0_iff)
      have dg: "digits b n = digits b (n div b) @ [n mod b]"
        using big 1(2) by (simp add: digits.simps [of b n])
      from big 1(2) have "\<not> (n < b \<or> b < 2)" by simp
      from 1(1) [OF this 1(2,3), of "buf[off := digit_char (n mod b)]" "Suc off"] True 1(2,3)
      show ?thesis
        using nz by (simp add: digit_loop_step [of b buf] dg take_update_append)
    qed
  qed
qed

lemma zero_loop_exact:
  "zero_loop buf off k =
    (if off + k \<le> length buf \<or> k = 0
     then Inr (take off buf @ replicate k (char_code CHR ''0'') @ drop (off + k) buf, off + k)
     else Inl OutOfBounds)"
proof (induction k arbitrary: buf off)
  case (Suc k)
  show ?case
  proof (cases "off < length buf")
    case True
    then show ?thesis
      by (auto simp: Suc.IH take_update_append)
  next
    case False
    then show ?thesis by simp
  qed
qed simp

lemma flip_partial:
  fixes buf :: "'w::len word list"
  assumes "n \<le> length buf" and "0 < n" and "k \<le> Suc ((n - 1) div 2)"
  defines "f \<equiv> \<lambda>i (b :: 'w word list). b[i := b ! (n - i - 1), n - i - 1 := b ! i]"
  shows "length (fold f [0 ..< k] buf) = length buf \<and>
    (\<forall>j < length buf. fold f [0 ..< k] buf ! j =
       (if j < n \<and> (j < k \<or> n - k \<le> j) then buf ! (n - 1 - j) else buf ! j))"
  using assms(3)
proof (induction k)
  case 0
  show ?case by auto
next
  case (Suc k)
  then have k: "k \<le> (n - 1) div 2" by simp
  then have le: "k \<le> n - k - 1" "k < n" "n - k - 1 < n" using assms(2) by auto
  define b where "b = fold f [0 ..< k] buf"
  have b: "length b = length buf"
    "\<And>j. j < length buf \<Longrightarrow> b ! j =
       (if j < n \<and> (j < k \<or> n - k \<le> j) then buf ! (n - 1 - j) else buf ! j)"
    using Suc by (auto simp: b_def)
  have step: "fold f [0 ..< Suc k] buf = b[k := b ! (n - k - 1), n - k - 1 := b ! k]"
    by (simp add: b_def f_def)
  have bk: "b ! k = buf ! k" using b(2) [of k] le assms(1) by auto
  have bn: "b ! (n - k - 1) = buf ! (n - k - 1)"
  proof (cases "k = n - k - 1")
    case True
    then show ?thesis using bk by simp
  next
    case False
    then have "\<not> n - k - 1 < k" "\<not> n - k \<le> n - k - 1" using le by auto
    then show ?thesis using b(2) [of "n - k - 1"] le assms(1) by auto
  qed
  show ?case unfolding step
  proof (intro conjI allI impI)
    fix j assume j: "j < length buf"
    show "b[k := b ! (n - k - 1), n - k - 1 := b ! k] ! j =
       (if j < n \<and> (j < Suc k \<or> n - Suc k \<le> j) then buf ! (n - 1 - j) else buf ! j)"
    proof (cases "j = k \<or> j = n - k - 1")
      case True
      then show ?thesis
        using j le b(1) bk bn by (cases "k = n - k - 1") (auto simp: nth_list_update)
    next
      case False
      then have "j < Suc k \<longleftrightarrow> j < k" "j < n \<Longrightarrow> n - Suc k \<le> j \<longleftrightarrow> n - k \<le> j" using le by auto
      with False b(2) [OF j] show ?thesis by auto
    qed
  qed (simp add: b(1))
qed

lemma flip_loop_rev:
  assumes "xs \<noteq> []"
  shows "flip_loop (xs @ rest) (length xs) = rev xs @ rest"
proof (rule nth_equalityI)
  let ?n = "length xs" and ?buf = "xs @ rest"
  have n: "0 < ?n" "?n \<le> length ?buf" using assms by auto
  note p = flip_partial [OF n(2,1) order_refl]
  show "length (flip_loop ?buf ?n) = length (rev xs @ rest)"
    using p by (simp add: flip_loop_def)
  fix j assume "j < length (flip_loop ?buf ?n)"
  then have j: "j < length ?buf" using p by (simp add: flip_loop_def)
  have "j < ?n \<Longrightarrow> j < Suc ((?n - 1) div 2) \<or> ?n - Suc ((?n - 1) div 2) \<le> j" by auto
  with p j have "flip_loop ?buf ?n ! j = (if j < ?n then ?buf ! (?n - 1 - j) else ?buf ! j)"
    by (auto simp: flip_loop_def)
  with j show "flip_loop ?buf ?n ! j = (rev xs @ rest) ! j"
    by (auto simp: nth_append rev_nth)
qed

text \<open>The text of a number: sign, padding, digits.\<close>

definition number_text :: "bool \<Rightarrow> nat \<Rightarrow> nat \<Rightarrow> nat \<Rightarrow> 'w::len word list" where
  "number_text negative zeros b n =
     (if negative then [char_code CHR ''-''] else []) @ replicate zeros (char_code CHR ''0'')
     @ map digit_char (digits b n)"

lemma write_number:
  assumes b: "2 \<le> b" "b \<le> 16"
  shows "ok_bind (digit_loop (int b) buf 0 (int n)) (\<lambda>(buf, offset).
      ok_bind (zero_loop buf offset (z offset)) (\<lambda>(buf, offset). finish_number buf offset negative))
    = (let txt = number_text negative (z (length (digits b n))) b n in
       if length txt < length buf then Inr (txt @ 0 # drop (Suc (length txt)) buf, length txt)
       else Inl OutOfBounds)"
proof -
  let ?d = "length (digits b n)" and ?z = "z (length (digits b n))"
  let ?rd = "rev (map digit_char (digits b n)) :: 'a word list"
  let ?body = "?rd @ replicate ?z (char_code CHR ''0'') :: 'a word list"
  let ?txt = "number_text negative ?z b n :: 'a word list"
  have len: "length ?txt = ?d + ?z + (if negative then 1 else 0)"
    by (simp add: number_text_def)
  show ?thesis
  proof (cases "?d + ?z < length buf")
    case False
    then have "\<not> length ?txt < length buf" by (simp add: len)
    with False show ?thesis
      by (cases "?d \<le> length buf"; cases "?d + ?z \<le> length buf"; cases negative)
        (auto simp: digit_loop_exact [OF b] zero_loop_exact finish_number_def Let_def)
  next
    case True
    then have pre: "ok_bind (digit_loop (int b) buf 0 (int n)) (\<lambda>(buf, offset).
        ok_bind (zero_loop buf offset (z offset)) (\<lambda>(buf, offset). finish_number buf offset negative))
      = finish_number (?body @ drop (?d + ?z) buf) (?d + ?z) negative"
      by (simp add: digit_loop_exact [OF b] zero_loop_exact add.commute)
    have d1: "drop (?d + ?z) buf \<noteq> []" using True by simp
    then obtain c cs where c: "drop (?d + ?z) buf = c # cs" by (cases "drop (?d + ?z) buf") auto
    then have cs: "cs = drop (Suc (?d + ?z)) buf"
      by (metis drop_Suc list.sel(3) tl_drop)
    have ne: "?body \<noteq> []" by (simp add: digits_nonempty)
    show ?thesis
    proof (cases negative)
      case False
      have "finish_number (?body @ c # cs) (?d + ?z) False = Inr (flip_loop (?body @ 0 # cs) (?d + ?z), ?d + ?z)"
        by (simp add: finish_number_def list_update_append)
      also have "\<dots> = Inr (rev ?body @ 0 # cs, ?d + ?z)"
        using flip_loop_rev [OF ne, of "0 # cs"] by simp
      finally show ?thesis
        using False True pre c cs len
        by (simp add: number_text_def Let_def add.commute [of ?z ?d])
    next
      case neg: True
      show ?thesis
      proof (cases cs)
        case Nil
        with cs True have "length buf = Suc (?d + ?z)" by simp
        with neg pre c Nil len show ?thesis
          by (simp add: finish_number_def list_update_append Let_def)
      next
        case (Cons c' cs')
        let ?m = "?body @ [char_code CHR ''-''] :: 'a word list"
        have "finish_number (?body @ c # cs) (?d + ?z) True
            = Inr (flip_loop (?m @ 0 # cs') (Suc (?d + ?z)), Suc (?d + ?z))"
          using Cons by (simp add: finish_number_def list_update_append)
        also have "\<dots> = Inr (rev ?m @ 0 # cs', Suc (?d + ?z))"
          using flip_loop_rev [of ?m "0 # cs'"] by simp
        finally have fin: "finish_number (?body @ c # cs) (?d + ?z) True
            = Inr (rev ?m @ 0 # cs', Suc (?d + ?z))" .
        have cs': "cs' = drop (Suc (Suc (?d + ?z))) buf"
          using Cons cs by (metis drop_Suc list.sel(3) tl_drop)
        have "Suc (?d + ?z) < length buf"
          using Cons cs by (cases "Suc (?d + ?z) < length buf") auto
        with neg pre c fin len cs' show ?thesis
          by (simp add: number_text_def Let_def add.commute [of ?z ?d])
      qed
    qed
  qed
qed

text \<open>The values the template is instantiated with: w bit integers, in their own sign.\<close>

definition representable :: "bool \<Rightarrow> nat \<Rightarrow> int \<Rightarrow> bool" where
  "representable sgnd w v \<longleftrightarrow>
     (if sgnd then - (2 ^ (w - 1)) \<le> v \<and> v < 2 ^ (w - 1) else 0 \<le> v \<and> v < 2 ^ w)"

lemma magnitude_exact:
  assumes "representable sgnd w v" and "v < 0 \<longrightarrow> base = 10" and "v \<noteq> - (2 ^ (w - 1))"
  shows "magnitude sgnd w v base = Inr (v < 0, int (nat \<bar>v\<bar>))"
  using assms by (auto simp: magnitude_def representable_def Let_def split: if_splits)

lemma base_as_exact:
  assumes "2 \<le> base" and "base \<le> 16" and "5 \<le> w"
  shows "base_as sgnd w base = int (nat base)"
proof -
  have "(2 :: int) ^ 5 \<le> 2 ^ w" using assms(3) by (intro power_increasing) auto
  with assms show ?thesis by (auto simp: base_as_def)
qed

text \<open>Reading the text of a number back.\<close>

definition digit_value :: "u16 \<Rightarrow> nat" where
  "digit_value c = (if unat c < 58 then unat c - 48 else unat c - 55)"

definition parse_number :: "nat \<Rightarrow> wstr \<Rightarrow> int" where
  "parse_number b txt =
     (if txt \<noteq> [] \<and> hd txt = 45 then - int (number_of b (map digit_value (tl txt)))
      else int (number_of b (map digit_value txt)))"

lemma digit_char_table:
  "\<forall>d \<in> set [0 ..< 16]. digit_value (digit_char d) = d \<and> (digit_char d :: u16) \<noteq> 45
     \<and> (digit_char d :: u16) \<noteq> 0"
  by (simp add: upt_rec digit_value_def digit_char_def digit_characters_def char_code_def)

lemma digit_value_char: "d < 16 \<Longrightarrow> digit_value (digit_char d) = d"
  and digit_char_not: "d < 16 \<Longrightarrow> (digit_char d :: u16) \<noteq> 45 \<and> (digit_char d :: u16) \<noteq> 0"
  using digit_char_table by simp_all

lemma number_of_zeros: "number_of b (replicate k 0 @ ds) = number_of b ds"
proof -
  have "foldl (\<lambda>n d. n * b + d) 0 (replicate k 0) = 0" by (induction k) auto
  then show ?thesis by simp
qed

lemma map_digit_value:
  assumes "2 \<le> b" and "b \<le> 16"
  shows "map digit_value (replicate k (char_code CHR ''0'') @ map digit_char (digits b n))
    = replicate k 0 @ digits b n"
proof -
  have "digit_value (digit_char d) = d" if "d \<in> set (digits b n)" for d
    using digits_bound [OF assms(1) that] assms(2) by (simp add: digit_value_char)
  then have "map digit_value (map digit_char (digits b n)) = digits b n"
    by (simp add: map_idI)
  moreover have "digit_value (char_code CHR ''0'') = 0"
    by (simp add: digit_value_def char_code_def)
  ultimately show ?thesis by simp
qed

lemma number_text_chars:
  assumes "2 \<le> b" and "b \<le> 16"
  shows "0 \<notin> set (number_text negative k b n :: wstr)"
    and "45 \<notin> set (replicate k (char_code CHR ''0'') @ map digit_char (digits b n) :: wstr)"
proof -
  have "(digit_char d :: u16) \<noteq> 45 \<and> (digit_char d :: u16) \<noteq> 0" if "d \<in> set (digits b n)" for d
    using digits_bound [OF assms(1) that] assms(2) digit_char_not by simp
  then show "0 \<notin> set (number_text negative k b n :: wstr)"
    and "45 \<notin> set (replicate k (char_code CHR ''0'') @ map digit_char (digits b n) :: wstr)"
    by (auto simp: number_text_def char_code_def)
qed

lemma parse_number_text:
  assumes b: "2 \<le> b" "b \<le> 16"
  shows "parse_number b (number_text negative k b n) = (if negative then - int n else int n)"
proof -
  let ?body = "replicate k (char_code CHR ''0'') @ map digit_char (digits b n) :: wstr"
  have v: "number_of b (map digit_value ?body) = n"
    unfolding map_digit_value [OF b] number_of_zeros by (rule number_of_digits [OF b(1)])
  have "?body \<noteq> []" by (simp add: digits_nonempty)
  then have "hd ?body \<noteq> 45" using number_text_chars(2) [OF b, of k n] by (metis hd_in_set)
  with v show ?thesis
    by (simp add: parse_number_def number_text_def char_code_def del: number_of.simps)
qed

section \<open>Properties\<close>

lemma print_value:
  assumes "representable sgnd w v" and "v < 0 \<longrightarrow> base = 10" and "v \<noteq> - (2 ^ (w - 1))"
    and "2 \<le> base" and "base \<le> 16" and "5 \<le> w"
  shows "ok_bind (magnitude sgnd w v base) (\<lambda>(negative, abs_value).
     ok_bind (digit_loop (base_as sgnd w base) buf 0 abs_value) (\<lambda>(buf, offset).
     ok_bind (zero_loop buf offset (z offset)) (\<lambda>(buf, offset).
     finish_number buf offset negative)))
    = (let b = nat base; n = nat \<bar>v\<bar>; txt = number_text (v < 0) (z (length (digits b n))) b n
       in if length txt < length buf then Inr (txt @ 0 # drop (Suc (length txt)) buf, length txt)
          else Inl OutOfBounds)"
proof -
  have b: "2 \<le> nat base" "nat base \<le> 16" using assms by auto
  show ?thesis
    unfolding magnitude_exact [OF assms(1-3)] base_as_exact [OF assms(4-6)] ok_bind_Inr prod.case
      write_number [OF b] by (simp only: Let_def)
qed

text \<open>A negative value in another base than 10 has no digits: its remainders are negative or zero.\<close>

lemma digit_loop_negative:
  assumes "2 \<le> base" and "base \<le> 16" and "cur < 0"
  shows "digit_loop base buf offset cur = Inl OutOfBounds"
  using assms(3)
proof (induction "nat \<bar>cur\<bar>" arbitrary: buf offset cur rule: less_induct)
  case less
  let ?a = "\<bar>cur\<bar>"
  have quotient: "trunc_div cur base = - (?a div base)"
    using less.prems assms(1) by (simp add: trunc_div_def)
  have rem: "cur - trunc_div cur base * base = - (?a mod base)"
    using less.prems by (simp add: quotient minus_mult_div_eq_mod [symmetric] algebra_simps)
  show ?case
  proof (cases "?a mod base = 0")
    case False
    then have "0 < ?a mod base" using assms(1) by (simp add: order_less_le)
    then show ?thesis using rem assms(1) by (subst digit_loop.simps) (simp add: Let_def)
  next
    case True
    then have "?a = ?a div base * base" by (metis add.right_neutral div_mult_mod_eq)
    then have "0 < ?a div base * base" using less.prems by simp
    then have q: "0 < ?a div base" using assms(1) by (simp add: zero_less_mult_iff)
    have "?a div base < ?a" using less.prems assms(1) by (intro int_div_less_self) auto
    then have IH: "digit_loop base (buf[offset := x]) (Suc offset) (- (?a div base)) = Inl OutOfBounds" for x
      using q by (intro less.hyps) auto
    show ?thesis
    proof (cases "offset < length buf")
      case inside: True
      then show ?thesis
        using rem True quotient q assms(1) IH
        by (subst digit_loop.simps) (simp add: Let_def)
    next
      case False
      then show ?thesis
        using rem True assms(1) by (subst digit_loop.simps) (simp add: Let_def)
    qed
  qed
qed

text \<open>What is printed for every value of the type; z says how many zeros go before n digits.\<close>

definition printed ::
  "bool \<Rightarrow> nat \<Rightarrow> 'w::len word list \<Rightarrow> int \<Rightarrow> int \<Rightarrow> (nat \<Rightarrow> nat) \<Rightarrow> fault + 'w word list \<times> nat" where
  "printed sgnd w buf v base z =
     (if v < 0 \<and> base \<noteq> 10 then Inl OutOfBounds
      else if sgnd \<and> v = - (2 ^ (w - 1)) then Inl SignedOverflow
      else
        let b = nat base; n = nat \<bar>v\<bar>; txt = number_text (v < 0) (z (length (digits b n))) b n
        in if length txt < length buf then Inr (txt @ 0 # drop (Suc (length txt)) buf, length txt)
           else Inl OutOfBounds)"

lemma print_any_value:
  assumes "representable sgnd w v" and "2 \<le> base" and "base \<le> 16" and "w = 32 \<or> w = 64"
  shows "ok_bind (magnitude sgnd w v base) (\<lambda>(negative, abs_value).
     ok_bind (digit_loop (base_as sgnd w base) buf 0 abs_value) (\<lambda>(buf, offset).
     ok_bind (zero_loop buf offset (z offset)) (\<lambda>(buf, offset).
     finish_number buf offset negative)))
    = printed sgnd w buf v base z"
proof -
  have w: "5 \<le> w" using assms(4) by auto
  have negative: "sgnd" if "v < 0" using assms(1) that by (auto simp: representable_def split: if_splits)
  consider (digits) "v < 0" "base \<noteq> 10" | (least) "\<not> (v < 0 \<and> base \<noteq> 10)" "sgnd" "v = - (2 ^ (w - 1))"
    | (plain) "v < 0 \<longrightarrow> base = 10" "\<not> (sgnd \<and> v = - (2 ^ (w - 1)))" by blast
  then show ?thesis
  proof cases
    case digits
    then have "magnitude sgnd w v base = Inr (False, v)" by (simp add: magnitude_def)
    moreover have "digit_loop (base_as sgnd w base) buf 0 v = Inl OutOfBounds"
      using digits negative assms(2,3) by (simp add: base_as_def digit_loop_negative)
    ultimately show ?thesis using digits by (simp add: printed_def)
  next
    case least
    then have "v < 0" by simp
    with least show ?thesis by (auto simp: printed_def magnitude_def Let_def)
  next
    case plain
    have "v \<noteq> - (2 ^ (w - 1))"
      using plain(2) assms(1) by (auto simp: representable_def dest: order_trans [of 0])
    then have eq: "ok_bind (magnitude sgnd w v base) (\<lambda>(negative, abs_value).
       ok_bind (digit_loop (base_as sgnd w base) buf 0 abs_value) (\<lambda>(buf, offset).
       ok_bind (zero_loop buf offset (z offset)) (\<lambda>(buf, offset).
       finish_number buf offset negative)))
      = (let b = nat base; n = nat \<bar>v\<bar>; txt = number_text (v < 0) (z (length (digits b n))) b n
         in if length txt < length buf then Inr (txt @ 0 # drop (Suc (length txt)) buf, length txt)
            else Inl OutOfBounds)"
      by (intro print_value plain(1) assms w)
    have "\<not> (v < 0 \<and> base \<noteq> 10)" using plain(1) by blast
    with plain(2) show ?thesis unfolding eq printed_def by (simp only: if_False)
  qed
qed

text \<open>
  C5: Both overloads of \<^verbatim>\<open>witoabuf\<close>, for every value of the four types they are instantiated with, base 2
  to 16 and any padding.  They write, at the front of the buffer, the sign, zeros, the digits without
  superfluous zeros and the terminator, and return the length; if this does not fit they write out of
  bounds.  The zeros fill the digits up to the padding; the overload for \<^verbatim>\<open>char\<close> always writes at least
  one.  A negative value in another base than 10 reads the table of digits out of bounds, and the
  least value of a signed type in base 10 overflows.
\<close>

theorem witoabuf16_correct:
  assumes "representable sgnd w v" and "2 \<le> base" and "base \<le> 16" and "w = 32 \<or> w = 64"
  shows "witoabuf16 sgnd w buf v base pad = printed sgnd w buf v base (\<lambda>n. nat (pad - int n))
    \<and> witoabuf8 sgnd w buf8 v base pad = printed sgnd w buf8 v base (\<lambda>n. max 1 (nat (pad - int n)))"
  unfolding witoabuf16_def witoabuf8_def
  by (intro conjI print_any_value [OF assms, where z = "\<lambda>n. nat (pad - int n)"]
      print_any_value [OF assms, where z = "\<lambda>n. max 1 (nat (pad - int n))"])

theorem witoabuf16_correct_witness:
  "witoabuf16 True 32 [7, 7, 7, 7, 7, 7] (- 42) 10 3 = Inr ([45, 48, 52, 50, 0, 7], 4)
    \<and> witoabuf8 True 32 [7, 7, 7, 7, 7, 7] 42 10 0 = Inr ([48, 52, 50, 0, 7, 7], 3)
    \<and> witoabuf16 True 32 [] (- 42) 16 3 = Inl OutOfBounds
    \<and> witoabuf16 True 64 [] (- (2 ^ 63)) 10 3 = Inl SignedOverflow"
proof -
  have d: "digits 10 42 = [4, 2]" by (simp add: digits.simps)
  have "printed True 32 [7, 7, 7, 7, 7, 7] (- 42) 10 (\<lambda>n. nat (3 - int n)) = Inr ([45, 48, 52, 50, 0, 7 :: u16], 4)"
    "printed True 32 [7, 7, 7, 7, 7, 7] 42 10 (\<lambda>n. max 1 (nat (0 - int n))) = Inr ([48, 52, 50, 0, 7, 7 :: u8], 3)"
    "printed True 32 ([] :: u16 list) (- 42) 16 (\<lambda>n. nat (3 - int n)) = Inl OutOfBounds"
    "printed True 64 ([] :: u16 list) (- (2 ^ 63)) 10 (\<lambda>n. nat (3 - int n)) = Inl SignedOverflow"
    by (simp_all add: d printed_def Let_def number_text_def digit_char_def digit_characters_def char_code_def)
  moreover have "representable True 32 (- 42)" "representable True 32 42" "representable True 64 (- (2 ^ 63))"
    by (simp_all add: representable_def)
  ultimately show ?thesis
    using witoabuf16_correct [of True 32 "- 42" 10 "[7, 7, 7, 7, 7, 7]" 3]
      witoabuf16_correct [of True 32 42 10 _ 0 "[7, 7, 7, 7, 7, 7]"]
      witoabuf16_correct [of True 32 "- 42" 16 "[]" 3]
      witoabuf16_correct [of True 64 "- (2 ^ 63)" 10 "[]" 3]
    by simp
qed

text \<open>
  \<^verbatim>\<open>witoabuf\<close> for \<^verbatim>\<open>char\<close> does not print the same text: it writes at least one padding
  zero, so that without padding every number gets a leading zero (and one more cell of the
  buffer is needed).
\<close>

theorem witoabuf8_extra_zero:
  assumes "representable sgnd w v" and "v < 0 \<longrightarrow> base = 10" and "v \<noteq> - (2 ^ (w - 1))"
    and "2 \<le> base" and "base \<le> 16" and "5 \<le> w"
  shows "witoabuf8 sgnd w buf v base pad =
    (let b = nat base; n = nat \<bar>v\<bar>;
         txt = number_text (v < 0) (max 1 (nat (pad - int (length (digits b n))))) b n
     in if length txt < length buf then Inr (txt @ 0 # drop (Suc (length txt)) buf, length txt)
        else Inl OutOfBounds)"
  unfolding witoabuf8_def by (rule print_value [OF assms])

theorem witoabuf8_extra_zero_witness:
  "witoabuf8 False 64 (replicate 5 7) 42 10 0 = Inr ([48, 52, 50, 0, 7], 3)"
proof -
  have "digits 10 42 = [4, 2]" by (simp add: digits.simps)
  then show ?thesis
    by (subst witoabuf8_extra_zero)
      (simp_all add: representable_def Let_def number_text_def digit_char_def digit_characters_def
        char_code_def numeral_eq_Suc)
qed

text \<open>
  Printing and reading back: whenever \<^verbatim>\<open>witoabuf\<close> returns, the string in the buffer has
  the returned length and denotes the value, whatever the padding.
\<close>

theorem witoabuf16_roundtrip:
  assumes "representable sgnd w v" and "v < 0 \<longrightarrow> base = 10" and "v \<noteq> - (2 ^ (w - 1))"
    and "2 \<le> base" and "base \<le> 16" and "5 \<le> w"
    and "witoabuf16 sgnd w buf v base pad = Inr (buf', len)"
  shows "length (c_string buf') = len \<and> parse_number (nat base) (c_string buf') = v"
proof -
  let ?k = "nat (pad - int (length (digits (nat base) (nat \<bar>v\<bar>))))"
  let ?txt = "number_text (v < 0) ?k (nat base) (nat \<bar>v\<bar>) :: wstr"
  have b: "2 \<le> nat base" "nat base \<le> 16" using assms by auto
  have wr: "witoabuf16 sgnd w buf v base pad =
    (if length ?txt < length buf then Inr (?txt @ 0 # drop (Suc (length ?txt)) buf, length ?txt)
     else Inl OutOfBounds)"
    unfolding witoabuf16_def print_value [OF assms(1-6)] by (simp only: Let_def)
  with assms(7) have "buf' = ?txt @ 0 # drop (Suc (length ?txt)) buf" "len = length ?txt"
    by (auto split: if_splits)
  then show ?thesis
    using number_text_chars(1) [OF b] parse_number_text [OF b]
    by (auto simp: c_string_append)
qed

theorem witoabuf16_roundtrip_witness:
  "parse_number 16 (c_string [70, 70, 0, 1, 1]) = 255"
proof -
  have "digits 16 255 = [15, 15]" by (simp add: digits.simps)
  then have "witoabuf16 False 32 (replicate 5 1) 255 16 0 = Inr ([70, 70, 0, 1, 1], 2)"
    unfolding witoabuf16_def
    by (subst print_value) (simp_all add: representable_def Let_def number_text_def
        digit_char_def digit_characters_def char_code_def numeral_eq_Suc)
  from witoabuf16_roundtrip [OF _ _ _ _ _ _ this] show ?thesis
    by (simp add: representable_def)
qed

text \<open>
  \<^verbatim>\<open>strcmp\<close> on two terminated strings reads nothing behind the terminators and returns 0
  exactly for equal strings; exchanging the arguments changes the sign.
\<close>

theorem strcmp_correct:
  assumes "terminated a" and "terminated b"
  shows "\<exists>r. strcmp a b = Inr r \<and> strcmp b a = Inr (- r) \<and> (r = 0 \<longleftrightarrow> c_string a = c_string b)"
proof -
  from assms obtain x t y u where s: "a = x @ 0 # t" "b = y @ 0 # u" "0 \<notin> set x" "0 \<notin> set y"
    "c_string a = x" "c_string b = y" by (metis terminatedE)
  have inj: "inj (sint :: u8 \<Rightarrow> int)" by (intro injI) (rule signed_word_eqI)
  then have "0 \<notin> set (map sint x)" "0 \<notin> set (map sint y)"
    using s by (auto simp: signed_eq_0_iff)
  then have "lex_diff (map sint x) (map sint y) = 0 \<longleftrightarrow> x = y"
    using lex_diff_zero inj by (metis inj_map_eq_map)
  then show ?thesis
    using strcmp_loop_lex [OF s(3,4) inj] strcmp_loop_lex [OF s(4,3) inj]
      lex_diff_antisym [of "map sint y" "map sint x"] s
    by (simp add: strcmp_def)
qed

theorem strcmp_correct_witness: "strcmp [97, 98, 0] [97, 98, 0, 5] = Inr 0"
  using strcmp_correct [of "[97, 98, 0]" "[97, 98, 0, 5]"]
  by (auto simp: terminated_def c_string_def)

text \<open>
  Widening a string into a buffer that can take it and narrowing the result again gives
  the string back, for every byte.
\<close>

theorem wide_ascii_roundtrip:
  assumes "0 \<notin> set x" and "length x < length wbuf" and "length x < length buf"
    and "int (length x) \<le> limit"
  shows "\<exists>wbuf'. ascii_to_wide (Some wbuf) (x @ 0 # t) limit = Inr (length x, Some wbuf')
    \<and> (\<exists>buf'. wide_to_ascii (Some buf) wbuf' limit = Inr (length x, Some buf') \<and> c_string buf' = x)"
proof -
  have inv: "ucast (scast c :: u16) = c" for c :: u8
    by (rule bit_word_eqI) (auto simp: bit_simps)
  have z: "scast c = (0 :: u16) \<longleftrightarrow> c = 0" for c :: u8
    using inv [of c] by (metis scast_0 ucast_0)
  have nz: "0 \<notin> set (map scast x :: wstr)" using assms(1) by (auto simp: z)
  let ?w = "map scast x @ 0 # drop (Suc (length x)) wbuf :: wstr"
  have "ascii_to_wide (Some wbuf) (x @ 0 # t) limit = Inr (length x, Some ?w)"
    using convert_loop_exact [OF assms(1) refl assms(4), of 0 0 scast wbuf t] assms(2)
    by (simp add: ascii_to_wide_def)
  moreover have "wide_to_ascii (Some buf) ?w limit =
      Inr (length x, Some (x @ 0 # drop (Suc (length x)) buf))"
    using convert_loop_exact [OF nz _ _ _, of "length x" limit 0 0 ucast buf] assms(3,4)
    by (simp add: wide_to_ascii_def o_def inv)
  ultimately show ?thesis using assms(1) by (auto simp: c_string_append)
qed

theorem wide_ascii_roundtrip_witness:
  "\<exists>wbuf'. ascii_to_wide (Some [9, 9, 9, 9]) [47, 200, 0] 3 = Inr (2, Some wbuf')"
  using wide_ascii_roundtrip [of "[47, 200]" "[9, 9, 9, 9]" "[1, 1, 1]" 3 "[]"] by auto

text \<open>
  The size given to \<^verbatim>\<open>ascii_to_wide\<close> does not count the terminator: with the size of the
  whole buffer as the limit, as the system calls pass it, a string that is at least as long as
  the buffer makes it write one cell behind the buffer.
\<close>

theorem ascii_to_wide_overrun:
  assumes "0 \<notin> set x" and "length wbuf \<le> length x"
  shows "ascii_to_wide (Some wbuf) (x @ 0 # t) (int (length wbuf)) = Inl OutOfBounds"
proof -
  let ?n = "length wbuf" and ?x = "take (length wbuf) x"
  have x: "0 \<notin> set ?x" "length ?x = ?n" using assms by (auto dest: in_set_takeD)
  obtain c s where c: "x @ 0 # t = ?x @ c # s"
    by (metis append.assoc append_Cons append_take_drop_id list.exhaust append_Nil)
  show ?thesis
    using convert_loop_exact [OF x, of "int ?n" c 0 scast wbuf s] x(2) c
    by (simp add: ascii_to_wide_def)
qed

theorem ascii_to_wide_overrun_witness:
  "ascii_to_wide (Some [0, 0]) [47, 98, 99, 0] 2 = Inl OutOfBounds"
  using ascii_to_wide_overrun [of "[47, 98, 99]" "[0, 0]" "[]"] by simp

end
