(* ===== verification/MemoryOps.thy ===== *)
theory MemoryOps
  imports Prelude
begin

text \<open>
  The memory routines of \<^verbatim>\<open>src/kernel/memory/memory.cpp\<close> over a flat byte memory.  Pointers
  are 64 bit addresses, so that source and destination may overlap; the loops count up to the
  64 bit size.  A range of n bytes from address d holds the addresses whose distance
  \<^verbatim>\<open>unat (a - d)\<close> is below n.
\<close>

type_synonym memory = "u64 \<Rightarrow> u8"

section \<open>Words in memory\<close>

definition byte_of :: "u64 \<Rightarrow> nat \<Rightarrow> u8" where
  "byte_of v i = ucast (drop_bit (8 * i) v)"

fun store_bytes :: "memory \<Rightarrow> u64 \<Rightarrow> u8 list \<Rightarrow> memory" where
  "store_bytes m a [] = m"
| "store_bytes m a (b # bs) = store_bytes (m(a := b)) (a + 1) bs"

definition store32 :: "memory \<Rightarrow> u64 \<Rightarrow> u32 \<Rightarrow> memory" where
  "store32 m a v = store_bytes m a (map (byte_of (ucast v)) [0 ..< 4])"

definition store64 :: "memory \<Rightarrow> u64 \<Rightarrow> u64 \<Rightarrow> memory" where
  "store64 m a v = store_bytes m a (map (byte_of v) [0 ..< 8])"

definition load64 :: "memory \<Rightarrow> u64 \<Rightarrow> u64" where
  "load64 m a = foldr (\<lambda>i v. push_bit (8 * i) (ucast (m (a + of_nat i))) OR v) [0 ..< 8] 0"

section \<open>The routines\<close>

text \<open>The loops run over the index i; the last argument is the number of iterations left.\<close>

fun copy_up :: "memory \<Rightarrow> u64 \<Rightarrow> u64 \<Rightarrow> nat \<Rightarrow> nat \<Rightarrow> memory" where
  "copy_up m dest src i 0 = m"
| "copy_up m dest src i (Suc k) =
     copy_up (m(dest + of_nat i := m (src + of_nat i))) dest src (Suc i) k"

fun copy_down :: "memory \<Rightarrow> u64 \<Rightarrow> u64 \<Rightarrow> nat \<Rightarrow> memory" where
  "copy_down m dest src 0 = m"
| "copy_down m dest src (Suc i) =
     copy_down (m(dest + of_nat i := m (src + of_nat i))) dest src i"

definition memcpy :: "memory \<Rightarrow> u64 \<Rightarrow> u64 \<Rightarrow> u64 \<Rightarrow> memory" where
  "memcpy m dest src n = copy_up m dest src 0 (unat n)"

definition memcpy_volatile :: "memory \<Rightarrow> u64 \<Rightarrow> u64 \<Rightarrow> u64 \<Rightarrow> memory" where
  "memcpy_volatile m dest src n = copy_up m dest src 0 (unat n)"

fun set_loop :: "memory \<Rightarrow> u64 \<Rightarrow> u8 \<Rightarrow> nat \<Rightarrow> nat \<Rightarrow> memory" where
  "set_loop m s v i 0 = m"
| "set_loop m s v i (Suc k) = set_loop (m(s + of_nat i := v)) s v (Suc i) k"

definition memset :: "memory \<Rightarrow> u64 \<Rightarrow> u8 \<Rightarrow> u64 \<Rightarrow> memory" where
  "memset m s v n = set_loop m s v 0 (unat n)"

definition memset_volatile :: "memory \<Rightarrow> u64 \<Rightarrow> u8 \<Rightarrow> u64 \<Rightarrow> memory" where
  "memset_volatile m s v n = set_loop m s v 0 (unat n)"

fun set32_loop :: "memory \<Rightarrow> u64 \<Rightarrow> u32 \<Rightarrow> nat \<Rightarrow> nat \<Rightarrow> memory" where
  "set32_loop m s v i 0 = m"
| "set32_loop m s v i (Suc k) = set32_loop (store32 m (s + 4 * of_nat i) v) s v (Suc i) k"

definition memset32 :: "memory \<Rightarrow> u64 \<Rightarrow> u32 \<Rightarrow> u64 \<Rightarrow> memory" where
  "memset32 m s v n = set32_loop m s v 0 (unat (n div 4))"

text \<open>\<^verbatim>\<open>memset64\<close> stores the same value, \<^verbatim>\<open>FillUnique\<close> the base value plus the index.\<close>

fun fill64_loop :: "(nat \<Rightarrow> u64) \<Rightarrow> memory \<Rightarrow> u64 \<Rightarrow> nat \<Rightarrow> nat \<Rightarrow> memory" where
  "fill64_loop f m s i 0 = m"
| "fill64_loop f m s i (Suc k) = fill64_loop f (store64 m (s + 8 * of_nat i) (f i)) s (Suc i) k"

definition memset64 :: "memory \<Rightarrow> u64 \<Rightarrow> u64 \<Rightarrow> u64 \<Rightarrow> memory" where
  "memset64 m s v n = fill64_loop (\<lambda>i. v) m s 0 (unat (n div 8))"

definition FillUnique :: "memory \<Rightarrow> u64 \<Rightarrow> u64 \<Rightarrow> u64 \<Rightarrow> memory" where
  "FillUnique m address base_value byte_count =
     fill64_loop (\<lambda>i. base_value + of_nat i) m address 0 (unat (byte_count div 8))"

definition memmove :: "memory \<Rightarrow> u64 \<Rightarrow> u64 \<Rightarrow> u64 \<Rightarrow> memory" where
  "memmove m dest src n =
     (if src > dest then copy_up m dest src 0 (unat n)
      else if src < dest then copy_down m dest src (unat n)
      else m)"

fun compare_loop :: "memory \<Rightarrow> u64 \<Rightarrow> u64 \<Rightarrow> nat \<Rightarrow> nat \<Rightarrow> int" where
  "compare_loop m s1 s2 i 0 = 0"
| "compare_loop m s1 s2 i (Suc k) =
     (if m (s1 + of_nat i) \<noteq> m (s2 + of_nat i)
      then (if m (s1 + of_nat i) < m (s2 + of_nat i) then - 1 else 1)
      else compare_loop m s1 s2 (Suc i) k)"

definition memcmp :: "memory \<Rightarrow> u64 \<Rightarrow> u64 \<Rightarrow> u64 \<Rightarrow> int" where
  "memcmp m s1 s2 n = compare_loop m s1 s2 0 (unat n)"

section \<open>Correctness\<close>

text \<open>What a copy of n bytes should do.\<close>

definition copied :: "memory \<Rightarrow> u64 \<Rightarrow> u64 \<Rightarrow> nat \<Rightarrow> memory" where
  "copied m dest src n =
     (\<lambda>a. if unat (a - dest) < n then m (src + (a - dest)) else m a)"

lemma unat_of_nat_64: "n < 2 ^ 64 \<Longrightarrow> unat (of_nat n :: u64) = n"
  by (simp add: unat_of_nat take_bit_nat_eq_self)

lemma unat_uminus_64: "x \<noteq> 0 \<Longrightarrow> unat (- x :: u64) = 2 ^ 64 - unat x"
  by (simp add: unat_sub_if' [of 0 x, simplified] word_size unat_gt_0)

lemma offset_eq_iff:
  fixes a d :: u64
  assumes "i < 2 ^ 64"
  shows "a = d + of_nat i \<longleftrightarrow> unat (a - d) = i"
proof
  assume "a = d + of_nat i"
  then show "unat (a - d) = i" using unat_of_nat_64 [OF assms] by simp
next
  assume "unat (a - d) = i"
  then have "of_nat i = a - d" by auto
  then show "a = d + of_nat i" by simp
qed

lemma copy_up_spec:
  assumes "i + k \<le> 2 ^ 64"
    and "\<And>j j'. i \<le> j' \<Longrightarrow> j' < j \<Longrightarrow> j < i + k \<Longrightarrow> src + of_nat j \<noteq> dest + of_nat j'"
  shows "copy_up m dest src i k =
    (\<lambda>a. if i \<le> unat (a - dest) \<and> unat (a - dest) < i + k then m (src + (a - dest)) else m a)"
  using assms
proof (induction k arbitrary: i m)
  case (Suc k)
  let ?m = "m(dest + of_nat i := m (src + of_nat i))"
  have keep: "?m (src + of_nat j) = m (src + of_nat j)" if "Suc i \<le> j" "j < i + Suc k" for j
    using Suc.prems(2) [of i j] that by auto
  have i: "i < 2 ^ 64" using Suc.prems(1) by simp
  have "copy_up m dest src i (Suc k) =
    (\<lambda>a. if Suc i \<le> unat (a - dest) \<and> unat (a - dest) < Suc i + k then ?m (src + (a - dest)) else ?m a)"
    unfolding copy_up.simps
    by (rule Suc.IH) (use Suc.prems in \<open>simp_all del: fun_upd_apply\<close>)
  also have "\<dots> = (\<lambda>a. if i \<le> unat (a - dest) \<and> unat (a - dest) < i + Suc k
      then m (src + (a - dest)) else m a)"
  proof
    fix a
    have "a - dest = of_nat (unat (a - dest))" by simp
    then show "(if Suc i \<le> unat (a - dest) \<and> unat (a - dest) < Suc i + k then ?m (src + (a - dest)) else ?m a)
      = (if i \<le> unat (a - dest) \<and> unat (a - dest) < i + Suc k then m (src + (a - dest)) else m a)"
      using keep [of "unat (a - dest)"] offset_eq_iff [OF i, of a dest]
      by (cases "unat (a - dest) = i") (auto simp del: fun_upd_apply simp: fun_upd_def)
  qed
  finally show ?case .
qed (rule ext, auto)

lemma copy_down_spec:
  assumes "n \<le> 2 ^ 64"
    and "\<And>j j'. j < j' \<Longrightarrow> j' < n \<Longrightarrow> src + of_nat j \<noteq> dest + of_nat j'"
  shows "copy_down m dest src n = copied m dest src n"
  using assms
proof (induction n arbitrary: m)
  case 0
  then show ?case by (simp add: copied_def)
next
  case (Suc n)
  let ?m = "m(dest + of_nat n := m (src + of_nat n))"
  have keep: "?m (src + of_nat j) = m (src + of_nat j)" if "j < n" for j
    using Suc.prems(2) [of j n] that by auto
  have n: "n < 2 ^ 64" using Suc.prems(1) by simp
  have "copy_down m dest src (Suc n) = copied ?m dest src n"
    unfolding copy_down.simps
    by (rule Suc.IH) (use Suc.prems in \<open>simp_all del: fun_upd_apply\<close>)
  also have "\<dots> = copied m dest src (Suc n)"
  proof
    fix a
    have "a - dest = of_nat (unat (a - dest))" by simp
    then show "copied ?m dest src n a = copied m dest src (Suc n) a"
      using keep [of "unat (a - dest)"] offset_eq_iff [OF n, of a dest]
      by (cases "unat (a - dest) = n") (auto simp: copied_def simp del: fun_upd_apply simp: fun_upd_def)
  qed
  finally show ?case .
qed

lemma unat_add_offset:
  fixes a :: u64
  assumes "unat a + n \<le> 2 ^ 64" and "j < n"
  shows "unat (a + of_nat j) = unat a + j"
proof -
  have "unat (of_nat j :: u64) = j" using assms by (intro unat_of_nat_64) simp
  then show ?thesis using assms by (subst unat_add_no_wrap) simp_all
qed

lemma set_loop_spec:
  assumes "i + k \<le> 2 ^ 64"
  shows "set_loop m s v i k = (\<lambda>a. if i \<le> unat (a - s) \<and> unat (a - s) < i + k then v else m a)"
  using assms
proof (induction k arbitrary: i m)
  case (Suc k)
  have "set_loop m s v i (Suc k) = (\<lambda>a. if Suc i \<le> unat (a - s) \<and> unat (a - s) < Suc i + k then v
      else (m(s + of_nat i := v)) a)"
    unfolding set_loop.simps
    by (rule Suc.IH) (use Suc.prems in simp)
  moreover have "a = s + of_nat i \<longleftrightarrow> unat (a - s) = i" for a
    using Suc.prems by (intro offset_eq_iff) simp
  ultimately show ?case by (auto simp: fun_eq_iff)
qed (rule ext, auto)

lemma store_bytes_spec:
  "length bs \<le> 2 ^ 64 \<Longrightarrow>
   store_bytes m a bs = (\<lambda>x. if unat (x - a) < length bs then bs ! unat (x - a) else m x)"
proof (induction bs arbitrary: m a)
  case (Cons b bs)
  have x: "(x = a \<longleftrightarrow> unat (x - a) = 0)" for x
    using unat_eq_zero [of "x - a"] by simp
  have shift: "unat (x - a) = Suc (unat (x - (a + 1)))" if "x \<noteq> a" for x
  proof -
    have "unat (x - a) \<noteq> 0" using that x by blast
    then have "x - a \<noteq> 0" by auto
    then have "unat (x - a) = Suc (unat (x - a - 1))"
      by (metis One_nat_def Suc_pred \<open>unat (x - a) \<noteq> 0\<close> bot_nat_0.not_eq_extremum unat_minus_one)
    then show ?thesis by (simp add: algebra_simps)
  qed
  have "unat (a - (a + 1) :: u64) = 2 ^ 64 - 1"
    using unat_uminus_64 [of 1] by simp
  then show ?case
    using Cons shift by (auto simp: fun_eq_iff nth_Cons')
qed simp

lemma bit_shifted_byte:
  assumes "k < 8"
  shows "bit (push_bit (8 * k) (ucast (byte_of w k)) :: u64) n \<longleftrightarrow> bit w n \<and> 8 * k \<le> n \<and> n < 8 * Suc k"
proof (cases "8 * k \<le> n \<and> n < 8 * Suc k")
  case True
  then have "n < 64" and "8 * k + (n - 8 * k) = n" and "n - 8 * k < 8" using assms by auto
  then show ?thesis using True by (simp add: bit_simps byte_of_def disj_commute)
next
  case False
  show ?thesis
  proof (cases "8 * k \<le> n")
    case True
    then have "8 \<le> n - 8 * k" using False by simp
    then have "\<not> bit (byte_of w k) (n - 8 * k)"
      using bit_imp_le_length [of "byte_of w k" "n - 8 * k"] by auto
    then show ?thesis using False by (simp only: bit_push_bit_iff bit_ucast_iff) blast
  next
    case False
    then show ?thesis by (simp only: bit_push_bit_iff) blast
  qed
qed

lemma bit_gather:
  "k \<le> 8 \<Longrightarrow> bit (foldr (\<lambda>i v. push_bit (8 * i) (ucast (byte_of w i)) OR v) [0 ..< k] (acc :: u64)) n
    \<longleftrightarrow> bit acc n \<or> bit w n \<and> n < 8 * k"
proof (induction k arbitrary: acc)
  case (Suc k)
  have "bit (push_bit (8 * k) (ucast (byte_of w k)) OR acc) n
      \<longleftrightarrow> bit acc n \<or> bit w n \<and> 8 * k \<le> n \<and> n < 8 * Suc k"
    using bit_shifted_byte [of k w n] Suc.prems unfolding bit_or_iff by auto
  moreover have "8 * k \<le> n \<or> n < 8 * k" and "n < 8 * k \<Longrightarrow> n < 8 * Suc k" and "k \<le> 8"
    using Suc.prems by auto
  ultimately show ?case
    unfolding upt_Suc_append [OF le0] foldr_append foldr.simps o_apply id_apply
    using Suc.IH [of "push_bit (8 * k) (ucast (byte_of w k)) OR acc"] by blast
qed simp

lemma word64_bytes:
  "foldr (\<lambda>i v. push_bit (8 * i) (ucast (byte_of w i)) OR v) [0 ..< 8] (0 :: u64) = w"
  by (rule bit_word_eqI) (simp add: bit_gather)

lemma load_store64: "load64 (store64 m a v) a = v"
proof -
  have "foldr (\<lambda>i w. push_bit (8 * i) (ucast (store64 m a v (a + of_nat i))) OR w) [0 ..< 8] 0
    = foldr (\<lambda>i w. push_bit (8 * i) (ucast (byte_of v i)) OR w) [0 ..< 8] (0 :: u64)"
    by (rule foldr_cong) (auto simp: store64_def store_bytes_spec unat_of_nat_64)
  then show ?thesis by (simp add: load64_def word64_bytes)
qed

lemma store64_outside: "8 \<le> unat (x - a) \<Longrightarrow> store64 m a v x = m x"
  by (simp add: store64_def store_bytes_spec)

lemma load64_cong: "(\<And>i. i < 8 \<Longrightarrow> m (a + of_nat i) = m' (a + of_nat i)) \<Longrightarrow> load64 m a = load64 m' a"
  unfolding load64_def by (rule foldr_cong) auto

lemma load_store64_apart:
  assumes "8 \<le> unat (b - a)" and "unat (b - a) + 8 \<le> 2 ^ 64"
  shows "load64 (store64 m a v) b = load64 m b"
proof (rule load64_cong)
  fix i :: nat assume i: "i < 8"
  have "unat (b - a + of_nat i) = unat (b - a) + i"
    by (rule unat_add_offset) (use assms i in auto)
  then have "8 \<le> unat (b + of_nat i - a)" using assms by (simp add: algebra_simps)
  then show "store64 m a v (b + of_nat i) = m (b + of_nat i)" by (rule store64_outside)
qed

lemma fill64_loop_load:
  assumes "8 * (i + k) \<le> 2 ^ 64" and "j < i + k"
  shows "load64 (fill64_loop f m s i k) (s + 8 * of_nat j)
    = (if i \<le> j then f j else load64 m (s + 8 * of_nat j))"
  using assms
proof (induction k arbitrary: i m)
  case (Suc k)
  have IH: "load64 (fill64_loop f m s i (Suc k)) (s + 8 * of_nat j) =
     (if Suc i \<le> j then f j else load64 (store64 m (s + 8 * of_nat i) (f i)) (s + 8 * of_nat j))"
    if "j \<noteq> i \<or> True"
    unfolding fill64_loop.simps by (rule Suc.IH) (use Suc.prems in auto)
  have apart: "load64 (store64 m (s + 8 * of_nat i) (f i)) (s + 8 * of_nat j) = load64 m (s + 8 * of_nat j)"
    if "j < i"
  proof -
    have d: "s + 8 * of_nat j - (s + 8 * of_nat i) = - (of_nat (8 * (i - j)) :: u64)"
      using that by (simp add: of_nat_diff algebra_simps)
    have u: "unat (of_nat (8 * (i - j)) :: u64) = 8 * (i - j)"
      by (rule unat_of_nat_64) (use Suc.prems that in simp)
    have "unat (- (of_nat (8 * (i - j)) :: u64)) = 2 ^ 64 - 8 * (i - j)"
      using u that by (subst unat_uminus_64) (auto simp del: of_nat_mult of_nat_diff)
    then show ?thesis using Suc.prems that d by (intro load_store64_apart) auto
  qed
  show ?case
    using IH apart by (cases i j rule: linorder_cases) (auto simp: load_store64)
qed auto

section \<open>Properties\<close>

text \<open>The n bytes from an address.\<close>

definition bytes_at :: "memory \<Rightarrow> u64 \<Rightarrow> nat \<Rightarrow> u8 list" where
  "bytes_at m a n = map (\<lambda>i. m (a + of_nat i)) [0 ..< n]"

lemma length_bytes_at [simp]: "length (bytes_at m a n) = n"
  by (simp add: bytes_at_def)

lemma bytes_at_Suc: "bytes_at m a (Suc n) = m a # bytes_at m (a + 1) n"
  by (simp add: bytes_at_def upt_conv_Cons map_Suc_upt [symmetric] algebra_simps del: upt_Suc)

text \<open>What \<^verbatim>\<open>memcmp\<close> promises: the sign of the first difference.\<close>

fun first_difference :: "u8 list \<Rightarrow> u8 list \<Rightarrow> int" where
  "first_difference (x # xs) (y # ys) =
     (if x < y then - 1 else if y < x then 1 else first_difference xs ys)"
| "first_difference _ _ = 0"

lemma first_difference_zero:
  "length xs = length ys \<Longrightarrow> first_difference xs ys = 0 \<longleftrightarrow> xs = ys"
  by (induction xs ys rule: first_difference.induct) auto

lemma first_difference_swap: "first_difference ys xs = - first_difference xs ys"
  by (induction xs ys rule: first_difference.induct) auto

lemma compare_loop_eq:
  "compare_loop m s1 s2 i k
    = first_difference (bytes_at m (s1 + of_nat i) k) (bytes_at m (s2 + of_nat i) k)"
proof (induction k arbitrary: i)
  case (Suc k)
  then show ?case by (simp add: bytes_at_Suc algebra_simps)
qed (simp add: bytes_at_def)

text \<open>
  C6: memmove copies n bytes correctly however the two ranges overlap, provided neither range
  runs past the end of the address space: afterwards the destination holds what the source
  held before, and every byte outside the destination is unchanged.
\<close>

theorem memmove_correct:
  assumes "unat dest + unat n \<le> 2 ^ 64" and "unat src + unat n \<le> 2 ^ 64"
  shows "bytes_at (memmove m dest src n) dest (unat n) = bytes_at m src (unat n)
    \<and> (\<forall>a. unat n \<le> unat (a - dest) \<longrightarrow> memmove m dest src n a = m a)"
proof -
  have n: "unat n \<le> 2 ^ 64" using unat_less_pow2 [of n] by simp
  have at: "unat (dest + of_nat j) = unat dest + j" "unat (src + of_nat j) = unat src + j"
    if "j < unat n" for j
    using assms that by (auto intro: unat_add_offset)
  have "memmove m dest src n = copied m dest src (unat n)"
  proof (cases src dest rule: linorder_cases)
    case less
    then have "copy_down m dest src (unat n) = copied m dest src (unat n)"
      using at by (intro copy_down_spec [OF n]) (auto simp: word_less_nat_alt dest!: arg_cong [of _ _ unat])
    moreover have "\<not> dest < src" using less by simp
    ultimately show ?thesis using less by (simp add: memmove_def)
  next
    case equal
    then show ?thesis by (auto simp: memmove_def copied_def)
  next
    case greater
    then have "copy_up m dest src 0 (unat n) = copied m dest src (unat n)"
      unfolding copied_def using at n
      by (subst copy_up_spec) (auto simp: word_less_nat_alt dest!: arg_cong [of _ _ unat])
    then show ?thesis using greater by (simp add: memmove_def)
  qed
  moreover have "unat (of_nat i :: u64) = i" if "i < unat n" for i
    using that n by (intro unat_of_nat_64) simp
  ultimately show ?thesis
    by (auto simp: bytes_at_def copied_def)
qed

text \<open>Four bytes moved up by two, over themselves: the loop has to run downwards.\<close>

theorem memmove_correct_witness:
  "bytes_at (memmove (\<lambda>a. ucast a) 18 16 4) 18 4 = [16, 17, 18, 19]"
proof -
  have "bytes_at (memmove (\<lambda>a. ucast a) 18 16 4) 18 (unat (4 :: u64)) = bytes_at (\<lambda>a. ucast a) 16 (unat (4 :: u64))"
    using memmove_correct [of 18 4 16 "\<lambda>a. ucast a"] by simp
  then show ?thesis by (simp add: bytes_at_def upt_rec)
qed

text \<open>
  Memcmp compares as unsigned byte strings: its result is the sign of the first
  difference of the two ranges, in particular it is zero exactly for equal ranges, and
  swapping the ranges negates it.
\<close>

theorem memcmp_correct:
  "memcmp m s1 s2 n = first_difference (bytes_at m s1 (unat n)) (bytes_at m s2 (unat n))
    \<and> (memcmp m s1 s2 n = 0 \<longleftrightarrow> bytes_at m s1 (unat n) = bytes_at m s2 (unat n))
    \<and> memcmp m s2 s1 n = - memcmp m s1 s2 n"
proof -
  have eq: "memcmp m a b n = first_difference (bytes_at m a (unat n)) (bytes_at m b (unat n))" for a b
    by (simp add: memcmp_def compare_loop_eq)
  have "first_difference (bytes_at m s2 (unat n)) (bytes_at m s1 (unat n))
      = - first_difference (bytes_at m s1 (unat n)) (bytes_at m s2 (unat n))"
    by (rule first_difference_swap)
  then show ?thesis
    unfolding eq by (simp add: first_difference_zero)
qed

text \<open>
  FillUnique really leaves a distinct, predictable pattern: every eight byte element of
  the range reads back as the base value plus its index, whatever the memory held.
\<close>

theorem FillUnique_correct:
  assumes "i < unat byte_count div 8"
  shows "load64 (FillUnique m address base_value byte_count) (address + 8 * of_nat i)
    = base_value + of_nat i"
proof -
  have "unat (byte_count div 8) = unat byte_count div 8" by (simp add: unat_div)
  moreover have "8 * (unat byte_count div 8) \<le> 2 ^ 64"
    using unat_less_pow2 [of byte_count] by simp
  ultimately show ?thesis
    unfolding FillUnique_def using assms by (subst fill64_loop_load) auto
qed

theorem FillUnique_correct_witness:
  "load64 (FillUnique (\<lambda>a. 0) 4096 0x1122334455667788 24) 4112 = 0x112233445566778A"
  using FillUnique_correct [of 2 24 "\<lambda>a. 0" 4096 "0x1122334455667788"] by simp

end
