(* ===== verification/Volumes.thy ===== *)
theory Volumes
  imports CStrings
begin

text \<open>
  The mount table of \<^verbatim>\<open>src/kernel/fs/volume.cpp\<close> and \<^verbatim>\<open>inc/fs/volume.h\<close>.  A volume is a
  record of optional functions, the function pointers of \<^verbatim>\<open>struct Volume\<close>; they act on a
  world of type \<^typ>\<open>'w\<close>, the state of the drivers.  A path is the list of the cells that can
  be read behind the pointer, terminator and what follows it included.  \<^verbatim>\<open>XXH64\<close>, a library
  function, is an argument: the hash of a list of \<^verbatim>\<open>char16_t\<close> with seed 0.
\<close>

definition MAX_SEGMENTS :: nat where "MAX_SEGMENTS = 8"
definition VOLUMES_PER_PAGE :: nat where "VOLUMES_PER_PAGE = 170"
definition EINVAL :: u64 where "EINVAL = 22"
definition ENOENT :: u64 where "ENOENT = 2"

datatype SeekMode = SeekSet | SeekCurrent | SeekEnd

record 'w Volume =
  OpenHandle :: "(u64 \<Rightarrow> u64 \<Rightarrow> wstr \<Rightarrow> u8 \<Rightarrow> 'w \<Rightarrow> fault + u64 \<times> 'w) option"
  CloseHandle :: "(u64 \<Rightarrow> u64 \<Rightarrow> 'w \<Rightarrow> fault + 'w) option"
  Read :: "(u64 \<Rightarrow> u64 \<Rightarrow> u64 \<Rightarrow> u8 list \<Rightarrow> u64 \<Rightarrow> 'w \<Rightarrow> fault + u64 \<times> u8 list \<times> 'w) option"
  Write :: "(u64 \<Rightarrow> u64 \<Rightarrow> u64 \<Rightarrow> u8 list \<Rightarrow> u64 \<Rightarrow> 'w \<Rightarrow> fault + u64 \<times> 'w) option"
  GetSize :: "(u64 \<Rightarrow> u64 \<Rightarrow> 'w \<Rightarrow> fault + u64 \<times> 'w) option"
  Seek :: "(u64 \<Rightarrow> u64 \<Rightarrow> u64 \<Rightarrow> SeekMode \<Rightarrow> 'w \<Rightarrow> fault + u64 \<times> 'w) option"
  Command :: "(u64 \<Rightarrow> u64 \<Rightarrow> u64 \<Rightarrow> u64 \<Rightarrow> 'w \<Rightarrow> fault + u64 \<times> 'w) option"

record 'w VolumeIndex =
  RootHash :: u64
  VolumeImplementation :: "'w Volume option"
  Context :: u64

text \<open>\<^verbatim>\<open>VolumeIndices\<close>: one page of mounts for each number of path segments.\<close>

type_synonym 'w volumes = "'w VolumeIndex list list"

definition InitializeVolumeSystem :: "'w volumes" where
  "InitializeVolumeSystem =
     replicate MAX_SEGMENTS (replicate VOLUMES_PER_PAGE
       \<lparr>RootHash = 0, VolumeImplementation = None, Context = 0\<rparr>)"

section \<open>Handles\<close>

text \<open>The bit fields of \<^verbatim>\<open>FileHandleMask\<close>, from the lowest bit up.\<close>

definition get_field :: "nat \<Rightarrow> nat \<Rightarrow> u64 \<Rightarrow> u64" where
  "get_field lo width h = drop_bit lo h AND mask width"

definition set_field :: "nat \<Rightarrow> nat \<Rightarrow> u64 \<Rightarrow> u64 \<Rightarrow> u64" where
  "set_field lo width v h =
     (h AND NOT (push_bit lo (mask width))) OR push_bit lo (v AND mask width)"

definition handle_file :: "u64 \<Rightarrow> u64" where "handle_file = get_field 1 21"
definition handle_volume :: "u64 \<Rightarrow> u64" where "handle_volume = get_field 25 3"
definition handle_segments :: "u64 \<Rightarrow> u64" where "handle_segments = get_field 28 3"
definition set_handle_file :: "u64 \<Rightarrow> u64 \<Rightarrow> u64" where "set_handle_file = set_field 1 21"
definition set_handle_page :: "u64 \<Rightarrow> u64 \<Rightarrow> u64" where "set_handle_page = set_field 22 3"
definition set_handle_volume :: "u64 \<Rightarrow> u64 \<Rightarrow> u64" where "set_handle_volume = set_field 25 3"
definition set_handle_segments :: "u64 \<Rightarrow> u64 \<Rightarrow> u64" where "set_handle_segments = set_field 28 3"

section \<open>Mounting\<close>

type_synonym hash = "wstr \<Rightarrow> u64"

definition SLASH :: u16 where "SLASH = 47"

definition VolumeHashPath :: "hash \<Rightarrow> wstr \<Rightarrow> fault + u64 \<times> nat" where
  "VolumeHashPath XXH64 path =
     ok_bind (strlen16 path) (\<lambda>len.
       let segments = length (filter (\<lambda>c. c = SLASH) (take len path)) in
       Inr (XXH64 (take len path), if segments > MAX_SEGMENTS then MAX_SEGMENTS - 1 else segments))"

text \<open>The first index of a page without a volume, counted from k.\<close>

fun free_slot :: "'w VolumeIndex list \<Rightarrow> nat \<Rightarrow> nat option" where
  "free_slot [] k = None"
| "free_slot (v # vs) k = (if VolumeImplementation v = None then Some k else free_slot vs (Suc k))"

text \<open>
  The local variable \<^verbatim>\<open>handle\<close> of \<^verbatim>\<open>MountVolume\<close> is not initialised and only four of its
  fields are assigned: \<^verbatim>\<open>junk\<close> is what it held before.
\<close>

definition MountVolume ::
  "hash \<Rightarrow> u64 \<Rightarrow> 'w Volume \<Rightarrow> wstr \<Rightarrow> u64 \<Rightarrow> 'w volumes \<Rightarrow> fault + u64 \<times> 'w volumes" where
  "MountVolume XXH64 junk volume root_path ctx vols =
     ok_bind (VolumeHashPath XXH64 root_path) (\<lambda>(root_hash, segments).
     ok_bind (array_get vols segments) (\<lambda>pg.
     case free_slot pg 0 of
       None \<Rightarrow> Inl (AssertionFailed ''No free volume slots'')
     | Some index \<Rightarrow>
         Inr (set_handle_segments (of_nat segments)
                (set_handle_volume (of_nat index) (set_handle_page 0 (set_handle_file 0 junk))),
              vols[segments := pg[index :=
                \<lparr>RootHash = root_hash, VolumeImplementation = Some volume, Context = ctx\<rparr>]])))"

definition GetVolumeIndex :: "'w volumes \<Rightarrow> u64 \<Rightarrow> fault + 'w VolumeIndex" where
  "GetVolumeIndex vols h =
     ok_bind (array_get vols (unat (handle_segments h))) (\<lambda>pg.
       array_get pg (unat (handle_volume h)))"

definition UnmountVolume :: "u64 \<Rightarrow> 'w volumes \<Rightarrow> fault + 'w volumes" where
  "UnmountVolume h vols =
     ok_bind (array_get vols (unat (handle_segments h))) (\<lambda>pg.
     ok_bind (array_get pg (unat (handle_volume h))) (\<lambda>v.
     Inr (vols[unat (handle_segments h) := pg[unat (handle_volume h) :=
            v\<lparr>VolumeImplementation := None, RootHash := 0\<rparr>]])))"

section \<open>Resolving a path\<close>

text \<open>
  The inner loop of \<^verbatim>\<open>BreakPath\<close> over the mounts of a page.  The state is the segment count,
  the handle found last, and the position of \<^verbatim>\<open>pathInOut\<close> in the path: \<^verbatim>\<open>previousPathInOut\<close>
  is a reference to \<^verbatim>\<open>pathInOut\<close> itself, so that a match moves the path that the outer loop
  is indexing.
\<close>

fun match_volumes ::
  "u64 \<Rightarrow> 'w VolumeIndex list \<Rightarrow> nat \<Rightarrow> nat \<Rightarrow> nat \<times> u64 \<times> nat \<Rightarrow> nat \<times> u64 \<times> nat" where
  "match_volumes hash [] k index st = st"
| "match_volumes hash (v # vs) k index (segments, h, base) =
     (if RootHash v = hash then
        (let segments = (if segments > MAX_SEGMENTS then MAX_SEGMENTS - 1 else segments);
             h = set_handle_volume (of_nat k)
                   (set_handle_page 0 (set_handle_segments (of_nat segments) h))
         in match_volumes hash vs (Suc k) index (segments, h, base + index))
      else if RootHash v = 0 then (segments, h, base)
      else match_volumes hash vs (Suc k) index (segments, h, base))"

fun break_loop ::
  "hash \<Rightarrow> 'w volumes \<Rightarrow> wstr \<Rightarrow> nat \<Rightarrow> nat \<Rightarrow> nat \<times> u64 \<times> nat \<Rightarrow> fault + nat \<times> u64 \<times> nat" where
  "break_loop XXH64 vols path index 0 st = Inr st"
| "break_loop XXH64 vols path index (Suc n) (segments, h, base) =
     ok_bind (array_get path (base + index)) (\<lambda>c.
     if c = SLASH then
       ok_bind (array_get vols (Suc segments)) (\<lambda>pg.
       break_loop XXH64 vols path (Suc index) n
         (match_volumes (XXH64 (take (Suc index) (drop base path))) pg 0 index (Suc segments, h, base)))
     else break_loop XXH64 vols path (Suc index) n (segments, h, base))"

text \<open>The result is the handle of the mount and what the path pointer points to afterwards.\<close>

definition BreakPath :: "hash \<Rightarrow> 'w volumes \<Rightarrow> wstr \<Rightarrow> fault + u64 \<times> wstr" where
  "BreakPath XXH64 vols path =
     ok_bind (strlen16 path) (\<lambda>len.
     ok_bind (break_loop XXH64 vols path 0 len (0, 0, 0)) (\<lambda>(segments, h, base).
     Inr (h, drop base path)))"

section \<open>Dispatch\<close>

text \<open>A call through a function pointer.\<close>

definition call :: "'f option \<Rightarrow> ('f \<Rightarrow> fault + 'a) \<Rightarrow> fault + 'a" where
  "call f use = (case f of None \<Rightarrow> Inl NullPointer | Some g \<Rightarrow> use g)"

definition VolumeOpenHandle ::
  "hash \<Rightarrow> 'w volumes \<Rightarrow> u64 \<Rightarrow> wstr \<Rightarrow> u8 \<Rightarrow> 'w \<Rightarrow> fault + u64 \<times> 'w" where
  "VolumeOpenHandle XXH64 vols volume_handle path mode w =
     ok_bind (if volume_handle = 0 then BreakPath XXH64 vols path
              else Inr (volume_handle, path)) (\<lambda>(volume_handle, path).
     ok_bind (GetVolumeIndex vols volume_handle) (\<lambda>v.
     case VolumeImplementation v of
       None \<Rightarrow> Inr (- EINVAL, w)
     | Some volume \<Rightarrow> call (OpenHandle volume) (\<lambda>f. f volume_handle (Context v) path mode w)))"

definition VolumeCloseHandle :: "'w volumes \<Rightarrow> u64 \<Rightarrow> 'w \<Rightarrow> fault + 'w" where
  "VolumeCloseHandle vols h w =
     ok_bind (GetVolumeIndex vols h) (\<lambda>v.
     case VolumeImplementation v of
       None \<Rightarrow> Inr w
     | Some volume \<Rightarrow> call (CloseHandle volume) (\<lambda>f. f h (Context v) w))"

definition VolumeRead ::
  "'w volumes \<Rightarrow> u64 \<Rightarrow> u64 \<Rightarrow> u8 list \<Rightarrow> u64 \<Rightarrow> 'w \<Rightarrow> fault + u64 \<times> u8 list \<times> 'w" where
  "VolumeRead vols h offset buffer n w =
     ok_bind (GetVolumeIndex vols h) (\<lambda>v.
     case VolumeImplementation v of
       None \<Rightarrow> Inr (- EINVAL, buffer, w)
     | Some volume \<Rightarrow> call (Read volume) (\<lambda>f. f h (Context v) offset buffer n w))"

definition VolumeWrite ::
  "'w volumes \<Rightarrow> u64 \<Rightarrow> u64 \<Rightarrow> u8 list \<Rightarrow> u64 \<Rightarrow> 'w \<Rightarrow> fault + u64 \<times> 'w" where
  "VolumeWrite vols h offset buffer n w =
     ok_bind (GetVolumeIndex vols h) (\<lambda>v.
     case VolumeImplementation v of
       None \<Rightarrow> Inr (- EINVAL, w)
     | Some volume \<Rightarrow> call (Write volume) (\<lambda>f. f h (Context v) offset buffer n w))"

definition VolumeGetSize :: "'w volumes \<Rightarrow> u64 \<Rightarrow> 'w \<Rightarrow> fault + u64 \<times> 'w" where
  "VolumeGetSize vols h w =
     ok_bind (GetVolumeIndex vols h) (\<lambda>v.
     case VolumeImplementation v of
       None \<Rightarrow> Inr (- EINVAL, w)
     | Some volume \<Rightarrow> call (GetSize volume) (\<lambda>f. f h (Context v) w))"

definition VolumeSeek :: "'w volumes \<Rightarrow> u64 \<Rightarrow> u64 \<Rightarrow> SeekMode \<Rightarrow> 'w \<Rightarrow> fault + u64 \<times> 'w" where
  "VolumeSeek vols h offset origin w =
     ok_bind (GetVolumeIndex vols h) (\<lambda>v.
     case VolumeImplementation v of
       None \<Rightarrow> Inr (- EINVAL, w)
     | Some volume \<Rightarrow>
         (case Seek volume of
            Some f \<Rightarrow> if h \<noteq> 0 then f h (Context v) offset origin w else Inr (- EINVAL, w)
          | None \<Rightarrow> Inr (- EINVAL, w)))"

definition VolumeCommand :: "'w volumes \<Rightarrow> u64 \<Rightarrow> u64 \<Rightarrow> u64 \<Rightarrow> 'w \<Rightarrow> fault + u64 \<times> 'w" where
  "VolumeCommand vols h command data w =
     ok_bind (GetVolumeIndex vols h) (\<lambda>v.
     case VolumeImplementation v of
       None \<Rightarrow> Inr (- EINVAL, w)
     | Some volume \<Rightarrow>
         (case Command volume of
            Some f \<Rightarrow> f h (Context v) command data w
          | None \<Rightarrow> Inr (- EINVAL, w)))"

end
