(* ===== verification/VolumesCorrect.thy ===== *)
theory VolumesCorrect
  imports Volumes CStringsCorrect
begin

text \<open>
  Mounting, handles and path resolution: what the mount table promises and where it does not
  keep it.
\<close>

section \<open>Bit fields\<close>

lemma get_set_same:
  assumes "lo + width \<le> 64"
  shows "get_field lo width (set_field lo width v h) = v AND mask width"
proof (rule bit_word_eqI)
  fix n assume "n < LENGTH(64)"
  show "bit (get_field lo width (set_field lo width v h)) n = bit (v AND mask width) n"
    using assms by (auto simp: get_field_def set_field_def bit_simps)
qed

lemma get_set_other:
  assumes "lo + width \<le> lo' \<or> lo' + width' \<le> lo"
  shows "get_field lo width (set_field lo' width' v h) = get_field lo width h"
proof (rule bit_word_eqI)
  fix n assume "n < LENGTH(64)"
  show "bit (get_field lo width (set_field lo' width' v h)) n = bit (get_field lo width h) n"
    using assms by (auto simp: get_field_def set_field_def bit_simps dest: bit_imp_le_length)
qed

lemma unat_and_mask_3: "unat (of_nat n AND mask 3 :: u64) = n mod 8"
proof -
  have "of_nat n AND mask 3 = take_bit 3 (of_nat n :: u64)" by (simp add: take_bit_eq_mask)
  then have "unat (of_nat n AND mask 3 :: u64) = take_bit 3 (take_bit 64 n)"
    by (simp only: unsigned_take_bit_eq) (simp only: unsigned_of_nat, simp)
  also have "\<dots> = take_bit 3 n" by simp
  finally show ?thesis by (simp add: take_bit_nat_def)
qed

lemmas handle_fields = handle_file_def handle_volume_def handle_segments_def set_handle_file_def
  set_handle_page_def set_handle_volume_def set_handle_segments_def get_set_same get_set_other

section \<open>Mounting\<close>

lemma free_slot_SomeD:
  "free_slot vs k = Some i \<Longrightarrow>
   k \<le> i \<and> i < k + length vs \<and> VolumeImplementation (vs ! (i - k)) = None
     \<and> (\<forall>j < i - k. VolumeImplementation (vs ! j) \<noteq> None)"
proof (induction vs k rule: free_slot.induct)
  case (2 v vs k)
  show ?case
  proof (cases "VolumeImplementation v = None")
    case False
    then obtain y where y: "VolumeImplementation v = Some y" by auto
    then have IH: "Suc k \<le> i \<and> i < Suc k + length vs \<and> VolumeImplementation (vs ! (i - Suc k)) = None
     \<and> (\<forall>j < i - Suc k. VolumeImplementation (vs ! j) \<noteq> None)"
      using 2 y by simp
    then have "i - k = Suc (i - Suc k)" by (simp add: Suc_diff_Suc Suc_le_eq)
    then show ?thesis using IH False by (auto simp: nth_Cons split: nat.split)
  qed (use 2 in auto)
qed simp

lemma MountVolume_result:
  assumes "VolumeHashPath XXH64 path = Inr (hash, seg)" and "seg < length vols"
    and "free_slot (vols ! seg) 0 = Some i"
  shows "\<exists>h. MountVolume XXH64 junk volume path ctx vols = Inr (h, vols[seg := (vols ! seg)[i :=
      \<lparr>RootHash = hash, VolumeImplementation = Some volume, Context = ctx\<rparr>]])
    \<and> unat (handle_segments h) = seg mod 8 \<and> unat (handle_volume h) = i mod 8"
  using assms by (simp add: MountVolume_def handle_fields unat_and_mask_3)

text \<open>
  C12: mounting a volume when one of the first eight entries of its page is free returns a
  handle, whatever the uninitialised bits, by which the mount is found with its hash, its
  functions and its context, and the lookup through handles of other entries is unchanged.
\<close>

theorem MountVolume_correct:
  assumes "VolumeHashPath XXH64 path = Inr (hash, seg)" and "seg < length vols" and "length vols \<le> 8"
    and "free_slot (vols ! seg) 0 = Some i" and "i < 8"
  shows "\<exists>h vols'. MountVolume XXH64 junk volume path ctx vols = Inr (h, vols')
    \<and> GetVolumeIndex vols' h = Inr \<lparr>RootHash = hash, VolumeImplementation = Some volume, Context = ctx\<rparr>
    \<and> (\<forall>h'. (handle_segments h', handle_volume h') \<noteq> (handle_segments h, handle_volume h) \<longrightarrow>
         GetVolumeIndex vols' h' = GetVolumeIndex vols h')"
proof -
  have i: "i < length (vols ! seg)" using free_slot_SomeD [OF assms(4)] by simp
  obtain h where h: "MountVolume XXH64 junk volume path ctx vols = Inr (h, vols[seg := (vols ! seg)[i :=
      \<lparr>RootHash = hash, VolumeImplementation = Some volume, Context = ctx\<rparr>]])"
    "unat (handle_segments h) = seg" "unat (handle_volume h) = i"
    using MountVolume_result [OF assms(1,2,4), of junk volume ctx] assms(2,3,5) by auto
  have "GetVolumeIndex (vols[seg := (vols ! seg)[i := v]]) h = Inr v" for v
    using assms(2) i by (simp add: GetVolumeIndex_def h(2,3))
  moreover have "GetVolumeIndex (vols[seg := (vols ! seg)[i := v]]) h' = GetVolumeIndex vols h'"
    if "(handle_segments h', handle_volume h') \<noteq> (handle_segments h, handle_volume h)" for v h'
  proof -
    have "unat (handle_segments h') \<noteq> seg \<or> unat (handle_volume h') \<noteq> i"
      using that h(2,3) by (auto simp: word_unat_eq_iff)
    then show ?thesis
      by (cases "unat (handle_segments h') = seg") (auto simp: GetVolumeIndex_def array_get_def)
  qed
  ultimately show ?thesis using h(1) by blast
qed

text \<open>The hash of the witnesses: a sum, different for different letters.\<close>

definition demo_hash :: hash where
  "demo_hash cs = foldl (\<lambda>h c. 31 * h + ucast c) 7 cs"

definition demo_volume :: "unit Volume" where
  "demo_volume = \<lparr>OpenHandle = Some (\<lambda>h ctx path mode w. Inr (h, w)), CloseHandle = None, Read = None,
     Write = None, GetSize = None, Seek = None, Command = None\<rparr>"

theorem MountVolume_correct_witness:
  "\<exists>h vols'. MountVolume demo_hash 0xFFFFFFFFFFFFFFFF demo_volume [47, 100, 47, 0] 5 InitializeVolumeSystem
      = Inr (h, vols')
    \<and> GetVolumeIndex vols' h = Inr \<lparr>RootHash = demo_hash [47, 100, 47], VolumeImplementation = Some demo_volume, Context = 5\<rparr>"
proof -
  have "VolumeHashPath demo_hash [47, 100, 47, 0] = Inr (demo_hash [47, 100, 47], 2)"
    by (simp add: VolumeHashPath_def strlen16_def SLASH_def MAX_SEGMENTS_def)
  moreover have "free_slot (InitializeVolumeSystem ! 2 :: unit VolumeIndex list) 0 = Some 0"
    by (simp add: InitializeVolumeSystem_def MAX_SEGMENTS_def VOLUMES_PER_PAGE_def numeral_eq_Suc)
  ultimately show ?thesis
    using MountVolume_correct [of demo_hash "[47, 100, 47, 0]" _ 2 "InitializeVolumeSystem :: unit volumes" 0]
    by (fastforce simp: InitializeVolumeSystem_def MAX_SEGMENTS_def)
qed

text \<open>
  The index of a mount has only three bits in the handle although a page holds 170: the
  handle of a mount in entry 8 or above denotes another volume, the one in the entry with the
  index modulo 8, which is in use.
\<close>

theorem MountVolume_aliases:
  assumes "VolumeHashPath XXH64 path = Inr (hash, seg)" and "seg < length vols" and "length vols \<le> 8"
    and "free_slot (vols ! seg) 0 = Some i" and "8 \<le> i"
  shows "\<exists>h vols'. MountVolume XXH64 junk volume path ctx vols = Inr (h, vols')
    \<and> GetVolumeIndex vols' h = Inr (vols ! seg ! (i mod 8))
    \<and> VolumeImplementation (vols ! seg ! (i mod 8)) \<noteq> None"
proof -
  have i: "i < length (vols ! seg)" "\<forall>j < i. VolumeImplementation (vols ! seg ! j) \<noteq> None"
    using free_slot_SomeD [OF assms(4)] by simp_all
  have less: "i mod 8 < i" using assms(5) by (metis leD less_le_trans mod_less_divisor not_le zero_less_numeral)
  obtain h where h: "MountVolume XXH64 junk volume path ctx vols = Inr (h, vols[seg := (vols ! seg)[i :=
      \<lparr>RootHash = hash, VolumeImplementation = Some volume, Context = ctx\<rparr>]])"
    "unat (handle_segments h) = seg" "unat (handle_volume h) = i mod 8"
    using MountVolume_result [OF assms(1,2,4), of junk volume ctx] assms(2,3) by auto
  have "GetVolumeIndex (vols[seg := (vols ! seg)[i := v]]) h = Inr (vols ! seg ! (i mod 8))" for v
    using assms(2) i(1) less by (simp add: GetVolumeIndex_def h(2,3))
  then show ?thesis using h(1) i(2) less by blast
qed

definition demo_full :: "unit volumes" where
  "demo_full = [map (\<lambda>n. \<lparr>RootHash = n, VolumeImplementation = Some demo_volume, Context = n\<rparr>)
       [1, 2, 3, 4, 5, 6, 7, 8] @ [\<lparr>RootHash = 0, VolumeImplementation = None, Context = 0\<rparr>]]"

theorem MountVolume_aliases_witness:
  "\<exists>h vols' v. MountVolume demo_hash 0 demo_volume [100, 0] 77 demo_full = Inr (h, vols')
    \<and> GetVolumeIndex vols' h = Inr v \<and> Context v = 1"
proof -
  have "VolumeHashPath demo_hash [100, 0] = Inr (demo_hash [100], 0)"
    by (simp add: VolumeHashPath_def strlen16_def SLASH_def MAX_SEGMENTS_def)
  moreover have "free_slot (demo_full ! 0) 0 = Some 8" by (simp add: demo_full_def)
  ultimately show ?thesis
    using MountVolume_aliases [of demo_hash "[100, 0]" _ 0 demo_full 8]
    by (fastforce simp: demo_full_def)
qed

section \<open>Resolving paths\<close>

lemma match_none:
  "\<forall>v \<in> set vs. RootHash v \<noteq> hash \<Longrightarrow> match_volumes hash vs k index st = st"
  by (induction hash vs k index st rule: match_volumes.induct) auto

lemma match_one:
  assumes "\<forall>v \<in> set vs. RootHash v \<noteq> hash \<and> RootHash v \<noteq> 0" and "RootHash v = hash"
    and "\<forall>v \<in> set ws. RootHash v \<noteq> hash" and "segments \<le> 8"
  shows "match_volumes hash (vs @ v # ws) k index (segments, h, base) =
    (segments, set_handle_volume (of_nat (k + length vs))
       (set_handle_page 0 (set_handle_segments (of_nat segments) h)), base + index)"
  using assms
proof (induction vs arbitrary: k)
  case Nil
  then show ?case by (simp add: match_none MAX_SEGMENTS_def)
next
  case (Cons x xs)
  have "match_volumes hash (xs @ v # ws) (Suc k) index (segments, h, base) =
    (segments, set_handle_volume (of_nat (Suc k + length xs))
       (set_handle_page 0 (set_handle_segments (of_nat segments) h)), base + index)"
    by (rule Cons.IH) (use Cons.prems in auto)
  then show ?case using Cons.prems by (simp del: of_nat_add of_nat_Suc)
qed

text \<open>
  Behind the mount, slashes whose string is no mount only advance the count of segments; the path
  may end before the loop does.
\<close>

lemma break_loop_passes:
  assumes "\<forall>j. index \<le> j \<and> j < index + n \<and> base + j < length path \<and> path ! (base + j) = SLASH \<longrightarrow>
      (\<forall>pg \<in> set vols. \<forall>v \<in> set pg. RootHash v \<noteq> X (take (Suc j) (drop base path)))"
    and "segments + length (filter (\<lambda>c. c = SLASH) (take n (drop (base + index) path))) < length vols"
  shows "\<exists>segs. break_loop X vols path index n (segments, h, base) =
    (if n = 0 \<or> base + index + n \<le> length path then Inr (segs, h, base) else Inl OutOfBounds)"
  using assms
proof (induction n arbitrary: index segments)
  case (Suc n)
  show ?case
  proof (cases "base + index < length path")
    case True
    let ?c = "path ! (base + index)" and ?rest = "take n (drop (base + Suc index) path)"
    have cells: "take (Suc n) (drop (base + index) path) = ?c # ?rest"
      using True by (simp add: Cons_nth_drop_Suc [symmetric])
    let ?seg = "if ?c = SLASH then Suc segments else segments"
    have count: "?seg + length (filter (\<lambda>c. c = SLASH) ?rest) < length vols"
      using Suc.prems(2) unfolding cells by (simp split: if_splits)
    have step: "break_loop X vols path index (Suc n) (segments, h, base) =
      break_loop X vols path (Suc index) n (?seg, h, base)"
    proof (cases "?c = SLASH")
      case slash: True
      then have "Suc segments < length vols" using count by simp
      moreover from this have "vols ! Suc segments \<in> set vols" by simp
      then have "\<forall>v \<in> set (vols ! Suc segments). RootHash v \<noteq> X (take (Suc index) (drop base path))"
        using Suc.prems(1) [rule_format, of index] True slash by simp
      ultimately show ?thesis using True slash by (simp add: match_none)
    qed (use True in simp)
    have "\<exists>segs. break_loop X vols path (Suc index) n (?seg, h, base) =
      (if n = 0 \<or> base + Suc index + n \<le> length path then Inr (segs, h, base) else Inl OutOfBounds)"
      using Suc.prems(1) count by (intro Suc.IH) auto
    then show ?thesis unfolding step using True by auto
  qed simp
qed simp

text \<open>Slashes whose prefix is no mount only advance the count of segments.\<close>

lemma break_loop_prefix:
  assumes "root = take n (drop index path)" and "index + n \<le> length path"
    and "\<forall>j < n. root ! j = SLASH \<longrightarrow>
      (\<forall>pg \<in> set vols. \<forall>v \<in> set pg. RootHash v \<noteq> X (take (Suc (index + j)) path))"
    and "segments + length (filter (\<lambda>c. c = SLASH) root) < length vols"
  shows "break_loop X vols path index (n + m) (segments, h, 0) =
    break_loop X vols path (index + n) m (segments + length (filter (\<lambda>c. c = SLASH) root), h, 0)"
  using assms
proof (induction n arbitrary: index segments root)
  case (Suc n)
  let ?tl = "take n (drop (Suc index) path)"
  have c: "index < length path" using Suc.prems(2) by simp
  then have root: "root = path ! index # ?tl"
    using Suc.prems(1) by (simp add: Cons_nth_drop_Suc [symmetric])
  let ?seg = "if path ! index = SLASH then Suc segments else segments"
  have none: "\<forall>v \<in> set (vols ! Suc segments). RootHash v \<noteq> X (take (Suc index) path)" if "path ! index = SLASH"
  proof -
    have "vols ! Suc segments \<in> set vols" using Suc.prems(4) root that by simp
    then show ?thesis using Suc.prems(3) root that by fastforce
  qed
  have step: "break_loop X vols path index (Suc n + m) (segments, h, 0)
      = break_loop X vols path (Suc index) (n + m) (?seg, h, 0)"
  proof (cases "path ! index = SLASH")
    case True
    then have "Suc segments < length vols" using Suc.prems(4) root by simp
    then show ?thesis using True c match_none [OF none [OF True]] by simp
  qed (use c in simp)
  have "\<forall>j < n. ?tl ! j = SLASH \<longrightarrow> (\<forall>pg \<in> set vols. \<forall>v \<in> set pg. RootHash v \<noteq> X (take (Suc (Suc index + j)) path))"
    using Suc.prems(3) root by (metis Suc_less_eq add_Suc_right add_Suc_shift nth_Cons_Suc)
  then show ?case
    unfolding step using Suc.prems(2,4) root
    by (subst Suc.IH [of ?tl]) auto
qed simp

text \<open>A mount on the slash that starts the path is found, but the path stays where it is.\<close>

lemma match_at_start:
  assumes "segments \<le> 8"
  shows "\<exists>h'. match_volumes hash vs k 0 (segments, h, base) = (segments, h', base)"
  using assms by (induction vs arbitrary: k h) (auto simp: MAX_SEGMENTS_def)

lemma break_loop_to_root:
  assumes "root = take r path" and "r \<le> length path"
    and "\<forall>j. 0 < j \<and> j < r \<and> root ! j = SLASH \<longrightarrow>
      (\<forall>pg \<in> set vols. \<forall>v \<in> set pg. RootHash v \<noteq> X (take (Suc j) root))"
    and "length (filter (\<lambda>c. c = SLASH) root) < length vols" and "length vols = 8"
  shows "\<exists>h. break_loop X vols path 0 (r + m) (0, 0, 0) =
    break_loop X vols path r m (length (filter (\<lambda>c. c = SLASH) root), h, 0)"
proof (cases r)
  case 0
  with assms(1) show ?thesis by auto
next
  case (Suc k)
  then obtain c cs where path: "path = c # cs" using assms(2) by (cases path) auto
  let ?tl = "take k (drop 1 path)"
  have root: "root = c # ?tl" using assms(1) Suc path by simp
  let ?seg = "if c = SLASH then 1 else 0 :: nat"
  obtain h where h: "break_loop X vols path 0 (Suc (k + m)) (0, 0, 0) = break_loop X vols path 1 (k + m) (?seg, h, 0)"
  proof (cases "c = SLASH")
    case True
    obtain h where "match_volumes (X (take 1 path)) (vols ! 1) 0 0 (1, 0, 0) = (1, h, 0)"
      using match_at_start [of 1 "X (take 1 path)" "vols ! 1" 0 0 0] by auto
    then show thesis using True path assms(5) by (intro that [of h]) (simp add: array_get_def)
  next
    case False
    then show thesis using path by (intro that [of 0]) simp
  qed
  have "?tl ! j = SLASH \<longrightarrow> (\<forall>pg \<in> set vols. \<forall>v \<in> set pg. RootHash v \<noteq> X (take (Suc (1 + j)) path))"
    if "j < k" for j
  proof -
    have "take (Suc (1 + j)) path = take (Suc (Suc j)) root"
      unfolding assms(1) using that Suc by (simp add: min_def)
    moreover have "root ! Suc j = ?tl ! j" by (subst root) simp
    ultimately show ?thesis using assms(3) that Suc by auto
  qed
  then have "break_loop X vols path 1 (k + m) (?seg, h, 0) =
    break_loop X vols path (1 + k) m (?seg + length (filter (\<lambda>c. c = SLASH) ?tl), h, 0)"
    using assms(2,4) Suc root by (intro break_loop_prefix) (auto split: if_splits)
  then show ?thesis
    using h Suc root by (intro exI [of _ h]) (auto split: if_splits)
qed

text \<open>
  C13: Resolving a path below a mount, which is the root and the slash behind it.  The handle has
  the page and the index of the mount, also when the slash at the start of the path is a mount of
  its own, as on the running system, and the path that is left starts at the last slash of the root.  No other part of
  the root may be a mount, nor, behind the root, any string that the loop looks up there: because it indexes
  the shortened path with the length of the full one, these are the parts of the rest for the mount
  \<^verbatim>\<open>/\<close> and, for a longer root, parts of the rest and of the cells behind the path.  The loop reads as
  many cells behind the terminator as the root is long, out of bounds if the buffer ends before; fewer than eight
  slashes may be counted, including those in the cells behind the path.
\<close>

theorem BreakPath_mounted:
  fixes root rest tail :: wstr
  defines "path \<equiv> root @ SLASH # rest @ 0 # tail"
    and "seg \<equiv> Suc (length (filter (\<lambda>c. c = SLASH) root))"
    and "looked_at \<equiv> take (length rest) (drop (Suc (2 * length root)) (root @ SLASH # rest @ 0 # tail))"
  assumes "0 \<notin> set root" and "0 \<notin> set rest" and "rest \<noteq> []" and "length vols = 8"
    and "vols ! seg = vs @ v # ws" and "length vs < 8" and "RootHash v = XXH64 (root @ [SLASH])"
    and "\<forall>x \<in> set vs. RootHash x \<noteq> RootHash v \<and> RootHash x \<noteq> 0"
    and "\<forall>x \<in> set ws. RootHash x \<noteq> RootHash v"
    and "\<forall>j. 0 < j \<and> j < length root \<and> root ! j = SLASH \<longrightarrow>
      (\<forall>pg \<in> set vols. \<forall>x \<in> set pg. RootHash x \<noteq> XXH64 (take (Suc j) root))"
    and "\<forall>j < length looked_at. looked_at ! j = SLASH \<longrightarrow>
      (\<forall>pg \<in> set vols. \<forall>x \<in> set pg.
        RootHash x \<noteq> XXH64 (take (length root + Suc (Suc j)) (SLASH # rest @ 0 # tail)))"
    and "seg + length (filter (\<lambda>c. c = SLASH) looked_at) < 8"
  shows "\<exists>h. unat (handle_segments h) = seg \<and> unat (handle_volume h) = length vs
    \<and> BreakPath XXH64 vols path =
      (if length root \<le> Suc (length tail) then Inr (h, SLASH # rest @ 0 # tail) else Inl OutOfBounds)"
proof -
  let ?r = "length root" and ?n = "length rest"
  have SLASH: "SLASH \<noteq> 0" by (simp add: SLASH_def)
  have "0 \<notin> set (root @ SLASH # rest)" using assms(4,5) SLASH by auto
  from strlen_loop_c_string [OF this, of tail 0] have len: "strlen16 path = Inr (?r + Suc ?n)"
    by (simp add: strlen16_def path_def)
  have seg: "seg < 8" using assms(15) by simp
  have take_root: "take (Suc j) root = take (Suc j) path" if "j < ?r" for j
    using that by (simp add: path_def)
  obtain h0 where "break_loop XXH64 vols path 0 (?r + Suc ?n) (0, 0, 0)
      = break_loop XXH64 vols path ?r (Suc ?n) (seg - 1, h0, 0)"
    using break_loop_to_root [of root ?r path vols XXH64 "Suc ?n"] assms(7,13) seg
    by (auto simp: path_def seg_def)
  moreover define h where
    "h = set_handle_volume (of_nat (length vs)) (set_handle_page 0 (set_handle_segments (of_nat seg) h0))"
  then have "break_loop XXH64 vols path ?r (Suc ?n) (seg - 1, h0, 0)
      = break_loop XXH64 vols path (Suc ?r) ?n (seg, h, ?r)"
    using match_one [of vs "XXH64 (root @ [SLASH])" v ws seg 0 ?r h0 0] assms(7-12) seg
    by (simp add: path_def seg_def)
  moreover have "\<exists>segs. break_loop XXH64 vols path (Suc ?r) ?n (seg, h, ?r) =
      (if ?n = 0 \<or> ?r + Suc ?r + ?n \<le> length path then Inr (segs, h, ?r) else Inl OutOfBounds)"
  proof (rule break_loop_passes)
    have window: "looked_at = take ?n (drop (?r + Suc ?r) path)"
      by (simp add: looked_at_def path_def mult_2)
    show "seg + length (filter (\<lambda>c. c = SLASH) (take ?n (drop (?r + Suc ?r) path))) < length vols"
      using assms(7,15) window by simp
    show "\<forall>j. Suc ?r \<le> j \<and> j < Suc ?r + ?n \<and> ?r + j < length path \<and> path ! (?r + j) = SLASH \<longrightarrow>
      (\<forall>pg \<in> set vols. \<forall>v \<in> set pg. RootHash v \<noteq> XXH64 (take (Suc j) (drop ?r path)))"
    proof (intro allI impI)
      fix j assume j: "Suc ?r \<le> j \<and> j < Suc ?r + ?n \<and> ?r + j < length path \<and> path ! (?r + j) = SLASH"
      then obtain i where i: "j = Suc ?r + i" "i < ?n" by (metis add_less_cancel_left le_Suc_ex)
      with j have "i < length looked_at" "looked_at ! i = SLASH" by (auto simp: window ac_simps less_diff_conv)
      then show "\<forall>pg \<in> set vols. \<forall>v \<in> set pg. RootHash v \<noteq> XXH64 (take (Suc j) (drop ?r path))"
        using assms(14) i(1) by (simp add: path_def)
    qed
  qed
  ultimately obtain segs where run: "break_loop XXH64 vols path 0 (?r + Suc ?n) (0, 0, 0) =
    (if ?r \<le> Suc (length tail) then Inr (segs, h, ?r) else Inl OutOfBounds)"
    using assms(6) by (auto simp: path_def)
  have "unat (handle_segments h) = seg" "unat (handle_volume h) = length vs"
    using seg assms(9) by (simp_all add: h_def handle_fields unat_and_mask_3)
  then show ?thesis
    using len run by (intro exI [of _ h]) (simp add: BreakPath_def path_def)
qed

text \<open>
  A table with volumes on \<^verbatim>\<open>/\<close> and on \<^verbatim>\<open>/d/\<close>: the path \<^verbatim>\<open>/d/x\<close>, in a buffer that ends with the
  terminator, as a string literal does, and in a longer one, and the path \<^verbatim>\<open>/b/x\<close>.
\<close>

definition demo_mounts :: "unit volumes" where
  "demo_mounts = [[],
     [\<lparr>RootHash = demo_hash [47], VolumeImplementation = Some demo_volume, Context = 0\<rparr>],
     [\<lparr>RootHash = demo_hash [47, 100, 47], VolumeImplementation = Some demo_volume, Context = 0\<rparr>],
     [], [], [], [], []]"

theorem BreakPath_mounted_witness:
  "BreakPath demo_hash demo_mounts [47, 100, 47, 120, 0] = Inl OutOfBounds
    \<and> (\<exists>h. unat (handle_segments h) = 2 \<and>
         BreakPath demo_hash demo_mounts [47, 100, 47, 120, 0, 0] = Inr (h, [47, 120, 0, 0]))
    \<and> (\<exists>h. unat (handle_segments h) = 1 \<and>
         BreakPath demo_hash demo_mounts [47, 98, 47, 120, 0] = Inr (h, [47, 98, 47, 120, 0]))"
proof -
  have no_part: "\<not> (\<exists>j > 0. j < Suc (Suc 0) \<and> ([47, 100] :: wstr) ! j = 47)"
    by (auto simp: less_Suc_eq)
  have mounted: "demo_mounts ! Suc (Suc 0) = [] @ \<lparr>RootHash = demo_hash [47, 100, 47], VolumeImplementation = Some demo_volume, Context = 0\<rparr> # []"
    "demo_mounts ! Suc 0 = [] @ \<lparr>RootHash = demo_hash [47], VolumeImplementation = Some demo_volume, Context = 0\<rparr> # []"
    "length demo_mounts = 8"
    by (simp_all add: demo_mounts_def)
  have "\<exists>h. unat (handle_segments h) = Suc (Suc 0) \<and> unat (handle_volume h) = 0
    \<and> BreakPath demo_hash demo_mounts ([47, 100] @ SLASH # [120] @ 0 # tail) =
      (if 2 \<le> Suc (length tail) then Inr (h, SLASH # [120] @ 0 # tail) else Inl OutOfBounds)"
    if "tail = [] \<or> tail = [0]" for tail
    using BreakPath_mounted [of "[47, 100]" "[120]" demo_mounts "[]" _ "[]" demo_hash tail] mounted no_part that
    by (auto simp: SLASH_def)
  from this [of "[]"] this [of "[0]"]
  have d: "BreakPath demo_hash demo_mounts [47, 100, 47, 120, 0] = Inl OutOfBounds"
    "\<exists>h. unat (handle_segments h) = 2 \<and>
       BreakPath demo_hash demo_mounts [47, 100, 47, 120, 0, 0] = Inr (h, [47, 120, 0, 0])"
    by (auto simp: SLASH_def)
  have "\<forall>j < 3. ([98, 47, 120] :: wstr) ! j = SLASH \<longrightarrow> (\<forall>pg \<in> set demo_mounts. \<forall>x \<in> set pg.
      RootHash x \<noteq> demo_hash (take (Suc (Suc j)) [47, 98, 47, 120, 0]))"
    by (auto simp: numeral_3_eq_3 less_Suc_eq demo_mounts_def demo_hash_def SLASH_def)
  then have "\<exists>h. unat (handle_segments h) = 1 \<and> unat (handle_volume h) = 0
    \<and> BreakPath demo_hash demo_mounts ([] @ SLASH # [98, 47, 120] @ 0 # []) =
      Inr (h, SLASH # [98, 47, 120] @ 0 # [])"
    using BreakPath_mounted [of "[]" "[98, 47, 120]" demo_mounts "[]" _ "[]" demo_hash "[]"] mounted
    by (simp add: SLASH_def)
  with d show ?thesis by (auto simp: SLASH_def)
qed

end
