(* ===== verification/DeviceVolumes.thy ===== *)
theory DeviceVolumes
  imports Volumes RingBuffer VirtualMem
begin

text \<open>
  The volumes of \<^verbatim>\<open>src/kernel/fs/volumes\<close>: standard input and output (\<^verbatim>\<open>stdio.cpp\<close>), devices
  (\<^verbatim>\<open>device.cpp\<close>), the framebuffer (\<^verbatim>\<open>device_fb.cpp\<close>) and the process information
  (\<^verbatim>\<open>proc.cpp\<close>).  The world they act on is a record: the two input rings, the conversion
  buffer, what was printed so far (newest first, with a flag for the error colour), the
  input that interrupts will deliver while the processor halts, the memory manager, and the
  structures that the framebuffer commands stored, by their address.
\<close>

section \<open>The world\<close>

record FramebufferLayout =
  Base :: u64
  Width :: u32
  Height :: u32
  Pitch :: u32

record fb_var_screeninfo =
  xres :: u32
  yres :: u32
  xres_virtual :: u32
  yres_virtual :: u32
  xoffset :: u32
  yoffset :: u32
  bits_per_pixel :: u32

record fb_fix_screeninfo =
  smem_start :: u64
  smem_len :: u32
  fix_type :: u32
  visual :: u32
  line_length :: u32
  mmio_start :: u64
  mmio_len :: u32

record drivers =
  InputBuffer :: "u8 ring"
  InputScanCodeBuffer :: "u8 ring"
  ConsoleBuffer :: wstr
  Printed :: "(wstr \<times> bool) list"
  Interrupts :: "(u8 \<times> bool) list list"
  Memory :: paging
  GBootFramebuffer :: FramebufferLayout
  FrameBufferByteSize :: u64
  FrameBufferMemory :: u64
  VarScreenInfo :: "u64 \<Rightarrow> fb_var_screeninfo option"
  FixScreenInfo :: "u64 \<Rightarrow> fb_fix_screeninfo option"

section \<open>Input\<close>

definition InsertInput :: "u8 \<Rightarrow> bool \<Rightarrow> drivers \<Rightarrow> fault + drivers" where
  "InsertInput input scancode d =
     (if scancode
      then ok_bind (Push False input (InputScanCodeBuffer d)) (\<lambda>(ok, r). Inr (d\<lparr>InputScanCodeBuffer := r\<rparr>))
      else ok_bind (Push False input (InputBuffer d)) (\<lambda>(ok, r). Inr (d\<lparr>InputBuffer := r\<rparr>)))"

definition ClearInput :: "bool \<Rightarrow> drivers \<Rightarrow> drivers" where
  "ClearInput scancode d =
     (if scancode then d\<lparr>InputScanCodeBuffer := Clear (InputScanCodeBuffer d)\<rparr>
      else d\<lparr>InputBuffer := Clear (InputBuffer d)\<rparr>)"

definition ReadInputNoBlocking ::
  "u8 list \<Rightarrow> u64 \<Rightarrow> bool \<Rightarrow> drivers \<Rightarrow> fault + u64 \<times> u8 list \<times> drivers" where
  "ReadInputNoBlocking buffer n scancode d =
     (if scancode
      then ok_bind (PopElements buffer (unat n) (InputScanCodeBuffer d)) (\<lambda>(cnt, buffer, r).
             Inr (of_nat cnt, buffer, d\<lparr>InputScanCodeBuffer := r\<rparr>))
      else ok_bind (PopElements buffer (unat n) (InputBuffer d)) (\<lambda>(cnt, buffer, r).
             Inr (of_nat cnt, buffer, d\<lparr>InputBuffer := r\<rparr>)))"

fun deliver :: "(u8 \<times> bool) list \<Rightarrow> drivers \<Rightarrow> fault + drivers" where
  "deliver [] d = Inr d"
| "deliver ((input, scancode) # is) d = ok_bind (InsertInput input scancode d) (deliver is)"

text \<open>Each time around the loop the processor halts and wakes up after one batch of interrupts.\<close>

fun read_blocking ::
  "(u8 \<times> bool) list list \<Rightarrow> u8 list \<Rightarrow> u64 \<Rightarrow> bool \<Rightarrow> drivers \<Rightarrow> fault + u64 \<times> u8 list \<times> drivers" where
  "read_blocking bs buffer n scancode d =
     ok_bind (ReadInputNoBlocking buffer n scancode d) (\<lambda>(cnt, buffer, d).
       if cnt \<noteq> 0 then Inr (cnt, buffer, d\<lparr>Interrupts := bs\<rparr>)
       else
         (case bs of
            [] \<Rightarrow> Inl Halted
          | b # bs \<Rightarrow> ok_bind (deliver b d) (read_blocking bs buffer n scancode)))"

declare read_blocking.simps [simp del]

definition ReadInputBlocking ::
  "u8 list \<Rightarrow> u64 \<Rightarrow> bool \<Rightarrow> drivers \<Rightarrow> fault + u64 \<times> u8 list \<times> drivers" where
  "ReadInputBlocking buffer n scancode d = read_blocking (Interrupts d) buffer n scancode d"

definition StandardInputVolume_Read ::
  "u64 \<Rightarrow> u64 \<Rightarrow> u64 \<Rightarrow> u8 list \<Rightarrow> u64 \<Rightarrow> drivers \<Rightarrow> fault + u64 \<times> u8 list \<times> drivers" where
  "StandardInputVolume_Read h ctx offset buffer n d =
     (if n = 0 then Inr (0, buffer, d)
      else if h = 0 then ReadInputBlocking buffer n False d
      else ReadInputNoBlocking buffer n True d)"

section \<open>Output\<close>

definition print_text :: "bool \<Rightarrow> drivers \<Rightarrow> drivers" where
  "print_text err d = d\<lparr>Printed := (takeWhile (\<lambda>c. c \<noteq> 0) (ConsoleBuffer d), err) # Printed d\<rparr>"

text \<open>
  The loop of both write functions.  The first argument bounds the iterations; the loop need
  not end, since \<^verbatim>\<open>written\<close> is 0 when the next byte is a zero.
\<close>

fun write_loop :: "nat \<Rightarrow> bool \<Rightarrow> u8 list \<Rightarrow> u64 \<Rightarrow> drivers \<Rightarrow> fault + drivers" where
  "write_loop fuel err buffer remaining d =
     (if remaining = 0 then Inr d
      else
        (case fuel of
           0 \<Rightarrow> Inl RecursionLimit
         | Suc fuel \<Rightarrow>
             ok_bind (ascii_to_wide (Some (ConsoleBuffer d)) buffer
                        (if remaining > 1024 then 1024 else uint remaining)) (\<lambda>(written, out).
             let d = print_text err (d\<lparr>ConsoleBuffer := the out\<rparr>) in
             write_loop fuel err buffer (remaining - of_nat written) d)))"

declare write_loop.simps [simp del]

definition StandardOutputVolume_Write ::
  "nat \<Rightarrow> u64 \<Rightarrow> u64 \<Rightarrow> u64 \<Rightarrow> u8 list \<Rightarrow> u64 \<Rightarrow> drivers \<Rightarrow> fault + u64 \<times> drivers" where
  "StandardOutputVolume_Write fuel h ctx offset buffer n d =
     ok_bind (write_loop fuel False buffer n d) (\<lambda>d. Inr (n, d))"

definition StandardErrorVolume_Write ::
  "nat \<Rightarrow> u64 \<Rightarrow> u64 \<Rightarrow> u64 \<Rightarrow> u8 list \<Rightarrow> u64 \<Rightarrow> drivers \<Rightarrow> fault + u64 \<times> drivers" where
  "StandardErrorVolume_Write fuel h ctx offset buffer n d =
     ok_bind (write_loop fuel True buffer n d) (\<lambda>d. Inr (n, d))"

definition STDOUT_HANDLES :: u64 where "STDOUT_HANDLES = 4"

definition StdioWriteFunctions ::
  "nat \<Rightarrow> (u64 \<Rightarrow> u64 \<Rightarrow> u64 \<Rightarrow> u8 list \<Rightarrow> u64 \<Rightarrow> drivers \<Rightarrow> fault + u64 \<times> drivers) option list" where
  "StdioWriteFunctions fuel =
     [None, Some (StandardOutputVolume_Write fuel), Some (StandardErrorVolume_Write fuel), None]"

definition StdioReadFunctions ::
  "(u64 \<Rightarrow> u64 \<Rightarrow> u64 \<Rightarrow> u8 list \<Rightarrow> u64 \<Rightarrow> drivers \<Rightarrow> fault + u64 \<times> u8 list \<times> drivers) option list" where
  "StdioReadFunctions = [Some StandardInputVolume_Read, None, None, Some StandardInputVolume_Read]"

definition StandardIOVolume :: "nat \<Rightarrow> drivers Volume" where
  "StandardIOVolume fuel = \<lparr>
     OpenHandle = Some (\<lambda>h ctx path mode d.
       ok_bind (array_get path 0) (\<lambda>c. Inr (if c = char_code CHR ''k'' then 3 else 0, d))),
     CloseHandle = Some (\<lambda>h ctx d. Inr d),
     Read = Some (\<lambda>h ctx offset buffer n d.
       if h < STDOUT_HANDLES
       then call (StdioReadFunctions ! unat h) (\<lambda>f. f h ctx offset buffer n d)
       else Inr (NOT 0, buffer, d)),
     Write = Some (\<lambda>h ctx offset buffer n d.
       if h < STDOUT_HANDLES
       then call (StdioWriteFunctions fuel ! unat h) (\<lambda>f. f h ctx offset buffer n d)
       else Inr (NOT 0, d)),
     GetSize = Some (\<lambda>h ctx d. Inr (- EINVAL, d)),
     Seek = Some (\<lambda>h ctx offset origin d. Inr (- EINVAL, d)),
     Command = None\<rparr>"

text \<open>The text of a string literal, with its terminator.\<close>

definition wide :: "string \<Rightarrow> wstr" where
  "wide s = map char_code s @ [0]"

definition InitializeStdioVolumes ::
  "hash \<Rightarrow> u64 \<Rightarrow> nat \<Rightarrow> drivers volumes \<Rightarrow> fault + drivers volumes" where
  "InitializeStdioVolumes XXH64 junk fuel vols =
     ok_bind (MountVolume XXH64 junk (StandardIOVolume fuel) (wide ''stdin'') 0 vols) (\<lambda>(h, vols).
     ok_bind (MountVolume XXH64 junk (StandardIOVolume fuel) (wide ''stdout'') 1 vols) (\<lambda>(h, vols).
     ok_bind (MountVolume XXH64 junk (StandardIOVolume fuel) (wide ''stderr'') 2 vols) (\<lambda>(h, vols).
     ok_bind (MountVolume XXH64 junk (StandardIOVolume fuel) (wide ''keyboard'') 3 vols) (\<lambda>(h, vols).
     Inr vols))))"

section \<open>The framebuffer\<close>

text \<open>Request numbers and types of \<^verbatim>\<open>linux/fb.h\<close>.\<close>

definition FBIOGET_VSCREENINFO :: u64 where "FBIOGET_VSCREENINFO = 0x4600"
definition FBIOGET_FSCREENINFO :: u64 where "FBIOGET_FSCREENINFO = 0x4602"
definition FB_TYPE_PACKED_PIXELS :: u32 where "FB_TYPE_PACKED_PIXELS = 0"
definition FB_VISUAL_DIRECTCOLOR :: u32 where "FB_VISUAL_DIRECTCOLOR = 4"
definition FrameBufferWidth :: u32 where "FrameBufferWidth = 640 * 4"
definition FrameBufferHeight :: u32 where "FrameBufferHeight = 480 * 4"
definition FrameBufferBytesPerPixel :: u32 where "FrameBufferBytesPerPixel = 4"

definition align_page :: "u32 \<Rightarrow> u64" where
  "align_page n = ucast ((n + 4095) AND NOT 4095)"

definition FramebufferVolume_OpenHandle ::
  "page_source \<Rightarrow> u64 \<Rightarrow> u64 \<Rightarrow> wstr \<Rightarrow> u8 \<Rightarrow> drivers \<Rightarrow> fault + u64 \<times> drivers" where
  "FramebufferVolume_OpenHandle get h ctx path mode d =
     (let byte_size = align_page (FrameBufferWidth * FrameBufferHeight * FrameBufferBytesPerPixel);
          fb = GBootFramebuffer d in
      ok_bind (VirtualAlloc get byte_size User PageFlags_None (Memory d)) (\<lambda>(address, mem).
      ok_bind (VirtualProtect get (Base fb) (align_page (Pitch fb * Height fb)) ReadWrite PageFlags_None
                 User mem) (\<lambda>mem.
      Inr (set_handle_file 0 h,
           d\<lparr>FrameBufferByteSize := byte_size, FrameBufferMemory := address, Memory := mem\<rparr>))))"

definition FramebufferVolume_CloseHandle ::
  "page_source \<Rightarrow> u64 \<Rightarrow> u64 \<Rightarrow> drivers \<Rightarrow> fault + drivers" where
  "FramebufferVolume_CloseHandle get h ctx d =
     ok_bind (VirtualFree get (FrameBufferMemory d) (FrameBufferByteSize d) (Memory d)) (\<lambda>(ok, mem).
       Inr (d\<lparr>Memory := mem, FrameBufferMemory := 0\<rparr>))"

definition FramebufferVolume_Command ::
  "u64 \<Rightarrow> u64 \<Rightarrow> u64 \<Rightarrow> u64 \<Rightarrow> drivers \<Rightarrow> fault + u64 \<times> drivers" where
  "FramebufferVolume_Command h ctx command data d =
     (let fb = GBootFramebuffer d in
      if command = FBIOGET_VSCREENINFO then
        Inr (0, d\<lparr>VarScreenInfo := (VarScreenInfo d)(data \<mapsto>
          \<lparr>xres = Width fb, yres = Height fb, xres_virtual = 640 * 2, yres_virtual = 480 * 2,
           xoffset = Width fb div 2 - (640 * 2) div 2, yoffset = Height fb div 2 - (480 * 2) div 2,
           bits_per_pixel = 32\<rparr>)\<rparr>)
      else if command = FBIOGET_FSCREENINFO then
        Inr (0, d\<lparr>FixScreenInfo := (FixScreenInfo d)(data \<mapsto>
          \<lparr>smem_start = Base fb, smem_len = Pitch fb * Height fb, fix_type = FB_TYPE_PACKED_PIXELS,
           visual = FB_VISUAL_DIRECTCOLOR, line_length = Pitch fb, mmio_start = Base fb,
           mmio_len = Pitch fb * Height fb\<rparr>)\<rparr>)
      else Inr (- EINVAL, d))"

definition FramebufferVolume :: "page_source \<Rightarrow> drivers Volume" where
  "FramebufferVolume get = \<lparr>
     OpenHandle = Some (FramebufferVolume_OpenHandle get),
     CloseHandle = Some (FramebufferVolume_CloseHandle get),
     Read = Some (\<lambda>h ctx offset buffer n d. Inr (0, buffer, d)),
     Write = Some (\<lambda>h ctx offset buffer n d. Inr (n, d)),
     GetSize = Some (\<lambda>h ctx d. Inr (- EINVAL, d)),
     Seek = Some (\<lambda>h ctx offset origin d. Inr (- EINVAL, d)),
     Command = Some FramebufferVolume_Command\<rparr>"

section \<open>Devices\<close>

text \<open>
  \<^verbatim>\<open>SpecialPaths\<close> with its terminating entry.  The file number of the handle indexes it; the
  code checks no range, and the terminating entry has no volume.
\<close>

definition device_paths :: "page_source \<Rightarrow> (wstr \<times> drivers Volume) option list" where
  "device_paths get = [Some (wide ''/fb0'', FramebufferVolume get), None]"

fun find_device ::
  "(wstr \<times> drivers Volume) option list \<Rightarrow> nat \<Rightarrow> wstr \<Rightarrow> fault + (nat \<times> drivers Volume) option" where
  "find_device [] k path = Inl OutOfBounds"
| "find_device (None # ps) k path = Inr None"
| "find_device (Some (name, volume) # ps) k path =
     ok_bind (stricmp16 name path) (\<lambda>c.
       if c = 0 then Inr (Some (k, volume)) else find_device ps (Suc k) path)"

definition device_volume :: "page_source \<Rightarrow> u64 \<Rightarrow> (drivers Volume \<Rightarrow> fault + 'a) \<Rightarrow> fault + 'a" where
  "device_volume get h use =
     ok_bind (array_get (device_paths get) (unat (handle_file h))) (\<lambda>entry.
       case entry of None \<Rightarrow> Inl NullPointer | Some (name, volume) \<Rightarrow> use volume)"

definition DeviceVolume :: "page_source \<Rightarrow> drivers Volume" where
  "DeviceVolume get = \<lparr>
     OpenHandle = Some (\<lambda>h ctx path mode d.
       ok_bind (find_device (device_paths get) 0 path) (\<lambda>found.
         case found of
           None \<Rightarrow> Inr (- ENOENT, d)
         | Some (index, volume) \<Rightarrow>
             call (OpenHandle volume) (\<lambda>f. f (set_handle_file (of_nat index) h) ctx path mode d))),
     CloseHandle = Some (\<lambda>h ctx d.
       device_volume get h (\<lambda>v. call (CloseHandle v) (\<lambda>f. f h ctx d))),
     Read = Some (\<lambda>h ctx offset buffer n d.
       device_volume get h (\<lambda>v. call (Read v) (\<lambda>f. f h ctx offset buffer n d))),
     Write = Some (\<lambda>h ctx offset buffer n d.
       device_volume get h (\<lambda>v. call (Write v) (\<lambda>f. f h ctx offset buffer n d))),
     GetSize = Some (\<lambda>h ctx d.
       device_volume get h (\<lambda>v. call (GetSize v) (\<lambda>f. f h ctx d))),
     Seek = Some (\<lambda>h ctx offset origin d.
       device_volume get h (\<lambda>v. call (Seek v) (\<lambda>f. f h ctx offset origin d))),
     Command = Some (\<lambda>h ctx command data d.
       device_volume get h (\<lambda>v.
         case Command v of
           Some f \<Rightarrow> f h ctx command data d
         | None \<Rightarrow> Inr (- EINVAL, d)))\<rparr>"

definition InitializeDeviceVolumes ::
  "hash \<Rightarrow> u64 \<Rightarrow> page_source \<Rightarrow> drivers volumes \<Rightarrow> fault + drivers volumes" where
  "InitializeDeviceVolumes XXH64 junk get vols =
     ok_bind (MountVolume XXH64 junk (DeviceVolume get) (wide ''/dev/'') 0 vols) (\<lambda>(h, vols). Inr vols)"

section \<open>Process information\<close>

text \<open>The special files and the cells of their contents.\<close>

definition proc_paths :: "(wstr \<times> cstr) option list" where
  "proc_paths = [Some (wide ''/sys/kernel/osrelease'', map char_code ''dev'' @ [0]), None]"

fun find_proc :: "(wstr \<times> cstr) option list \<Rightarrow> nat \<Rightarrow> wstr \<Rightarrow> fault + nat option" where
  "find_proc [] k path = Inl OutOfBounds"
| "find_proc (None # ps) k path = Inr None"
| "find_proc (Some (name, data) # ps) k path =
     ok_bind (stricmp16 name path) (\<lambda>c.
       if c = 0 then Inr (Some k) else find_proc ps (Suc k) path)"

definition proc_read ::
  "u64 \<Rightarrow> u64 \<Rightarrow> u64 \<Rightarrow> u8 list \<Rightarrow> u64 \<Rightarrow> drivers \<Rightarrow> fault + u64 \<times> u8 list \<times> drivers" where
  "proc_read h ctx offset buffer n d =
     ok_bind (array_get proc_paths (unat (handle_file h))) (\<lambda>entry.
     case entry of
       None \<Rightarrow> Inl NullPointer
     | Some (name, data) \<Rightarrow>
         ok_bind (strlen (drop (unat offset) data)) (\<lambda>left.
         let to_copy = min left (unat n) in
         ok_bind (copy_loop data (unat offset) buffer 0 to_copy) (\<lambda>buffer.
         Inr (of_nat to_copy, buffer, d))))"

definition SpecialProcVolume :: "drivers Volume" where
  "SpecialProcVolume = \<lparr>
     OpenHandle = Some (\<lambda>h ctx path mode d.
       ok_bind (find_proc proc_paths 0 path) (\<lambda>found.
         case found of
           None \<Rightarrow> Inr (- ENOENT, d)
         | Some index \<Rightarrow> Inr (set_handle_file (of_nat index) h, d))),
     CloseHandle = Some (\<lambda>h ctx d. Inr d),
     Read = Some proc_read,
     Write = None,
     GetSize = None,
     Seek = Some (\<lambda>h ctx offset origin d. Inr (- EINVAL, d)),
     Command = None\<rparr>"

definition InitializeSpecialProcVolumes ::
  "hash \<Rightarrow> u64 \<Rightarrow> drivers volumes \<Rightarrow> fault + drivers volumes" where
  "InitializeSpecialProcVolumes XXH64 junk vols =
     ok_bind (MountVolume XXH64 junk SpecialProcVolume (wide ''/proc/'') 0 vols) (\<lambda>(h, vols). Inr vols)"

end
