(* ===== verification/DeviceVolumesCorrect.thy ===== *)
theory DeviceVolumesCorrect
  imports DeviceVolumes CStringsCorrect
begin

text \<open>
  What a write to standard output prints.
\<close>

text \<open>The blocks that the write loop prints: always the front of the buffer.\<close>

function blocks :: "'a list \<Rightarrow> nat \<Rightarrow> 'a list list" where
  "blocks buffer 0 = []"
| "0 < n \<Longrightarrow> blocks buffer n = take (min 1024 n) buffer # blocks buffer (n - min 1024 n)"
  by (auto simp: not_less) (metis not_gr_zero surj_pair)
termination by (relation "measure snd") auto

lemma takeWhile_terminated: "0 \<notin> set x \<Longrightarrow> takeWhile (\<lambda>c. c \<noteq> 0) (x @ 0 # t) = x"
  by (induction x) auto

lemma write_step:
  fixes buffer :: "u8 list"
  assumes "m < length buffer" and "0 \<notin> set (take m buffer)" and "m < length cb"
  shows "ascii_to_wide (Some cb) buffer (int m)
    = Inr (m, Some (map scast (take m buffer) @ 0 # drop (Suc m) cb))"
proof -
  have "buffer = take m buffer @ buffer ! m # drop (Suc m) buffer"
    using assms(1) by (simp add: id_take_nth_drop)
  then have "ascii_to_wide (Some cb) buffer (int m)
    = convert_loop scast (Some cb) (take m buffer @ buffer ! m # drop (Suc m) buffer) (int m) 0"
    by (simp add: ascii_to_wide_def)
  then show ?thesis
    using convert_loop_exact [OF assms(2), of m "int m" "buffer ! m" 0 scast cb] assms(1,3) by simp
qed

lemma scast_zero_iff: "scast c = (0 :: u16) \<longleftrightarrow> c = (0 :: u8)"
proof -
  have "ucast (scast c :: u16) = c" by (rule bit_word_eqI) (auto simp: bit_simps)
  then show ?thesis by (metis scast_0 ucast_0)
qed

lemma write_loop_blocks:
  assumes "unat n \<le> fuel * 1024" and "\<forall>k \<le> unat n. k \<le> 1024 \<longrightarrow> k < length buffer"
    and "0 \<notin> set (take (min 1024 (unat n)) buffer)" and "length (ConsoleBuffer d) = 2048"
  shows "\<exists>cb. write_loop fuel err buffer n d = Inr (d\<lparr>ConsoleBuffer := cb,
      Printed := rev (map (\<lambda>b. (map scast b, err)) (blocks buffer (unat n))) @ Printed d\<rparr>)
    \<and> length cb = 2048"
  using assms
proof (induction fuel arbitrary: n d)
  case 0
  then have "n = 0" by (simp add: unat_eq_zero)
  then show ?case using 0(4) by (intro exI [of _ "ConsoleBuffer d"]) (simp add: write_loop.simps)
next
  case (Suc fuel)
  show ?case
  proof (cases "n = 0")
    case True
    then show ?thesis using Suc.prems(4)
      by (intro exI [of _ "ConsoleBuffer d"]) (simp add: write_loop.simps)
  next
    case False
    let ?m = "min 1024 (unat n)"
    have pos: "0 < unat n" using False by (simp add: unat_gt_0)
    have limit: "(if n > 1024 then 1024 else uint n) = int ?m"
      by (cases "n > 1024") (auto simp: word_less_nat_alt min_def)
    let ?cb = "map scast (take ?m buffer) @ 0 # drop (Suc ?m) (ConsoleBuffer d) :: wstr"
    have m: "?m < length buffer" using Suc.prems(2) by simp
    have conv: "ascii_to_wide (Some (ConsoleBuffer d)) buffer (int ?m) = Inr (?m, Some ?cb)"
      by (rule write_step) (use m Suc.prems in auto)
    have "(0 :: u16) \<notin> set (map scast (take ?m buffer))"
      using Suc.prems(3) by (auto simp: scast_zero_iff)
    then have printed: "takeWhile (\<lambda>c. c \<noteq> 0) ?cb = map scast (take ?m buffer)"
      by (rule takeWhile_terminated)
    let ?d = "d\<lparr>ConsoleBuffer := ?cb, Printed := (map scast (take ?m buffer), err) # Printed d\<rparr>"
    have "unat (of_nat ?m :: u64) = ?m"
      using unat_less_pow2 [of n] by (simp add: unat_of_nat)
    then have left: "unat (n - of_nat ?m) = unat n - ?m"
      by (subst unat_sub_le) (auto simp: word_le_nat_alt)
    have len: "length (ConsoleBuffer ?d) = 2048" using m Suc.prems(4) by simp
    have bounds: "unat (n - of_nat ?m) \<le> fuel * 1024" unfolding left using Suc.prems(1) by simp
    have "\<forall>k \<le> unat (n - of_nat ?m). k \<le> 1024 \<longrightarrow> k < length buffer"
      unfolding left using Suc.prems(2) by simp
    moreover have "0 \<notin> set (take (min 1024 (unat (n - of_nat ?m))) buffer)"
    proof -
      have "min 1024 (unat (n - of_nat ?m)) \<le> ?m" unfolding left by simp
      then have "set (take (min 1024 (unat (n - of_nat ?m))) buffer) \<subseteq> set (take ?m buffer)"
        by (rule set_take_subset_set_take)
      then show ?thesis using Suc.prems(3) by blast
    qed
    ultimately obtain cb where cb: "write_loop fuel err buffer (n - of_nat ?m) ?d = Inr (?d\<lparr>ConsoleBuffer := cb,
        Printed := rev (map (\<lambda>b. (map scast b, err)) (blocks buffer (unat n - ?m))) @ Printed ?d\<rparr>)"
      "length cb = 2048"
      using Suc.IH [OF bounds _ _ len] unfolding left by blast
    have "write_loop (Suc fuel) err buffer n d = write_loop fuel err buffer (n - of_nat ?m) ?d"
      using False conv printed
      by (subst write_loop.simps) (simp add: limit print_text_def Let_def)
    then show ?thesis
      using cb pos by (intro exI [of _ cb]) (simp add: blocks.simps(2))
  qed
qed

text \<open>
  A write to standard output of bytes without a zero ends and reports the full size,
  but it prints the first 1024 bytes again and again: the code never advances its pointer.
  So the text comes out as written only up to 1024 bytes.
\<close>

theorem stdout_write_blocks:
  assumes "unat n \<le> fuel * 1024" and "\<forall>k \<le> unat n. k \<le> 1024 \<longrightarrow> k < length buffer"
    and "0 \<notin> set (take (min 1024 (unat n)) buffer)" and "length (ConsoleBuffer d) = 2048"
  shows "\<exists>d'. call (Write (StandardIOVolume fuel)) (\<lambda>f. f 1 ctx offset buffer n d) = Inr (n, d')
    \<and> rev (Printed d') = rev (Printed d) @ map (\<lambda>b. (map scast b, False)) (blocks buffer (unat n))
    \<and> (n \<noteq> 0 \<longrightarrow> unat n \<le> 1024 \<longrightarrow>
         rev (Printed d') = rev (Printed d) @ [(map scast (take (unat n) buffer), False)])"
proof -
  obtain cb where cb: "write_loop fuel False buffer n d = Inr (d\<lparr>ConsoleBuffer := cb,
      Printed := rev (map (\<lambda>b. (map scast b, False)) (blocks buffer (unat n))) @ Printed d\<rparr>)"
    using write_loop_blocks [OF assms] by blast
  moreover have "blocks buffer (unat n) = [take (unat n) buffer]" if "n \<noteq> 0" "unat n \<le> 1024"
    using that by (simp add: blocks.simps(2) unat_gt_0 min_absorb2)
  ultimately show ?thesis
    by (auto simp: call_def StandardIOVolume_def StdioWriteFunctions_def STDOUT_HANDLES_def
        StandardOutputVolume_Write_def)
qed

definition demo_drivers :: drivers where
  "demo_drivers = \<lparr>InputBuffer = ring_new (replicate 4096 0), InputScanCodeBuffer = ring_new (replicate 4096 0),
     ConsoleBuffer = replicate 2048 0, Printed = [], Interrupts = [],
     Memory = \<lparr>Heap = Map.empty, PML4 = 0, InitialPageTableEntries = 0, PagingFreePageHead = 0,
       NextFreePageTableEntriesBlock = 0,
       PhysicalMemoryState = \<lparr>state_root = Leaf 0 Used, highest_address = 0,
         node_pool = \<lparr>leaf_free = 0, branch_free = 0, leaf_next = False, branch_next = False,
           used_leaves = 0, used_branches = 0\<rparr>, system_index = 0\<rparr>,
       VirtualMemoryState = \<lparr>state_root = Leaf 0 Used, highest_address = 0,
         node_pool = \<lparr>leaf_free = 0, branch_free = 0, leaf_next = False, branch_next = False,
           used_leaves = 0, used_branches = 0\<rparr>, system_index = 1\<rparr>,
       CR3 = 0, PML4Set = False, Invalidated = []\<rparr>,
     GBootFramebuffer = \<lparr>Base = 0, Width = 640, Height = 480, Pitch = 2560\<rparr>,
     FrameBufferByteSize = 0, FrameBufferMemory = 0, VarScreenInfo = Map.empty, FixScreenInfo = Map.empty\<rparr>"

lemma demo_drivers_console: "ConsoleBuffer demo_drivers = replicate 2048 0" "Printed demo_drivers = []"
  by (simp_all add: demo_drivers_def)

theorem stdout_write_blocks_witness:
  "\<exists>d'. call (Write (StandardIOVolume 1)) (\<lambda>f. f 1 0 0 [104, 105, 0] 2 demo_drivers) = Inr (2, d')
    \<and> Printed d' = [([104, 105], False)]"
proof -
  have s: "scast (104 :: u8) = (104 :: u16)" "scast (105 :: u8) = (105 :: u16)"
    by (simp_all add: scast_eq)
  have u: "unat (2 :: u64) = 2" by simp
  have f: "\<forall>k \<le> unat (2 :: u64). k \<le> 1024 \<longrightarrow> k < length [104, 105, 0 :: u8]" by simp
  have z: "0 \<notin> set (take (min 1024 (unat (2 :: u64))) [104, 105, 0 :: u8])" by simp
  have m: "map scast (take 2 [104, 105, 0 :: u8]) = ([104, 105] :: u16 list)" using s by simp
  obtain d' where "call (Write (StandardIOVolume 1)) (\<lambda>f. f 1 0 0 [104, 105, 0] 2 demo_drivers) = Inr (2, d')"
    and "rev (Printed d') = [(map scast (take (unat (2 :: u64)) [104, 105, 0 :: u8]), False)]"
    using stdout_write_blocks [OF _ f z, of 1 demo_drivers 0 0] by (auto simp: demo_drivers_console)
  moreover from this(2) have "Printed d' = [([104, 105], False)]"
    unfolding u m by (metis rev_rev_ident rev_singleton_conv)
  ultimately show ?thesis by blast
qed

text \<open>
  A zero byte at the front makes the write run for ever: each time around the loop
  nothing is consumed, whatever the bound on the iterations.
\<close>

theorem stdout_write_zero_byte:
  assumes "buffer \<noteq> []" and "buffer ! 0 = 0" and "n \<noteq> 0" and "ConsoleBuffer d \<noteq> []"
  shows "write_loop fuel err buffer n d = Inl RecursionLimit"
  using assms
proof (induction fuel arbitrary: d)
  case 0
  then show ?case by (simp add: write_loop.simps)
next
  case (Suc fuel)
  have "ascii_to_wide (Some (ConsoleBuffer d)) buffer limit = Inr (0, Some ((ConsoleBuffer d)[0 := 0]))" for limit
    using Suc.prems by (simp add: ascii_to_wide_def convert_loop.simps)
  moreover have "write_loop fuel err buffer n (print_text err (d\<lparr>ConsoleBuffer := (ConsoleBuffer d)[0 := 0]\<rparr>))
      = Inl RecursionLimit"
    by (rule Suc.IH) (use Suc.prems in \<open>simp_all add: print_text_def\<close>)
  ultimately show ?case using Suc.prems(3) by (subst write_loop.simps) (simp add: Let_def)
qed

theorem stdout_write_zero_byte_witness:
  "write_loop 1000 False [0, 104] 2 demo_drivers = Inl RecursionLimit"
  by (rule stdout_write_zero_byte) (simp_all add: demo_drivers_console)

end
