(* ===== verification/Keyboard.thy ===== *)
theory Keyboard
  imports DeviceVolumes
begin

text \<open>
  The keyboard driver: \<^verbatim>\<open>src/kernel/devices/keyboard.cpp\<close>, \<^verbatim>\<open>inc/kernel/devices/keyboard.h\<close> and
  the scan codes of \<^verbatim>\<open>virtual_key.h\<close>.  A layout has four tables of texts, indexed by scan
  code; \<^verbatim>\<open>None\<close> is the null pointer.
\<close>

section \<open>Scan codes\<close>

definition RangeEnd_Standard :: u32 where "RangeEnd_Standard = 0x59"
definition RangeStart_Extended1 :: u32 where "RangeStart_Extended1 = 0xE010"
definition RangeEnd_Extended1 :: u32 where "RangeEnd_Extended1 = 0xE06E"
definition RangeStart_Extended2 :: u32 where "RangeStart_Extended2 = 0xE11D"
definition RangeEnd_Extended2 :: u32 where "RangeEnd_Extended2 = 0xE11E"
definition ReleasedKeyOffset :: u32 where "ReleasedKeyOffset = 0x80"
definition SC_ControlLeft :: u32 where "SC_ControlLeft = 0x1D"
definition SC_ControlRight :: u32 where "SC_ControlRight = 0xE01D"
definition SC_ShiftLeft :: u32 where "SC_ShiftLeft = 0x2A"
definition SC_ShiftRight :: u32 where "SC_ShiftRight = 0x36"
definition SC_Alt :: u32 where "SC_Alt = 0x38"
definition SC_AltGr :: u32 where "SC_AltGr = 0xE038"

lemmas scan_codes = RangeEnd_Standard_def RangeStart_Extended1_def RangeEnd_Extended1_def
  RangeStart_Extended2_def RangeEnd_Extended2_def ReleasedKeyOffset_def SC_ControlLeft_def
  SC_ControlRight_def SC_ShiftLeft_def SC_ShiftRight_def SC_Alt_def SC_AltGr_def

section \<open>State\<close>

type_synonym key_table = "wstr option list"

record KeyLayout =
  LayoutStandard :: key_table
  LayoutShift :: key_table
  LayoutAltGr :: key_table
  LayoutShiftAltGr :: key_table

record KeyState =
  Standard :: "u8 list"
  Extended1 :: "u8 list"
  Extended2 :: "u8 list"
  ExtendedKeyState :: u8

definition init_key_state :: KeyState where
  "init_key_state = \<lparr>Standard = replicate 0x59 0, Extended1 = replicate 0x5E 0,
     Extended2 = replicate 1 0, ExtendedKeyState = 0\<rparr>"

definition invalid_scan_code :: "fault + 'a" where
  "invalid_scan_code = Inl (AssertionFailed ''Invalid scan code'')"

section \<open>Operations\<close>

definition IsReleased :: "u32 \<Rightarrow> fault + bool" where
  "IsReleased key =
     (if key < RangeEnd_Standard then Inr False
      else if key < RangeEnd_Standard + ReleasedKeyOffset then Inr True
      else if key < RangeEnd_Extended1 then Inr False
      else if key < RangeEnd_Extended1 + ReleasedKeyOffset then Inr True
      else if key < RangeEnd_Extended2 then Inr False
      else if key < RangeEnd_Extended2 + ReleasedKeyOffset then Inr True
      else invalid_scan_code)"

definition GetKeyState :: "u32 \<Rightarrow> KeyState \<Rightarrow> fault + u8" where
  "GetKeyState key ks =
     (if key < RangeEnd_Standard then array_get (Standard ks) (unat key)
      else if key < RangeEnd_Extended1
      then array_get (Extended1 ks) (unat (key - RangeStart_Extended1))
      else if key < RangeEnd_Extended2
      then array_get (Extended2 ks) (unat (key - RangeStart_Extended2))
      else invalid_scan_code)"

definition set_standard :: "u32 \<Rightarrow> u8 \<Rightarrow> KeyState \<Rightarrow> fault + KeyState" where
  "set_standard i v ks = ok_bind (array_set (Standard ks) (unat i) v) (\<lambda>xs. Inr (ks\<lparr>Standard := xs\<rparr>))"

definition set_extended1 :: "u32 \<Rightarrow> u8 \<Rightarrow> KeyState \<Rightarrow> fault + KeyState" where
  "set_extended1 i v ks = ok_bind (array_set (Extended1 ks) (unat i) v) (\<lambda>xs. Inr (ks\<lparr>Extended1 := xs\<rparr>))"

text \<open>The last two branches write to \<^verbatim>\<open>Extended1\<close>, as the code does.\<close>

definition UpdateKeyState :: "u32 \<Rightarrow> KeyState \<Rightarrow> fault + KeyState" where
  "UpdateKeyState key ks =
     (if key < RangeEnd_Standard then set_standard key 1 ks
      else if key < RangeEnd_Standard + ReleasedKeyOffset
      then set_standard (key - ReleasedKeyOffset) 0 ks
      else if key < RangeEnd_Extended1 then set_extended1 (key - RangeStart_Extended1) 1 ks
      else if key < RangeEnd_Extended1 + ReleasedKeyOffset
      then set_extended1 (key - RangeStart_Extended1 - ReleasedKeyOffset) 0 ks
      else if key < RangeEnd_Extended2 then set_extended1 (key - RangeStart_Extended2) 1 ks
      else if key < RangeEnd_Extended2 + ReleasedKeyOffset
      then set_extended1 (key - RangeStart_Extended2 - ReleasedKeyOffset) 0 ks
      else invalid_scan_code)"

text \<open>
  \<^verbatim>\<open>GetPrintable\<close> reads \<^verbatim>\<open>Standard[ControlRight]\<close>, an index of 0xE01D into an array of 0x59
  bytes: \<^verbatim>\<open>stray\<close> is the outcome of that access, a fault when accesses are checked and
  otherwise the byte that happens to be there.
\<close>

definition GetPrintable :: "fault + u8 \<Rightarrow> u32 \<Rightarrow> KeyLayout \<Rightarrow> KeyState \<Rightarrow> fault + wstr option" where
  "GetPrintable stray key layout ks =
     (if key < RangeEnd_Standard then
        ok_bind (array_get (Standard ks) (unat SC_ShiftLeft)) (\<lambda>shift_left.
        ok_bind (array_get (Standard ks) (unat SC_ShiftRight)) (\<lambda>shift_right.
        ok_bind (array_get (Standard ks) (unat SC_Alt)) (\<lambda>alt.
        ok_bind (array_get (Extended1 ks) (unat (SC_AltGr - RangeStart_Extended1))) (\<lambda>alt_gr.
        ok_bind (array_get (Standard ks) (unat SC_ControlLeft)) (\<lambda>control_left.
        ok_bind (if control_left \<noteq> 0 then Inr True
                 else ok_bind stray (\<lambda>b. Inr (b \<noteq> 0))) (\<lambda>control.
        let shift = shift_left \<noteq> 0 \<or> shift_right \<noteq> 0 in
        if control \<or> alt \<noteq> 0 then Inr None
        else if shift \<and> alt_gr \<noteq> 0 then array_get (LayoutShiftAltGr layout) (unat key)
        else if shift then array_get (LayoutShift layout) (unat key)
        else if alt_gr \<noteq> 0 then array_get (LayoutAltGr layout) (unat key)
        else array_get (LayoutStandard layout) (unat key)))))))
      else Inr None)"

text \<open>The characters of a text are inserted up to its terminator.\<close>

fun insert_text :: "wstr \<Rightarrow> drivers \<Rightarrow> fault + drivers" where
  "insert_text [] d = Inr d"
| "insert_text (c # cs) d = ok_bind (InsertInput (ucast c) False d) (insert_text cs)"

text \<open>
  The interrupt handler, with the values of the status and the data port.  (The code returns
  no value on the path that handles a key.)
\<close>

definition KeyboardInterrupt ::
  "fault + u8 \<Rightarrow> KeyLayout \<Rightarrow> u8 \<Rightarrow> u8 \<Rightarrow> KeyState \<Rightarrow> drivers \<Rightarrow> fault + KeyState \<times> drivers" where
  "KeyboardInterrupt stray layout status scancode ks d =
     (if status AND 1 = 0 then Inr (ks, d)
      else if scancode = 0xE0 \<or> scancode = 0xE1 then Inr (ks\<lparr>ExtendedKeyState := scancode\<rparr>, d)
      else
        let key = push_bit 8 (ucast (ExtendedKeyState ks)) + ucast scancode :: u32 in
        ok_bind (UpdateKeyState key ks) (\<lambda>ks.
        ok_bind (GetPrintable stray key layout ks) (\<lambda>ascii.
        ok_bind
          (case ascii of
             None \<Rightarrow> Inr d
           | Some text \<Rightarrow> insert_text text (d\<lparr>Printed := (text, False) # Printed d\<rparr>)) (\<lambda>d.
        ok_bind (InsertInput scancode True d) (\<lambda>d.
        Inr (ks\<lparr>ExtendedKeyState := 0\<rparr>, d))))))"

end
