(* ===== verification/BritishLayout.thy ===== *)
theory BritishLayout
  imports Keyboard
begin

text \<open>
  The British layout, \<^verbatim>\<open>src/kernel/devices/layouts/british.cpp\<close>: the text of every scan code
  from 0 to 0x58, in rows of eight, alone, with shift, with AltGr and with both.  Every text
  is a single character, given by its code.
\<close>

definition none :: "wstr option" where "none = None"

definition chr :: "u16 \<Rightarrow> wstr option" where "chr c = Some [c]"

definition British_Standard :: key_table where
  "British_Standard =
     [none, none, chr 0x31, chr 0x32, chr 0x33, chr 0x34, chr 0x35, chr 0x36,
      chr 0x37, chr 0x38, chr 0x39, chr 0x30, chr 0x2D, chr 0x3D, none, chr 0x9,
      chr 0x71, chr 0x77, chr 0x65, chr 0x72, chr 0x74, chr 0x79, chr 0x75, chr 0x69,
      chr 0x6F, chr 0x70, chr 0x5B, chr 0x5D, chr 0xA, none, chr 0x61, chr 0x73,
      chr 0x64, chr 0x66, chr 0x67, chr 0x68, chr 0x6A, chr 0x6B, chr 0x6C, chr 0x3B,
      chr 0x27, chr 0x60, none, chr 0x23, chr 0x7A, chr 0x78, chr 0x63, chr 0x76,
      chr 0x62, chr 0x6E, chr 0x6D, chr 0x2C, chr 0x2E, chr 0x2F, none, chr 0x2A,
      none, chr 0x20, none, none, none, none, none, none,
      none, none, none, none, none, none, none, chr 0x37,
      chr 0x38, chr 0x39, chr 0x2D, chr 0x34, chr 0x35, chr 0x36, chr 0x2B, chr 0x31,
      chr 0x32, chr 0x33, chr 0x30, chr 0x2E, none, none, chr 0x5C, none,
      none]"

definition British_Shift :: key_table where
  "British_Shift =
     [none, none, chr 0x21, chr 0x22, chr 0xA3, chr 0x24, chr 0x25, chr 0x5E,
      chr 0x26, chr 0x2A, chr 0x28, chr 0x29, chr 0x5F, chr 0x2B, none, none,
      chr 0x51, chr 0x57, chr 0x45, chr 0x52, chr 0x54, chr 0x59, chr 0x55, chr 0x49,
      chr 0x4F, chr 0x50, chr 0x7B, chr 0x7D, none, none, chr 0x41, chr 0x53,
      chr 0x44, chr 0x46, chr 0x47, chr 0x48, chr 0x4A, chr 0x4B, chr 0x4C, chr 0x3A,
      chr 0x40, chr 0xAC, none, chr 0x7E, chr 0x5A, chr 0x58, chr 0x43, chr 0x56,
      chr 0x42, chr 0x4E, chr 0x4D, chr 0x3C, chr 0x3E, chr 0x3F, none, none,
      none, none, none, none, none, none, none, none,
      none, none, none, none, none, none, none, none,
      none, none, none, none, none, none, none, none,
      none, none, none, none, none, none, chr 0x7C, none,
      none]"

definition British_AltGr :: key_table where
  "British_AltGr =
     [none, none, none, none, none, chr 0x20AC, none, none,
      none, none, none, none, none, none, none, none,
      none, chr 0x1E83, chr 0xE9, none, none, chr 0xFD, chr 0xFA, chr 0xED,
      chr 0xF3, none, none, none, none, none, none, none,
      none, none, none, none, none, none, none, none,
      none, chr 0xA6, none, chr 0x5C, none, none, chr 0xE7, none,
      none, none, none, none, none, none, none, none,
      none, none, none, none, none, none, none, none,
      none, none, none, none, none, none, none, none,
      none, none, none, none, none, none, none, none,
      none, none, none, none, none, none, none, none,
      none]"

definition British_ShiftAltGr :: key_table where
  "British_ShiftAltGr =
     [none, none, none, none, none, chr 0x20AC, none, none,
      none, none, none, none, none, none, none, none,
      none, chr 0x1E82, chr 0xC9, none, none, chr 0xDD, chr 0xDA, chr 0xCD,
      chr 0xD3, none, none, none, none, none, none, none,
      none, none, none, none, none, none, none, none,
      none, none, none, chr 0x5C, none, none, chr 0xC7, none,
      none, none, none, none, none, none, none, none,
      none, none, none, none, none, none, none, none,
      none, none, none, none, none, none, none, none,
      none, none, none, none, none, none, none, none,
      none, none, none, none, none, none, none, none,
      none]"

definition KeyboardLayout_British :: KeyLayout where
  "KeyboardLayout_British = \<lparr>LayoutStandard = British_Standard, LayoutShift = British_Shift,
     LayoutAltGr = British_AltGr, LayoutShiftAltGr = British_ShiftAltGr\<rparr>"

end
