(* ===== verification/KeyboardCorrect.thy ===== *)
theory KeyboardCorrect
  imports BritishLayout
begin

text \<open>
  The key state follows the keyboard for the scan codes it was made for; which codes it was
  not made for; and the British layout.
\<close>

definition ks_ok :: "KeyState \<Rightarrow> bool" where
  "ks_ok ks \<longleftrightarrow> length (Standard ks) = 0x59 \<and> length (Extended1 ks) = 0x5E \<and> length (Extended2 ks) = 1"

text \<open>The keys with one code and those whose code is announced by 0xE0.\<close>

definition valid_key :: "u32 \<Rightarrow> bool" where
  "valid_key key \<longleftrightarrow> key < 0x59 \<or> 0xE010 \<le> key \<and> key < 0xE06E"

lemma init_ks_ok: "ks_ok init_key_state"
  by (simp add: ks_ok_def init_key_state_def)

lemma unat_diff_u32: "(b :: u32) \<le> a \<Longrightarrow> unat (a - b) = unat a - unat b"
  by (rule unat_sub)

lemma valid_key_cases:
  assumes "valid_key key"
  obtains (std) "unat key < 0x59" | (ext) i where "unat key = 0xE010 + i" "i < 0x5E"
proof (cases "key < 0x59")
  case True
  then show ?thesis using std by (simp add: word_less_nat_alt)
next
  case False
  then have "0xE010 \<le> unat key" "unat key < 0xE06E"
    using assms by (simp_all add: valid_key_def word_less_nat_alt word_le_nat_alt)
  then show ?thesis using ext [of "unat key - 0xE010"] by simp
qed

lemma unat_key_plus: "unat (key :: u32) < 0xF000 \<Longrightarrow> unat (key + 0x80) = unat key + 0x80"
  by (subst unat_add_no_wrap) simp_all

lemma update_press:
  assumes "ks_ok ks" and "valid_key key"
  shows "UpdateKeyState key ks = Inr
    (if key < 0x59 then ks\<lparr>Standard := (Standard ks)[unat key := 1]\<rparr>
     else ks\<lparr>Extended1 := (Extended1 ks)[unat key - 0xE010 := 1]\<rparr>)"
  using assms(2)
proof (cases rule: valid_key_cases)
  case std
  then show ?thesis
    using assms(1) by (simp add: UpdateKeyState_def scan_codes set_standard_def ks_ok_def word_less_nat_alt)
next
  case (ext i)
  then have "unat (key - 0xE010) = i" by (subst unat_diff_u32) (simp_all add: word_le_nat_alt)
  then show ?thesis
    using assms(1) ext
    by (simp add: UpdateKeyState_def scan_codes set_extended1_def ks_ok_def word_less_nat_alt)
qed

lemma update_release:
  assumes "ks_ok ks" and "valid_key key"
  shows "UpdateKeyState (key + 0x80) ks = Inr
    (if key < 0x59 then ks\<lparr>Standard := (Standard ks)[unat key := 0]\<rparr>
     else ks\<lparr>Extended1 := (Extended1 ks)[unat key - 0xE010 := 0]\<rparr>)"
  using assms(2)
proof (cases rule: valid_key_cases)
  case std
  then have "unat (key + 0x80) = unat key + 0x80" by (intro unat_key_plus) simp
  then show ?thesis
    using assms(1) std
    by (simp add: UpdateKeyState_def scan_codes set_standard_def ks_ok_def word_less_nat_alt)
next
  case (ext i)
  have u: "unat (key + 0x80) = unat key + 0x80" by (rule unat_key_plus) (use ext in simp)
  have "unat (key - 0xE010) = i" by (subst unat_diff_u32) (simp_all add: word_le_nat_alt ext)
  moreover have "key + 0x80 - 0xE010 - 0x80 = key - 0xE010" by simp
  ultimately show ?thesis
    using assms(1) ext u
    by (simp add: UpdateKeyState_def scan_codes set_extended1_def ks_ok_def word_less_nat_alt)
qed

lemma get_valid:
  assumes "ks_ok ks" and "valid_key key"
  shows "GetKeyState key ks = Inr
    (if key < 0x59 then Standard ks ! unat key else Extended1 ks ! (unat key - 0xE010))"
  using assms(2)
proof (cases rule: valid_key_cases)
  case std
  then show ?thesis using assms(1) by (simp add: GetKeyState_def scan_codes ks_ok_def word_less_nat_alt)
next
  case (ext i)
  then have "unat (key - 0xE010) = i" by (subst unat_diff_u32) (simp_all add: word_le_nat_alt)
  then show ?thesis
    using assms(1) ext by (simp add: GetKeyState_def scan_codes ks_ok_def word_less_nat_alt)
qed

lemma get_after_set:
  assumes ok: "ks_ok ks" and key: "valid_key key" and k: "valid_key k"
    and ks': "ks' = (if key < 0x59 then ks\<lparr>Standard := (Standard ks)[unat key := v]\<rparr>
      else ks\<lparr>Extended1 := (Extended1 ks)[unat key - 0xE010 := v]\<rparr>)"
  shows "ks_ok ks'" "GetKeyState k ks' = (if k = key then Inr v else GetKeyState k ks)"
proof -
  show ok': "ks_ok ks'" using ok by (simp add: ks' ks_ok_def)
  show "GetKeyState k ks' = (if k = key then Inr v else GetKeyState k ks)"
    unfolding get_valid [OF ok' k] get_valid [OF ok k]
    using ok key k
    by (cases rule: valid_key_cases [OF key]; cases rule: valid_key_cases [OF k])
      (auto simp: ks' ks_ok_def word_less_nat_alt word_unat_eq_iff nth_list_update)
qed

section \<open>Properties\<close>

text \<open>
  For the keys with a code of their own and the extended ones, the press and the release
  code set exactly the state of that key, every other key keeps its state, and the codes are
  told apart.
\<close>

theorem UpdateKeyState_correct:
  assumes "ks_ok ks" and "valid_key key"
  shows "\<exists>pressed released. UpdateKeyState key ks = Inr pressed \<and> UpdateKeyState (key + 0x80) ks = Inr released
    \<and> ks_ok pressed \<and> ks_ok released
    \<and> (\<forall>k. valid_key k \<longrightarrow>
         GetKeyState k pressed = (if k = key then Inr 1 else GetKeyState k ks)
         \<and> GetKeyState k released = (if k = key then Inr 0 else GetKeyState k ks))
    \<and> IsReleased key = Inr False \<and> IsReleased (key + 0x80) = Inr True"
proof -
  have "IsReleased key = Inr False \<and> IsReleased (key + 0x80) = Inr True"
    using assms(2)
  proof (cases rule: valid_key_cases)
    case std
    moreover have "unat (key + 0x80) = unat key + 0x80" by (rule unat_key_plus) (use std in simp)
    ultimately show ?thesis by (simp add: IsReleased_def scan_codes word_less_nat_alt)
  next
    case (ext i)
    moreover have "unat (key + 0x80) = unat key + 0x80" by (rule unat_key_plus) (use ext in simp)
    ultimately show ?thesis by (simp add: IsReleased_def scan_codes word_less_nat_alt)
  qed
  then show ?thesis
    using update_press [OF assms] update_release [OF assms]
      get_after_set [OF assms _ refl, of _ 1] get_after_set [OF assms _ refl, of _ 0] assms(2)
    by blast
qed

theorem UpdateKeyState_correct_witness:
  "\<exists>ks. UpdateKeyState 0xE038 init_key_state = Inr ks \<and> GetKeyState 0xE038 ks = Inr 1
    \<and> GetKeyState 0x2A ks = Inr 0"
proof -
  have "valid_key 0xE038" "valid_key 0x2A" by (simp_all add: valid_key_def)
  moreover have "GetKeyState 0x2A init_key_state = Inr 0"
    by (simp add: GetKeyState_def scan_codes init_key_state_def)
  ultimately show ?thesis
    using UpdateKeyState_correct [OF init_ks_ok, of "0xE038"] by auto
qed

text \<open>
  On every other code, the two of the Pause key excepted, the update writes outside its
  arrays or stops the machine.  Such codes come from real keyboards, for instance the
  acknowledgement 0xFA.
\<close>

theorem UpdateKeyState_faults:
  assumes "ks_ok ks"
  shows "returns (UpdateKeyState key ks) \<longleftrightarrow>
    key < 0x59 \<or> 0x80 \<le> key \<and> key < 0xD9 \<or> 0xE010 \<le> key \<and> key < 0xE06E
    \<or> 0xE090 \<le> key \<and> key < 0xE0EE \<or> key = 0xE11D \<or> key = 0xE19D"
proof -
  have len: "length (Standard ks) = 0x59" "length (Extended1 ks) = 0x5E"
    using assms by (auto simp: ks_ok_def)
  have r: "returns (set_standard i v ks) \<longleftrightarrow> i < 0x59" "returns (set_extended1 i v ks) \<longleftrightarrow> i < 0x5E" for i v
    by (auto simp: set_standard_def set_extended1_def array_set_def len word_less_nat_alt)
  have inv: "\<not> returns invalid_scan_code" by (simp add: invalid_scan_code_def)
  let ?n = "unat key"
  have sub: "key - b < c \<longleftrightarrow> (if unat b \<le> ?n then ?n - unat b < unat c else ?n + 2 ^ 32 - unat b < unat c)" for b c
    by (simp add: word_less_nat_alt unat_sub_if')
  have "returns (UpdateKeyState key ks) \<longleftrightarrow>
    (if ?n < 0x59 then True else if ?n < 0xD9 then key - 0x80 < 0x59
     else if ?n < 0xE06E then key - 0xE010 < 0x5E else if ?n < 0xE0EE then key - 0xE090 < 0x5E
     else if ?n < 0xE11E then key - 0xE11D < 0x5E else if ?n < 0xE19E then key - 0xE19D < 0x5E else False)"
    by (simp add: UpdateKeyState_def scan_codes r inv word_less_nat_alt [of key])
  also have "\<dots> \<longleftrightarrow> ?n < 0x59 \<or> 0x80 \<le> ?n \<and> ?n < 0xD9 \<or> 0xE010 \<le> ?n \<and> ?n < 0xE06E
    \<or> 0xE090 \<le> ?n \<and> ?n < 0xE0EE \<or> ?n = 0xE11D \<or> ?n = 0xE19D"
    unfolding sub by simp linarith
  finally show ?thesis by (simp add: word_less_nat_alt word_le_nat_alt word_unat_eq_iff)
qed

theorem UpdateKeyState_faults_witness:
  "\<not> returns (UpdateKeyState 0xFA init_key_state) \<and> returns (UpdateKeyState 0x9C init_key_state)"
  using UpdateKeyState_faults [OF init_ks_ok, of "0xFA"] UpdateKeyState_faults [OF init_ks_ok, of "0x9C"]
  by simp

text \<open>The Pause key is recorded as the first extended key, and its own state never changes.\<close>

lemma pause_key:
  "\<exists>ks. UpdateKeyState 0xE11D init_key_state = Inr ks \<and> GetKeyState 0xE010 ks = Inr 1
    \<and> GetKeyState 0xE11D ks = Inr 0"
  by (simp add: UpdateKeyState_def GetKeyState_def scan_codes set_extended1_def init_key_state_def)

text \<open>
  The text of a standard key: nothing while a left Control or Alt is held, and otherwise
  the entry of the table for the held shift and AltGr keys, provided the access outside the
  array that looks for the right Control happens to give zero; if it gives anything else no
  key has a text, and if accesses are checked it is a fault.
\<close>

theorem GetPrintable_correct:
  assumes "ks_ok ks" and "key < 0x59"
  shows "GetPrintable stray key layout ks =
    (let held = (\<lambda>k. Standard ks ! k \<noteq> 0); alt_gr = Extended1 ks ! 0x28 \<noteq> 0;
         shift = held 0x2A \<or> held 0x36;
         table = (if shift \<and> alt_gr then LayoutShiftAltGr layout else if shift then LayoutShift layout
                  else if alt_gr then LayoutAltGr layout else LayoutStandard layout) in
     if held 0x1D then Inr None
     else
       (case stray of
          Inl e \<Rightarrow> Inl e
        | Inr b \<Rightarrow> if b \<noteq> 0 \<or> held 0x38 then Inr None else array_get table (unat key)))"
  using assms
  by (cases stray) (auto simp: GetPrintable_def scan_codes ks_ok_def Let_def)

theorem GetPrintable_correct_witness:
  "GetPrintable (Inr 0) 0x10 KeyboardLayout_British (init_key_state\<lparr>Standard := (replicate 0x59 0)[0x2A := 1]\<rparr>)
    = Inr (Some [0x51])"
proof -
  have "ks_ok (init_key_state\<lparr>Standard := (replicate 0x59 0)[0x2A := 1]\<rparr>)"
    by (simp add: ks_ok_def init_key_state_def)
  then show ?thesis
    by (subst GetPrintable_correct)
      (simp_all add: init_key_state_def KeyboardLayout_British_def British_Shift_def chr_def Let_def)
qed

definition letters :: "nat list" where
  "letters = [0x10 ..< 0x1A] @ [0x1E ..< 0x27] @ [0x2C ..< 0x33]"

text \<open>Where the printable ASCII characters are: the key, plus 100 for the table with shift.\<close>

definition positions :: "nat list" where
  "positions = [57, 102, 103, 43, 105, 106, 108, 40, 110, 111, 55, 78, 51, 12, 52, 53, 11, 2, 3,
     4, 5, 6, 7, 8, 9, 10, 139, 39, 151, 13, 152, 153, 140, 130, 148, 146, 132, 118,
     133, 134, 135, 123, 136, 137, 138, 150, 149, 124, 125, 116, 119, 131, 120, 122, 147, 117, 145,
     121, 144, 26, 86, 27, 107, 112, 41, 30, 48, 46, 32, 18, 33, 34, 35, 23, 36, 37,
     38, 50, 49, 24, 25, 16, 19, 31, 20, 22, 47, 17, 45, 21, 44, 126, 186, 127, 143]"

lemma found_at:
  assumes "map (\<lambda>c. Some (f c)) xs = map g ps" and "\<And>p. p \<in> set ps \<Longrightarrow> g p \<in> A \<union> {None}"
  shows "list_all (\<lambda>c. Some (f c) \<in> A) xs"
proof -
  have "set (map (\<lambda>c. Some (f c)) xs) \<subseteq> A \<union> {None}"
    unfolding assms(1) using assms(2) by auto
  then show ?thesis
    by (auto simp: list_all_iff)
qed

text \<open>
  The British layout is complete and consistent: every table has an entry for every
  standard scan code, every printable ASCII character can be typed alone or with shift, and
  every letter key types a lower case letter alone and the same letter in upper case with
  shift.
\<close>

theorem British_layout_complete:
  "length British_Standard = 0x59 \<and> length British_Shift = 0x59 \<and> length British_AltGr = 0x59
    \<and> length British_ShiftAltGr = 0x59
    \<and> list_all (\<lambda>c. Some [of_nat c] \<in> set British_Standard \<union> set British_Shift) [0x20 ..< 0x7F]
    \<and> list_all (\<lambda>k. \<exists>c \<in> {0x61 .. 0x7A}. British_Standard ! k = Some [c] \<and> British_Shift ! k = Some [c - 0x20]) letters"
proof -
  have len: "length British_Standard = 0x59" "length British_Shift = 0x59" "length British_AltGr = 0x59"
    "length British_ShiftAltGr = 0x59"
    by (simp_all add: British_Standard_def British_Shift_def British_AltGr_def British_ShiftAltGr_def)
  have at: "map (\<lambda>c. Some [of_nat c]) [0x20 ..< 0x7F] = map ((!) (British_Standard @ replicate 11 None @ British_Shift)) positions"
    by (simp add: positions_def nth_append len) (simp add: British_Standard_def British_Shift_def chr_def)
  have "p < 189" if "p \<in> set positions" for p
    using that by (auto simp: positions_def)
  then have "(British_Standard @ replicate 11 None @ British_Shift) ! p \<in> set British_Standard \<union> set British_Shift \<union> {None}" if "p \<in> set positions" for p
    using that nth_mem [of p "British_Standard @ replicate 11 None @ British_Shift"] by (auto simp: len)
  with at have typed: "list_all (\<lambda>c. Some [of_nat c] \<in> set British_Standard \<union> set British_Shift) [0x20 ..< 0x7F]"
    by (rule found_at)
  have "list_all (\<lambda>k. case British_Standard ! k of
      Some [c] \<Rightarrow> 0x61 \<le> c \<and> c \<le> 0x7A \<and> British_Shift ! k = Some [c - 0x20] | _ \<Rightarrow> False) letters"
    by (simp add: letters_def British_Standard_def British_Shift_def chr_def none_def)
  then have "list_all (\<lambda>k. \<exists>c \<in> {0x61 .. 0x7A}. British_Standard ! k = Some [c] \<and> British_Shift ! k = Some [c - 0x20]) letters"
    by (rule list.pred_mono_strong) (auto split: option.splits list.splits)
  with len typed show ?thesis by blast
qed

end
