(* ===== verification/Base45.thy ===== *)
theory Base45
  imports CStrings
begin

text \<open>
  The crash dump encoder: \<^verbatim>\<open>src/kernel/utilities/base45.cpp\<close> and the buffers of
  \<^verbatim>\<open>src/kernel/utilities/qrdump.cpp\<close>.  Buffers are lists, so that a write past their end is a
  fault; sums of source bytes are 32 bit words as in the code.  The compression by zlib and
  the drawing of the QR code are not part of the kernel: the compressed bytes are an argument
  and the text that is drawn is the result.
\<close>

section \<open>The encoder\<close>

datatype BASE45_STATUS =
    BASE45_OK
  | BASE45_INVALID_LENGTH
  | BASE45_INVALID_CHAR
  | BASE45_INVALID_VALUE
  | BASE45_MEMORY_ERROR

fun status_code :: "BASE45_STATUS \<Rightarrow> int" where
  "status_code BASE45_OK = 0"
| "status_code BASE45_INVALID_LENGTH = 1"
| "status_code BASE45_INVALID_CHAR = 2"
| "status_code BASE45_INVALID_VALUE = 3"
| "status_code BASE45_MEMORY_ERROR = 4"

definition charset :: "u8 list" where
  "charset = map char_code ''0123456789ABCDEFGHIJKLMNOPQRSTUVWXYZ $%*+-./:''"

fun powInt :: "u32 \<Rightarrow> nat \<Rightarrow> u32" where
  "powInt base 0 = 1"
| "powInt base (Suc e) = powInt base e * base"

text \<open>
  \<^verbatim>\<open>encode\<close> works on the part of the destination from \<^verbatim>\<open>d\<close> on and on \<^verbatim>\<open>size\<close> bytes of the
  source from \<^verbatim>\<open>s\<close> on.
\<close>

function sum_loop :: "u8 list \<Rightarrow> nat \<Rightarrow> nat \<Rightarrow> nat \<Rightarrow> u32 \<Rightarrow> fault + u32" where
  "sum_loop src s sz i acc =
     (if i < sz then
        ok_bind (array_get src (s + (sz - i - 1))) (\<lambda>c.
          sum_loop src s sz (Suc i) (acc + ucast c * powInt 256 i))
      else Inr acc)"
  by pat_completeness auto
termination
  by (relation "measure (\<lambda>(src, s, sz, i, acc). sz - i)") auto

declare sum_loop.simps [simp del]

function digits_loop :: "u8 list \<Rightarrow> nat \<Rightarrow> nat \<Rightarrow> u32 \<Rightarrow> fault + u8 list \<times> nat" where
  "digits_loop dst d i acc =
     (if acc > 0 then
        ok_bind (array_get charset (unat (acc mod 45))) (\<lambda>ch.
        ok_bind (array_set dst (d + i) ch) (\<lambda>dst.
          digits_loop dst d (Suc i) (acc div 45)))
      else Inr (dst, i))"
  by pat_completeness auto
termination
  by (relation "measure (\<lambda>(dst, d, i, acc). unat acc)")
    (auto simp: unat_div word_greater_zero_iff unat_gt_0)

declare digits_loop.simps [simp del]

definition encode :: "u8 list \<Rightarrow> nat \<Rightarrow> u8 list \<Rightarrow> nat \<Rightarrow> nat \<Rightarrow> fault + BASE45_STATUS \<times> u8 list \<times> nat" where
  "encode dst d src s sz =
     ok_bind (sum_loop src s sz 0 0) (\<lambda>acc.
     ok_bind (digits_loop dst d 0 acc) (\<lambda>(dst, written). Inr (BASE45_OK, dst, written)))"

function pad_loop :: "u8 list \<Rightarrow> nat \<Rightarrow> nat \<Rightarrow> nat \<Rightarrow> fault + u8 list \<times> nat" where
  "pad_loop dst offset sz written =
     (if written < sz + 1 then
        ok_bind (array_set dst (offset + written) (charset ! 0)) (\<lambda>dst.
          pad_loop dst offset sz (Suc written))
      else Inr (dst, written))"
  by pat_completeness auto
termination
  by (relation "measure (\<lambda>(dst, offset, sz, written). sz + 1 - written)") auto

declare pad_loop.simps [simp del]

text \<open>The loop of \<^verbatim>\<open>Base45_encode\<close>; the result is the status and the destination.\<close>

function encode_loop :: "u8 list \<Rightarrow> u8 list \<Rightarrow> nat \<Rightarrow> nat \<Rightarrow> nat \<Rightarrow> fault + BASE45_STATUS \<times> u8 list" where
  "encode_loop dest input len i offset =
     (if i < len then
        let sz = (if len - i > 1 then 2 else 1) in
        ok_bind (encode dest offset input i sz) (\<lambda>(status, dest, written).
        if status \<noteq> BASE45_OK then Inr (status, dest)
        else
          ok_bind (pad_loop dest offset sz written) (\<lambda>(dest, written).
            encode_loop dest input len (i + sz) (offset + written)))
      else Inr (BASE45_OK, dest))"
  by pat_completeness auto
termination
  by (relation "measure (\<lambda>(dest, input, len, i, offset). len - i)") (auto split: if_splits)

declare encode_loop.simps [simp del]

text \<open>The result is the returned \<^verbatim>\<open>int\<close> and the destination.\<close>

definition Base45_encode :: "u8 list \<Rightarrow> u64 \<Rightarrow> u8 list \<Rightarrow> u64 \<Rightarrow> fault + int \<times> u8 list" where
  "Base45_encode dest dest_length input len =
     (let required = len div 2 * 3 + len mod 2 * 2 + 1 in
      if dest_length < required then Inr (- status_code BASE45_MEMORY_ERROR, dest)
      else
        ok_bind (encode_loop dest input (unat len) 0 0) (\<lambda>(status, dest).
        if status \<noteq> BASE45_OK then Inr (- status_code status, dest)
        else Inr (sint (ucast (required - 1) :: 32 word), dest)))"

section \<open>The dump\<close>

definition MaxEncodedSize :: u64 where "MaxEncodedSize = 10000"

text \<open>
  \<^verbatim>\<open>QRDump\<close> and \<^verbatim>\<open>QRDumpBytes\<close> from the compressed bytes to the text they draw; \<^verbatim>\<open>encoded\<close> is
  the content of the uninitialised local array.  A negative status is used as an index.
\<close>

definition QRDump :: "u8 list \<Rightarrow> u8 list \<Rightarrow> fault + u8 list" where
  "QRDump encoded output =
     ok_bind (Base45_encode encoded MaxEncodedSize output (of_nat (length output))) (\<lambda>(written, encoded).
     ok_bind (if written < 0 then Inl OutOfBounds else array_set encoded (nat written) 0) (\<lambda>encoded.
     Inr (takeWhile (\<lambda>c. c \<noteq> 0) encoded)))"

text \<open>
  The allocator that zlib is given: a bump allocator in a buffer of 512 KiB, which a call to
  free resets as a whole.  The state is the offset of the next allocation.
\<close>

definition QRZlibAlloc :: "u32 \<Rightarrow> u32 \<Rightarrow> u64 \<Rightarrow> u64 \<times> u64" where
  "QRZlibAlloc items sz ptr = (ptr, ptr + ucast (items * sz))"

definition QRZlibFree :: "u64 \<Rightarrow> u64" where
  "QRZlibFree ptr = 0"

section \<open>Decoding\<close>

text \<open>
  The reference decoder: groups of three characters, least significant first, stand for two
  bytes, a last group of two characters for one byte.
\<close>

definition char_value :: "u8 \<Rightarrow> nat" where
  "char_value c = length (takeWhile (\<lambda>x. x \<noteq> c) charset)"

fun decode :: "u8 list \<Rightarrow> u8 list" where
  "decode (a # b # c # cs) =
     (let n = char_value a + 45 * char_value b + 2025 * char_value c
      in of_nat (n div 256) # of_nat (n mod 256) # decode cs)"
| "decode [a, b] = [of_nat (char_value a + 45 * char_value b)]"
| "decode _ = []"

text \<open>What the encoder writes, group by group.\<close>

definition char_group :: "nat \<Rightarrow> nat \<Rightarrow> u8 list" where
  "char_group k n = map (\<lambda>i. charset ! (n div 45 ^ i mod 45)) [0 ..< k]"

fun groups :: "u8 list \<Rightarrow> u8 list" where
  "groups (a # b # bs) = char_group 3 (unat a * 256 + unat b) @ groups bs"
| "groups [a] = char_group 2 (unat a)"
| "groups [] = []"

end
