(* ===== verification/Base45Correct.thy ===== *)
theory Base45Correct
  imports Base45
begin

text \<open>
  What the Base45 encoder writes: exactly the character groups of its input, which the
  reference decoder turns back into the input, inside the buffer and nowhere else.
\<close>

section \<open>Characters\<close>

lemma charset_values: "list_all (\<lambda>k. char_value (charset ! k) = k \<and> charset ! k \<noteq> 0) [0 ..< 45]"
  by (simp add: charset_def char_value_def char_code_def upt_conv_Cons)

lemma char_value_charset [simp]: "k < 45 \<Longrightarrow> char_value (charset ! k) = k"
  and charset_nonzero: "k < 45 \<Longrightarrow> charset ! k \<noteq> 0"
  using charset_values by (auto simp: list_all_iff)

lemma length_charset [simp]: "length charset = 45"
  by (simp add: charset_def)

lemma char_group_3: "char_group 3 n = [charset ! (n mod 45), charset ! (n div 45 mod 45), charset ! (n div 2025 mod 45)]"
  by (simp add: char_group_def upt_rec numeral_3_eq_3 power2_eq_square)

lemma char_group_2: "char_group 2 n = [charset ! (n mod 45), charset ! (n div 45 mod 45)]"
  by (simp add: char_group_def upt_rec numeral_2_eq_2)

lemma digits_of: "n < 91125 \<Longrightarrow> n mod 45 + 45 * (n div 45 mod 45) + 2025 * (n div 2025 mod 45) = (n :: nat)"
proof -
  assume "n < 91125"
  then have "n div 45 div 45 < 45"
    by (simp add: div_less_iff_less_mult)
  then have "n div 2025 mod 45 = n div 45 div 45"
    by (simp flip: div_mult2_eq)
  moreover have "45 * (n div 45) + n mod 45 = n" "45 * (n div 45 div 45) + n div 45 mod 45 = n div 45"
    by (rule mult_div_mod_eq)+
  ultimately show ?thesis by linarith
qed

lemma unat_byte: "unat (a :: u8) < 256"
  using unat_less_pow2 [of a] by simp

lemma unat_ucast_byte [simp]: "unat (ucast (a :: u8) :: u32) = unat a"
  using unat_byte [of a] by (simp add: unsigned_ucast_eq take_bit_nat_eq_self)

theorem decode_groups [simp]: "decode (groups xs) = xs"
proof (induction xs rule: groups.induct)
  case (1 a b bs)
  let ?n = "unat a * 256 + unat b"
  have "?n < 65536"
    using unat_byte [of a] unat_byte [of b] by linarith
  moreover have "?n div 256 = unat a" "?n mod 256 = unat b"
    using unat_byte [of b] by simp_all
  ultimately show ?case
    using 1 digits_of [of ?n] by (simp add: char_group_3 Let_def)
next
  case (2 a)
  have "unat a mod 45 + 45 * (unat a div 45 mod 45) = unat a"
    using unat_byte [of a] by (simp add: div_less_iff_less_mult)
  then show ?case
    by (simp add: char_group_2)
qed simp

lemma length_groups: "length (groups xs) = length xs div 2 * 3 + length xs mod 2 * 2"
  by (induction xs rule: groups.induct) (auto simp: char_group_def)

lemma set_groups: "set (groups xs) \<subseteq> set charset"
  by (induction xs rule: groups.induct) (auto simp: char_group_def)

section \<open>The loops\<close>

lemma sum_two:
  assumes "s + 1 < length src"
  shows "sum_loop src s 2 0 0 = Inr (of_nat (unat (src ! s) * 256 + unat (src ! (s + 1))))"
  using assms
  by (subst sum_loop.simps, subst sum_loop.simps, subst sum_loop.simps)
    (simp add: add.commute mult.commute)

lemma sum_one:
  assumes "s < length src"
  shows "sum_loop src s 1 0 0 = Inr (of_nat (unat (src ! s)))"
  using assms by (subst sum_loop.simps, subst sum_loop.simps) simp

lemma pad_loop_zero:
  assumes "w \<le> Suc sz" and "d + Suc sz \<le> length dst"
  shows "pad_loop dst d sz w = Inr (take (d + w) dst @ replicate (Suc sz - w) (charset ! 0) @ drop (d + Suc sz) dst, Suc sz)"
  using assms
proof (induction "Suc sz - w" arbitrary: dst w)
  case 0
  then show ?case by (subst pad_loop.simps) simp
next
  case (Suc x)
  have "take (Suc (d + w)) (dst[d + w := charset ! 0]) = take (d + w) dst @ [charset ! 0]"
    using Suc.prems Suc.hyps(2) by (simp add: take_Suc_nth)
  moreover have "pad_loop (dst[d + w := charset ! 0]) d sz (Suc w)
      = Inr (take (d + Suc w) (dst[d + w := charset ! 0]) @ replicate (Suc sz - Suc w) (charset ! 0)
          @ drop (d + Suc sz) (dst[d + w := charset ! 0]), Suc sz)"
    using Suc by (intro Suc.hyps(1)) auto
  moreover have "Suc sz - w = Suc (Suc sz - Suc w)"
    using Suc.hyps(2) by simp
  ultimately show ?case
    using Suc.prems Suc.hyps(2) by (subst pad_loop.simps) simp
qed

lemma digits_then_pad:
  assumes "i \<le> Suc sz" and "unat acc < 45 ^ (Suc sz - i)" and "d + Suc sz \<le> length dst"
  shows "ok_bind (digits_loop dst d i acc) (\<lambda>(dst, w). pad_loop dst d sz w)
    = Inr (take (d + i) dst @ char_group (Suc sz - i) (unat acc) @ drop (d + Suc sz) dst, Suc sz)"
  using assms
proof (induction "Suc sz - i" arbitrary: dst i acc)
  case 0
  then show ?case
    by (subst digits_loop.simps) (simp add: pad_loop_zero char_group_def unat_eq_zero)
next
  case (Suc x)
  show ?case
  proof (cases "acc = 0")
    case True
    then show ?thesis
      using Suc.prems by (subst digits_loop.simps) (simp add: pad_loop_zero char_group_def map_replicate_const)
  next
    case False
    let ?c = "charset ! (unat acc mod 45)" and ?dst = "dst[d + i := charset ! (unat acc mod 45)]"
    have "unat (acc div 45) < 45 ^ (Suc sz - Suc i)"
      using Suc.prems(2) Suc.hyps(2) by (simp add: unat_div less_mult_imp_div_less mult.commute Suc_diff_le flip: power_Suc)
    then have "ok_bind (digits_loop ?dst d (Suc i) (acc div 45)) (\<lambda>(dst, w). pad_loop dst d sz w)
      = Inr (take (d + Suc i) ?dst @ char_group (Suc sz - Suc i) (unat (acc div 45)) @ drop (d + Suc sz) ?dst, Suc sz)"
      using Suc.prems Suc.hyps(2) by (intro Suc.hyps(1)) auto
    moreover have "take (Suc (d + i)) ?dst = take (d + i) dst @ [?c]"
      using Suc.prems Suc.hyps(2) by (simp add: take_Suc_nth)
    moreover have "char_group (Suc sz - i) (unat acc) = ?c # char_group (Suc sz - Suc i) (unat (acc div 45))"
    proof -
      have "Suc sz - i = Suc (Suc sz - Suc i)"
        using Suc.hyps(2) by simp
      then show ?thesis
        by (simp add: char_group_def upt_conv_Cons unat_div div_mult2_eq flip: map_Suc_upt del: upt_Suc)
    qed
    moreover have "unat (acc mod 45) = unat acc mod 45"
      by (simp add: unat_mod)
    ultimately show ?thesis
      using False Suc.prems Suc.hyps(2) by (subst digits_loop.simps) (simp add: word_greater_zero_iff)
  qed
qed

lemma encode_loop_groups:
  assumes "i \<le> len" and "len \<le> length input"
    and "offset + length (groups (take (len - i) (drop i input))) \<le> length dest"
  shows "encode_loop dest input len i offset =
    (let gs = groups (take (len - i) (drop i input)) in
     Inr (BASE45_OK, take offset dest @ gs @ drop (offset + length gs) dest))"
  using assms
proof (induction "len - i" arbitrary: dest i offset rule: less_induct)
  case less
  consider "i = len" | "len - i = 1" | "1 < len - i"
    using less.prems(1) by linarith
  then show ?case
  proof cases
    case 1
    then show ?thesis by (subst encode_loop.simps) simp
  next
    case 2
    then have i: "i < length input" "len = Suc i"
      using less.prems by auto
    then have part: "take (len - i) (drop i input) = [input ! i]"
      by (simp add: take_Suc hd_drop_conv_nth)
    then have "ok_bind (digits_loop dest offset 0 (of_nat (unat (input ! i)))) (\<lambda>(dst, w). pad_loop dst offset 1 w)
      = Inr (take offset dest @ char_group 2 (unat (input ! i)) @ drop (offset + 2) dest, 2)"
      using digits_then_pad [of 0 1 "of_nat (unat (input ! i))" offset dest] less.prems unat_byte [of "input ! i"]
      by (simp add: char_group_def numeral_2_eq_2)
    then obtain dst w where dp: "digits_loop dest offset 0 (of_nat (unat (input ! i))) = Inr (dst, w)"
      "pad_loop dst offset 1 w = Inr (take offset dest @ char_group 2 (unat (input ! i)) @ drop (offset + 2) dest, 2)"
      by (auto simp: ok_bind_eq_Inr)
    have "encode_loop d input len (Suc i) k = Inr (BASE45_OK, d)" for d k
      using i by (subst encode_loop.simps) simp
    then show ?thesis
      using i dp part sum_one [of i input]
      by (subst encode_loop.simps) (simp add: encode_def char_group_def)
  next
    case 3
    then have i: "Suc i < length input" "i < len"
      using less.prems by auto
    let ?n = "unat (input ! i) * 256 + unat (input ! Suc i)" and ?rest = "take (len - Suc (Suc i)) (drop (Suc (Suc i)) input)"
    have part: "take (len - i) (drop i input) = input ! i # input ! Suc i # ?rest"
    proof -
      have "len - i = Suc (Suc (len - Suc (Suc i)))"
        using 3 by simp
      then show ?thesis
        using i by (simp add: take_Suc_Cons flip: Cons_nth_drop_Suc)
    qed
    have n: "?n < 65536"
      using unat_byte [of "input ! i"] unat_byte [of "input ! Suc i"] by linarith
    let ?dest = "take offset dest @ char_group 3 ?n @ drop (offset + 3) dest"
    have "ok_bind (digits_loop dest offset 0 (of_nat ?n)) (\<lambda>(dst, w). pad_loop dst offset 2 w) = Inr (?dest, 3)"
      using digits_then_pad [of 0 2 "of_nat ?n" offset dest] less.prems n part
      by (simp add: char_group_def unat_of_nat numeral_3_eq_3 del: of_nat_add of_nat_mult)
    then obtain dst w where dp: "digits_loop dest offset 0 (of_nat ?n) = Inr (dst, w)" "pad_loop dst offset 2 w = Inr (?dest, 3)"
      by (auto simp: ok_bind_eq_Inr simp del: of_nat_add of_nat_mult)
    have step: "encode_loop dest input len i offset = encode_loop ?dest input len (Suc (Suc i)) (offset + 3)"
      using 3 i dp sum_two [of i input]
      by (subst encode_loop.simps) (simp add: encode_def del: of_nat_add of_nat_mult)
    have "length (char_group 3 ?n) = 3" "length dest \<ge> offset + 3 + length (groups ?rest)"
      using less.prems(3) part by (auto simp: char_group_def)
    then have "encode_loop ?dest input len (Suc (Suc i)) (offset + 3)
      = Inr (BASE45_OK, take (offset + 3) ?dest @ groups ?rest @ drop (offset + 3 + length (groups ?rest)) ?dest)"
      using less.hyps [of "Suc (Suc i)" "offset + 3" ?dest] 3 less.prems by (simp add: Let_def)
    then show ?thesis
      using step part \<open>length (char_group 3 ?n) = 3\<close> \<open>length dest \<ge> offset + 3 + length (groups ?rest)\<close>
      by (simp add: Let_def ac_simps)
  qed
qed

section \<open>The encoder\<close>

lemma required_size:
  assumes "n < 2 ^ 60"
  shows "unat (of_nat n div 2 * 3 + of_nat n mod 2 * 2 + 1 :: u64) = n div 2 * 3 + n mod 2 * 2 + 1"
proof -
  have halves: "of_nat n div 2 = (of_nat (n div 2) :: u64)" "of_nat n mod 2 = (of_nat (n mod 2) :: u64)"
    using assms by (simp_all add: word_unat_eq_iff unat_div unat_mod unat_of_nat)
  have "of_nat n div 2 * 3 + of_nat n mod 2 * 2 + 1 = (of_nat (n div 2 * 3 + n mod 2 * 2 + 1) :: u64)"
    using assms by (simp add: halves)
  then show ?thesis
    using assms by (simp only:) (simp add: unat_of_nat del: of_nat_add of_nat_mult of_nat_Suc)
qed

lemma sint_of_nat_u32: "n < 2 ^ 31 \<Longrightarrow> sint (of_nat n :: u32) = int n"
  by (simp add: signed_of_nat signed_take_bit_int_eq_self)

lemma required_word:
  fixes len :: u64
  assumes "unat len < 2 ^ 60" and "length xs = unat len"
  shows "unat (len div 2 * 3 + len mod 2 * 2 + 1) = length (groups xs) + 1"
  using required_size [OF assms(1)] assms(2) by (simp add: length_groups)

lemma Base45_encode_ok:
  assumes "length input = unat len" and "unat len < 2 ^ 30"
    and "length (groups input) < unat dest_length" and "unat dest_length \<le> length dest"
  shows "Base45_encode dest dest_length input len
    = Inr (int (length (groups input)), groups input @ drop (length (groups input)) dest)"
proof -
  let ?r = "len div 2 * 3 + len mod 2 * 2 + 1"
  have r: "unat ?r = length (groups input) + 1"
    using assms required_word [of len input] by simp
  then have "unat (?r - 1) = length (groups input)"
    by (subst unat_sub_le) (auto simp: word_le_nat_alt)
  moreover have "length (groups input) < 2 ^ 31"
    using assms by (simp add: length_groups)
  ultimately have "sint (ucast (?r - 1) :: 32 word) = int (length (groups input))"
    by (metis sint_of_nat_u32 of_nat_unat)
  moreover have "\<not> dest_length < ?r"
    using assms r by (simp add: word_less_nat_alt)
  ultimately show ?thesis
    using assms encode_loop_groups [of 0 "unat len" input 0 dest]
    by (simp add: Base45_encode_def Let_def)
qed

lemma Base45_encode_result:
  assumes "length input = unat len" and "unat len < 2 ^ 30" and "unat dest_length \<le> length dest"
  shows "Base45_encode dest dest_length input len =
      (if length (groups input) < unat dest_length
       then Inr (int (length (groups input)), groups input @ drop (length (groups input)) dest)
       else Inr (- 4, dest))"
proof -
  have "unat (len div 2 * 3 + len mod 2 * 2 + 1) = length (groups input) + 1"
    using assms required_word [of len input] by simp
  then show ?thesis
    using assms Base45_encode_ok [of input len dest_length dest]
    by (auto simp: Base45_encode_def word_less_nat_alt)
qed

text \<open>
  C14: for every input the encoder returns the length of its text, the text decodes to the
  input and consists of the 45 characters, and nothing but the text is written; if the buffer
  has no room for the text and a terminator it is left alone and the error is returned.
\<close>

theorem Base45_encode_roundtrip:
  assumes "length input = unat len" and "unat len < 2 ^ 30" and "unat dest_length \<le> length dest"
  shows "\<exists>text. decode text = input \<and> set text \<subseteq> set charset
    \<and> length text = unat len div 2 * 3 + unat len mod 2 * 2
    \<and> Base45_encode dest dest_length input len =
        (if length text < unat dest_length
         then Inr (int (length text), text @ drop (length text) dest)
         else Inr (- 4, dest))"
  using assms Base45_encode_result [OF assms] set_groups [of input]
  by (intro exI [of _ "groups input"]) (simp add: length_groups)

theorem Base45_encode_roundtrip_witness:
  "\<exists>text. decode text = [65, 66, 0] \<and> Base45_encode (replicate 6 0) 6 [65, 66, 0] 3 = Inr (5, text @ [0])"
  using Base45_encode_roundtrip [of "[65, 66, 0]" 3 6 "replicate 6 0"] by auto

lemma groups_nonzero: "0 \<notin> set (groups xs)"
proof -
  have "0 \<notin> set charset"
    using charset_nonzero by (metis in_set_conv_nth length_charset)
  then show ?thesis
    using set_groups [of xs] by blast
qed

lemma takeWhile_groups: "takeWhile (\<lambda>c. c \<noteq> 0) (groups xs @ 0 # rest) = groups xs"
  using groups_nonzero [of xs] by (simp add: takeWhile_append)

text \<open>
  The text of a dump decodes to the compressed data as long as these have at most 6666
  bytes; for more, up to the 10000 bytes of the compression buffer, the status is used as an
  index in front of the array.
\<close>

theorem QRDump_correct:
  assumes "length encoded = 10000" and "length output \<le> 10000"
  shows "if length output \<le> 6666 then \<exists>text. QRDump encoded output = Inr text \<and> decode text = output
    else QRDump encoded output = Inl OutOfBounds"
proof -
  let ?n = "length (groups output)"
  have "?n < 10000 \<longleftrightarrow> length output \<le> 6666"
    by (cases "even (length output)") (auto simp: length_groups elim!: evenE oddE)
  moreover have "Base45_encode encoded MaxEncodedSize output (of_nat (length output)) =
      (if ?n < 10000 then Inr (int ?n, groups output @ drop ?n encoded) else Inr (- 4, encoded))"
    using Base45_encode_result [of "output" "of_nat (length output)" MaxEncodedSize encoded] assms
    by (simp add: MaxEncodedSize_def unat_of_nat)
  ultimately show ?thesis
    using assms by (auto simp: QRDump_def list_update_append takeWhile_groups simp flip: Cons_nth_drop_Suc)
qed

theorem QRDump_correct_witness:
  "(\<exists>text. QRDump (replicate 10000 1) [1, 2, 3] = Inr text \<and> decode text = [1, 2, 3])
    \<and> QRDump (replicate 10000 1) (replicate 7000 0) = Inl OutOfBounds"
  using QRDump_correct [of "replicate 10000 1" "[1, 2, 3]"]
    QRDump_correct [of "replicate 10000 1" "replicate 7000 0"] by simp

end
