(* ===== verification/Machine.thy ===== *)
theory Machine
  imports DeviceVolumes MemoryOps
begin

text \<open>
  The state that programs and the kernel share: the memory as the running code sees it, by
  virtual address, the drivers with the page tables, the mount table, the loaded binaries, the
  processes, and the static variables of the system calls.
  Structures that only the kernel holds a pointer to are kept by the address that \<^verbatim>\<open>rpmalloc\<close>
  gave them; reading one that was freed is a fault.  \<^verbatim>\<open>rpmalloc\<close> is not part of the kernel: the
  addresses it returns are arguments.  Fresh pages hold whatever the memory held at their
  address.  The records follow \<^verbatim>\<open>inc/kernel/process/process.h\<close> and \<^verbatim>\<open>inc/kernel/init/tls.h\<close>.
\<close>

section \<open>Structures\<close>

record TLSAllocation =
  TlsMemory :: u64
  TlsSize :: u64
  FSBase :: u64

record ElfBinary =
  Name :: wstr
  InterpreterName :: wstr
  BaseAddress :: u64
  AllocatedSize :: u64
  TextSection :: u64
  Entry :: u64
  RefCount :: u64
  InterpreterFileHandle :: u64
  TLSDataStart :: u64
  TLSDataSize :: u64
  TBSSSize :: u64
  TLSAlign :: u16
  SymbolCount :: u64
  Symbols :: "(cstr \<times> u64) list"
  ProgramHeaders :: u64
  ProgramHeaderCount :: u32
  ProgramHeaderEntrySize :: u32
  ProgramBreakLow :: u64
  ProgramBreakHigh :: u64

text \<open>
  The exported symbols are pairs of a name and an address; their string table, which nothing
  fills, is left out.  \<^verbatim>\<open>Binary\<close> and \<^verbatim>\<open>SubBinary\<close> are pointers, 0 for null.\<close>

record Process =
  DefaultThreadStackStart :: u64
  DefaultThreadStackBase :: u64
  DefaultThreadStackSize :: u64
  argv :: u64
  envp :: u64
  Binary :: u64
  SubBinary :: u64
  TLS :: TLSAllocation
  ProgramBreak :: u64

record machine =
  Ram :: memory
  World :: drivers
  Mounts :: "drivers volumes"
  Binaries :: "u64 \<Rightarrow> ElfBinary option"
  GELFBinaries :: "u64 list"
  GELFBinaryCount :: nat
  GKernelEnvironment :: u64
  GUserEnvironment :: u64
  MSRs :: "u32 \<Rightarrow> u64"
  Processes :: "u64 \<Rightarrow> Process option"
  GCurrentProcess :: u64
  inodeTemp :: u32
  start_tsc :: u64
  curr_tsc :: u64

section \<open>Access to memory and objects\<close>

definition load_word :: "nat \<Rightarrow> memory \<Rightarrow> u64 \<Rightarrow> u64" where
  "load_word n m a = foldr (\<lambda>i v. push_bit (8 * i) (ucast (m (a + of_nat i))) OR v) [0 ..< n] 0"

definition load16 :: "memory \<Rightarrow> u64 \<Rightarrow> u16" where
  "load16 m a = ucast (load_word 2 m a)"

definition load32 :: "memory \<Rightarrow> u64 \<Rightarrow> u32" where
  "load32 m a = ucast (load_word 4 m a)"

text \<open>A null or dangling pointer to a binary.\<close>

definition get_binary :: "u64 \<Rightarrow> machine \<Rightarrow> fault + ElfBinary" where
  "get_binary p s =
     (if p = 0 then Inl NullPointer
      else case Binaries s p of None \<Rightarrow> Inl Uninitialised | Some b \<Rightarrow> Inr b)"

definition set_binary :: "u64 \<Rightarrow> ElfBinary \<Rightarrow> machine \<Rightarrow> machine" where
  "set_binary p b s = s\<lparr>Binaries := (Binaries s)(p \<mapsto> b)\<rparr>"

definition get_process :: "u64 \<Rightarrow> machine \<Rightarrow> fault + Process" where
  "get_process p s =
     (if p = 0 then Inl NullPointer
      else case Processes s p of None \<Rightarrow> Inl Uninitialised | Some q \<Rightarrow> Inr q)"

definition set_process :: "u64 \<Rightarrow> Process \<Rightarrow> machine \<Rightarrow> machine" where
  "set_process p q s = s\<lparr>Processes := (Processes s)(p \<mapsto> q)\<rparr>"

section \<open>Pages\<close>

text \<open>
  \<^verbatim>\<open>VirtualAlloc\<close> with its store of a zero, and \<^verbatim>\<open>VirtualFree\<close>, on the whole state.
\<close>

definition alloc_pages :: "page_source \<Rightarrow> u64 \<Rightarrow> PrivilegeLevel \<Rightarrow> machine \<Rightarrow> fault + u64 \<times> machine" where
  "alloc_pages get n level s =
     ok_bind (VirtualAlloc get n level PageFlags_None (Memory (World s))) (\<lambda>(a, p).
       Inr (a, s\<lparr>World := (World s)\<lparr>Memory := p\<rparr>, Ram := if a = 0 then Ram s else store64 (Ram s) a 0\<rparr>))"

definition free_pages :: "page_source \<Rightarrow> u64 \<Rightarrow> u64 \<Rightarrow> machine \<Rightarrow> fault + machine" where
  "free_pages get a n s =
     ok_bind (VirtualFree get a n (Memory (World s))) (\<lambda>(ok, p).
       Inr (s\<lparr>World := (World s)\<lparr>Memory := p\<rparr>\<rparr>))"

definition AlignSize :: "u64 \<Rightarrow> u64 \<Rightarrow> u64" where
  "AlignSize value alignment = (value + (alignment - 1)) AND NOT (alignment - 1)"

lemma word_and_not_mask:
  fixes x :: "'a::len word"
  shows "unat (x AND NOT (mask k)) = unat x div 2 ^ k * 2 ^ k"
proof -
  have "x AND NOT (mask k) = push_bit k (drop_bit k x)"
    by (rule bit_word_eqI) (auto simp: bit_simps)
  then have "unat (x AND NOT (mask k)) = take_bit LENGTH('a) (unat x div 2 ^ k * 2 ^ k)"
    by (simp only: unsigned_push_bit_eq unsigned_drop_bit_eq) (simp add: push_bit_eq_mult drop_bit_eq_div take_bit_nat_eq_self)
  moreover have "unat x div 2 ^ k * 2 ^ k < 2 ^ LENGTH('a)"
    using unat_less_pow2 [of x] by (meson div_times_less_eq_dividend le_less_trans)
  ultimately show ?thesis
    by (simp add: take_bit_nat_eq_self)
qed

definition round_up :: "nat \<Rightarrow> nat \<Rightarrow> nat" where
  "round_up n k = (n + k - 1) div k * k"

lemma AlignSize_unat:
  assumes "k < 64" and "unat v + 2 ^ k \<le> 2 ^ 64"
  shows "unat (AlignSize v (2 ^ k)) = round_up (unat v) (2 ^ k)"
proof -
  have m: "2 ^ k - 1 = (mask k :: u64)"
    by (simp add: mask_eq_exp_minus_1)
  have "unat (mask k :: u64) = 2 ^ k - 1"
  proof -
    have "(2 :: nat) ^ k \<le> 2 ^ 64"
      using assms(1) by (intro power_increasing) auto
    then have "unat (of_nat (mask k) :: u64) = 2 ^ k - 1"
      by (subst unat_of_nat_64) (auto simp: mask_eq_exp_minus_1)
    then show ?thesis
      by (simp only: of_nat_mask_eq)
  qed
  then have "unat (v + mask k) = unat v + (2 ^ k - 1)"
    using assms by (subst unat_add_no_wrap) auto
  then show ?thesis
    unfolding AlignSize_def m by (simp add: word_and_not_mask round_up_def)
qed

lemma round_up_bounds: "0 < k \<Longrightarrow> n \<le> round_up n k \<and> round_up n k < n + k \<and> k dvd round_up n k"
proof -
  assume "0 < k"
  moreover have "(n + k - 1) div k * k + (n + k - 1) mod k = n + k - 1"
    by (rule div_mult_mod_eq)
  moreover have "(n + k - 1) mod k < k"
    using \<open>0 < k\<close> by simp
  ultimately have "n \<le> (n + k - 1) div k * k" "(n + k - 1) div k * k < n + k"
    by linarith+
  then show ?thesis
    by (simp add: round_up_def)
qed

section \<open>Windows\<close>

text \<open>
  A block of memory is read and written through the offsets from its base; the block must not
  wrap around the end of the address space.
\<close>

definition win :: "memory \<Rightarrow> u64 \<Rightarrow> nat \<Rightarrow> u8" where
  "win m base k = m (base + of_nat k)"

definition put :: "(nat \<Rightarrow> u8) \<Rightarrow> nat \<Rightarrow> u8 list \<Rightarrow> nat \<Rightarrow> u8" where
  "put w j bs k = (if j \<le> k \<and> k < j + length bs then bs ! (k - j) else w k)"

lemma offset_diff:
  assumes "j < 2 ^ 64" and "k < 2 ^ 64"
  shows "unat (of_nat k - of_nat j :: u64) = (if j \<le> k then k - j else 2 ^ 64 + k - j)"
proof (cases "j \<le> k")
  case True
  then show ?thesis
    using assms by (simp add: unat_of_nat_64 flip: of_nat_diff)
next
  case False
  then have "of_nat k - of_nat j = (- of_nat (j - k) :: u64)"
    by (simp add: of_nat_diff)
  moreover have "(of_nat (j - k) :: u64) \<noteq> 0"
    using False assms by (metis diff_is_0_eq less_imp_diff_less unat_0 unat_of_nat_64)
  ultimately show ?thesis
    using False assms by (simp add: unat_uminus_64 unat_of_nat_64 del: of_nat_diff)
qed

lemma win_store_bytes:
  assumes "j + length bs \<le> 2 ^ 64" and "k < 2 ^ 64" and "k + 2 ^ 64 \<ge> j + length bs"
  shows "win (store_bytes m (base + of_nat j) bs) base k = put (win m base) j bs k"
proof (cases "bs = []")
  case False
  then have j: "j < 2 ^ 64"
    using assms(1) by (cases bs) auto
  then show ?thesis
    using assms by (auto simp: win_def put_def store_bytes_spec offset_diff)
qed (auto simp: win_def put_def)

lemma win_memset:
  assumes "j + unat n \<le> 2 ^ 64" and "j < 2 ^ 64" and "k < 2 ^ 64"
  shows "win (memset m (base + of_nat j) v n) base k = (if j \<le> k \<and> k < j + unat n then v else win m base k)"
  using assms by (auto simp: win_def memset_def set_loop_spec offset_diff)

lemma memcpy_apart:
  assumes "\<And>i j. i < unat n \<Longrightarrow> j < unat n \<Longrightarrow> src + of_nat i \<noteq> dest + of_nat j"
  shows "memcpy m dest src n = copied m dest src (unat n)"
  unfolding memcpy_def
  using assms less_imp_le [OF unat_less_pow2 [of n]]
  by (subst copy_up_spec) (auto simp: copied_def fun_eq_iff intro: less_trans)

lemma win_copied:
  assumes "j + n \<le> 2 ^ 64" and "j < 2 ^ 64" and "k < 2 ^ 64"
  shows "win (copied m (base + of_nat j) src n) base k
    = (if j \<le> k \<and> k < j + n then m (src + of_nat (k - j)) else win m base k)"
proof -
  have "(base + of_nat k) - (base + of_nat j) = (of_nat k - of_nat j :: u64)"
    by simp
  moreover have "(of_nat k - of_nat j :: u64) = of_nat (k - j)" if "j \<le> k"
    using that by (simp add: of_nat_diff)
  ultimately show ?thesis
    using assms by (auto simp: win_def copied_def offset_diff)
qed

lemma load64_win:
  "load64 m (base + of_nat j) = foldr (\<lambda>i v. push_bit (8 * i) (ucast (win m base (j + i))) OR v) [0 ..< 8] 0"
  unfolding load64_def by (rule foldr_cong) (auto simp: win_def add.assoc)

lemma load64_of_bytes:
  assumes "\<And>i. i < 8 \<Longrightarrow> win m base (j + i) = byte_of v i"
  shows "load64 m (base + of_nat j) = v"
proof -
  have "load64 m (base + of_nat j) = foldr (\<lambda>i w. push_bit (8 * i) (ucast (byte_of v i)) OR w) [0 ..< 8] 0"
    unfolding load64_win by (rule foldr_cong) (auto simp: assms)
  then show ?thesis
    by (simp only: word64_bytes)
qed

lemma word_of_unat: "unat x = n \<Longrightarrow> x = of_nat n" for x :: u64
  by auto

lemma AlignSize_page:
  assumes "n + 4096 \<le> 2 ^ 64"
  shows "AlignSize (of_nat n) PAGE_SIZE = of_nat (round_up n 4096)"
proof -
  have n: "unat (of_nat n :: u64) = n"
    using assms by (intro unat_of_nat_64) simp
  then have "unat (AlignSize (of_nat n) (2 ^ 12)) = round_up n (2 ^ 12)"
    using assms by (subst AlignSize_unat) auto
  moreover have "round_up n 4096 < 2 ^ 64"
    using round_up_bounds [of 4096 n] assms by simp
  ultimately show ?thesis
    by (simp add: PAGE_SIZE_def word_unat_eq_iff unat_of_nat_64)
qed

end
