(* ===== verification/ThreadLocal.thy ===== *)
theory ThreadLocal
  imports Machine
begin

text \<open>
  Thread local storage and the segment base registers: \<^verbatim>\<open>src/kernel/init/tls.cpp\<close>.  The block
  holds the initialised data, the zeroed data and, from a page boundary on, the structure
  \<^verbatim>\<open>TLSData\<close> that the FS register points to.
\<close>

section \<open>Segment bases\<close>

definition MSR_FS_BASE :: u32 where "MSR_FS_BASE = 0xC0000100"
definition MSR_GS_BASE_USER :: u32 where "MSR_GS_BASE_USER = 0xC0000101"
definition MSR_GS_BASE_KERNEL :: u32 where "MSR_GS_BASE_KERNEL = 0xC0000102"

definition SetUserFSBase :: "u64 \<Rightarrow> machine \<Rightarrow> fault + machine" where
  "SetUserFSBase fs s =
     (if GUserEnvironment s = 0 then Inl NullPointer
      else Inr (s\<lparr>Ram := store64 (Ram s) (GUserEnvironment s) fs\<rparr>))"

definition GetUserFSBase :: "machine \<Rightarrow> fault + u64" where
  "GetUserFSBase s =
     (if GUserEnvironment s = 0 then Inl NullPointer else Inr (load64 (Ram s) (GUserEnvironment s)))"

definition GetFSBase :: "machine \<Rightarrow> u64" where
  "GetFSBase s = MSRs s MSR_FS_BASE"

definition SetFSBase :: "u64 \<Rightarrow> machine \<Rightarrow> machine" where
  "SetFSBase fs s = s\<lparr>MSRs := (MSRs s)(MSR_FS_BASE := fs)\<rparr>"

text \<open>The two GS registers are exchanged on the way to the program.\<close>

definition SetKernelGSBase :: "u64 \<Rightarrow> machine \<Rightarrow> machine" where
  "SetKernelGSBase gs s = s\<lparr>MSRs := (MSRs s)(MSR_GS_BASE_USER := gs)\<rparr>"

definition SetUserGSBase :: "u64 \<Rightarrow> machine \<Rightarrow> machine" where
  "SetUserGSBase gs s = s\<lparr>MSRs := (MSRs s)(MSR_GS_BASE_KERNEL := gs)\<rparr>"

definition SetUserGS :: "machine \<Rightarrow> machine" where
  "SetUserGS s = SetUserGSBase (GUserEnvironment s) s"

section \<open>The block\<close>

text \<open>The six fields of \<^verbatim>\<open>TLSData\<close> as they are written to \<^verbatim>\<open>self\<close>.\<close>

definition TLSData :: "u64 \<Rightarrow> u64 list" where
  "TLSData self = [self, 0x715000AA, 0x715000BB, 0x715000CC, 0x715000DD, 0xDEADC0DEDEADC0DE]"

definition TLSData_bytes :: "u64 \<Rightarrow> u8 list" where
  "TLSData_bytes self = concat (map (\<lambda>v. map (byte_of v) [0 ..< 8]) (TLSData self))"

definition TLSData_StackCanary :: u64 where "TLSData_StackCanary = 40"

text \<open>The content of the block, once its pages are there.\<close>

definition fill_tls :: "u64 \<Rightarrow> u64 \<Rightarrow> u64 \<Rightarrow> u64 \<Rightarrow> memory \<Rightarrow> memory" where
  "fill_tls tls tdata_size tbss_size tdata_start m =
     (let aligned_size = AlignSize (tdata_size + tbss_size) PAGE_SIZE;
          aligned_offset = aligned_size - (tdata_size + tbss_size);
          m = memset m tls 0xFE (aligned_size + PAGE_SIZE);
          m = store_bytes m (tls + aligned_size) (TLSData_bytes (tls + aligned_size));
          m = if tdata_size \<noteq> 0 then memcpy m (tls + aligned_offset) tdata_start tdata_size else m
      in memset m (tls + aligned_offset + tdata_size) 0 tbss_size)"

definition CreateTLS ::
  "page_source \<Rightarrow> bool \<Rightarrow> u64 \<Rightarrow> u64 \<Rightarrow> u64 \<Rightarrow> u64 \<Rightarrow> machine \<Rightarrow> fault + TLSAllocation \<times> machine" where
  "CreateTLS get is_kernel tdata_size tbss_size tdata_start tls_align s =
     (let tdata_size = AlignSize tdata_size tls_align;
          tbss_size = AlignSize tbss_size tls_align;
          tbss_size = if tbss_size = 0 \<and> tdata_size = 0 then PAGE_SIZE else tbss_size;
          aligned_size = AlignSize (tdata_size + tbss_size) PAGE_SIZE
      in ok_bind (alloc_pages get (aligned_size + PAGE_SIZE) (if is_kernel then Kernel else User) s)
           (\<lambda>(tls, s).
         Inr (\<lparr>TlsMemory = tls, TlsSize = aligned_size + PAGE_SIZE, FSBase = tls + aligned_size\<rparr>,
              s\<lparr>Ram := fill_tls tls tdata_size tbss_size tdata_start (Ram s)\<rparr>)))"

text \<open>The bounds of the kernel's own sections are symbols of the linker.\<close>

definition InitializeKernelTLS ::
  "page_source \<Rightarrow> u64 \<Rightarrow> u64 \<Rightarrow> u64 \<Rightarrow> machine \<Rightarrow> fault + machine" where
  "InitializeKernelTLS get tdata_start tdata_size tbss_size s =
     ok_bind (CreateTLS get True tdata_size tbss_size tdata_start 1 s) (\<lambda>(allocation, s).
     let s = SetFSBase (FSBase allocation) s in
     ok_bind (alloc_pages get 4096 Kernel s) (\<lambda>(kernel_environment, s).
     let s = s\<lparr>GKernelEnvironment := kernel_environment\<rparr> in
     ok_bind (alloc_pages get 4096 User s) (\<lambda>(user_environment, s).
     let s = s\<lparr>GUserEnvironment := user_environment\<rparr> in
     if kernel_environment = 0 then Inl NullPointer
     else
       let s = s\<lparr>Ram := store64 (Ram s) kernel_environment (FSBase allocation)\<rparr>
       in Inr (SetKernelGSBase kernel_environment s))))"

definition CreateUserModeTLS ::
  "page_source \<Rightarrow> u64 \<Rightarrow> u64 \<Rightarrow> u64 \<Rightarrow> u64 \<Rightarrow> machine \<Rightarrow> fault + TLSAllocation \<times> machine" where
  "CreateUserModeTLS get tdata_size tbss_size tdata_start tls_align s =
     CreateTLS get False tdata_size tbss_size tdata_start tls_align s"

definition DestroyTLS :: "page_source \<Rightarrow> TLSAllocation \<Rightarrow> machine \<Rightarrow> fault + machine" where
  "DestroyTLS get allocation s = free_pages get (TlsMemory allocation) (TlsSize allocation) s"

end
