(* ===== verification/DemoMachine.thy ===== *)
theory DemoMachine
  imports Machine MemoryManager
begin

text \<open>
  A concrete machine for the witnesses of the process components: the memory manager of
  \<^verbatim>\<open>MemoryManager\<close> with its demonstration pools, empty buffers, no mounted volume and no
  loaded binary; each byte of memory holds the low byte of its address.
\<close>

definition demo_machine :: machine where
  "demo_machine = \<lparr>Ram = (\<lambda>a. ucast a),
     World = \<lparr>InputBuffer = ring_new [0], InputScanCodeBuffer = ring_new [0], ConsoleBuffer = [],
       Printed = [], Interrupts = [], Memory = demo_manager,
       GBootFramebuffer = \<lparr>Base = 0, Width = 0, Height = 0, Pitch = 0\<rparr>, FrameBufferByteSize = 0,
       FrameBufferMemory = 0, VarScreenInfo = Map.empty, FixScreenInfo = Map.empty\<rparr>,
     Mounts = InitializeVolumeSystem, Binaries = Map.empty, GELFBinaries = replicate 16 0,
     GELFBinaryCount = 0, GKernelEnvironment = 0, GUserEnvironment = 0, MSRs = (\<lambda>r. 0),
     Processes = Map.empty, GCurrentProcess = 0, inodeTemp = 0, start_tsc = 0, curr_tsc = 0\<rparr>"

lemma demo_alloc:
  "\<exists>s'. alloc_pages (GetPML4FreePage 1 demo_rpmalloc) 0x2000 level demo_machine = Inr (0x1000, s')
    \<and> Ram s' = store64 (\<lambda>a. ucast a) 0x1000 0"
proof -
  have f: "FindMinimumSizeFreeBlock (PhysicalMemoryState demo_manager) 0x2000 = Inr 0x1000"
    "FindMinimumSizeFreeBlock (VirtualMemoryState demo_manager) 0x2000 = Inr 0x1000"
    by (simp_all only: demo_manager_fields demo_used_find)
  have ok: "manager_ok demo_manager (Suc 9) 2048"
    using demo_manager_ok(1) by simp
  have n: "3 * (unat (0x2000 :: u64) div 4096) \<le> 2048" "unat (0x2000 :: u64) mod 4096 = 0"
    by simp_all
  show ?thesis
    using VirtualAlloc_core [OF ok n(1) demo_manager_ok(2) f(1) _ f(2) _ n(2), of 1 demo_rpmalloc level PageFlags_None]
    by (auto simp: alloc_pages_def demo_machine_def)
qed

lemma demo_alloc_free:
  "\<exists>s1 s2. alloc_pages (GetPML4FreePage 1 demo_rpmalloc) 0x2000 level demo_machine = Inr (0x1000, s1)
    \<and> free_pages (GetPML4FreePage 1 demo_rpmalloc) 0x1000 0x2000 s1 = Inr s2"
proof -
  have ok: "manager_ok demo_manager (Suc (Suc 8)) 2048" "manager_ok demo_manager (Suc 9) 2048"
    using demo_manager_ok(1) by simp_all
  have n: "3 * (unat (0x2000 :: u64) div 4096) \<le> 2048" "unat (0x2000 :: u64) mod 4096 = 0"
    "6 * (unat (0x2000 :: u64) div 4096) \<le> 2048"
    by simp_all
  have f: "FindMinimumSizeFreeBlock (PhysicalMemoryState demo_manager) 0x2000 = Inr 0x1000"
    "FindMinimumSizeFreeBlock (VirtualMemoryState demo_manager) 0x2000 = Inr 0x1000"
    by (simp_all only: demo_manager_fields demo_used_find)
  obtain p where p: "VirtualAlloc (GetPML4FreePage 1 demo_rpmalloc) 0x2000 level PageFlags_None demo_manager = Inr (0x1000, p)"
    using VirtualAlloc_core [OF ok(2) n(1) demo_manager_ok(2) f(1) _ f(2) _ n(2), of 1 demo_rpmalloc level PageFlags_None] by auto
  with VirtualFree_after_VirtualAlloc [OF ok(1) n(3) demo_manager_ok(2) f(1) _ f(2) _ n(2) _ this]
  show ?thesis
    by (auto simp: alloc_pages_def free_pages_def demo_machine_def)
qed

end
