(* ===== verification/ThreadLocalCorrect.thy ===== *)
theory ThreadLocalCorrect
  imports ThreadLocal DemoMachine
begin

text \<open>
  What the thread block of a program or of the kernel holds: the copy of the initialised
  data, the zeroed data, and the structure the FS register points to.
\<close>

section \<open>The layout of the block\<close>

lemma length_TLSData_bytes [simp]: "length (TLSData_bytes self) = 48"
  by (simp add: TLSData_bytes_def TLSData_def)

text \<open>
  With \<^verbatim>\<open>A\<close> and \<^verbatim>\<open>B\<close> bytes of initialised and zeroed data, the block has the upper bound
  \<^verbatim>\<open>C\<close>, where \<^verbatim>\<open>TLSData\<close> starts, and its data starts at \<^verbatim>\<open>D\<close>.
\<close>

lemma fill_tls_win:
  fixes A B :: nat
  defines "C \<equiv> round_up (A + B) 4096"
  defines "D \<equiv> C - (A + B)"
  assumes room: "A + B + 8192 \<le> 2 ^ 64" and apart: "\<And>i. i < A \<Longrightarrow> C + 4096 \<le> unat (start + of_nat i - tls)"
    and k: "k < 2 ^ 64"
  shows "win (fill_tls tls (of_nat A) (of_nat B) start m) tls k =
    (if D \<le> k \<and> k < D + A then m (start + of_nat (k - D))
     else if D + A \<le> k \<and> k < C then 0
     else if C \<le> k \<and> k < C + 48 then TLSData_bytes (tls + of_nat C) ! (k - C)
     else if k < C + 4096 then 0xFE else win m tls k)"
proof -
  have C: "A + B \<le> C" "C < A + B + 4096"
    using round_up_bounds [of 4096 "A + B"] by (auto simp: C_def)
  then have D: "D + A + B = C"
    by (simp add: D_def)
  have small: "A < 2 ^ 64" "B < 2 ^ 64" "C + 4096 < 2 ^ 64" "D < 2 ^ 64" "D + A < 2 ^ 64"
    using C room D by linarith+
  have unats: "unat (of_nat A :: u64) = A" "unat (of_nat B :: u64) = B"
    "unat (of_nat (C + 4096) :: u64) = C + 4096"
    using small by (simp_all only: unat_of_nat_64)
  have align: "AlignSize (of_nat A + of_nat B) PAGE_SIZE = of_nat C"
    using AlignSize_page [of "A + B"] room by (simp add: C_def)
  have sizes: "(of_nat C :: u64) - (of_nat A + of_nat B) = of_nat D"
    "tls + of_nat D + of_nat A = tls + of_nat (D + A)" "(of_nat C :: u64) + PAGE_SIZE = of_nat (C + 4096)"
    using C by (simp_all add: D_def of_nat_diff PAGE_SIZE_def)
  let ?m1 = "memset m tls 0xFE (of_nat (C + 4096))"
  let ?m2 = "store_bytes ?m1 (tls + of_nat C) (TLSData_bytes (tls + of_nat C))"
  have m1: "win ?m1 tls k = (if k < C + 4096 then 0xFE else win m tls k)" if "k < 2 ^ 64" for k
    using that small win_memset [of 0 "of_nat (C + 4096)" k m tls "0xFE"] unats by simp
  have m2: "win ?m2 tls k = (if C \<le> k \<and> k < C + 48 then TLSData_bytes (tls + of_nat C) ! (k - C) else win ?m1 tls k)"
    if "k < 2 ^ 64" for k
    using that small win_store_bytes [of C "TLSData_bytes (tls + of_nat C)" k ?m1 tls] by (simp add: put_def)
  have outside: "?m2 (start + of_nat i) = m (start + of_nat i)" if "i < A" for i
  proof -
    let ?k = "unat (start + of_nat i - tls)"
    have k: "?k < 2 ^ 64" "C + 4096 \<le> ?k"
      using apart that unat_less_pow2 [of "start + of_nat i - tls"] by auto
    then have "win ?m2 tls ?k = win m tls ?k"
      using m1 [of ?k] m2 [of ?k] by simp
    then show ?thesis
      by (simp add: win_def)
  qed
  have "start + of_nat i \<noteq> (tls + of_nat D) + of_nat j" if "i < A" "j < A" for i j
  proof
    assume "start + of_nat i = (tls + of_nat D) + of_nat j"
    then have "start + of_nat i - tls = of_nat (D + j)"
      by simp
    then have "unat (start + of_nat i - tls) = D + j"
      using that D small by (simp add: unat_of_nat_64 del: of_nat_add)
    then show False
      using apart [OF that(1)] that D by simp
  qed
  then have copy: "memcpy ?m2 (tls + of_nat D) start (of_nat A) = copied ?m2 (tls + of_nat D) start A"
    using memcpy_apart [of "of_nat A" start "tls + of_nat D" ?m2] unats by simp
  have fill: "fill_tls tls (of_nat A) (of_nat B) start m
      = memset (copied ?m2 (tls + of_nat D) start A) (tls + of_nat (D + A)) 0 (of_nat B)"
  proof -
    have "(of_nat A :: u64) = 0 \<longleftrightarrow> A = 0"
      using unats(1) by (cases "A = 0") auto
    then show ?thesis
      unfolding fill_tls_def align Let_def sizes copy by (simp add: copied_def)
  qed
  show ?thesis
    unfolding fill
    using k D small unats m1 [OF k] m2 [OF k] outside [of "k - D"]
    by (subst win_memset) (auto simp: win_copied)
qed

lemma nth_TLSData_bytes:
  assumes "f < 6" and "i < 8"
  shows "TLSData_bytes self ! (8 * f + i) = byte_of (TLSData self ! f) i"
proof -
  have "concat (map (\<lambda>v. map (byte_of v) [0 ..< 8]) vs) ! (8 * f + i) = byte_of (vs ! f) i"
    if "f < length vs" for vs f
    using that \<open>i < 8\<close>
  proof (induction vs arbitrary: f)
    case (Cons v vs)
    then show ?case
      by (cases f) (auto simp: nth_append)
  qed simp
  moreover have "f < length (TLSData self)"
    using assms(1) by (simp add: TLSData_def)
  ultimately show ?thesis
    unfolding TLSData_bytes_def by blast
qed

text \<open>
  C15: the thread block: the FS register points to a structure on a page boundary whose first
  word is its own address and whose stack canary is at offset 40; below it lie the aligned
  zeroed and initialised data, the latter a copy of the program's, and nothing outside the
  block changes.
\<close>

theorem CreateTLS_correct:
  fixes tdata_size tbss_size :: u64
  assumes "alloc_pages get (of_nat (round_up (A + B) 4096) + PAGE_SIZE) (if is_kernel then Kernel else User) s = Inr (tls, s1)"
    and "e < 64" and "unat tdata_size + 2 ^ e \<le> 2 ^ 64" and "unat tbss_size + 2 ^ e \<le> 2 ^ 64"
    and "A = round_up (unat tdata_size) (2 ^ e)"
    and "B = (let b = round_up (unat tbss_size) (2 ^ e) in if A + b = 0 then 4096 else b)"
    and "A + B + 8192 \<le> 2 ^ 64"
    and "\<And>i. i < A \<Longrightarrow> round_up (A + B) 4096 + 4096 \<le> unat (start + of_nat i - tls)"
  shows "\<exists>t s'. CreateTLS get is_kernel tdata_size tbss_size start (2 ^ e) s = Inr (t, s')
    \<and> FSBase t = tls + of_nat (round_up (A + B) 4096) \<and> TlsMemory t = tls
    \<and> load64 (Ram s') (FSBase t) = FSBase t
    \<and> load64 (Ram s') (FSBase t + TLSData_StackCanary) = 0xDEADC0DEDEADC0DE
    \<and> (\<forall>i < A. Ram s' (FSBase t - of_nat (A + B) + of_nat i) = Ram s1 (start + of_nat i))
    \<and> (\<forall>i < B. Ram s' (FSBase t - of_nat B + of_nat i) = 0)
    \<and> (\<forall>a. unat (TlsSize t) \<le> unat (a - tls) \<longrightarrow> Ram s' a = Ram s1 a)
    \<and> s'\<lparr>Ram := Ram s1\<rparr> = s1"
proof -
  define C where "C = round_up (A + B) 4096"
  obtain D where D: "D + A + B = C"
    using round_up_bounds [of 4096 "A + B"] by (auto simp: C_def intro: that [of "C - (A + B)"])
  have C: "C < A + B + 4096"
    using round_up_bounds [of 4096 "A + B"] by (auto simp: C_def)
  let ?m = "fill_tls tls (of_nat A) (of_nat B) start (Ram s1)"
  have w: "win ?m tls k =
    (if D \<le> k \<and> k < D + A then Ram s1 (start + of_nat (k - D)) else if D + A \<le> k \<and> k < C then 0
     else if C \<le> k \<and> k < C + 48 then TLSData_bytes (tls + of_nat C) ! (k - C)
     else if k < C + 4096 then 0xFE else win (Ram s1) tls k)" if "k < 2 ^ 64" for k
  proof -
    have "round_up (A + B) 4096 - (A + B) = D"
      using D by (simp add: C_def)
    with fill_tls_win [OF assms(7,8) that, where m = "Ram s1"] show ?thesis
      by (simp only: C_def)
  qed
  have a: "AlignSize tdata_size (2 ^ e) = of_nat A" "AlignSize tbss_size (2 ^ e) = of_nat (round_up (unat tbss_size) (2 ^ e))"
    using AlignSize_unat [OF assms(2,3)] AlignSize_unat [OF assms(2,4)] assms(5) by (auto intro: word_of_unat)
  have small: "A < 2 ^ 64" "round_up (unat tbss_size) (2 ^ e) < 2 ^ 64" "C + 4096 < 2 ^ 64"
    using C assms(6,7) by (auto simp: Let_def split: if_splits)
  then have b: "(if AlignSize tbss_size (2 ^ e) = 0 \<and> AlignSize tdata_size (2 ^ e) = 0 then PAGE_SIZE else AlignSize tbss_size (2 ^ e)) = of_nat B"
    unfolding a using assms(6) by (auto simp: PAGE_SIZE_def Let_def word_unat_eq_iff unat_of_nat_64)
  have c: "AlignSize (of_nat A + of_nat B) PAGE_SIZE = of_nat C"
    using AlignSize_page [of "A + B"] assms(7) by (simp add: C_def)
  have run: "CreateTLS get is_kernel tdata_size tbss_size start (2 ^ e) s
      = Inr (\<lparr>TlsMemory = tls, TlsSize = of_nat C + PAGE_SIZE, FSBase = tls + of_nat C\<rparr>, s1\<lparr>Ram := ?m\<rparr>)"
    unfolding CreateTLS_def Let_def b unfolding a(1) c using assms(1) by (simp add: C_def)
  have field: "load64 ?m (tls + of_nat (C + 8 * f)) = TLSData (tls + of_nat C) ! f" if "f < 6" for f
    using that D small by (intro load64_of_bytes) (simp add: w nth_TLSData_bytes add.assoc)
  have fields: "load64 ?m (tls + of_nat C) = tls + of_nat C"
      "load64 ?m (tls + of_nat C + TLSData_StackCanary) = 0xDEADC0DEDEADC0DE"
    using field [of 0] field [of 5] by (simp_all add: TLSData_StackCanary_def TLSData_def add.assoc)
  have at: "?m (tls + of_nat C - of_nat n + of_nat i) = win ?m tls (C - n + i)" if "n \<le> C" for n i
    using that by (simp add: win_def of_nat_diff algebra_simps)
  have data: "?m (tls + of_nat C - of_nat (A + B) + of_nat i) = Ram s1 (start + of_nat i)" if "i < A" for i
  proof -
    have "C - (A + B) + i = D + i" "D + i < 2 ^ 64"
      using D that small by auto
    then show ?thesis
      using at [of "A + B" i] D that w [of "D + i"] by simp
  qed
  have zero: "?m (tls + of_nat C - of_nat B + of_nat i) = 0" if "i < B" for i
  proof -
    have "C - B + i = D + A + i" "D + A + i < 2 ^ 64"
      using D that small by auto
    then show ?thesis
      using at [of B i] D that w [of "D + A + i"] by simp
  qed
  have other: "?m x = Ram s1 x" if "unat (of_nat C + PAGE_SIZE) \<le> unat (x - tls)" for x
  proof -
    have "unat (of_nat C + PAGE_SIZE) = C + 4096"
      using small unat_of_nat_64 [of "C + 4096"] by (simp add: PAGE_SIZE_def)
    then show ?thesis
      using w [of "unat (x - tls)"] that D unat_less_pow2 [of "x - tls"] by (simp add: win_def)
  qed
  show ?thesis
    using run fields data zero other by (simp add: C_def)
qed

theorem CreateTLS_correct_witness:
  "\<exists>t s'. CreateTLS (GetPML4FreePage 1 demo_rpmalloc) False 20 10 0x8000 (2 ^ 3) demo_machine = Inr (t, s')
    \<and> FSBase t = 0x2000 \<and> load64 (Ram s') 0x2000 = 0x2000 \<and> Ram s' (0x2000 - 40) = 0"
proof -
  obtain s1 where s1: "alloc_pages (GetPML4FreePage 1 demo_rpmalloc) 0x2000 User demo_machine = Inr (0x1000, s1)"
      "Ram s1 = store64 (\<lambda>a. ucast a) 0x1000 0"
    using demo_alloc [of User] by auto
  have apart: "round_up (24 + 16) 4096 + 4096 \<le> unat (0x8000 + of_nat i - 0x1000 :: u64)" if "i < 24" for i
    using that unat_of_nat_64 [of "0x7000 + i"] by (simp add: round_up_def)
  have "alloc_pages (GetPML4FreePage 1 demo_rpmalloc) (of_nat (round_up (24 + 16) 4096) + PAGE_SIZE)
      (if False then Kernel else User) demo_machine = Inr (0x1000, s1)"
    using s1(1) by (simp add: round_up_def PAGE_SIZE_def)
  note alloc = this
  have "(3 :: nat) < 64" "unat (20 :: u64) + 2 ^ 3 \<le> 2 ^ 64" "unat (10 :: u64) + 2 ^ 3 \<le> 2 ^ 64"
    "24 = round_up (unat (20 :: u64)) (2 ^ 3)"
    "16 = (let b = round_up (unat (10 :: u64)) (2 ^ 3) in if 24 + b = 0 then 4096 else b)"
    "(24 :: nat) + 16 + 8192 \<le> 2 ^ 64"
    by (simp_all add: round_up_def)
  from CreateTLS_correct [OF alloc this apart, OF _]
  obtain t s' where t: "CreateTLS (GetPML4FreePage 1 demo_rpmalloc) False 20 10 0x8000 (2 ^ 3) demo_machine = Inr (t, s')"
    and base: "FSBase t = 0x1000 + of_nat (round_up (24 + 16) 4096)" "load64 (Ram s') (FSBase t) = FSBase t"
    and data: "\<forall>i < 24. Ram s' (FSBase t - of_nat (24 + 16) + of_nat i) = Ram s1 (0x8000 + of_nat i)"
    by blast
  have "Ram s1 0x8000 = 0"
    using s1(2) by (simp add: store64_outside)
  moreover have "FSBase t = 0x2000"
    using base(1) by (simp add: round_up_def)
  ultimately show ?thesis
    using t base(2) data [rule_format, of 0] by auto
qed

end
