(* ===== verification/ElfLoader.thy ===== *)
theory ElfLoader
  imports Machine
begin

text \<open>
  The ELF loader of \<^verbatim>\<open>src/kernel/user_mode/elf.cpp\<close>.  The file image is in memory, its headers
  are read with the offsets of the ELF64 structures of \<^verbatim>\<open>vendor/elf/elf.h\<close>.  What the loader
  prints on the serial port is left out, and so are the parts that \<^verbatim>\<open>#if 0\<close> and \<^verbatim>\<open>ENABLE_NX\<close>
  remove, and the debugger hooks.
\<close>

section \<open>Headers\<close>

definition e_machine :: "memory \<Rightarrow> u64 \<Rightarrow> u16" where "e_machine m elf = load16 m (elf + 18)"
definition e_entry :: "memory \<Rightarrow> u64 \<Rightarrow> u64" where "e_entry m elf = load64 m (elf + 24)"
definition e_phoff :: "memory \<Rightarrow> u64 \<Rightarrow> u64" where "e_phoff m elf = load64 m (elf + 32)"
definition e_shoff :: "memory \<Rightarrow> u64 \<Rightarrow> u64" where "e_shoff m elf = load64 m (elf + 40)"
definition e_phnum :: "memory \<Rightarrow> u64 \<Rightarrow> u16" where "e_phnum m elf = load16 m (elf + 56)"
definition e_shnum :: "memory \<Rightarrow> u64 \<Rightarrow> u16" where "e_shnum m elf = load16 m (elf + 60)"
definition e_shstrndx :: "memory \<Rightarrow> u64 \<Rightarrow> u16" where "e_shstrndx m elf = load16 m (elf + 62)"

definition SIZEOF_PHDR :: nat where "SIZEOF_PHDR = 56"
definition SIZEOF_SHDR :: nat where "SIZEOF_SHDR = 64"

record Elf64_Phdr =
  p_type :: u32
  p_offset :: u64
  p_vaddr :: u64
  p_filesz :: u64
  p_memsz :: u64
  p_align :: u64

definition read_phdr :: "memory \<Rightarrow> u64 \<Rightarrow> nat \<Rightarrow> Elf64_Phdr" where
  "read_phdr m segments i =
     (let a = segments + of_nat (SIZEOF_PHDR * i) in
      \<lparr>p_type = load32 m a, p_offset = load64 m (a + 8), p_vaddr = load64 m (a + 16),
       p_filesz = load64 m (a + 32), p_memsz = load64 m (a + 40), p_align = load64 m (a + 48)\<rparr>)"

definition PT_LOAD :: u32 where "PT_LOAD = 1"
definition PT_TLS :: u32 where "PT_TLS = 7"

record Elf64_Shdr =
  sh_name :: u32
  sh_type :: u32
  sh_offset :: u64
  sh_size :: u64
  sh_entsize :: u64

definition read_shdr :: "memory \<Rightarrow> u64 \<Rightarrow> nat \<Rightarrow> Elf64_Shdr" where
  "read_shdr m sections i =
     (let a = sections + of_nat (SIZEOF_SHDR * i) in
      \<lparr>sh_name = load32 m a, sh_type = load32 m (a + 4), sh_offset = load64 m (a + 24),
       sh_size = load64 m (a + 32), sh_entsize = load64 m (a + 56)\<rparr>)"

definition SHT_STRTAB :: u32 where "SHT_STRTAB = 3"
definition SHT_DYNAMIC :: u32 where "SHT_DYNAMIC = 6"
definition SHT_DYNSYM :: u32 where "SHT_DYNSYM = 11"

text \<open>
  The test \<^verbatim>\<open>strcmp(sectionName, literal) == 0\<close>: the comparison reads no further than the
  terminator of the literal.
\<close>

definition name_is :: "memory \<Rightarrow> u64 \<Rightarrow> string \<Rightarrow> fault + bool" where
  "name_is m a lit =
     ok_bind (strcmp (bytes_at m a (Suc (length lit))) (map char_code lit @ [0])) (\<lambda>r. Inr (r = 0))"

section \<open>The parts of LoadElfFromMemory\<close>

text \<open>The search for a binary of the same name; index of the first one.\<close>

function find_existing :: "machine \<Rightarrow> wstr \<Rightarrow> nat \<Rightarrow> fault + u64 option" where
  "find_existing s program existing =
     (if existing < GELFBinaryCount s then
        ok_bind (array_get (GELFBinaries s) existing) (\<lambda>p.
        ok_bind (get_binary p s) (\<lambda>b.
        ok_bind (strcmp16 (Name b) program) (\<lambda>r.
          if r = 0 then Inr (Some p) else find_existing s program (Suc existing))))
      else Inr None)"
  by pat_completeness auto
termination
  by (relation "measure (\<lambda>(s, program, existing). GELFBinaryCount s - existing)") auto

declare find_existing.simps [simp del]

definition check_ident :: "memory \<Rightarrow> u64 \<Rightarrow> fault + unit" where
  "check_ident m elf =
     assertf (m elf = 0x7F \<and> m (elf + 1) = 0x45 \<and> m (elf + 2) = 0x4C \<and> m (elf + 3) = 0x46) ''Not an ELF file'' (
     assertf (m (elf + 4) = 2) ''Not an ELF64 file'' (
     assertf (e_machine m elf = 62) ''Not an AMD64 file'' (Inr ())))"

text \<open>
  The scan of the sections.  With \<^verbatim>\<open>performDynamicLinking\<close> false its results are not used;
  what remains are the divisions by the entry size and the reads of the names.  The results
  are the dynamic string table, the dynamic section with its length, the symbols with their
  number, and the global offset table.
\<close>

record section_scan =
  dynamicStringTable :: u64
  dynamicSection :: "u64 \<times> u32"
  symbols :: "u64 \<times> u64"
  gotStart :: u64

function scan_sections :: "memory \<Rightarrow> u64 \<Rightarrow> u64 \<Rightarrow> u64 \<Rightarrow> nat \<Rightarrow> nat \<Rightarrow> section_scan \<Rightarrow> fault + section_scan" where
  "scan_sections m elf sections strings n i r =
     (if i < n then
        let sh = read_shdr m sections i; name = strings + ucast (sh_name sh) in
        ok_bind
          (if sh_type sh = SHT_STRTAB then
             ok_bind (name_is m name ''.dynstr'') (\<lambda>hit.
               Inr (if hit then r\<lparr>dynamicStringTable := elf + sh_offset sh\<rparr> else r))
           else if sh_type sh = SHT_DYNAMIC then
             if sh_entsize sh = 0 then Inl DivideByZero
             else Inr (r\<lparr>dynamicSection := (elf + sh_offset sh, ucast (sh_size sh div sh_entsize sh))\<rparr>)
           else if sh_type sh = SHT_DYNSYM then
             if sh_entsize sh = 0 then Inl DivideByZero
             else Inr (r\<lparr>symbols := (elf + sh_offset sh, sh_size sh div sh_entsize sh)\<rparr>)
           else
             ok_bind (name_is m name ''.got'') (\<lambda>hit.
               Inr (if hit then r\<lparr>gotStart := sh_offset sh + elf\<rparr> else r)))
          (scan_sections m elf sections strings n (Suc i))
      else Inr r)"
  by pat_completeness auto
termination
  by (relation "measure (\<lambda>(m, elf, sections, strings, n, i, r). n - i)") auto

declare scan_sections.simps [simp del]

text \<open>\<^verbatim>\<open>highestAddress\<close> over the first n segments.\<close>

primrec highest_address_of :: "memory \<Rightarrow> u64 \<Rightarrow> nat \<Rightarrow> u64" where
  "highest_address_of m segments 0 = 0"
| "highest_address_of m segments (Suc i) =
     (let ph = read_phdr m segments i; highest = highest_address_of m segments i in
      if p_vaddr ph + p_memsz ph > highest then p_vaddr ph + p_memsz ph else highest)"

definition PROGRAM_BREAK_SIZE :: u64 where "PROGRAM_BREAK_SIZE = 64 * 1024 * 1024"

text \<open>The local variables that the loop over the segments sets.\<close>

record segment_info =
  tlsStart :: u64
  tdataSize :: u64
  tbssSize :: u64
  tdataStart :: u64
  tlsAlign :: u64
  text_section :: u64

definition note_segment :: "u64 \<Rightarrow> Elf64_Phdr \<Rightarrow> segment_info \<Rightarrow> segment_info" where
  "note_segment program_start ph r =
     (let vaddr = p_vaddr ph + program_start;
          r = if p_type ph = PT_TLS
              then r\<lparr>tlsStart := if tlsStart r = 0 then vaddr else tlsStart r,
                     tdataSize := p_filesz ph, tbssSize := p_memsz ph - p_filesz ph,
                     tdataStart := p_vaddr ph, tlsAlign := p_align ph\<rparr>
              else r
      in if p_type ph = PT_LOAD then r\<lparr>text_section := vaddr\<rparr> else r)"

definition copy_segment :: "u64 \<Rightarrow> u64 \<Rightarrow> Elf64_Phdr \<Rightarrow> memory \<Rightarrow> memory" where
  "copy_segment elf program_start ph m =
     (let vaddr = p_vaddr ph + program_start;
          m = memcpy m vaddr (elf + p_offset ph) (p_filesz ph)
      in memset m (vaddr + p_filesz ph) 0 (p_memsz ph - p_filesz ph))"

text \<open>
  The headers are read from the copy in the program's memory, as the loop goes, each once per round;
  the code reads its fields through a reference, which is the same as long as the segments do not
  cover the table.
\<close>

function load_segments ::
  "u64 \<Rightarrow> u64 \<Rightarrow> u64 \<Rightarrow> nat \<Rightarrow> nat \<Rightarrow> segment_info \<times> memory \<Rightarrow> segment_info \<times> memory" where
  "load_segments elf program_start segments n i (r, m) =
     (if i < n then
        let ph = read_phdr m segments i in
        load_segments elf program_start segments n (Suc i)
          (note_segment program_start ph r, copy_segment elf program_start ph m)
      else (r, m))"
  by pat_completeness auto
termination
  by (relation "measure (\<lambda>(elf, program_start, segments, n, i, rm). n - i)") auto

declare load_segments.simps [simp del]

section \<open>Unloading\<close>

definition UnloadElf :: "page_source \<Rightarrow> u64 \<Rightarrow> machine \<Rightarrow> fault + machine" where
  "UnloadElf get p s =
     ok_bind (get_binary p s) (\<lambda>b.
     let b = b\<lparr>RefCount := RefCount b - 1\<rparr>; s = set_binary p b s in
     if RefCount b = 0 then
       ok_bind (free_pages get (BaseAddress b) (AllocatedSize b) s) (\<lambda>s.
         Inr (s\<lparr>Binaries := (Binaries s)(p := None)\<rparr>))
     else Inr s)"

section \<open>Loading\<close>

text \<open>
  The last loop opens the interpreter that a section \<^verbatim>\<open>.interp\<close> names.  The result is whether
  to go on; on a handle of 0 the binary is unloaded again.
\<close>

function open_interpreter ::
  "page_source \<Rightarrow> hash \<Rightarrow> u64 \<Rightarrow> u64 \<Rightarrow> u64 \<Rightarrow> u64 \<Rightarrow> nat \<Rightarrow> nat \<Rightarrow> machine \<Rightarrow> fault + bool \<times> machine" where
  "open_interpreter get XXH64 p elf sections strings n i s =
     (if i < n then
        let sh = read_shdr (Ram s) sections i in
        ok_bind (name_is (Ram s) (strings + ucast (sh_name sh)) ''.interp'') (\<lambda>hit.
        if \<not> hit then open_interpreter get XXH64 p elf sections strings n (Suc i) s
        else
          ok_bind (get_binary p s) (\<lambda>b.
          ok_bind (ascii_to_wide (Some (InterpreterName b)) (bytes_at (Ram s) (elf + sh_offset sh) 257) 256) (\<lambda>(k, name).
          let b = b\<lparr>InterpreterName := the name\<rparr> in
          ok_bind (VolumeOpenHandle XXH64 (Mounts s) 0 (InterpreterName b) 0 (World s)) (\<lambda>(h, w).
          let s = set_binary p (b\<lparr>InterpreterFileHandle := h\<rparr>) (s\<lparr>World := w\<rparr>) in
          if h = 0 then ok_bind (UnloadElf get p s) (\<lambda>s. Inr (False, s))
          else open_interpreter get XXH64 p elf sections strings n (Suc i) s))))
      else Inr (True, s))"
  by pat_completeness auto
termination
  by (relation "measure (\<lambda>(get, XXH64, p, elf, sections, strings, n, i, s). n - i)") auto

declare open_interpreter.simps [simp del]

definition no_binary :: ElfBinary where
  "no_binary = \<lparr>Name = replicate 64 0, InterpreterName = replicate 256 0, BaseAddress = 0,
     AllocatedSize = 0, TextSection = 0, Entry = 0, RefCount = 0, InterpreterFileHandle = 0,
     TLSDataStart = 0, TLSDataSize = 0, TBSSSize = 0, TLSAlign = 0, SymbolCount = 0, Symbols = [], ProgramHeaders = 0,
     ProgramHeaderCount = 0, ProgramHeaderEntrySize = 0, ProgramBreakLow = 0, ProgramBreakHigh = 0\<rparr>"

text \<open>The middle part: memory for the program, then its header table and its segments.\<close>

definition place_at :: "u64 \<Rightarrow> u64 \<Rightarrow> u64 \<Rightarrow> u64 \<Rightarrow> machine \<Rightarrow> fault + segment_info \<times> machine" where
  "place_at p elf program_start program_size s =
     ok_bind (get_binary p s) (\<lambda>b.
     let n = e_phnum (Ram s) elf;
         headers = program_start + e_phoff (Ram s) elf;
         b = b\<lparr>ProgramHeaderCount := ucast n, ProgramHeaderEntrySize := of_nat SIZEOF_PHDR,
               ProgramHeaders := headers,
               ProgramBreakLow := program_start + program_size,
               ProgramBreakHigh := program_start + program_size + PROGRAM_BREAK_SIZE\<rparr>;
         m = memcpy (Ram s) headers (elf + e_phoff (Ram s) elf) (of_nat (SIZEOF_PHDR * unat n));
         (info, m) = load_segments elf program_start headers (unat n) 0
           (\<lparr>tlsStart = 0, tdataSize = 0, tbssSize = 0, tdataStart = 0, tlsAlign = 0, text_section = 0\<rparr>, m)
     in Inr (info, set_binary p b (s\<lparr>Ram := m\<rparr>)))"

definition program_size_of :: "memory \<Rightarrow> u64 \<Rightarrow> u64" where
  "program_size_of m elf = highest_address_of m (elf + e_phoff m elf) (unat (e_phnum m elf))"

definition place_program ::
  "page_source \<Rightarrow> u64 \<Rightarrow> u64 \<Rightarrow> machine \<Rightarrow> fault + (u64 \<times> u64 \<times> segment_info) \<times> machine" where
  "place_program get p elf s =
     (let program_size = program_size_of (Ram s) elf;
          allocated_size = AlignSize (program_size + PROGRAM_BREAK_SIZE) PAGE_SIZE in
      assertf (allocated_size \<noteq> 0) ''No loadable segments in ELF file'' (
      ok_bind (alloc_pages get allocated_size User s) (\<lambda>(program_start, s).
      ok_bind (place_at p elf program_start program_size s) (\<lambda>(info, s).
      Inr ((program_start, allocated_size, info), s)))))"

text \<open>The last part fills in the structure and adds it to the table.\<close>

definition register_binary :: "u64 \<Rightarrow> u64 \<Rightarrow> u64 \<Rightarrow> segment_info \<Rightarrow> u64 \<Rightarrow> machine \<Rightarrow> fault + u64 \<times> machine" where
  "register_binary p program_start allocated_size info elf s =
     ok_bind (get_binary p s) (\<lambda>b.
     let b = b\<lparr>BaseAddress := program_start, AllocatedSize := allocated_size,
               TextSection := text_section info, Entry := program_start + e_entry (Ram s) elf,
               TLSDataStart := tdataStart info, TLSDataSize := tdataSize info,
               TBSSSize := tbssSize info, TLSAlign := ucast (tlsAlign info), RefCount := 1\<rparr> in
     ok_bind (array_set (GELFBinaries s) (GELFBinaryCount s) p) (\<lambda>bs.
     Inr (p, set_binary p b (s\<lparr>GELFBinaries := bs, GELFBinaryCount := Suc (GELFBinaryCount s)\<rparr>))))"

text \<open>
  \<^verbatim>\<open>p\<close> is the address of the new \<^verbatim>\<open>ElfBinary\<close>.  The result is the pointer, 0 for null.
\<close>

definition LoadElfFromMemory ::
  "page_source \<Rightarrow> hash \<Rightarrow> u64 \<Rightarrow> wstr \<Rightarrow> u64 \<Rightarrow> machine \<Rightarrow> fault + u64 \<times> machine" where
  "LoadElfFromMemory get XXH64 p program elf s =
     ok_bind (find_existing s program 0) (\<lambda>existing.
     case existing of
       Some q \<Rightarrow> Inr (q, s)
     | None \<Rightarrow>
         ok_bind (strcpy16 (Name no_binary) program) (\<lambda>name.
         let s = set_binary p (no_binary\<lparr>Name := name\<rparr>) s;
             sections = elf + e_shoff (Ram s) elf;
             strings = elf + sh_offset (read_shdr (Ram s) sections (unat (e_shstrndx (Ram s) elf)));
             n = unat (e_shnum (Ram s) elf) in
         ok_bind (check_ident (Ram s) elf) (\<lambda>_.
         ok_bind (scan_sections (Ram s) elf sections strings n 0
             \<lparr>dynamicStringTable = 0, dynamicSection = (0, 0), symbols = (0, 0), gotStart = 0\<rparr>) (\<lambda>_.
         ok_bind (place_program get p elf s) (\<lambda>((program_start, allocated_size, info), s).
         ok_bind (open_interpreter get XXH64 p elf sections strings (unat (e_shnum (Ram s) elf)) 0 s) (\<lambda>(ok, s).
         if \<not> ok then Inr (0, s)
         else
           register_binary p program_start allocated_size info elf s))))))"

definition read_file :: "u64 \<Rightarrow> u64 \<Rightarrow> u64 \<Rightarrow> u64 \<Rightarrow> machine \<Rightarrow> fault + u64 \<times> machine" where
  "read_file h offset buffer n s =
     ok_bind (VolumeRead (Mounts s) h offset (bytes_at (Ram s) buffer (unat n)) n (World s)) (\<lambda>(cnt, bytes, w).
     Inr (cnt, s\<lparr>World := w, Ram := store_bytes (Ram s) buffer bytes\<rparr>))"

definition LoadElfFromHandle ::
  "page_source \<Rightarrow> hash \<Rightarrow> u64 \<Rightarrow> wstr \<Rightarrow> u64 \<Rightarrow> machine \<Rightarrow> fault + u64 \<times> machine" where
  "LoadElfFromHandle get XXH64 p program h s =
     (if h \<noteq> 0 then
        ok_bind (VolumeGetSize (Mounts s) h (World s)) (\<lambda>(file_size, w).
        let aligned_size = AlignSize file_size 4096 in
        ok_bind (alloc_pages get aligned_size User (s\<lparr>World := w\<rparr>)) (\<lambda>(buffer, s).
        let s = s\<lparr>Ram := FillUnique (Ram s) buffer 0xe1fb000000000000 aligned_size\<rparr> in
        ok_bind (read_file h 0 buffer file_size s) (\<lambda>(bytes_read, s).
        ok_bind (LoadElfFromMemory get XXH64 p program buffer s) (\<lambda>(binary, s).
        ok_bind (free_pages get buffer aligned_size s) (\<lambda>s. Inr (binary, s))))))
      else Inr (0, s))"

definition LoadElf :: "page_source \<Rightarrow> hash \<Rightarrow> u64 \<Rightarrow> wstr \<Rightarrow> machine \<Rightarrow> fault + u64 \<times> machine" where
  "LoadElf get XXH64 p program s =
     ok_bind (VolumeOpenHandle XXH64 (Mounts s) 0 program 0 (World s)) (\<lambda>(h, w).
     let s = s\<lparr>World := w\<rparr> in
     if h \<noteq> 0 then
       ok_bind (LoadElfFromHandle get XXH64 p program h s) (\<lambda>(binary, s).
       ok_bind (VolumeCloseHandle (Mounts s) h (World s)) (\<lambda>w. Inr (binary, s\<lparr>World := w\<rparr>)))
     else Inr (0, s))"

end
