(* ===== verification/ElfCorrect.thy ===== *)
theory ElfCorrect
  imports ElfLoader DemoMachine
begin

text \<open>
  What the loader puts into memory: the image that the segment table describes, where the
  last segment of the table that covers an address decides.
\<close>

section \<open>The image\<close>

definition seg_start :: "u64 \<Rightarrow> Elf64_Phdr \<Rightarrow> u64" where
  "seg_start base ph = p_vaddr ph + base"

definition covers :: "u64 \<Rightarrow> u64 \<Rightarrow> Elf64_Phdr \<Rightarrow> bool" where
  "covers base a ph \<longleftrightarrow> unat (a - seg_start base ph) < unat (p_memsz ph)"

definition seg_byte :: "memory \<Rightarrow> u64 \<Rightarrow> u64 \<Rightarrow> u64 \<Rightarrow> Elf64_Phdr \<Rightarrow> u8" where
  "seg_byte m elf base a ph =
     (if unat (a - seg_start base ph) < unat (p_filesz ph)
      then m (elf + p_offset ph + (a - seg_start base ph)) else 0)"

definition elf_image :: "memory \<Rightarrow> u64 \<Rightarrow> u64 \<Rightarrow> Elf64_Phdr list \<Rightarrow> memory" where
  "elf_image m elf base phs a =
     (case find (covers base a) (rev phs) of None \<Rightarrow> m a | Some ph \<Rightarrow> seg_byte m elf base a ph)"

lemma image_Nil [simp]: "elf_image m elf base [] = m"
  by (simp add: elf_image_def fun_eq_iff)

lemma image_snoc:
  "elf_image m elf base (phs @ [ph]) a =
     (if covers base a ph then seg_byte m elf base a ph else elf_image m elf base phs a)"
  by (simp add: elf_image_def)

lemma image_cases:
  "elf_image m elf base phs a = m a \<and> (\<forall>ph \<in> set phs. \<not> covers base a ph)
   \<or> (\<exists>ph \<in> set phs. covers base a ph \<and> elf_image m elf base phs a = seg_byte m elf base a ph)"
proof (cases "find (covers base a) (rev phs)")
  case None
  moreover have "\<forall>ph \<in> set phs. \<not> covers base a ph"
    using None by (simp add: find_None_iff)
  ultimately show ?thesis
    by (simp add: elf_image_def)
next
  case (Some ph)
  then have "ph \<in> set phs" "covers base a ph"
    by (auto simp: find_Some_iff) (metis nth_mem set_rev length_rev)
  with Some show ?thesis
    by (auto simp: elf_image_def)
qed

text \<open>
  What a segment table must satisfy: the file part is no longer than the memory part, lies
  inside the file of \<^verbatim>\<open>len\<close> bytes, and the segment does not touch the file.
\<close>

definition seg_ok :: "u64 \<Rightarrow> nat \<Rightarrow> u64 \<Rightarrow> Elf64_Phdr \<Rightarrow> bool" where
  "seg_ok elf len base ph \<longleftrightarrow>
     p_filesz ph \<le> p_memsz ph \<and> unat (p_offset ph) + unat (p_filesz ph) \<le> len
     \<and> (\<forall>a. covers base a ph \<longrightarrow> len \<le> unat (a - elf))"

section \<open>One segment\<close>

lemma copy_segment_spec:
  assumes ok: "seg_ok elf len base ph" and len: "len \<le> 2 ^ 64"
  shows "copy_segment elf base ph m = (\<lambda>a. if covers base a ph then seg_byte m elf base a ph else m a)"
proof -
  let ?v = "seg_start base ph" and ?f = "unat (p_filesz ph)" and ?n = "unat (p_memsz ph)"
  have f: "?f \<le> ?n" "?n < 2 ^ 64"
    using ok unat_less_pow2 [of "p_memsz ph"] by (auto simp: seg_ok_def word_le_nat_alt)
  have rest: "unat (p_memsz ph - p_filesz ph) = ?n - ?f"
    using ok by (intro unat_sub) (simp add: seg_ok_def)
  have "(elf + p_offset ph) + of_nat i \<noteq> ?v + of_nat j" if "i < ?f" "j < ?f" for i j
  proof
    assume eq: "(elf + p_offset ph) + of_nat i = ?v + of_nat j"
    have "covers base (?v + of_nat j) ph"
      using that f by (simp add: covers_def unat_of_nat_64)
    then have "len \<le> unat (?v + of_nat j - elf)"
      using ok by (simp add: seg_ok_def)
    moreover have "?v + of_nat j - elf = p_offset ph + of_nat i"
      using eq by (simp add: algebra_simps)
    moreover have "unat (p_offset ph + of_nat i) = unat (p_offset ph) + i"
      using that ok len f by (subst unat_add_no_wrap) (auto simp: seg_ok_def unat_of_nat_64)
    ultimately show False
      using that ok by (simp add: seg_ok_def)
  qed
  then have "memcpy m ?v (elf + p_offset ph) (p_filesz ph) = copied m ?v (elf + p_offset ph) ?f"
    by (intro memcpy_apart) auto
  then have run: "copy_segment elf base ph m = memset (copied m ?v (elf + p_offset ph) ?f) (?v + p_filesz ph) 0 (p_memsz ph - p_filesz ph)"
    by (simp add: copy_segment_def seg_start_def Let_def)
  show ?thesis
  proof
    fix a
    define k where "k = unat (a - ?v)"
    have k: "a = ?v + of_nat k" "k < 2 ^ 64"
      using unat_less_pow2 [of "a - ?v"] by (simp_all add: k_def)
    have "copy_segment elf base ph m a
      = win (memset (copied m (?v + of_nat 0) (elf + p_offset ph) ?f) (?v + of_nat ?f) 0 (p_memsz ph - p_filesz ph)) ?v k"
      using run k by (simp add: win_def)
    also have "\<dots> = (if ?f \<le> k \<and> k < ?n then 0 else if k < ?f then m (elf + p_offset ph + of_nat k) else win m ?v k)"
      using f k(2) rest win_copied [of 0 ?f k m ?v "elf + p_offset ph"] by (subst win_memset) auto
    also have "\<dots> = (if covers base a ph then seg_byte m elf base a ph else m a)"
      using f k by (auto simp: covers_def seg_byte_def win_def unat_of_nat_64)
    finally show "copy_segment elf base ph m a = (if covers base a ph then seg_byte m elf base a ph else m a)" .
  qed
qed

section \<open>The loop\<close>

lemma read_phdr_same:
  assumes "\<And>k. k < SIZEOF_PHDR * n \<Longrightarrow> m (segs + of_nat k) = m' (segs' + of_nat k)" and "i < n"
  shows "read_phdr m segs i = read_phdr m' segs' i"
proof -
  let ?a = "segs + of_nat (SIZEOF_PHDR * i)" and ?b = "segs' + of_nat (SIZEOF_PHDR * i)"
  have byte: "m (?a + of_nat k) = m' (?b + of_nat k)" if "k < 56" for k
    using assms(1) [of "SIZEOF_PHDR * i + k"] assms(2) that
    by (simp add: SIZEOF_PHDR_def add.assoc)
  have word: "load_word w m (?a + of_nat j) = load_word w m' (?b + of_nat j)" if "j + w \<le> 56" for j w
    using that byte [of "j + k" for k] unfolding load_word_def by (intro foldr_cong) (auto simp: add.assoc)
  have double: "load64 m (?a + of_nat j) = load64 m' (?b + of_nat j)" if "j \<le> 48" for j
    using word [of j 8] that by (simp add: load64_def load_word_def)
  from double [of 8] double [of 16] double [of 32] double [of 40] double [of 48]
  have "load64 m (?a + 8) = load64 m' (?b + 8)" "load64 m (?a + 16) = load64 m' (?b + 16)"
    "load64 m (?a + 32) = load64 m' (?b + 32)" "load64 m (?a + 40) = load64 m' (?b + 40)"
    "load64 m (?a + 48) = load64 m' (?b + 48)"
    by simp_all
  with word [of 0 4] show ?thesis
    by (simp add: read_phdr_def Let_def load32_def)
qed

text \<open>The file is read as it was at the start: no segment touches it.\<close>

lemma image_file_byte:
  assumes "\<And>ph. ph \<in> set phs \<Longrightarrow> seg_ok elf len base ph" and "k < len" and "len \<le> 2 ^ 64"
  shows "elf_image m elf base phs (elf + of_nat k) = m (elf + of_nat k)"
  using image_cases [of m elf base phs "elf + of_nat k"]
proof
  assume "\<exists>ph \<in> set phs. covers base (elf + of_nat k) ph
    \<and> elf_image m elf base phs (elf + of_nat k) = seg_byte m elf base (elf + of_nat k) ph"
  then obtain ph where "ph \<in> set phs" "covers base (elf + of_nat k) ph"
    by blast
  then have "len \<le> unat (elf + of_nat k - elf)"
    using assms(1) [of ph] unfolding seg_ok_def by blast
  then show ?thesis
    using assms(2,3) by (simp add: unat_of_nat_64)
qed simp

lemma seg_byte_image:
  assumes phs: "\<And>ph. ph \<in> set phs \<Longrightarrow> seg_ok elf len base ph" and ok: "seg_ok elf len base ph"
    and len: "len \<le> 2 ^ 64"
  shows "seg_byte (elf_image m elf base phs) elf base a ph = seg_byte m elf base a ph"
proof (cases "unat (a - seg_start base ph) < unat (p_filesz ph)")
  case True
  let ?k = "unat (p_offset ph) + unat (a - seg_start base ph)"
  have "?k < len"
    using True ok by (simp add: seg_ok_def)
  moreover have "elf + p_offset ph + (a - seg_start base ph) = elf + of_nat ?k"
    by (simp add: add.assoc)
  ultimately show ?thesis
    using True image_file_byte [OF phs, of phs ?k m] len by (simp add: seg_byte_def add.assoc)
qed (simp add: seg_byte_def)

lemma load_segments_image:
  fixes m :: memory and segments :: u64 and n :: nat
  defines "phs \<equiv> map (read_phdr m segments) [0 ..< n]"
  assumes ok: "\<And>ph. ph \<in> set phs \<Longrightarrow> seg_ok elf len base ph" and len: "len \<le> 2 ^ 64"
    and table: "\<And>ph k. ph \<in> set phs \<Longrightarrow> k < SIZEOF_PHDR * n \<Longrightarrow> covers base (segments + of_nat k) ph \<Longrightarrow>
      seg_byte m elf base (segments + of_nat k) ph = m (segments + of_nat k)"
    and "i \<le> n"
  shows "load_segments elf base segments n i (r, elf_image m elf base (take i phs))
    = (fold (note_segment base) (drop i phs) r, elf_image m elf base phs)"
  using \<open>i \<le> n\<close>
proof (induction "n - i" arbitrary: i r)
  case 0
  then show ?case
    by (subst load_segments.simps) (simp add: phs_def)
next
  case (Suc x)
  then have i: "i < n" "i < length phs"
    by (auto simp: phs_def)
  have part: "ph \<in> set phs" if "ph \<in> set (take i phs)" for ph
    using that by (rule in_set_takeD)
  let ?m = "elf_image m elf base (take i phs)"
  have "?m (segments + of_nat k) = m (segments + of_nat k)" if "k < SIZEOF_PHDR * n" for k
    using image_cases [of m elf base "take i phs" "segments + of_nat k"] table [OF part that] by auto
  then have ph: "read_phdr ?m segments i = phs ! i"
    using read_phdr_same [of n ?m segments m segments i] i by (simp add: phs_def)
  have mem: "phs ! i \<in> set phs"
    using i by simp
  have "copy_segment elf base (phs ! i) ?m = elf_image m elf base (take (Suc i) phs)"
    using copy_segment_spec [OF ok [OF mem] len] seg_byte_image [OF ok [OF part] ok [OF mem] len] i
    by (simp add: take_Suc_nth image_snoc fun_eq_iff)
  then have "load_segments elf base segments n i (r, ?m)
      = load_segments elf base segments n (Suc i) (note_segment base (phs ! i) r, elf_image m elf base (take (Suc i) phs))"
    using i ph by (subst load_segments.simps) simp
  also have "\<dots> = (fold (note_segment base) (drop (Suc i) phs) (note_segment base (phs ! i) r), elf_image m elf base phs)"
    using Suc by (intro Suc.hyps(1)) auto
  also have "fold (note_segment base) (drop (Suc i) phs) (note_segment base (phs ! i) r) = fold (note_segment base) (drop i phs) r"
    using i by (simp flip: Cons_nth_drop_Suc)
  finally show ?case .
qed

section \<open>The whole program\<close>

lemma highest_address_bound:
  assumes "\<And>i. i < n \<Longrightarrow> unat (p_vaddr (read_phdr m segs i)) + unat (p_memsz (read_phdr m segs i)) < 2 ^ 63"
  shows "unat (highest_address_of m segs n) < 2 ^ 63
    \<and> (\<forall>i < n. unat (p_vaddr (read_phdr m segs i)) + unat (p_memsz (read_phdr m segs i)) \<le> unat (highest_address_of m segs n))"
  using assms
proof (induction n)
  case (Suc n)
  let ?ph = "read_phdr m segs n"
  have "unat (p_vaddr ?ph + p_memsz ?ph) = unat (p_vaddr ?ph) + unat (p_memsz ?ph)"
    using Suc.prems [of n] by (intro unat_add_no_wrap) simp
  with Suc show ?case
    by (auto simp: Let_def word_less_nat_alt less_Suc_eq dest: le_trans)
qed simp

text \<open>
  C16: the loop over the segments puts the image of the table into memory: every address
  holds what the last segment that covers it says, the byte of the file or zero, and addresses
  that no segment covers keep their content.
\<close>

theorem load_segments_correct:
  assumes "phs = map (read_phdr m segments) [0 ..< n]" and "len \<le> 2 ^ 64"
    and "\<forall>ph \<in> set phs. seg_ok elf len base ph"
    and "\<forall>ph \<in> set phs. \<forall>k < SIZEOF_PHDR * n. covers base (segments + of_nat k) ph \<longrightarrow>
      seg_byte m elf base (segments + of_nat k) ph = m (segments + of_nat k)"
  shows "load_segments elf base segments n 0 (r, m) = (fold (note_segment base) phs r, elf_image m elf base phs)"
  using load_segments_image [of m segments n elf len base 0 r] assms by simp

definition demo_elf :: memory where
  "demo_elf a = (if a = 0x3000 then 7 else if a = 0x3020 then 4 else if a = 0x3028 then 8
     else if a = 0x1001 then 42 else 0xFF * of_bool (0x2000 \<le> a \<and> a < 0x3000))"

lemma demo_elf_phdr:
  "read_phdr demo_elf 0x3000 0 = \<lparr>p_type = 7, p_offset = 0, p_vaddr = 0, p_filesz = 4, p_memsz = 8, p_align = 0\<rparr>"
  by (simp add: read_phdr_def Let_def load32_def load_word_def load64_def demo_elf_def upt_conv_Cons)

theorem load_segments_correct_witness:
  "\<exists>info m. load_segments 0x1000 0x2000 0x3000 1 0
      (\<lparr>tlsStart = 0, tdataSize = 0, tbssSize = 0, tdataStart = 0, tlsAlign = 0, text_section = 0\<rparr>, demo_elf) = (info, m)
    \<and> m 0x2001 = 42 \<and> m 0x2005 = 0 \<and> m 0x2008 = 0xFF \<and> tbssSize info = 4"
proof -
  let ?ph = "\<lparr>p_type = 7, p_offset = 0, p_vaddr = 0, p_filesz = 4, p_memsz = 8, p_align = 0\<rparr> :: Elf64_Phdr"
  have far: "16 \<le> unat (a - 0x1000)" if "unat (a - 0x2000) < 8" for a :: u64
  proof -
    have "a - 0x1000 = (a - 0x2000) + 0x1000"
      by simp
    also have "unat \<dots> = unat (a - 0x2000) + 0x1000"
      using that by (subst unat_add_no_wrap) auto
    finally show ?thesis by simp
  qed
  have "\<not> covers 0x2000 (0x3000 + of_nat k) ?ph" if "k < 56" for k
    using that unat_of_nat_64 [of "0x1000 + k"] by (simp add: covers_def seg_start_def)
  then have *: "load_segments 0x1000 0x2000 0x3000 1 0 (r, demo_elf)
      = (note_segment 0x2000 ?ph r, elf_image demo_elf 0x1000 0x2000 [?ph])" for r
    using load_segments_correct [where phs = "[?ph]" and m = demo_elf and segments = "0x3000" and n = 1 and len = 16 and elf = "0x1000" and base = "0x2000" and r = r] far
    by (simp add: demo_elf_phdr seg_ok_def covers_def seg_start_def SIZEOF_PHDR_def)
  show ?thesis
    unfolding * by (simp add: elf_image_def covers_def seg_start_def seg_byte_def note_segment_def demo_elf_def PT_TLS_def PT_LOAD_def)
qed

section \<open>Staying inside the allocation\<close>

text \<open>
  A well-formed file of \<^verbatim>\<open>len\<close> bytes: its tables and segments lie inside the file, no segment
  wraps around, and where a segment covers the place of the header table, it holds the header
  table, as the first segment of a linked program does.
\<close>

definition program_headers :: "memory \<Rightarrow> u64 \<Rightarrow> Elf64_Phdr list" where
  "program_headers m elf = map (read_phdr m (elf + e_phoff m elf)) [0 ..< unat (e_phnum m elf)]"

definition elf_ok :: "memory \<Rightarrow> u64 \<Rightarrow> nat \<Rightarrow> bool" where
  "elf_ok m elf len \<longleftrightarrow>
     len < 2 ^ 63 \<and> unat (e_phoff m elf) + SIZEOF_PHDR * unat (e_phnum m elf) \<le> len
     \<and> (\<forall>ph \<in> set (program_headers m elf).
          p_filesz ph \<le> p_memsz ph \<and> unat (p_offset ph) + unat (p_filesz ph) \<le> len
          \<and> unat (p_vaddr ph) + unat (p_memsz ph) < 2 ^ 62
          \<and> (\<forall>k < SIZEOF_PHDR * unat (e_phnum m elf). covers 0 (e_phoff m elf + of_nat k) ph \<longrightarrow>
               seg_byte m elf 0 (e_phoff m elf + of_nat k) ph = m (elf + e_phoff m elf + of_nat k)))"

lemma covers_shift: "covers base (base + a) ph \<longleftrightarrow> covers 0 a ph"
  by (simp add: covers_def seg_start_def algebra_simps)

lemma seg_byte_shift: "seg_byte m elf base (base + a) ph = seg_byte m elf 0 a ph"
  by (simp add: seg_byte_def seg_start_def algebra_simps)

lemma seg_byte_cong:
  assumes "\<And>k. k < len \<Longrightarrow> m (elf + of_nat k) = m' (elf + of_nat k)"
    and "unat (p_offset ph) + unat (p_filesz ph) \<le> len"
  shows "seg_byte m elf base a ph = seg_byte m' elf base a ph"
proof (cases "unat (a - seg_start base ph) < unat (p_filesz ph)")
  case True
  let ?k = "unat (p_offset ph) + unat (a - seg_start base ph)"
  have "elf + p_offset ph + (a - seg_start base ph) = elf + of_nat ?k"
    by (simp add: add.assoc)
  then show ?thesis
    using True assms(1) [of ?k] assms(2) by (simp add: seg_byte_def add.assoc)
qed (simp add: seg_byte_def)

definition block_size :: "memory \<Rightarrow> u64 \<Rightarrow> u64" where
  "block_size m elf = AlignSize (program_size_of m elf + PROGRAM_BREAK_SIZE) PAGE_SIZE"

lemma program_size_bounds:
  assumes "elf_ok m elf len"
  shows "unat (program_size_of m elf) < 2 ^ 63"
    and "ph \<in> set (program_headers m elf) \<Longrightarrow> unat (p_vaddr ph) + unat (p_memsz ph) \<le> unat (program_size_of m elf)"
    and "unat (program_size_of m elf) + 64 * 1024 * 1024 \<le> unat (block_size m elf)"
proof -
  have "unat (p_vaddr ph) + unat (p_memsz ph) < 2 ^ 62" if "ph \<in> set (program_headers m elf)" for ph
    using that assms by (auto simp: elf_ok_def)
  then have "unat (p_vaddr (read_phdr m (elf + e_phoff m elf) i)) + unat (p_memsz (read_phdr m (elf + e_phoff m elf) i)) < 2 ^ 63"
    if "i < unat (e_phnum m elf)" for i
    using that by (fastforce simp: program_headers_def)
  note * = highest_address_bound [where m = m and segs = "elf + e_phoff m elf" and n = "unat (e_phnum m elf)", OF this]
  then show size: "unat (program_size_of m elf) < 2 ^ 63"
    by (simp add: program_size_of_def)
  show "unat (p_vaddr ph) + unat (p_memsz ph) \<le> unat (program_size_of m elf)" if "ph \<in> set (program_headers m elf)"
    using that * by (auto simp: program_size_of_def program_headers_def)
  have "unat (program_size_of m elf + PROGRAM_BREAK_SIZE) = unat (program_size_of m elf) + 64 * 1024 * 1024"
    using size by (subst unat_add_no_wrap) (simp_all add: PROGRAM_BREAK_SIZE_def)
  moreover have "unat (AlignSize (program_size_of m elf + PROGRAM_BREAK_SIZE) (2 ^ 12)) = round_up (unat (program_size_of m elf + PROGRAM_BREAK_SIZE)) (2 ^ 12)"
    using size calculation by (intro AlignSize_unat) auto
  ultimately show "unat (program_size_of m elf) + 64 * 1024 * 1024 \<le> unat (block_size m elf)"
    using round_up_bounds [of "2 ^ 12" "unat (program_size_of m elf) + 64 * 1024 * 1024"]
    by (simp add: block_size_def PAGE_SIZE_def)
qed

text \<open>The block that was allocated for the program is apart from the file.\<close>

definition block_apart :: "memory \<Rightarrow> u64 \<Rightarrow> nat \<Rightarrow> u64 \<Rightarrow> bool" where
  "block_apart m elf len start \<longleftrightarrow> (\<forall>a. unat (a - start) < unat (block_size m elf) \<longrightarrow> len \<le> unat (a - elf))"

definition header_copy :: "memory \<Rightarrow> u64 \<Rightarrow> u64 \<Rightarrow> memory" where
  "header_copy m elf start = copied m (start + e_phoff m elf) (elf + e_phoff m elf) (SIZEOF_PHDR * unat (e_phnum m elf))"

lemma covers_in_block:
  assumes "elf_ok m elf len" and "ph \<in> set (program_headers m elf)" and "covers start a ph"
  shows "unat (a - start) < unat (program_size_of m elf)"
proof -
  have "a - start = (a - seg_start start ph) + p_vaddr ph"
    by (simp add: seg_start_def)
  also have "unat \<dots> = unat (a - seg_start start ph) + unat (p_vaddr ph)"
    using assms by (intro unat_add_no_wrap) (auto simp: elf_ok_def covers_def)
  finally show ?thesis
    using assms(3) program_size_bounds(2) [OF assms(1,2)] by (simp add: covers_def)
qed

lemma segments_ok:
  assumes "elf_ok m elf len" and "block_apart m elf len start" and "ph \<in> set (program_headers m elf)"
  shows "seg_ok elf len start ph"
  using assms covers_in_block [OF assms(1,3)] program_size_bounds(3) [OF assms(1)]
  unfolding seg_ok_def block_apart_def by (fastforce simp: elf_ok_def)

definition loadable :: "memory \<Rightarrow> u64 \<Rightarrow> nat \<Rightarrow> u64 \<Rightarrow> bool" where
  "loadable m elf len start \<longleftrightarrow>
     elf_ok m elf len \<and> block_apart m elf len start
     \<and> unat (e_phoff m elf) + SIZEOF_PHDR * unat (e_phnum m elf) \<le> unat (block_size m elf)"

lemma header_slot:
  assumes "elf_ok m elf len" and "k < SIZEOF_PHDR * unat (e_phnum m elf)"
  shows "unat (base + e_phoff m elf + of_nat k - base) = unat (e_phoff m elf) + k"
proof -
  have "unat (e_phoff m elf + of_nat k) = unat (e_phoff m elf) + k"
    using assms by (subst unat_add_no_wrap) (auto simp: elf_ok_def unat_of_nat_64)
  then show ?thesis
    by (simp add: algebra_simps)
qed

lemma header_memcpy:
  assumes "loadable m elf len start"
  shows "memcpy m (start + e_phoff m elf) (elf + e_phoff m elf) (of_nat (SIZEOF_PHDR * unat (e_phnum m elf)))
    = header_copy m elf start"
proof -
  have n: "unat (of_nat (SIZEOF_PHDR * unat (e_phnum m elf)) :: u64) = SIZEOF_PHDR * unat (e_phnum m elf)"
    using assms by (intro unat_of_nat_64) (simp add: loadable_def elf_ok_def)
  have "elf + e_phoff m elf + of_nat i \<noteq> start + e_phoff m elf + of_nat j"
    if "i < SIZEOF_PHDR * unat (e_phnum m elf)" "j < SIZEOF_PHDR * unat (e_phnum m elf)" for i j
  proof
    assume eq: "elf + e_phoff m elf + of_nat i = start + e_phoff m elf + of_nat j"
    have "unat (start + e_phoff m elf + of_nat j - start) < unat (block_size m elf)"
      using that assms header_slot [of m elf len j start] by (simp add: loadable_def)
    then have "len \<le> unat (start + e_phoff m elf + of_nat j - elf)"
      using assms by (simp add: loadable_def block_apart_def)
    then show False
      using that assms header_slot [of m elf len i elf] unfolding eq [symmetric] by (simp add: loadable_def elf_ok_def)
  qed
  then show ?thesis
    using n by (subst memcpy_apart) (simp_all add: header_copy_def)
qed

lemma header_copy_file:
  assumes "loadable m elf len start" and "k < len"
  shows "header_copy m elf start (elf + of_nat k) = m (elf + of_nat k)"
proof -
  have "\<not> unat (elf + of_nat k - (start + e_phoff m elf)) < SIZEOF_PHDR * unat (e_phnum m elf)"
  proof
    assume *: "unat (elf + of_nat k - (start + e_phoff m elf)) < SIZEOF_PHDR * unat (e_phnum m elf)"
    define j where "j = unat (elf + of_nat k - (start + e_phoff m elf))"
    have "elf + of_nat k = start + e_phoff m elf + of_nat j"
      by (simp add: j_def)
    moreover have "unat (start + e_phoff m elf + of_nat j - start) < unat (block_size m elf)"
      using * assms header_slot [of m elf len j start] by (simp add: loadable_def j_def)
    ultimately have "len \<le> unat (elf + of_nat k - elf)"
      using assms by (simp add: loadable_def block_apart_def)
    then show False
      using assms by (simp add: unat_of_nat_64 loadable_def elf_ok_def)
  qed
  then show ?thesis
    by (simp add: header_copy_def copied_def)
qed

lemma header_copy_slot:
  assumes "elf_ok m elf len" and "k < SIZEOF_PHDR * unat (e_phnum m elf)"
  shows "header_copy m elf start (start + e_phoff m elf + of_nat k) = m (elf + e_phoff m elf + of_nat k)"
  using assms by (simp add: header_copy_def copied_def unat_of_nat_64 elf_ok_def)

lemma header_copy_outside:
  assumes "loadable m elf len start" and "unat (block_size m elf) \<le> unat (a - start)"
  shows "header_copy m elf start a = m a"
proof -
  have "\<not> unat (a - (start + e_phoff m elf)) < SIZEOF_PHDR * unat (e_phnum m elf)"
  proof
    assume *: "unat (a - (start + e_phoff m elf)) < SIZEOF_PHDR * unat (e_phnum m elf)"
    then have "unat (start + e_phoff m elf + of_nat (unat (a - (start + e_phoff m elf))) - start) < unat (block_size m elf)"
      using assms header_slot [of m elf len "unat (a - (start + e_phoff m elf))" start] by (simp add: loadable_def)
    then show False
      using assms(2) by simp
  qed
  then show ?thesis
    by (simp add: header_copy_def copied_def)
qed

lemma load_segments_loadable:
  assumes "loadable m elf len start"
  shows "load_segments elf start (start + e_phoff m elf) (unat (e_phnum m elf)) 0 (r, header_copy m elf start)
    = (fold (note_segment start) (program_headers m elf) r, elf_image (header_copy m elf start) elf start (program_headers m elf))"
proof -
  let ?m = "header_copy m elf start" and ?n = "unat (e_phnum m elf)"
  have ok: "elf_ok m elf len" and apart: "block_apart m elf len start"
    using assms by (simp_all add: loadable_def)
  have phs: "map (read_phdr ?m (start + e_phoff m elf)) [0 ..< ?n] = program_headers m elf"
    unfolding program_headers_def
    by (intro map_cong refl read_phdr_same) (auto simp: header_copy_slot [OF ok])
  have table: "seg_byte ?m elf start (start + e_phoff m elf + of_nat k) ph = ?m (start + e_phoff m elf + of_nat k)"
    if "ph \<in> set (program_headers m elf)" "k < SIZEOF_PHDR * ?n" "covers start (start + e_phoff m elf + of_nat k) ph" for ph k
  proof -
    have "seg_byte ?m elf start (start + (e_phoff m elf + of_nat k)) ph = seg_byte m elf 0 (e_phoff m elf + of_nat k) ph"
      unfolding seg_byte_shift using that(1) ok
      by (intro seg_byte_cong [where len = len] header_copy_file [OF assms]) (auto simp: elf_ok_def)
    also have "\<dots> = m (elf + e_phoff m elf + of_nat k)"
      using that ok covers_shift [of start "e_phoff m elf + of_nat k" ph] by (auto simp: elf_ok_def add.assoc)
    finally show ?thesis
      using header_copy_slot [OF ok that(2), of start] by (simp add: add.assoc)
  qed
  have "len \<le> 2 ^ 64"
    using ok by (simp add: elf_ok_def)
  then show ?thesis
    using load_segments_image [of ?m "start + e_phoff m elf" ?n elf len start 0 r] table segments_ok [OF ok apart]
    by (simp add: phs)
qed

text \<open>
  C17: for a well-formed file apart from its block, placing a program writes nothing outside the
  block of \<^verbatim>\<open>AlignSize(program_size + PROGRAM_BREAK_SIZE)\<close> bytes; inside, memory is the image
  of the segments over the copied header table; and the break area begins after every segment
  and ends inside the block.
\<close>

theorem place_at_inside:
  assumes "loadable (Ram s) elf len start" and "get_binary p s = Inr b"
  shows "\<exists>info s' b'. place_at p elf start (program_size_of (Ram s) elf) s = Inr (info, s') \<and> Binaries s' p = Some b'
    \<and> (\<forall>a. unat (block_size (Ram s) elf) \<le> unat (a - start) \<longrightarrow> Ram s' a = Ram s a)
    \<and> Ram s' = elf_image (header_copy (Ram s) elf start) elf start (program_headers (Ram s) elf)
    \<and> (\<forall>ph \<in> set (program_headers (Ram s) elf). unat (p_vaddr ph) + unat (p_memsz ph) \<le> unat (ProgramBreakLow b' - start))
    \<and> unat (ProgramBreakHigh b' - start) = unat (ProgramBreakLow b' - start) + 64 * 1024 * 1024
    \<and> unat (ProgramBreakHigh b' - start) \<le> unat (block_size (Ram s) elf)"
proof -
  have ok: "elf_ok (Ram s) elf len"
    using assms by (simp add: loadable_def)
  let ?m = "header_copy (Ram s) elf start" and ?phs = "program_headers (Ram s) elf" and ?ps = "program_size_of (Ram s) elf"
  have high: "unat (start + ?ps + PROGRAM_BREAK_SIZE - start) = unat ?ps + 64 * 1024 * 1024"
  proof -
    have "unat (?ps + PROGRAM_BREAK_SIZE) = unat ?ps + unat PROGRAM_BREAK_SIZE"
      using program_size_bounds(1) [OF ok] by (intro unat_add_no_wrap) (simp add: PROGRAM_BREAK_SIZE_def)
    moreover have "start + ?ps + PROGRAM_BREAK_SIZE - start = ?ps + PROGRAM_BREAK_SIZE"
      by simp
    ultimately show ?thesis
      by (simp add: PROGRAM_BREAK_SIZE_def)
  qed
  have outside: "elf_image ?m elf start ?phs a = Ram s a" if far: "unat (block_size (Ram s) elf) \<le> unat (a - start)" for a
  proof -
    have "\<not> covers start a ph" if "ph \<in> set ?phs" for ph
      using covers_in_block [OF ok that, of start a] program_size_bounds(3) [OF ok] far by linarith
    then show ?thesis
      using image_cases [of ?m elf start ?phs a] header_copy_outside [OF assms(1) far] by auto
  qed
  define b' where "b' = b\<lparr>ProgramHeaderCount := ucast (e_phnum (Ram s) elf), ProgramHeaderEntrySize := of_nat SIZEOF_PHDR,
          ProgramHeaders := start + e_phoff (Ram s) elf, ProgramBreakLow := start + ?ps,
          ProgramBreakHigh := start + ?ps + PROGRAM_BREAK_SIZE\<rparr>"
  have run: "place_at p elf start ?ps s =
      Inr (fold (note_segment start) ?phs \<lparr>tlsStart = 0, tdataSize = 0, tbssSize = 0, tdataStart = 0, tlsAlign = 0, text_section = 0\<rparr>,
        set_binary p b' (s\<lparr>Ram := elf_image ?m elf start ?phs\<rparr>))"
    using assms(2) by (simp only: place_at_def ok_bind_Inr Let_def header_memcpy [OF assms(1)]
      load_segments_loadable [OF assms(1)] case_prod_conv b'_def)
  have "ProgramBreakLow b' - start = ?ps" "ProgramBreakHigh b' = start + ?ps + PROGRAM_BREAK_SIZE"
    by (simp_all add: b'_def)
  then show ?thesis
    unfolding run using outside high program_size_bounds(2,3) [OF ok]
    by (intro exI [of _ "fold (note_segment start) ?phs _"] exI [of _ "set_binary p b' (s\<lparr>Ram := elf_image ?m elf start ?phs\<rparr>)"] exI [of _ b'])
      (simp add: set_binary_def)
qed

definition demo_file :: memory where
  "demo_file a = (if a = 0x1020 then 64 else if a = 0x1038 then 1 else if a = 0x1040 then 1
     else if a = 0x1060 then 120 else if a = 0x1068 then 200 else 0)"

lemma demo_file_header: "e_phoff demo_file 0x1000 = 64" "e_phnum demo_file 0x1000 = 1"
  by (simp_all add: e_phoff_def e_phnum_def load64_def load16_def load_word_def demo_file_def upt_conv_Cons)

lemma demo_file_phdr:
  "read_phdr demo_file 0x1040 0 = \<lparr>p_type = 1, p_offset = 0, p_vaddr = 0, p_filesz = 120, p_memsz = 200, p_align = 0\<rparr>"
  by (simp add: read_phdr_def Let_def load32_def load_word_def load64_def demo_file_def upt_conv_Cons)

lemma demo_file_headers:
  "program_headers demo_file 0x1000 = [\<lparr>p_type = 1, p_offset = 0, p_vaddr = 0, p_filesz = 120, p_memsz = 200, p_align = 0\<rparr>]"
  by (simp add: program_headers_def demo_file_header demo_file_phdr)

lemma demo_file_size: "program_size_of demo_file 0x1000 = 200" "block_size demo_file 0x1000 = 0x4001000"
  by (simp_all add: program_size_of_def block_size_def demo_file_header demo_file_phdr AlignSize_def PROGRAM_BREAK_SIZE_def PAGE_SIZE_def)

lemma demo_file_loadable: "loadable demo_file 0x1000 120 0x100000"
proof -
  have "120 \<le> unat (a - 0x1000)" if "unat (a - 0x100000) < 0x4001000" for a :: u64
  proof -
    have "a - 0x1000 = (a - 0x100000) + 0xFF000"
      by simp
    also have "unat \<dots> = unat (a - 0x100000) + 0xFF000"
      using that by (subst unat_add_no_wrap) auto
    finally show ?thesis by simp
  qed
  moreover have "unat (64 + of_nat k :: u64) < 120" if "k < 56" for k
    using that unat_of_nat_64 [of "64 + k"] by simp
  ultimately show ?thesis
    by (simp add: loadable_def elf_ok_def block_apart_def demo_file_header demo_file_headers demo_file_size
        SIZEOF_PHDR_def seg_byte_def seg_start_def)
qed

theorem place_at_inside_witness:
  "\<exists>info s' b'. place_at 5 0x1000 0x100000 (program_size_of demo_file 0x1000) (set_binary 5 no_binary (demo_machine\<lparr>Ram := demo_file\<rparr>)) = Inr (info, s')
    \<and> Binaries s' 5 = Some b' \<and> Ram s' 0x100068 = 200 \<and> Ram s' 0x1068 = 200 \<and> Ram s' 0x100078 = 0
    \<and> unat (ProgramBreakLow b' - 0x100000) \<le> 0x1000"
proof -
  let ?s = "set_binary 5 no_binary (demo_machine\<lparr>Ram := demo_file\<rparr>)"
  have "loadable (Ram ?s) 0x1000 120 0x100000" "get_binary 5 ?s = Inr no_binary"
    using demo_file_loadable by (simp_all add: set_binary_def get_binary_def)
  from place_at_inside [OF this] obtain info s' b'
    where run: "place_at 5 0x1000 0x100000 (program_size_of demo_file 0x1000) ?s = Inr (info, s')" "Binaries s' 5 = Some b'"
      and low: "unat (ProgramBreakHigh b' - 0x100000) = unat (ProgramBreakLow b' - 0x100000) + 64 * 1024 * 1024"
        "unat (ProgramBreakHigh b' - 0x100000) \<le> 0x4001000"
      and mem: "Ram s' = elf_image (header_copy demo_file 0x1000 0x100000) 0x1000 0x100000 (program_headers demo_file 0x1000)"
    by (auto simp: set_binary_def demo_file_size)
  have "Ram s' 0x100068 = 200 \<and> Ram s' 0x1068 = 200 \<and> Ram s' 0x100078 = 0"
    unfolding mem by (simp add: demo_file_header demo_file_headers elf_image_def covers_def seg_start_def seg_byte_def
      header_copy_def copied_def SIZEOF_PHDR_def) (simp add: demo_file_def)
  then show ?thesis
    using run low by auto
qed

end
