(* ===== verification/ElfTable.thy ===== *)
theory ElfTable
  imports ElfLoader DemoMachine
begin

text \<open>
  The table of the loaded binaries, \<^verbatim>\<open>GELFBinaries\<close>: what a second load of a name finds, and
  what is left in the table when a binary is freed.
\<close>

section \<open>Names\<close>

lemma strcpy_loop_equal:
  "strcpy_loop dest d src = Inr dest' \<Longrightarrow>
   length dest' = length dest \<and> take d dest' = take d dest \<and> strcmp_loop conv (drop d dest') src = Inr 0"
proof (induction src arbitrary: dest d)
  case (Cons c src)
  then have d: "d < length dest"
    by (auto simp: ok_bind_eq_Inr array_set_eq_Inr)
  show ?case
  proof (cases "c = 0")
    case True
    then have "dest' = dest[d := 0]"
      using Cons.prems d by simp
    then show ?thesis
      using d True by (simp add: drop_update_swap flip: Cons_nth_drop_Suc)
  next
    case False
    then have "strcpy_loop (dest[d := c]) (Suc d) src = Inr dest'"
      using Cons.prems d by simp
    note IH = Cons.IH [OF this]
    then have l: "length dest' = length dest" "take (Suc d) dest' = take (Suc d) (dest[d := c])"
      by simp_all
    then have "dest' ! d = c" "take d dest' = take d dest"
      using d by (simp_all add: take_Suc_conv_app_nth)
    moreover have "drop d dest' = dest' ! d # drop (Suc d) dest'"
      using d l by (simp add: Cons_nth_drop_Suc)
    ultimately show ?thesis
      using IH l(1) by simp
  qed
qed simp

lemma strcpy16_equal: "strcpy16 dest src = Inr dest' \<Longrightarrow> strcmp16 dest' src = Inr 0"
  unfolding strcpy16_def strcmp16_def using strcpy_loop_equal [of dest 0 src dest' uint] by simp

section \<open>The search\<close>

definition name_hit :: "machine \<Rightarrow> wstr \<Rightarrow> nat \<Rightarrow> fault + bool" where
  "name_hit s program i =
     ok_bind (get_binary (GELFBinaries s ! i) s) (\<lambda>b. ok_bind (strcmp16 (Name b) program) (\<lambda>r. Inr (r = 0)))"

lemma find_existing_step:
  "i < GELFBinaryCount s \<Longrightarrow> i < length (GELFBinaries s) \<Longrightarrow> find_existing s program i =
     ok_bind (name_hit s program i) (\<lambda>hit. if hit then Inr (Some (GELFBinaries s ! i)) else find_existing s program (Suc i))"
  by (subst find_existing.simps) (simp add: name_hit_def ok_bind_assoc)

lemma find_existing_skip:
  assumes "\<And>j. i \<le> j \<Longrightarrow> j < k \<Longrightarrow> name_hit s program j = Inr False"
    and "i \<le> k" and "k \<le> GELFBinaryCount s" and "k \<le> length (GELFBinaries s)"
  shows "find_existing s program i = find_existing s program k"
  using assms
proof (induction "k - i" arbitrary: i)
  case (Suc n)
  have "find_existing s program i = find_existing s program (Suc i)"
    using Suc.hyps(2) Suc.prems by (subst find_existing_step) auto
  also have "\<dots> = find_existing s program k"
    using Suc by (intro Suc.hyps(1)) auto
  finally show ?case .
qed simp

lemma find_existing_None:
  "find_existing s program i = Inr None \<Longrightarrow> i \<le> j \<Longrightarrow> j < GELFBinaryCount s \<Longrightarrow>
   j < length (GELFBinaries s) \<and> name_hit s program j = Inr False"
proof (induction "GELFBinaryCount s - i" arbitrary: i)
  case (Suc n)
  have i: "i < GELFBinaryCount s"
    using Suc.prems by simp
  have l: "i < length (GELFBinaries s)"
    using Suc.prems(1) i by (subst (asm) find_existing.simps) (auto simp: ok_bind_eq_Inr array_get_eq_Inr)
  with Suc.prems(1) have hit: "name_hit s program i = Inr False" and rest: "find_existing s program (Suc i) = Inr None"
    by (auto simp: find_existing_step [OF i l] ok_bind_eq_Inr split: if_splits)
  show ?case
  proof (cases "j = i")
    case False
    then show ?thesis
      using Suc.hyps(1) [of "Suc i"] Suc.hyps(2) Suc.prems rest by auto
  qed (simp add: hit l)
qed simp

section \<open>What loading changes\<close>

definition keeps :: "u64 \<Rightarrow> machine \<Rightarrow> machine \<Rightarrow> bool" where
  "keeps p s s' \<longleftrightarrow>
     GELFBinaries s' = GELFBinaries s \<and> GELFBinaryCount s' = GELFBinaryCount s
     \<and> (\<forall>q. q \<noteq> p \<longrightarrow> Binaries s' q = Binaries s q)
     \<and> map_option Name (Binaries s' p) = map_option Name (Binaries s p)"

lemma keeps_refl [simp]: "keeps p s s"
  by (simp add: keeps_def)

lemma keeps_trans: "keeps p s t \<Longrightarrow> keeps p t u \<Longrightarrow> keeps p s u"
  by (simp add: keeps_def)

lemma get_binary_eq_Inr: "get_binary p s = Inr b \<longleftrightarrow> p \<noteq> 0 \<and> Binaries s p = Some b"
  by (auto simp: get_binary_def split: option.splits)

lemma keeps_alloc: "alloc_pages get n level s = Inr (a, s') \<Longrightarrow> keeps p s s'"
  by (auto simp: alloc_pages_def ok_bind_eq_Inr keeps_def)

lemma keeps_set:
  "get_binary p s = Inr b \<Longrightarrow> Name b' = Name b \<Longrightarrow> Binaries s1 = Binaries s \<Longrightarrow>
   GELFBinaries s1 = GELFBinaries s \<Longrightarrow> GELFBinaryCount s1 = GELFBinaryCount s \<Longrightarrow> keeps p s (set_binary p b' s1)"
  by (simp add: keeps_def set_binary_def get_binary_eq_Inr)

lemma keeps_place_at: "place_at p elf start n s = Inr (info, s') \<Longrightarrow> keeps p s s'"
  unfolding place_at_def Let_def ok_bind_eq_Inr
  by (auto simp: split_beta intro!: keeps_set)

lemma keeps_place_program: "place_program get p elf s = Inr (r, s') \<Longrightarrow> keeps p s s'"
  unfolding place_program_def Let_def
  by (auto simp: assertf_eq_Inr ok_bind_eq_Inr intro: keeps_trans keeps_alloc keeps_place_at)

lemma keeps_open_interpreter:
  "open_interpreter get XXH64 p elf sections strings n i s = Inr (True, s') \<Longrightarrow> keeps p s s'"
proof (induction "n - i" arbitrary: i s)
  case 0
  then show ?case
    by (subst (asm) open_interpreter.simps) simp
next
  case (Suc x)
  have IH: "open_interpreter get XXH64 p elf sections strings n (Suc i) s1 = Inr (True, s') \<Longrightarrow> keeps p s1 s'" for s1
    using Suc.hyps(1) [of "Suc i" s1] Suc.hyps(2) by simp
  from Suc.prems Suc.hyps(2) show ?case
    by (subst (asm) open_interpreter.simps)
      (auto simp: Let_def ok_bind_eq_Inr split: if_splits dest!: IH elim!: keeps_trans [rotated] intro!: keeps_set)
qed

section \<open>Loading twice\<close>

lemma LoadElf_existing:
  "find_existing s program 0 = Inr (Some q) \<Longrightarrow> LoadElfFromMemory get XXH64 p program elf s = Inr (q, s)"
  by (simp add: LoadElfFromMemory_def)

lemma name_hit_same:
  assumes "GELFBinaries s' ! j = GELFBinaries s ! j" and "Binaries s' (GELFBinaries s ! j) = Binaries s (GELFBinaries s ! j)"
  shows "name_hit s' program j = name_hit s program j"
  using assms by (simp add: name_hit_def get_binary_def)

text \<open>What a load of a new name leaves: the binary at the end of the table, under its name.\<close>

lemma LoadElf_new:
  assumes "LoadElfFromMemory get XXH64 p program elf s = Inr (q, s')" and "find_existing s program 0 = Inr None" and "q \<noteq> 0"
  obtains t b where "q = p" and "strcmp16 (Name b) program = Inr 0" and "get_binary p s' = Inr b" and "RefCount b = 1"
    and "keeps p (set_binary p b s) t" and "GELFBinaryCount s < length (GELFBinaries s)"
    and "Binaries s' = (Binaries t)(p \<mapsto> b)" and "GELFBinaries s' = (GELFBinaries s)[GELFBinaryCount s := p]"
    and "GELFBinaryCount s' = Suc (GELFBinaryCount s)"
proof -
  define s0 where "s0 name = set_binary p (no_binary\<lparr>Name := name\<rparr>) s" for name
  from assms(1,2) obtain name where name: "strcpy16 (Name no_binary) program = Inr name"
    by (auto simp: LoadElfFromMemory_def ok_bind_eq_Inr)
  have "\<exists>x s1 s2. place_program get p elf (s0 name) = Inr (x, s1) \<and> keeps p s1 s2
    \<and> register_binary p (fst x) (fst (snd x)) (snd (snd x)) elf s2 = Inr (q, s')"
    using assms unfolding LoadElfFromMemory_def Let_def s0_def [symmetric]
    by (simp only: name bind_simps option.case) (auto simp: ok_bind_eq_Inr split_beta split: if_splits dest!: keeps_open_interpreter)
  then obtain x s1 s2 where place: "place_program get p elf (s0 name) = Inr (x, s1)" and interp: "keeps p s1 s2"
    and reg: "register_binary p (fst x) (fst (snd x)) (snd (snd x)) elf s2 = Inr (q, s')"
    by blast
  have k: "keeps p (s0 name) s2"
    using keeps_place_program [OF place] interp by (rule keeps_trans)
  define F :: "ElfBinary \<Rightarrow> ElfBinary" where "F c = c\<lparr>BaseAddress := fst x, AllocatedSize := fst (snd x),
      TextSection := text_section (snd (snd x)), Entry := fst x + e_entry (Ram s2) elf,
      TLSDataStart := tdataStart (snd (snd x)), TLSDataSize := tdataSize (snd (snd x)),
      TBSSSize := tbssSize (snd (snd x)), TLSAlign := ucast (tlsAlign (snd (snd x))), RefCount := 1\<rparr>" for c
  obtain c where c: "get_binary p s2 = Inr c"
    and count: "GELFBinaryCount s2 < length (GELFBinaries s2)" and q: "q = p"
    and s': "s' = set_binary p (F c) (s2\<lparr>GELFBinaries := (GELFBinaries s2)[GELFBinaryCount s2 := p], GELFBinaryCount := Suc (GELFBinaryCount s2)\<rparr>)"
    using reg unfolding register_binary_def Let_def F_def [symmetric]
    by (auto simp: ok_bind_eq_Inr array_set_eq_Inr)
  have b: "Name (F c) = Name c" "RefCount (F c) = 1"
    by (simp_all add: F_def)
  have "Name (F c) = name"
    using k b c by (simp add: keeps_def s0_def set_binary_def get_binary_eq_Inr)
  moreover have "strcmp16 name program = Inr 0"
    using name by (rule strcpy16_equal)
  ultimately show thesis
    using k b c count by (intro that [of "F c" s2, OF q])
      (simp_all add: s' keeps_def s0_def set_binary_def get_binary_eq_Inr)
qed

text \<open>
  Loading is cached by name: after a load that gave a binary, a second load of the same
  name, of any file, gives the same binary and changes nothing.  Nothing: the second user is
  not counted.
\<close>

theorem LoadElf_cached:
  assumes load: "LoadElfFromMemory get XXH64 p program elf s = Inr (q, s')" and "q \<noteq> 0"
    and fresh: "p \<notin> set (take (GELFBinaryCount s) (GELFBinaries s))"
  shows "LoadElfFromMemory get' XXH64' p' program elf' s' = Inr (q, s')"
proof -
  obtain existing where e: "find_existing s program 0 = Inr existing"
    using load by (auto simp: LoadElfFromMemory_def ok_bind_eq_Inr)
  show ?thesis
  proof (cases existing)
    case (Some r)
    then have "q = r" "s' = s"
      using load LoadElf_existing e by (metis Inr_inject prod.inject)+
    then show ?thesis
      using e Some by (simp add: LoadElf_existing)
  next
    case None
    then have none: "find_existing s program 0 = Inr None"
      using e by simp
    obtain t b where q: "q = p" and name: "strcmp16 (Name b) program = Inr 0" and b: "get_binary p s' = Inr b"
      and t: "keeps p (set_binary p b s) t" and len: "GELFBinaryCount s < length (GELFBinaries s)"
      and bs: "Binaries s' = (Binaries t)(p \<mapsto> b)" and table: "GELFBinaries s' = (GELFBinaries s)[GELFBinaryCount s := p]"
        "GELFBinaryCount s' = Suc (GELFBinaryCount s)"
      using LoadElf_new [OF load none \<open>q \<noteq> 0\<close>] by metis
    let ?n = "GELFBinaryCount s"
    have skip: "name_hit s' program j = Inr False" if "j < ?n" for j
    proof -
      have other: "GELFBinaries s ! j \<noteq> p"
        using fresh that len by (auto simp: in_set_conv_nth)
      then have "name_hit s' program j = name_hit s program j"
        using that bs t by (intro name_hit_same) (auto simp: table(1) keeps_def set_binary_def)
      then show ?thesis
        using find_existing_None [OF none _ that] by simp
    qed
    have "find_existing s' program 0 = find_existing s' program ?n"
      using skip len table by (intro find_existing_skip) auto
    also have "\<dots> = Inr (Some p)"
      using len table b name by (subst find_existing_step) (auto simp: name_hit_def)
    finally show ?thesis
      using q by (simp add: LoadElf_existing)
  qed
qed

definition named :: "wstr \<Rightarrow> u64 \<Rightarrow> u64 \<Rightarrow> ElfBinary" where
  "named name base n = no_binary\<lparr>Name := name, BaseAddress := base, AllocatedSize := n, RefCount := 1\<rparr>"

definition with_binary :: "u64 \<Rightarrow> ElfBinary \<Rightarrow> machine \<Rightarrow> machine" where
  "with_binary p b s = set_binary p b (s\<lparr>GELFBinaries := [p], GELFBinaryCount := 1\<rparr>)"

lemma with_binary_hit: "p \<noteq> 0 \<Longrightarrow> name_hit (with_binary p b s) program 0 = ok_bind (strcmp16 (Name b) program) (\<lambda>r. Inr (r = 0))"
  by (simp add: name_hit_def with_binary_def set_binary_def get_binary_def)

theorem LoadElf_cached_witness:
  "LoadElfFromMemory (GetPML4FreePage 1 demo_rpmalloc) (\<lambda>name. 0) 6 [65, 0] 0x9000 (with_binary 5 (named [65, 0] 0x1000 0x2000) demo_machine)
    = Inr (5, with_binary 5 (named [65, 0] 0x1000 0x2000) demo_machine)"
proof -
  let ?s = "with_binary 5 (named [65, 0] 0x1000 0x2000) demo_machine"
  have t: "GELFBinaryCount ?s = 1" "GELFBinaries ?s = [5]"
    by (simp_all add: with_binary_def set_binary_def)
  then have "find_existing ?s [65, 0] 0 = Inr (Some 5)"
    by (subst find_existing_step) (simp_all add: with_binary_hit named_def no_binary_def strcmp16_def)
  then have "LoadElfFromMemory (GetPML4FreePage 1 demo_rpmalloc) (\<lambda>name. 0) 7 [65, 0] 0x8000 ?s = Inr (5, ?s)"
    by (rule LoadElf_existing)
  then show ?thesis
    by (rule LoadElf_cached) (simp_all add: t)
qed

text \<open>
  C18: freeing a binary leaves it in the table: once the last user has unloaded a binary, loading
  any program whose search reaches its entry reads the freed structure.
\<close>

theorem UnloadElf_dangling:
  assumes "get_binary p s = Inr b" and "RefCount b = 1" and "UnloadElf get p s = Inr s'"
    and "i < GELFBinaryCount s" and "i < length (GELFBinaries s)" and "GELFBinaries s ! i = p"
    and "\<forall>j < i. GELFBinaries s ! j \<noteq> p \<and> name_hit s program j = Inr False"
  shows "LoadElfFromMemory get' XXH64' q program elf s' = Inl Uninitialised"
proof -
  have s': "Binaries s' = (Binaries s)(p := None)" "GELFBinaries s' = GELFBinaries s" "GELFBinaryCount s' = GELFBinaryCount s"
    using assms(1-3) by (auto simp: UnloadElf_def Let_def ok_bind_eq_Inr free_pages_def set_binary_def)
  have "name_hit s' program j = Inr False" if "j < i" for j
    using assms(7) that name_hit_same [of s' j s program] by (simp add: s')
  then have "find_existing s' program 0 = find_existing s' program i"
    using assms s' by (intro find_existing_skip) auto
  also have "\<dots> = Inl Uninitialised"
    using assms s' by (subst find_existing_step) (auto simp: name_hit_def get_binary_eq_Inr get_binary_def)
  finally show ?thesis
    by (simp add: LoadElfFromMemory_def)
qed

theorem UnloadElf_dangling_witness:
  "\<exists>s s'. UnloadElf (GetPML4FreePage 1 demo_rpmalloc) 5 s = Inr s'
    \<and> LoadElfFromMemory (GetPML4FreePage 1 demo_rpmalloc) (\<lambda>name. 0) 6 [66, 0] 0x9000 s' = Inl Uninitialised"
proof -
  obtain s1 s2 where "free_pages (GetPML4FreePage 1 demo_rpmalloc) 0x1000 0x2000 s1 = Inr s2"
    using demo_alloc_free by blast
  then obtain s' where s': "UnloadElf (GetPML4FreePage 1 demo_rpmalloc) 5 (with_binary 5 (named [65, 0] 0x1000 0x2000) s1) = Inr s'"
    by (auto simp: UnloadElf_def with_binary_def named_def set_binary_def get_binary_def free_pages_def ok_bind_eq_Inr)
  have "get_binary 5 (with_binary 5 (named [65, 0] 0x1000 0x2000) s1) = Inr (named [65, 0] 0x1000 0x2000)"
    by (simp add: with_binary_def set_binary_def get_binary_def)
  from UnloadElf_dangling [OF this _ s', where i = 0 and program = "[66, 0]" and q = 6 and elf = "0x9000"
      and get' = "GetPML4FreePage 1 demo_rpmalloc" and XXH64' = "\<lambda>name. 0"]
  have "LoadElfFromMemory (GetPML4FreePage 1 demo_rpmalloc) (\<lambda>name. 0) 6 [66, 0] 0x9000 s' = Inl Uninitialised"
    by (simp add: with_binary_def set_binary_def named_def del: GetPML4FreePage.simps)
  with s' show ?thesis
    by blast
qed

end
