(* ===== verification/Descriptors.thy ===== *)
theory Descriptors
  imports Machine
begin

text \<open>
  The descriptor tables of \<^verbatim>\<open>src/kernel/init/gdt.cpp\<close> and \<^verbatim>\<open>src/kernel/init/interrupts.cpp\<close>
  with the structures of \<^verbatim>\<open>inc/kernel/init/gdt.h\<close>.  A bit field of w bits is a \<^verbatim>\<open>w word\<close>, a packed
  structure is the list of its bytes, lowest address first.  The instructions that load the
  tables are left out; the addresses of the handlers and of the task state segment, which the
  linker chooses, are arguments.
\<close>

section \<open>Structures\<close>

datatype GDTEntryIndex = GDT_Null | GDT_KernelCode | GDT_KernelData | GDT_Star48 | GDT_UserData | GDT_UserCode | GDT_TSS

fun gdt_index :: "GDTEntryIndex \<Rightarrow> u16" where
  "gdt_index GDT_Null = 0"
| "gdt_index GDT_KernelCode = 1"
| "gdt_index GDT_KernelData = 2"
| "gdt_index GDT_Star48 = 3"
| "gdt_index GDT_UserData = 4"
| "gdt_index GDT_UserCode = 5"
| "gdt_index GDT_TSS = 6"

record GDTEntry =
  LimitLow :: u16
  BaseLow :: u16
  BaseMiddle :: u8
  Accessed :: "1 word"
  ReadWrite :: "1 word"
  DirectionConforming :: "1 word"
  Executable :: "1 word"
  DescriptorType :: "1 word"
  Privilege :: "2 word"
  Present :: "1 word"
  LimitHigh :: "4 word"
  ReservedBit :: "1 word"
  LongModeCode :: "1 word"
  OpSize :: "1 word"
  Granularity :: "1 word"
  BaseHigh :: u8

definition SIZEOF_GDTEntry :: nat where "SIZEOF_GDTEntry = 8"

text \<open>Bit fields are allocated from the lowest bit upwards.\<close>

definition field :: "nat \<Rightarrow> 'a::len word \<Rightarrow> u8" where
  "field k w = push_bit k (ucast w)"

definition bytes16 :: "u16 \<Rightarrow> u8 list" where
  "bytes16 w = [ucast w, ucast (drop_bit 8 w)]"

definition bytes32 :: "u32 \<Rightarrow> u8 list" where
  "bytes32 w = [ucast w, ucast (drop_bit 8 w), ucast (drop_bit 16 w), ucast (drop_bit 24 w)]"

definition GDTEntry_bytes :: "GDTEntry \<Rightarrow> u8 list" where
  "GDTEntry_bytes e =
     bytes16 (LimitLow e) @ bytes16 (BaseLow e) @
     [BaseMiddle e,
      field 0 (Accessed e) OR field 1 (ReadWrite e) OR field 2 (DirectionConforming e) OR
      field 3 (Executable e) OR field 4 (DescriptorType e) OR field 5 (Privilege e) OR field 7 (Present e),
      field 0 (LimitHigh e) OR field 4 (ReservedBit e) OR field 5 (LongModeCode e) OR field 6 (OpSize e) OR
      field 7 (Granularity e),
      BaseHigh e]"

record TSSEntry =
  tss_LimitLow :: u16
  tss_BaseLow :: u16
  tss_BaseMiddle :: u8
  tss_AccessByte :: u8
  tss_LimitHigh :: "4 word"
  tss_Flags :: "4 word"
  tss_BaseHigh :: u8
  tss_BaseUpper :: u32
  tss_Reserved :: u32

definition TSSEntry_bytes :: "TSSEntry \<Rightarrow> u8 list" where
  "TSSEntry_bytes e =
     bytes16 (tss_LimitLow e) @ bytes16 (tss_BaseLow e) @
     [tss_BaseMiddle e, tss_AccessByte e, field 0 (tss_LimitHigh e) OR field 4 (tss_Flags e), tss_BaseHigh e] @
     bytes32 (tss_BaseUpper e) @ bytes32 (tss_Reserved e)"

record TSS =
  Rsp0 :: u64
  Rsp1 :: u64
  Rsp2 :: u64
  Ists :: "u64 list"
  IoMapBaseAddress :: u16

definition SIZEOF_TSS :: nat where "SIZEOF_TSS = 104"

record tables =
  GDT_TSSEntry :: TSSEntry
  TSSRing0 :: TSS
  GDTLimits :: "u16 \<times> u64"
  IDTLimits :: "u16 \<times> u64"
  ISR_Selector :: u16
  Storage :: memory

section \<open>The segments\<close>

definition gdt_null :: GDTEntry where
  "gdt_null =
     \<lparr>LimitLow = 0, BaseLow = 0, BaseMiddle = 0, Accessed = 0, ReadWrite = 0, DirectionConforming = 0,
      Executable = 0, DescriptorType = 0, Privilege = 0, Present = 0, LimitHigh = 0, ReservedBit = 0,
      LongModeCode = 0, OpSize = 0, Granularity = 0, BaseHigh = 0\<rparr>"

definition gdt_kernel_code :: GDTEntry where
  "gdt_kernel_code =
     \<lparr>LimitLow = 0xFFFF, BaseLow = 0, BaseMiddle = 0, Accessed = 0, ReadWrite = 1, DirectionConforming = 0,
      Executable = 1, DescriptorType = 1, Privilege = 0, Present = 1, LimitHigh = 0xF, ReservedBit = 0,
      LongModeCode = 1, OpSize = 0, Granularity = 1, BaseHigh = 0\<rparr>"

definition gdt_kernel_data :: GDTEntry where
  "gdt_kernel_data =
     \<lparr>LimitLow = 0xFFFF, BaseLow = 0, BaseMiddle = 0, Accessed = 0, ReadWrite = 1, DirectionConforming = 0,
      Executable = 0, DescriptorType = 1, Privilege = 0, Present = 1, LimitHigh = 0xF, ReservedBit = 0,
      LongModeCode = 0, OpSize = 1, Granularity = 1, BaseHigh = 0\<rparr>"

definition gdt_star48 :: GDTEntry where
  "gdt_star48 =
     \<lparr>LimitLow = 0, BaseLow = 0, BaseMiddle = 0, Accessed = 0, ReadWrite = 0, DirectionConforming = 0,
      Executable = 0, DescriptorType = 0, Privilege = 0, Present = 0, LimitHigh = 0, ReservedBit = 0,
      LongModeCode = 0, OpSize = 0, Granularity = 0, BaseHigh = 0\<rparr>"

definition gdt_user_data :: GDTEntry where
  "gdt_user_data =
     \<lparr>LimitLow = 0xFFFF, BaseLow = 0, BaseMiddle = 0, Accessed = 0, ReadWrite = 1, DirectionConforming = 0,
      Executable = 0, DescriptorType = 1, Privilege = 3, Present = 1, LimitHigh = 0xF, ReservedBit = 0,
      LongModeCode = 0, OpSize = 1, Granularity = 1, BaseHigh = 0\<rparr>"

definition gdt_user_code :: GDTEntry where
  "gdt_user_code =
     \<lparr>LimitLow = 0xFFFF, BaseLow = 0, BaseMiddle = 0, Accessed = 0, ReadWrite = 1, DirectionConforming = 0,
      Executable = 1, DescriptorType = 1, Privilege = 3, Present = 1, LimitHigh = 0xF, ReservedBit = 0,
      LongModeCode = 1, OpSize = 0, Granularity = 1, BaseHigh = 0\<rparr>"

definition GDT_entries :: "GDTEntry list" where
  "GDT_entries = [gdt_null, gdt_kernel_code, gdt_kernel_data, gdt_star48, gdt_user_data, gdt_user_code]"

text \<open>The initial value of the entry of the task state segment.\<close>

definition gdt_tss :: TSSEntry where
  "gdt_tss =
     \<lparr>tss_LimitLow = 0xFFFF, tss_BaseLow = 0, tss_BaseMiddle = 0, tss_AccessByte = 0x89, tss_LimitHigh = 0,
      tss_Flags = 0, tss_BaseHigh = 0, tss_BaseUpper = 0, tss_Reserved = 0\<rparr>"

definition GDT_bytes :: "TSSEntry \<Rightarrow> u8 list" where
  "GDT_bytes tss = concat (map GDTEntry_bytes GDT_entries) @ TSSEntry_bytes tss"

definition InitGDT :: "u64 \<Rightarrow> u64 \<Rightarrow> tables \<Rightarrow> tables" where
  "InitGDT tss_base target s =
     (let tss = \<lparr>Rsp0 = 0, Rsp1 = 0, Rsp2 = 0, Ists = replicate 7 0, IoMapBaseAddress = of_nat SIZEOF_TSS\<rparr>;
          entry = (GDT_TSSEntry s)
            \<lparr>tss_LimitLow := of_nat SIZEOF_TSS, tss_AccessByte := 0x89, tss_Flags := 0,
             tss_BaseLow := ucast (tss_base AND 0xFFFF),
             tss_BaseMiddle := ucast (drop_bit 16 tss_base AND 0xFF),
             tss_BaseHigh := ucast (drop_bit 24 tss_base AND 0xFF),
             tss_BaseUpper := ucast (drop_bit 32 tss_base)\<rparr>;
          bytes = GDT_bytes entry
      in s\<lparr>TSSRing0 := tss, GDT_TSSEntry := entry, GDTLimits := (of_nat (length bytes) - 1, target),
           Storage := store_bytes (Storage s) target bytes\<rparr>)"

section \<open>The interrupt gates\<close>

datatype InterruptType = InterruptGate | TrapGate

fun gate_flags :: "InterruptType \<Rightarrow> u8" where
  "gate_flags InterruptGate = 0x8E"
| "gate_flags TrapGate = 0x8F"

record IDTEntry =
  OffsetLow :: u16
  Selector :: u16
  IST :: u8
  Flags :: u8
  OffsetMid :: u16
  OffsetHigh :: u32
  Reserved :: u32

definition SIZEOF_IDTEntry :: nat where "SIZEOF_IDTEntry = 16"

definition IDTEntry_bytes :: "IDTEntry \<Rightarrow> u8 list" where
  "IDTEntry_bytes e =
     bytes16 (OffsetLow e) @ bytes16 (Selector e) @ [IST e, Flags e] @ bytes16 (OffsetMid e) @
     bytes32 (OffsetHigh e) @ bytes32 (Reserved e)"

definition IDT_SIZE :: nat where "IDT_SIZE = 256"

datatype isr =
    DivideByZero_isr | SingleStep | NonMaskableInterrupt | Breakpoint | Overflow | BoundRangeExceeded
  | InvalidOpcode | CoprocessorUnavailable | DoubleFault | InvalidTaskStateSegment | SegmentNotPresent
  | StackSegmentFault | GeneralProtectionFault | PageFault_isr | x87FloatingPointException | AlignmentCheck
  | MachineCheck | SIMDFloatingPointException | VirtualizationException | ControlProtectionException
  | PITInterrupt | SpuriousInterrupt | Callback nat

text \<open>
  The three macros: \<^verbatim>\<open>SET_INTERRUPT\<close> installs a callback as a trap gate, \<^verbatim>\<open>SET_NAMED_INTERRUPT\<close>
  and \<^verbatim>\<open>SET_NAMED_TRAP\<close> a named handler.
\<close>

definition set_gate :: "u64 \<Rightarrow> nat \<Rightarrow> InterruptType \<Rightarrow> u64 \<Rightarrow> u32 \<Rightarrow> memory \<Rightarrow> memory" where
  "set_gate idt num flags address codeSelector m =
     store_bytes m (idt + of_nat (SIZEOF_IDTEntry * num))
       (IDTEntry_bytes
         \<lparr>OffsetLow = ucast (address AND 0xFFFF), Selector = ucast (codeSelector * of_nat SIZEOF_GDTEntry),
          IST = 0, Flags = gate_flags flags, OffsetMid = ucast (drop_bit 16 address AND 0xFFFF),
          OffsetHigh = ucast (drop_bit 32 address AND 0xFFFFFFFF), Reserved = 0\<rparr>)"

definition SET_INTERRUPT :: "nat \<Rightarrow> nat \<times> InterruptType \<times> isr" where
  "SET_INTERRUPT num = (num, TrapGate, Callback num)"

definition SET_NAMED_INTERRUPT :: "nat \<Rightarrow> isr \<Rightarrow> nat \<times> InterruptType \<times> isr" where
  "SET_NAMED_INTERRUPT num h = (num, InterruptGate, h)"

definition SET_NAMED_TRAP :: "nat \<Rightarrow> isr \<Rightarrow> nat \<times> InterruptType \<times> isr" where
  "SET_NAMED_TRAP num h = (num, TrapGate, h)"

definition default_gates :: "(nat \<times> InterruptType \<times> isr) list" where
  "default_gates =
     [SET_NAMED_TRAP 0 DivideByZero_isr, SET_NAMED_TRAP 1 SingleStep, SET_NAMED_TRAP 2 NonMaskableInterrupt,
      SET_NAMED_TRAP 3 Breakpoint, SET_NAMED_TRAP 4 Overflow, SET_NAMED_TRAP 5 BoundRangeExceeded,
      SET_NAMED_TRAP 6 InvalidOpcode, SET_NAMED_TRAP 7 CoprocessorUnavailable, SET_NAMED_TRAP 8 DoubleFault,
      SET_INTERRUPT 9,
      SET_NAMED_TRAP 10 InvalidTaskStateSegment, SET_NAMED_TRAP 11 SegmentNotPresent,
      SET_NAMED_TRAP 12 StackSegmentFault, SET_NAMED_INTERRUPT 13 GeneralProtectionFault,
      SET_NAMED_TRAP 14 PageFault_isr, SET_INTERRUPT 15, SET_NAMED_TRAP 16 x87FloatingPointException,
      SET_NAMED_TRAP 17 AlignmentCheck, SET_NAMED_TRAP 18 MachineCheck,
      SET_NAMED_TRAP 19 SIMDFloatingPointException, SET_NAMED_TRAP 20 VirtualizationException,
      SET_NAMED_TRAP 21 ControlProtectionException]
     @ map SET_INTERRUPT [22 ..< 32] @ [SET_NAMED_INTERRUPT 32 PITInterrupt] @ map SET_INTERRUPT [33 ..< 70]
     @ [SET_NAMED_INTERRUPT 0xFF SpuriousInterrupt]"

definition InitializeDefaultInterrupts :: "(isr \<Rightarrow> u64) \<Rightarrow> u64 \<Rightarrow> u32 \<Rightarrow> tables \<Rightarrow> tables" where
  "InitializeDefaultInterrupts isr_address idt codeSelector s =
     s\<lparr>ISR_Selector := ucast (codeSelector * of_nat SIZEOF_GDTEntry),
       Storage := fold (\<lambda>(num, flags, h). set_gate idt num flags (isr_address h) codeSelector) default_gates (Storage s)\<rparr>"

definition InitIDT :: "(isr \<Rightarrow> u64) \<Rightarrow> u64 \<Rightarrow> u32 \<Rightarrow> tables \<Rightarrow> u64 \<times> tables" where
  "InitIDT isr_address target codeSelector s =
     (let idt_size = of_nat (SIZEOF_IDTEntry * IDT_SIZE);
          s = s\<lparr>IDTLimits := (ucast (idt_size - 1), target), Storage := memset (Storage s) target 0 idt_size\<rparr>
      in (idt_size, InitializeDefaultInterrupts isr_address target codeSelector s))"

end
