(* ===== verification/Interrupts.thy ===== *)
theory Interrupts
  imports Descriptors
begin

text \<open>
  The interrupt handlers of \<^verbatim>\<open>src/kernel/init/interrupts.cpp\<close> and the stack trace of
  \<^verbatim>\<open>src/kernel/utilities/termination.cpp\<close>.  What is printed on the console is recorded in the
  drivers, the commands to the interrupt controller in a list.  The entry code in assembly,
  which saves the registers, is left out.  Reading a frame whose page is not mapped is a page
  fault.
\<close>

section \<open>Console\<close>

definition wide_text :: "string \<Rightarrow> wstr" where
  "wide_text t = map char_code t"

definition console :: "wstr \<Rightarrow> machine \<Rightarrow> machine" where
  "console t s = s\<lparr>World := (World s)\<lparr>Printed := (t, False) # Printed (World s)\<rparr>\<rparr>"

text \<open>\<^verbatim>\<open>witoabuf\<close> into a buffer of n characters, and the printing of its result.\<close>

definition console_number :: "bool \<Rightarrow> nat \<Rightarrow> nat \<Rightarrow> int \<Rightarrow> int \<Rightarrow> machine \<Rightarrow> fault + machine" where
  "console_number sgnd w n v base s =
     ok_bind (witoabuf16 sgnd w (replicate n 0) v base 0) (\<lambda>(buf, len).
     Inr (console (takeWhile (\<lambda>c. c \<noteq> 0) buf) s))"

definition console_hex :: "nat \<Rightarrow> u64 \<Rightarrow> machine \<Rightarrow> fault + machine" where
  "console_hex n v s = console_number False 64 n (uint v) 16 s"

section \<open>PrintStackTrace\<close>

definition mapped_address :: "u64 \<Rightarrow> machine \<Rightarrow> fault + bool" where
  "mapped_address a s = ok_bind (GetPhysicalAddress a True (Memory (World s))) (\<lambda>pa. Inr (pa \<noteq> INVALID_ADDRESS))"

definition read_mapped :: "u64 \<Rightarrow> machine \<Rightarrow> fault + u64" where
  "read_mapped a s = ok_bind (mapped_address a s) (\<lambda>ok. if ok then Inr (load64 (Ram s) a) else Inl PageFault)"

text \<open>The two lines for a frame; the second adds the remark.\<close>

definition print_frame :: "int \<Rightarrow> u64 \<Rightarrow> wstr \<Rightarrow> machine \<Rightarrow> fault + machine" where
  "print_frame index rip remark s =
     ok_bind (console_number True 32 2048 index 16 (console (wide_text ''#0x'') s)) (\<lambda>s.
     ok_bind (console_hex 2048 rip (console (wide_text '': 0x'') s)) (\<lambda>s.
     Inr (console remark s)))"

text \<open>
  One turn of the loop: \<^verbatim>\<open>None\<close> leaves the loop, otherwise the next frame.  \<^verbatim>\<open>Top->RIP\<close> is read
  before the test whether \<^verbatim>\<open>Top\<close> is mapped.
\<close>

definition trace_step :: "int \<Rightarrow> int \<Rightarrow> u64 \<Rightarrow> u64 \<Rightarrow> machine \<Rightarrow> fault + u64 option \<times> machine" where
  "trace_step max_frames index frame prev s =
     (if frame = 0 \<or> frame = prev then Inr (None, s)
      else
        ok_bind (read_mapped (frame + 8) s) (\<lambda>rip.
        if rip = 0 \<or> max_frames = 0 then Inr (None, s)
        else
          ok_bind (mapped_address frame s) (\<lambda>ok1.
          ok_bind (if ok1 then mapped_address (frame + 16) s else Inr False) (\<lambda>ok.
          if \<not> ok then
            ok_bind (print_frame index rip (wide_text '' INVALID ADDRESS!'' @ [10]) s) (\<lambda>s. Inr (None, s))
          else
            ok_bind (print_frame index rip [10] s) (\<lambda>s.
            ok_bind (read_mapped frame s) (\<lambda>nxt. Inr (Some nxt, s)))))))"

partial_function (option) trace_loop :: "int \<Rightarrow> int \<Rightarrow> u64 \<Rightarrow> u64 \<Rightarrow> machine \<Rightarrow> (fault + machine) option" where
  "trace_loop max_frames index frame prev s =
     (case trace_step max_frames index frame prev s of
        Inl e \<Rightarrow> Some (Inl e)
      | Inr (None, s) \<Rightarrow> Some (Inr s)
      | Inr (Some nxt, s) \<Rightarrow> trace_loop (max_frames - 1) (index + 1) nxt frame s)"

text \<open>
  \<^verbatim>\<open>local\<close> is the address of the frame on the function's own stack, \<^verbatim>\<open>current\<close> the frame of the
  caller that \<^verbatim>\<open>GetCurrentStackFrame\<close> returns.
\<close>

definition PrintStackTrace :: "u64 \<Rightarrow> u64 \<Rightarrow> int \<Rightarrow> u64 \<Rightarrow> u64 \<Rightarrow> machine \<Rightarrow> (fault + machine) option" where
  "PrintStackTrace local current max_frames stack_rip stack_rbp s =
     (let s = s\<lparr>Ram := store64 (store64 (Ram s) local stack_rbp) (local + 8) stack_rip\<rparr>
      in trace_loop max_frames 0 (if stack_rbp = 0 then current else local) 0 s)"

section \<open>Page faults\<close>

definition PAGE_FAULT_PRESENT :: nat where "PAGE_FAULT_PRESENT = 0"
definition PAGE_FAULT_WRITE :: nat where "PAGE_FAULT_WRITE = 1"
definition PAGE_FAULT_USER :: nat where "PAGE_FAULT_USER = 2"
definition PAGE_FAULT_RESERVED_WRITE :: nat where "PAGE_FAULT_RESERVED_WRITE = 3"
definition PAGE_FAULT_EXECUTE :: nat where "PAGE_FAULT_EXECUTE = 4"
definition PAGE_FAULT_PROTECTION_KEY :: nat where "PAGE_FAULT_PROTECTION_KEY = 5"
definition PAGE_FAULT_SHADOW_STACK :: nat where "PAGE_FAULT_SHADOW_STACK = 6"
definition PAGE_FAULT_SOFTWARE_GUARD_EXTENSION :: nat where "PAGE_FAULT_SOFTWARE_GUARD_EXTENSION = 15"

text \<open>The words of the first line, each printed on its own.\<close>

definition fault_words :: "u64 \<Rightarrow> u64 \<Rightarrow> u64 \<Rightarrow> string list" where
  "fault_words interrupt cr2 error =
     (if interrupt = 0xD then [''General protectoin fault '']
      else if interrupt = 0xE then
        [if bit error PAGE_FAULT_SHADOW_STACK then ''Shadow stack violation ''
         else if cr2 = 0 then ''Null pointer exception '' else ''Access violation '',
         if bit error PAGE_FAULT_EXECUTE then ''executing ''
         else if bit error PAGE_FAULT_WRITE then ''writing '' else ''reading '']
        @ (if bit error PAGE_FAULT_PRESENT then [''unpaged ''] else [])
        @ [if bit error PAGE_FAULT_USER then ''user '' else ''kernel '']
        @ (if bit error PAGE_FAULT_RESERVED_WRITE then [''RESERVED WRITE ''] else [])
        @ (if bit error PAGE_FAULT_PROTECTION_KEY then [''PROTECTION KEY ''] else [])
        @ (if bit error PAGE_FAULT_SOFTWARE_GUARD_EXTENSION then [''SGX ''] else [])
      else [''Unknown AV exception ''])"

definition AccessViolationCommon ::
  "u64 \<Rightarrow> u64 \<Rightarrow> u64 \<Rightarrow> u64 \<Rightarrow> u64 \<Rightarrow> u64 \<Rightarrow> u64 \<Rightarrow> u64 \<Rightarrow> machine \<Rightarrow> (fault + machine) option" where
  "AccessViolationCommon local current interrupt rip cr2 error code_segment rbp s =
     (case
        (let s = fold console (map wide_text (fault_words interrupt cr2 error)) s in
         ok_bind (console_hex 32 error (console (wide_text ''(error 0x'') s)) (\<lambda>s.
         ok_bind (console_hex 32 cr2 (console (wide_text '' address 0x'') (console (wide_text '')'' @ [10]) s))) (\<lambda>s.
         console_hex 32 rip (console (10 # wide_text ''RIP: 0x'') (console [10] s)))))
      of Inl e \<Rightarrow> Some (Inl e) | Inr s \<Rightarrow> PrintStackTrace local current 30 rip rbp s)"

text \<open>
  \<^verbatim>\<open>STOP\<close> and the end of \<^verbatim>\<open>InterruptDummy\<close>: with a debugger the break returns, without one the
  processor halts for good.
\<close>

definition stop :: "bool \<Rightarrow> machine \<Rightarrow> fault + machine" where
  "stop debugger s = (if debugger then Inr s else Inl Halted)"

definition AccessViolationException ::
  "bool \<Rightarrow> u64 \<Rightarrow> u64 \<Rightarrow> u64 \<Rightarrow> u64 \<Rightarrow> u64 \<Rightarrow> u64 \<Rightarrow> u64 \<Rightarrow> u64 \<Rightarrow> machine \<Rightarrow> (fault + machine) option" where
  "AccessViolationException debugger local current interrupt rip cr2 error code_segment rbp s =
     map_option (\<lambda>r. ok_bind r (stop debugger)) (AccessViolationCommon local current interrupt rip cr2 error code_segment rbp s)"

definition InterruptDummy ::
  "bool \<Rightarrow> u64 \<Rightarrow> u64 \<Rightarrow> string \<Rightarrow> u64 \<Rightarrow> u64 \<Rightarrow> u64 \<Rightarrow> u64 \<Rightarrow> u64 \<Rightarrow> u64 \<Rightarrow> bool \<Rightarrow> bool \<Rightarrow> machine
    \<Rightarrow> (fault + machine) option" where
  "InterruptDummy debugger local current message interrupt rip cr2 error code_segment rbp terminate hook s =
     (let printed =
        (if hook then Inr s
         else
           ok_bind (console_hex 32 error (console (10 # wide_text ''Error code: 0x'') (console (wide_text message) s))) (\<lambda>s.
           ok_bind (console_hex 32 rip (console (10 # wide_text ''RIP: 0x'') s)) (\<lambda>s.
           ok_bind (console_hex 32 cr2 (console (10 # wide_text ''CR2: 0x'') s)) (\<lambda>s. Inr (console [10] s)))))
      in case printed of Inl e \<Rightarrow> Some (Inl e) | Inr s \<Rightarrow>
        map_option (\<lambda>r. ok_bind r (\<lambda>s. if terminate then stop debugger s else Inr s))
          (if hook \<and> interrupt \<noteq> 3 then PrintStackTrace local current 30 rip rbp s else Some (Inr s)))"

section \<open>Callbacks\<close>

text \<open>
  A handler is a function of its context and of the state; the outputs to ports are recorded,
  the newest first.  A slot that was never set is a null pointer.
\<close>

type_synonym 'w handler = "u64 \<Rightarrow> 'w \<Rightarrow> fault + 'w"

record 'w callbacks =
  ISR_Callbacks :: "'w handler option list"
  ISR_Contexts :: "u64 list"
  PortOutput :: "(u16 \<times> u8) list"

definition OutPort :: "u16 \<Rightarrow> u8 \<Rightarrow> 'w callbacks \<Rightarrow> 'w callbacks" where
  "OutPort port v c = c\<lparr>PortOutput := (port, v) # PortOutput c\<rparr>"

definition SetInterruptHandler :: "int \<Rightarrow> 'w handler \<Rightarrow> u64 \<Rightarrow> 'w callbacks \<Rightarrow> fault + 'w callbacks" where
  "SetInterruptHandler n h ctxt c =
     (if n < 0 then Inl OutOfBounds
      else
        ok_bind (array_set (ISR_Callbacks c) (nat n) (Some h)) (\<lambda>cs.
        ok_bind (array_set (ISR_Contexts c) (nat n) ctxt) (\<lambda>xs.
        Inr (c\<lparr>ISR_Callbacks := cs, ISR_Contexts := xs\<rparr>))))"

text \<open>\<^verbatim>\<open>DefaultInterrupt\<close> is \<^verbatim>\<open>STOP\<close>.\<close>

definition DefaultInterrupt :: "bool \<Rightarrow> 'w handler" where
  "DefaultInterrupt debugger ctxt w = (if debugger then Inr w else Inl Halted)"

definition ClearInterruptHandler :: "bool \<Rightarrow> int \<Rightarrow> 'w callbacks \<Rightarrow> fault + 'w callbacks" where
  "ClearInterruptHandler debugger n c = SetInterruptHandler n (DefaultInterrupt debugger) 0 c"

definition InterruptHandlerWithContext :: "u64 \<Rightarrow> 'w callbacks \<times> 'w \<Rightarrow> fault + 'w callbacks \<times> 'w" where
  "InterruptHandlerWithContext n cw =
     (case cw of (c, w) \<Rightarrow>
        ok_bind (array_get (ISR_Callbacks c) (unat n)) (\<lambda>h.
        ok_bind (array_get (ISR_Contexts c) (unat n)) (\<lambda>ctxt.
        case h of
          None \<Rightarrow> Inl NullPointer
        | Some h \<Rightarrow> ok_bind (h ctxt w) (\<lambda>w. Inr (OutPort 0x20 0x20 c, w)))))"

end
