(* ===== verification/DescriptorsCorrect.thy ===== *)
theory DescriptorsCorrect
  imports Descriptors
begin

text \<open>
  The tables as the processor reads them: a reader of the descriptor formats, and what it finds
  behind the registers once the tables were built.
\<close>

section \<open>The processor's view\<close>

text \<open>The byte k of the descriptor that a selector names.\<close>

definition descriptor_byte :: "memory \<Rightarrow> u64 \<Rightarrow> u16 \<Rightarrow> nat \<Rightarrow> u8" where
  "descriptor_byte m gdt selector k = m (gdt + of_nat (unat selector div 8 * 8 + k))"

definition descriptor_present :: "memory \<Rightarrow> u64 \<Rightarrow> u16 \<Rightarrow> bool" where
  "descriptor_present m gdt selector \<longleftrightarrow> bit (descriptor_byte m gdt selector 5) 7"

definition descriptor_ring :: "memory \<Rightarrow> u64 \<Rightarrow> u16 \<Rightarrow> nat" where
  "descriptor_ring m gdt selector = unat (drop_bit 5 (descriptor_byte m gdt selector 5) AND 3)"

text \<open>Long mode code: a code segment with the L bit set and the D bit clear.\<close>

definition is_code64 :: "memory \<Rightarrow> u64 \<Rightarrow> u16 \<Rightarrow> bool" where
  "is_code64 m gdt selector \<longleftrightarrow>
     bit (descriptor_byte m gdt selector 5) 4 \<and> bit (descriptor_byte m gdt selector 5) 3
     \<and> bit (descriptor_byte m gdt selector 6) 5 \<and> \<not> bit (descriptor_byte m gdt selector 6) 6"

definition is_writable_data :: "memory \<Rightarrow> u64 \<Rightarrow> u16 \<Rightarrow> bool" where
  "is_writable_data m gdt selector \<longleftrightarrow>
     bit (descriptor_byte m gdt selector 5) 4 \<and> \<not> bit (descriptor_byte m gdt selector 5) 3
     \<and> bit (descriptor_byte m gdt selector 5) 1 \<and> \<not> bit (descriptor_byte m gdt selector 6) 5"

definition join_bytes :: "u8 list \<Rightarrow> u64" where
  "join_bytes bs = foldr (\<lambda>i v. push_bit (8 * i) (ucast (bs ! i)) OR v) [0 ..< length bs] 0"

definition tss_base_at :: "memory \<Rightarrow> u64 \<Rightarrow> u16 \<Rightarrow> u64" where
  "tss_base_at m gdt selector = join_bytes (map (descriptor_byte m gdt selector) [2, 3, 4, 7, 8, 9, 10, 11])"

definition tss_limit_at :: "memory \<Rightarrow> u64 \<Rightarrow> u16 \<Rightarrow> nat" where
  "tss_limit_at m gdt selector =
     unat (descriptor_byte m gdt selector 0) + 256 * unat (descriptor_byte m gdt selector 1)
     + 65536 * unat (descriptor_byte m gdt selector 6 AND 0xF)"

text \<open>A gate: its type, selector and target, when it is present.\<close>

definition gate_at :: "memory \<Rightarrow> u64 \<Rightarrow> nat \<Rightarrow> (u8 \<times> u64 \<times> u64) option" where
  "gate_at m idt v =
     (let b = (\<lambda>k. m (idt + of_nat (16 * v + k))) in
      if bit (b 5) 7 then Some (b 5, join_bytes [b 2, b 3], join_bytes [b 0, b 1, b 6, b 7, b 8, b 9, b 10, b 11])
      else None)"

section \<open>Bytes\<close>

lemma join_byte_of: "join_bytes (map (byte_of w) [0 ..< 8]) = w"
proof -
  have "join_bytes (map (byte_of w) [0 ..< 8]) = foldr (\<lambda>i v. push_bit (8 * i) (ucast (byte_of w i)) OR v) [0 ..< 8] 0"
    unfolding join_bytes_def by (rule foldr_cong) auto
  then show ?thesis
    by (simp only: word64_bytes)
qed

lemma join_eight:
  assumes "b0 = byte_of w 0" "b1 = byte_of w 1" "b2 = byte_of w 2" "b3 = byte_of w 3"
    "b4 = byte_of w 4" "b5 = byte_of w 5" "b6 = byte_of w 6" "b7 = byte_of w 7"
  shows "join_bytes [b0, b1, b2, b3, b4, b5, b6, b7] = w"
  using join_byte_of [of w] assms by (simp add: upt_conv_Cons eval_nat_numeral)

lemma split_base:
  "ucast (ucast (w AND 0xFFFF :: u64) :: u16) = (byte_of w 0)"
  "ucast (drop_bit 8 (ucast (w AND 0xFFFF :: u64) :: u16)) = byte_of w 1"
  "ucast (drop_bit 16 w AND 0xFF) = byte_of w 2"
  "ucast (drop_bit 24 w AND 0xFF) = byte_of w 3"
  "ucast (ucast (drop_bit 16 w AND 0xFFFF) :: u16) = byte_of w 2"
  "ucast (drop_bit 8 (ucast (drop_bit 16 w AND 0xFFFF) :: u16)) = byte_of w 3"
  "ucast (ucast (drop_bit 32 w) :: u32) = byte_of w 4"
  "ucast (drop_bit 8 (ucast (drop_bit 32 w) :: u32)) = byte_of w 5"
  "ucast (drop_bit 16 (ucast (drop_bit 32 w) :: u32)) = byte_of w 6"
  "ucast (drop_bit 24 (ucast (drop_bit 32 w) :: u32)) = byte_of w 7"
proof -
  have m: "(0xFFFF :: u64) = mask 16" "(0xFF :: u64) = mask 8"
    by (simp_all add: mask_eq_exp_minus_1)
  show "ucast (ucast (w AND 0xFFFF :: u64) :: u16) = (byte_of w 0)"
    "ucast (drop_bit 8 (ucast (w AND 0xFFFF :: u64) :: u16)) = byte_of w 1"
    "ucast (drop_bit 16 w AND 0xFF) = byte_of w 2"
    "ucast (drop_bit 24 w AND 0xFF) = byte_of w 3"
    "ucast (ucast (drop_bit 16 w AND 0xFFFF) :: u16) = byte_of w 2"
    "ucast (drop_bit 8 (ucast (drop_bit 16 w AND 0xFFFF) :: u16)) = byte_of w 3"
    "ucast (ucast (drop_bit 32 w) :: u32) = byte_of w 4"
    "ucast (drop_bit 8 (ucast (drop_bit 32 w) :: u32)) = byte_of w 5"
    "ucast (drop_bit 16 (ucast (drop_bit 32 w) :: u32)) = byte_of w 6"
    "ucast (drop_bit 24 (ucast (drop_bit 32 w) :: u32)) = byte_of w 7"
    unfolding m byte_of_def by (rule bit_word_eqI; simp add: bit_simps; linarith?)+
qed

lemma split_high:
  "ucast (ucast (drop_bit 32 w AND 0xFFFFFFFF :: u64) :: u32) = byte_of w 4"
  "ucast (drop_bit 8 (ucast (drop_bit 32 w AND 0xFFFFFFFF :: u64) :: u32)) = byte_of w 5"
  "ucast (drop_bit 16 (ucast (drop_bit 32 w AND 0xFFFFFFFF :: u64) :: u32)) = byte_of w 6"
  "ucast (drop_bit 24 (ucast (drop_bit 32 w AND 0xFFFFFFFF :: u64) :: u32)) = byte_of w 7"
proof -
  have "ucast (drop_bit 32 w AND 0xFFFFFFFF :: u64) = (ucast (drop_bit 32 w) :: u32)"
    unfolding mask_eq_exp_minus_1 [of 32, where 'a = u64, simplified, symmetric]
    by (rule bit_word_eqI) (auto simp: bit_simps)
  then show "ucast (ucast (drop_bit 32 w AND 0xFFFFFFFF :: u64) :: u32) = byte_of w 4"
    "ucast (drop_bit 8 (ucast (drop_bit 32 w AND 0xFFFFFFFF :: u64) :: u32)) = byte_of w 5"
    "ucast (drop_bit 16 (ucast (drop_bit 32 w AND 0xFFFFFFFF :: u64) :: u32)) = byte_of w 6"
    "ucast (drop_bit 24 (ucast (drop_bit 32 w AND 0xFFFFFFFF :: u64) :: u32)) = byte_of w 7"
    by (simp_all only: split_base)
qed

lemma join_two: "join_bytes [ucast w, ucast (drop_bit 8 w)] = (ucast (w :: u16) :: u64)"
  unfolding join_bytes_def
  by (rule bit_word_eqI) (auto simp: bit_simps upt_conv_Cons dest: bit_imp_le_length)

section \<open>Segments\<close>

lemma stored_byte:
  "length bs < 2 ^ 64 \<Longrightarrow> k < length bs \<Longrightarrow> store_bytes m a bs (a + of_nat k) = bs ! k"
  by (simp add: store_bytes_spec unat_of_nat_64)

lemma GDT_bytes_length: "length (GDT_bytes tss) = 64"
  by (simp add: GDT_bytes_def GDT_entries_def GDTEntry_bytes_def TSSEntry_bytes_def bytes16_def bytes32_def)

lemma GDT_byte:
  assumes "unat selector div 8 * 8 + k < 64"
  shows "descriptor_byte (store_bytes m gdt (GDT_bytes tss)) gdt selector k = GDT_bytes tss ! (unat selector div 8 * 8 + k)"
  unfolding descriptor_byte_def using assms by (intro stored_byte) (simp_all add: GDT_bytes_length)

lemmas GDT_layout = GDT_bytes_def GDT_entries_def GDTEntry_bytes_def TSSEntry_bytes_def bytes16_def bytes32_def field_def
  gdt_null_def gdt_kernel_code_def gdt_kernel_data_def gdt_star48_def gdt_user_data_def gdt_user_code_def

text \<open>
  C19: the descriptors the processor finds behind GDTR are well-formed and stand where the
  system call instructions look for them: with STAR = 0x18 : 0x8, SYSCALL takes 0x8 and 0x10,
  which are 64 bit code and writable data of ring 0, SYSRET takes 0x18 + 16 and 0x18 + 8, which
  are 64 bit code and writable data of ring 3; 0 and 0x18 are not present; the limit covers the
  seven entries; and entry 6 describes the task state segment, wherever it is.
\<close>

theorem InitGDT_well_formed:
  assumes s'_def: "s' = InitGDT tss_base target s" and m_def: "m = Storage s'" and gdt_def: "gdt = snd (GDTLimits s')"
    and "tss_LimitHigh (GDT_TSSEntry s) = 0"
  shows "unat (fst (GDTLimits s')) + 1 = 8 * 8
    \<and> is_code64 m gdt 0x8 \<and> descriptor_ring m gdt 0x8 = 0 \<and> is_writable_data m gdt (0x8 + 8) \<and> descriptor_ring m gdt (0x8 + 8) = 0
    \<and> is_code64 m gdt (0x18 + 16) \<and> descriptor_ring m gdt (0x18 + 16) = 3
    \<and> is_writable_data m gdt (0x18 + 8) \<and> descriptor_ring m gdt (0x18 + 8) = 3
    \<and> (\<forall>i. descriptor_present m gdt (gdt_index i * 8) \<longleftrightarrow> i \<noteq> GDT_Null \<and> i \<noteq> GDT_Star48)
    \<and> gdt_index GDT_KernelCode * 8 = 0x8 \<and> gdt_index GDT_UserCode * 8 = 0x28 \<and> gdt_index GDT_UserData * 8 = 0x20
    \<and> tss_base_at m gdt (gdt_index GDT_TSS * 8) = tss_base \<and> tss_limit_at m gdt (gdt_index GDT_TSS * 8) = 104"
proof -
  obtain tss where m: "m = store_bytes (Storage s) target (GDT_bytes tss)"
    and tss: "tss_BaseLow tss = ucast (tss_base AND 0xFFFF)" "tss_BaseMiddle tss = ucast (drop_bit 16 tss_base AND 0xFF)"
      "tss_BaseHigh tss = ucast (drop_bit 24 tss_base AND 0xFF)" "tss_BaseUpper tss = ucast (drop_bit 32 tss_base)"
      "tss_LimitLow tss = 104" "tss_LimitHigh tss = 0" "tss_AccessByte tss = 0x89" "tss_Flags tss = 0"
    using assms(4) by (auto simp: m_def s'_def InitGDT_def Let_def SIZEOF_TSS_def)
  have gdt: "gdt = target" "unat (fst (GDTLimits s')) = 63"
    by (simp_all add: gdt_def s'_def InitGDT_def Let_def GDT_bytes_length)
  note byte = GDT_byte [where m = "Storage s" and gdt = target and tss = tss]
  have segs: "descriptor_byte m gdt 8 5 = 0x9A" "descriptor_byte m gdt 8 6 = 0xAF"
    "descriptor_byte m gdt 0x10 5 = 0x92" "descriptor_byte m gdt 0x10 6 = 0xCF"
    "descriptor_byte m gdt 0x28 5 = 0xFA" "descriptor_byte m gdt 0x28 6 = 0xAF"
    "descriptor_byte m gdt 0x20 5 = 0xF2" "descriptor_byte m gdt 0x20 6 = 0xCF"
    "descriptor_byte m gdt 0 5 = 0" "descriptor_byte m gdt 0x18 5 = 0"
    by (simp_all add: m gdt(1) byte) (simp_all add: GDT_layout)
  have base: "map (descriptor_byte m gdt 0x30) [2, 3, 4, 7, 8, 9, 10, 11] =
      map (byte_of tss_base) [0, 1, 2, 3, 4, 5, 6, 7]" "descriptor_byte m gdt 0x30 5 = 0x89"
    "descriptor_byte m gdt 0x30 0 = 104" "descriptor_byte m gdt 0x30 1 = 0" "descriptor_byte m gdt 0x30 6 = 0"
    by (simp_all add: m gdt(1) byte) (simp_all add: GDT_layout tss split_base)
  have "tss_base_at m gdt 0x30 = tss_base"
    unfolding tss_base_at_def base(1) using join_eight [OF refl refl refl refl refl refl refl refl, of tss_base] by simp
  moreover have "descriptor_present m gdt (gdt_index i * 8) \<longleftrightarrow> i \<noteq> GDT_Null \<and> i \<noteq> GDT_Star48" for i
    using segs base(2) by (cases i) (simp_all add: descriptor_present_def)
  ultimately show ?thesis
    using segs base(2-5) gdt(2)
    by (simp add: is_code64_def is_writable_data_def descriptor_ring_def tss_limit_at_def)
qed

definition demo_tables :: tables where
  "demo_tables = \<lparr>GDT_TSSEntry = gdt_tss,
     TSSRing0 = \<lparr>Rsp0 = 0, Rsp1 = 0, Rsp2 = 0, Ists = replicate 7 0, IoMapBaseAddress = 0\<rparr>,
     GDTLimits = (0, 0), IDTLimits = (0, 0), ISR_Selector = 0, Storage = (\<lambda>a. 0xEE)\<rparr>"

theorem InitGDT_well_formed_witness:
  "\<exists>s'. s' = InitGDT 0xFFFF800012345678 0x5000 demo_tables
    \<and> tss_base_at (Storage s') (snd (GDTLimits s')) 0x30 = 0xFFFF800012345678"
  using InitGDT_well_formed [of _ "0xFFFF800012345678" "0x5000" demo_tables, OF refl refl refl]
  by (simp add: demo_tables_def gdt_tss_def)

section \<open>Gates\<close>

lemma IDTEntry_length: "length (IDTEntry_bytes e) = 16"
  by (simp add: IDTEntry_bytes_def bytes16_def bytes32_def)

definition gate_entry :: "u32 \<Rightarrow> (isr \<Rightarrow> u64) \<Rightarrow> InterruptType \<times> isr \<Rightarrow> u8 list" where
  "gate_entry codeSelector isr_address g =
     (let address = isr_address (snd g) in
      IDTEntry_bytes
         \<lparr>OffsetLow = ucast (address AND 0xFFFF), Selector = ucast (codeSelector * of_nat SIZEOF_GDTEntry),
          IST = 0, Flags = gate_flags (fst g), OffsetMid = ucast (drop_bit 16 address AND 0xFFFF),
          OffsetHigh = ucast (drop_bit 32 address AND 0xFFFFFFFF), Reserved = 0\<rparr>)"

lemma gate_entry_bytes:
  "gate_entry codeSelector isr_address (t, h) =
     map (byte_of (isr_address h)) [0, 1] @ bytes16 (ucast (8 * codeSelector)) @ [0, gate_flags t] @
     map (byte_of (isr_address h)) [2, 3, 4, 5, 6, 7] @ [0, 0, 0, 0]"
proof -
  have "byte_of (drop_bit 16 w) 0 = byte_of w 2" "byte_of (drop_bit 16 w) (Suc 0) = byte_of w 3" for w
    by (simp_all add: byte_of_def)
  then show ?thesis
    by (simp add: gate_entry_def Let_def IDTEntry_bytes_def bytes16_def bytes32_def SIZEOF_GDTEntry_def
        split_base split_high mult.commute)
qed

lemma set_gate_window:
  assumes "num < 256" and "v < 256" and "k < 16"
  shows "win (set_gate idt num t (isr_address h) codeSelector m) idt (16 * v + k)
    = (if v = num then gate_entry codeSelector isr_address (t, h) ! k else win m idt (16 * v + k))"
  unfolding set_gate_def SIZEOF_IDTEntry_def
  using assms by (subst win_store_bytes) (auto simp: IDTEntry_length put_def gate_entry_def Let_def)

lemma gates_window:
  assumes "\<forall>g \<in> set gs. fst g < 256" and "v < 256" and "k < 16"
  shows "win (fold (\<lambda>(num, t, h). set_gate idt num t (isr_address h) codeSelector) gs m) idt (16 * v + k)
    = (case map_of (rev gs) v of None \<Rightarrow> win m idt (16 * v + k) | Some g \<Rightarrow> gate_entry codeSelector isr_address g ! k)"
  using assms
proof (induction gs rule: rev_induct)
  case (snoc g gs)
  then show ?case
    by (cases g) (simp add: set_gate_window)
qed simp

lemma default_gates_keys: "distinct (map fst default_gates)" "\<forall>g \<in> set default_gates. fst g < 256"
  by (simp_all add: default_gates_def SET_INTERRUPT_def SET_NAMED_INTERRUPT_def SET_NAMED_TRAP_def o_def)

lemma default_gates_rev: "map_of (rev default_gates) = map_of default_gates"
  using default_gates_keys(1) by (subst map_of_inject_set) (simp_all add: rev_map [symmetric])

lemma InitIDT_gates:
  assumes "InitIDT isr_address target codeSelector s = (n, s')" and "v < 256"
  shows "snd (IDTLimits s') = target \<and> unat (fst (IDTLimits s')) + 1 = 16 * 256
    \<and> gate_at (Storage s') target v =
        map_option (\<lambda>(t, h). (gate_flags t, ucast (ucast (8 * codeSelector) :: u16), isr_address h)) (map_of default_gates v)"
proof -
  let ?m = "memset (Storage s) target 0 (of_nat (16 * 256))"
  have run: "Storage s' = fold (\<lambda>(num, t, h). set_gate target num t (isr_address h) codeSelector) default_gates ?m"
    "IDTLimits s' = (4095, target)"
    using assms(1) by (auto simp: InitIDT_def InitializeDefaultInterrupts_def Let_def SIZEOF_IDTEntry_def IDT_SIZE_def)
  have zero: "win ?m target j = 0" if "j < 4096" for j
    using that win_memset [of 0 "of_nat (16 * 256)" j ?m target 0] win_memset [of 0 "of_nat (16 * 256)" j "Storage s" target 0]
    by (simp add: unat_of_nat_64)
  have byte: "Storage s' (target + of_nat (16 * v + k)) =
      (case map_of default_gates v of None \<Rightarrow> 0 | Some g \<Rightarrow> gate_entry codeSelector isr_address g ! k)" if "k < 16" for k
    using gates_window [OF default_gates_keys(2) assms(2) that, of target isr_address codeSelector ?m]
      zero [of "16 * v + k"] that assms(2)
    by (simp add: run(1) win_def default_gates_rev split: option.splits)
  show ?thesis
  proof (cases "map_of default_gates v")
    case None
    then show ?thesis
      using byte [of 5] run(2) by (simp add: gate_at_def Let_def)
  next
    case (Some g)
    have present: "bit (gate_flags t) 7" for t
      by (cases t) simp_all
    obtain t h where g: "g = (t, h)"
      by (cases g)
    have "Storage s' (target + of_nat (16 * v + k)) = gate_entry codeSelector isr_address (t, h) ! k" if "k < 16" for k
      using byte [OF that] Some g by simp
    from this [of 0] this [of 1] this [of 2] this [of 3] this [of 5] this [of 6] this [of 7] this [of 8] this [of 9] this [of 10] this [of 11]
    show ?thesis
      using Some run(2) present [of t] unfolding gate_entry_bytes g gate_at_def
      by (simp add: bytes16_def join_eight join_two del: of_nat_add of_nat_mult)
  qed
qed

text \<open>
  C20: the interrupt table round trips: what the processor reads in gate v of the table behind
  IDTR is the type, the selector and the full 64 bit address that were installed for v, for the
  72 vectors with a handler, and every other gate is not present.
\<close>

theorem InitIDT_roundtrip:
  assumes "InitIDT isr_address target codeSelector s = (n, s')" and "v < 256"
  shows "snd (IDTLimits s') = target \<and> unat (fst (IDTLimits s')) + 1 = 16 * 256
    \<and> gate_at (Storage s') target v =
        map_option (\<lambda>(t, h). (gate_flags t, ucast (ucast (8 * codeSelector) :: u16), isr_address h)) (map_of default_gates v)"
  using assms by (rule InitIDT_gates)

theorem InitIDT_roundtrip_witness:
  "\<exists>n s'. InitIDT (\<lambda>h. if h = Callback 40 then 0xFFFFFFFF80012345 else 7) 0x9000 1 demo_tables = (n, s')
    \<and> gate_at (Storage s') 0x9000 40 = Some (0x8F, 8, 0xFFFFFFFF80012345) \<and> gate_at (Storage s') 0x9000 100 = None"
proof -
  obtain n s' where s': "InitIDT (\<lambda>h. if h = Callback 40 then 0xFFFFFFFF80012345 else 7) 0x9000 1 demo_tables = (n, s')"
    by (cases "InitIDT (\<lambda>h. if h = Callback 40 then 0xFFFFFFFF80012345 else 7) 0x9000 1 demo_tables")
  have "map_of default_gates 40 = Some (TrapGate, Callback 40)" "map_of default_gates 100 = None"
    by (simp_all add: default_gates_def SET_INTERRUPT_def SET_NAMED_INTERRUPT_def SET_NAMED_TRAP_def upt_conv_Cons)
  with InitIDT_roundtrip [OF s', of 40] InitIDT_roundtrip [OF s', of 100] s' show ?thesis
    by simp
qed

end
