(* ===== verification/InterruptsCorrect.thy ===== *)
theory InterruptsCorrect
  imports Interrupts DescriptorsCorrect DemoMachine
begin

text \<open>
  The stack trace comes to an end, and a registered handler is what the processor reaches
  through the interrupt table.
\<close>

section \<open>The stack trace\<close>

lemma console_number_printed:
  assumes "console_number sgnd w n v base s = Inr s'"
  shows "length (Printed (World s')) = Suc (length (Printed (World s)))"
  using assms by (auto simp: console_number_def console_def ok_bind_eq_Inr)

lemma print_frame_printed:
  assumes "print_frame index rip remark s = Inr s'"
  shows "length (Printed (World s')) = length (Printed (World s)) + 5"
  using assms
  by (auto simp: print_frame_def console_hex_def ok_bind_eq_Inr console_def dest!: console_number_printed)

lemma trace_step_printed:
  assumes "trace_step max_frames index frame prev s = Inr (next_frame, s')"
  shows "length (Printed (World s')) \<le> length (Printed (World s)) + (if max_frames = 0 then 0 else 5)"
    and "max_frames = 0 \<Longrightarrow> next_frame = None"
  using assms unfolding trace_step_def
  by (auto simp: ok_bind_eq_Inr split: if_splits dest!: print_frame_printed)

lemma trace_loop_returns:
  assumes "0 \<le> max_frames"
  shows "\<exists>r. trace_loop max_frames index frame prev s = Some r
    \<and> (\<forall>s'. r = Inr s' \<longrightarrow> length (Printed (World s')) \<le> length (Printed (World s)) + 5 * nat max_frames)"
  using assms
proof (induction "nat max_frames" arbitrary: max_frames index frame prev s)
  case 0
  then show ?case
    using trace_step_printed [of max_frames index frame prev s]
    by (subst trace_loop.simps) (auto split: sum.splits option.splits)
next
  case (Suc n)
  show ?case
  proof (cases "trace_step max_frames index frame prev s")
    case (Inr p)
    obtain nxt s1 where p: "p = (nxt, s1)"
      by (cases p)
    have printed: "length (Printed (World s1)) \<le> length (Printed (World s)) + 5"
      using trace_step_printed(1) [of max_frames index frame prev s nxt s1] Inr p by (auto split: if_splits)
    show ?thesis
    proof (cases nxt)
      case None
      then show ?thesis
        using Inr p printed Suc.hyps(2) by (subst trace_loop.simps) simp
    next
      case (Some a)
      have "n = nat (max_frames - 1)" "0 \<le> max_frames - 1"
        using Suc.hyps(2) Suc.prems by linarith+
      from Suc.hyps(1) [OF this, of "index + 1" a frame s1]
      show ?thesis
        using Inr p Some printed Suc.hyps(2) by (subst trace_loop.simps) force
    qed
  qed (subst trace_loop.simps, simp)
qed

text \<open>
  C21: a stack trace always comes to an end: for every memory, also one with a cyclic chain of
  frames, it returns or faults, and prints no more than the given number of frames, of five
  texts each.
\<close>

theorem PrintStackTrace_returns:
  assumes "0 \<le> max_frames"
  shows "\<exists>r. PrintStackTrace local current max_frames rip rbp s = Some r
    \<and> (\<forall>s'. r = Inr s' \<longrightarrow> length (Printed (World s')) \<le> length (Printed (World s)) + 5 * nat max_frames)"
  unfolding PrintStackTrace_def Let_def
  using trace_loop_returns [OF assms, of 0 _ 0 "s\<lparr>Ram := _\<rparr>"] by simp

theorem PrintStackTrace_returns_witness:
  "\<exists>r. PrintStackTrace 0x7000 0 30 0x1234 0x7000 demo_machine = Some r
    \<and> (\<forall>s'. r = Inr s' \<longrightarrow> length (Printed (World s')) \<le> 150)"
  using PrintStackTrace_returns [of 30 "0x7000" 0 "0x1234" "0x7000" demo_machine] by (simp add: demo_machine_def)

text \<open>
  The test for an unmapped frame comes too late: the return address is read first, so that the
  trace of a broken stack faults itself.
\<close>

lemma trace_unmapped:
  assumes "frame \<noteq> 0" and "frame \<noteq> prev" and "GetPhysicalAddress (frame + 8) True (Memory (World s)) = Inr INVALID_ADDRESS"
  shows "trace_loop max_frames index frame prev s = Some (Inl PageFault)"
  using assms by (subst trace_loop.simps) (simp add: trace_step_def read_mapped_def mapped_address_def)

section \<open>Callbacks\<close>

text \<open>
  What the processor does for a vector whose gate names a callback: the entry of callback v
  passes the number v on.
\<close>

definition deliver_interrupt ::
  "(isr \<Rightarrow> u64) \<Rightarrow> memory \<Rightarrow> u64 \<Rightarrow> nat \<Rightarrow> 'w callbacks \<times> 'w \<Rightarrow> (fault + 'w callbacks \<times> 'w) option" where
  "deliver_interrupt isr_address m idt v cw =
     (case gate_at m idt v of
        None \<Rightarrow> None
      | Some (flags, selector, a) \<Rightarrow>
          if a = isr_address (Callback v) then Some (InterruptHandlerWithContext (of_nat v) cw) else None)"

definition callback_vectors :: "nat list" where
  "callback_vectors = [9, 15] @ [22 ..< 32] @ [33 ..< 70]"

lemma set_callback_vectors: "set callback_vectors = {9, 15} \<union> {22 ..< 32} \<union> {33 ..< 70}"
  by (simp add: callback_vectors_def del: upt_rec_numeral)

lemma set_default_gates:
  "set default_gates = set (take 9 default_gates) \<union> {SET_INTERRUPT 9} \<union> set (take 5 (drop 10 default_gates))
    \<union> {SET_INTERRUPT 15} \<union> set (take 6 (drop 16 default_gates)) \<union> SET_INTERRUPT ` {22 ..< 32}
    \<union> {SET_NAMED_INTERRUPT 32 PITInterrupt} \<union> SET_INTERRUPT ` {33 ..< 70} \<union> {SET_NAMED_INTERRUPT 0xFF SpuriousInterrupt}"
  unfolding default_gates_def by (simp del: upt_rec_numeral) blast

lemma named_gates:
  "g \<in> set (take 9 default_gates) \<union> set (take 5 (drop 10 default_gates)) \<union> set (take 6 (drop 16 default_gates)) \<Longrightarrow>
   snd (snd g) \<noteq> Callback k"
  unfolding default_gates_def by (auto simp: SET_NAMED_INTERRUPT_def SET_NAMED_TRAP_def simp del: upt_rec_numeral)

lemma callback_gates:
  "v \<in> set callback_vectors \<Longrightarrow> map_of default_gates v = Some (TrapGate, Callback v)"
  "map_of default_gates v = Some (t, Callback k) \<Longrightarrow> v \<in> set callback_vectors"
proof -
  show "map_of default_gates v = Some (TrapGate, Callback v)" if "v \<in> set callback_vectors"
    using that default_gates_keys(1)
    by (intro map_of_is_SomeI) (auto simp: set_callback_vectors set_default_gates SET_INTERRUPT_def)
  show "v \<in> set callback_vectors" if "map_of default_gates v = Some (t, Callback k)"
    using map_of_SomeD [OF that] named_gates [of "(v, t, Callback k)" k]
    by (auto simp: set_callback_vectors set_default_gates SET_INTERRUPT_def SET_NAMED_INTERRUPT_def)
qed

lemma handler_delivers:
  assumes "InitIDT isr_address target codeSelector t = (n, t')" 
    and "\<forall>g \<in> set default_gates. isr_address (snd (snd g)) = isr_address (Callback v) \<longrightarrow> snd (snd g) = Callback v"
    and "length (ISR_Callbacks c) = 256" and "length (ISR_Contexts c) = 256" and "v < 256"
  shows "\<exists>c'. SetInterruptHandler (int v) h ctxt c = Inr c'
    \<and> (\<forall>w. deliver_interrupt isr_address (Storage t') target v (c', w) =
         (if v \<in> set callback_vectors then Some (ok_bind (h ctxt w) (\<lambda>w. Inr (OutPort 0x20 0x20 c', w))) else None))
    \<and> (\<forall>u. u \<noteq> v \<longrightarrow> ISR_Callbacks c' ! u = ISR_Callbacks c ! u \<and> ISR_Contexts c' ! u = ISR_Contexts c ! u)"
proof -
  let ?c = "c\<lparr>ISR_Callbacks := (ISR_Callbacks c)[v := Some h], ISR_Contexts := (ISR_Contexts c)[v := ctxt]\<rparr>"
  have set: "SetInterruptHandler (int v) h ctxt c = Inr ?c"
    using assms by (simp add: SetInterruptHandler_def)
  have run: "InterruptHandlerWithContext (of_nat v) (?c, w) = ok_bind (h ctxt w) (\<lambda>w. Inr (OutPort 0x20 0x20 ?c, w))" for w
    using assms by (simp add: InterruptHandlerWithContext_def unat_of_nat_64)
  have gate: "gate_at (Storage t') target v = map_option (\<lambda>(t, h). (gate_flags t, ucast (ucast (8 * codeSelector) :: u16), isr_address h)) (map_of default_gates v)"
    using InitIDT_gates [OF assms(1,5)] by simp
  have "deliver_interrupt isr_address (Storage t') target v (?c, w) =
      (if v \<in> set callback_vectors then Some (ok_bind (h ctxt w) (\<lambda>w. Inr (OutPort 0x20 0x20 ?c, w))) else None)" for w
  proof (cases "v \<in> set callback_vectors")
    case True
    then show ?thesis
      by (simp add: deliver_interrupt_def gate callback_gates(1) run)
  next
    case False
    then show ?thesis
      using callback_gates(2) [of v] assms(2)
      by (cases "map_of default_gates v") (auto simp: deliver_interrupt_def gate dest!: map_of_SomeD)
  qed
  then show ?thesis
    using set by auto
qed

text \<open>
  A handler is reached: after \<^verbatim>\<open>SetInterruptHandler\<close> on one of the vectors 9, 15, 22-31 and
  33-69, the processor, going through the table that \<^verbatim>\<open>InitIDT\<close> built, runs that handler with
  its context and then acknowledges the interrupt; the other slots keep their handlers.  The
  call also succeeds for every other vector below 256, whose handler is never reached.
\<close>

theorem SetInterruptHandler_delivers:
  assumes "InitIDT isr_address target codeSelector t = (n, t')" 
    and "\<forall>g \<in> set default_gates. isr_address (snd (snd g)) = isr_address (Callback v) \<longrightarrow> snd (snd g) = Callback v"
    and "length (ISR_Callbacks c) = 256" and "length (ISR_Contexts c) = 256" and "v < 256"
  shows "\<exists>c'. SetInterruptHandler (int v) h ctxt c = Inr c'
    \<and> (\<forall>w. deliver_interrupt isr_address (Storage t') target v (c', w) =
         (if v \<in> set callback_vectors then Some (ok_bind (h ctxt w) (\<lambda>w. Inr (OutPort 0x20 0x20 c', w))) else None))
    \<and> (\<forall>u. u \<noteq> v \<longrightarrow> ISR_Callbacks c' ! u = ISR_Callbacks c ! u \<and> ISR_Contexts c' ! u = ISR_Contexts c ! u)"
  by (rule handler_delivers [OF assms])

theorem SetInterruptHandler_delivers_witness:
  "\<exists>(c' :: nat callbacks) n t'. InitIDT (\<lambda>h. if h = Callback 33 then 0x8000 else 7) 0x9000 1 demo_tables = (n, t')
    \<and> SetInterruptHandler 33 (\<lambda>ctxt w. Inr (w + unat ctxt)) 5
      \<lparr>ISR_Callbacks = replicate 256 None, ISR_Contexts = replicate 256 0, PortOutput = []\<rparr> = Inr c'
    \<and> deliver_interrupt (\<lambda>h. if h = Callback 33 then 0x8000 else 7) (Storage t') 0x9000 33 (c', 1) = Some (Inr (OutPort 0x20 0x20 c', 6))"
proof -
  let ?c = "\<lparr>ISR_Callbacks = replicate 256 None, ISR_Contexts = replicate 256 0, PortOutput = []\<rparr> :: nat callbacks"
  obtain n t' where t': "InitIDT (\<lambda>h. if h = Callback 33 then 0x8000 else 7) 0x9000 1 demo_tables = (n, t')"
    by (cases "InitIDT (\<lambda>h. if h = Callback 33 then 0x8000 else 7) 0x9000 1 demo_tables")
  have hyp: "\<forall>g \<in> set default_gates. (if snd (snd g) = Callback 33 then 0x8000 else 7 :: u64)
      = (if Callback 33 = Callback 33 then 0x8000 else 7) \<longrightarrow> snd (snd g) = Callback 33"
    by simp
  from SetInterruptHandler_delivers [OF t' hyp, where c = ?c and ctxt = 5 and h = "\<lambda>ctxt w. Inr (w + unat ctxt)"]
  obtain c' where c': "SetInterruptHandler 33 (\<lambda>ctxt w. Inr (w + unat ctxt)) 5 ?c = Inr c'"
    and d: "\<forall>w. deliver_interrupt (\<lambda>h. if h = Callback 33 then 0x8000 else 7) (Storage t') 0x9000 33 (c', w) =
      (if 33 \<in> set callback_vectors then Some (ok_bind (Inr (w + unat (5 :: u64))) (\<lambda>w. Inr (OutPort 0x20 0x20 c', w))) else None)"
    by auto
  have "33 \<in> set callback_vectors"
    by (simp add: set_callback_vectors)
  then show ?thesis
    using t' c' d [rule_format, of 1] by (intro exI conjI) auto
qed

end
