(* ===== verification/Process.thy ===== *)
theory Process
  imports ElfLoader ThreadLocal Descriptors
begin

text \<open>
  Processes, \<^verbatim>\<open>src/kernel/process/process.cpp\<close>.  Running the program is an argument: what
  \<^verbatim>\<open>SwitchToUserMode\<close> does to the machine until the program exits, given the stack pointer, the
  entry and the two selectors.  The reload of the data segments is left out.  A null terminated
  array of strings is the list of its strings, each with its terminator.
\<close>

type_synonym user_run = "u64 \<Rightarrow> u64 \<Rightarrow> u16 \<Rightarrow> u16 \<Rightarrow> machine \<Rightarrow> fault + machine"

definition InitializeUserMode :: "machine \<Rightarrow> machine" where
  "InitializeUserMode s = s\<lparr>GELFBinaries := replicate 16 0, GELFBinaryCount := 0\<rparr>"

section \<open>Scheduling\<close>

definition user_selector :: "GDTEntryIndex \<Rightarrow> u16" where
  "user_selector i = gdt_index i * of_nat SIZEOF_GDTEntry OR 3"

definition ScheduleProcess :: "user_run \<Rightarrow> u64 \<Rightarrow> machine \<Rightarrow> fault + machine" where
  "ScheduleProcess run p s =
     ok_bind (get_process p s) (\<lambda>q.
     ok_bind (SetUserFSBase (FSBase (TLS q)) (s\<lparr>GCurrentProcess := p\<rparr>)) (\<lambda>s.
     ok_bind (get_binary (Binary q) s) (\<lambda>b.
     ok_bind (run (DefaultThreadStackStart q) (Entry b) (user_selector GDT_UserCode) (user_selector GDT_UserData)
         (SetUserGS s)) (\<lambda>s.
     if GKernelEnvironment s = 0 then Inl NullPointer
     else
       let s = SetKernelGSBase (GKernelEnvironment s) s;
           s = SetFSBase (load64 (Ram s) (GKernelEnvironment s)) s
       in Inr (s\<lparr>GCurrentProcess := 0\<rparr>)))))"

section \<open>Auxiliary vectors\<close>

definition AT_NULL :: u64 where "AT_NULL = 0"
definition AT_PHDR :: u64 where "AT_PHDR = 3"
definition AT_PHENT :: u64 where "AT_PHENT = 4"
definition AT_PHNUM :: u64 where "AT_PHNUM = 5"
definition AT_PAGESZ :: u64 where "AT_PAGESZ = 6"
definition AT_BASE :: u64 where "AT_BASE = 7"
definition AT_ENTRY :: u64 where "AT_ENTRY = 9"
definition AT_RANDOM :: u64 where "AT_RANDOM = 25"

definition WriteAuxEntry :: "bool \<Rightarrow> u64 \<times> u64 \<Rightarrow> u64 \<times> memory \<Rightarrow> u64 \<times> memory" where
  "WriteAuxEntry dry_run entry sm =
     (case (entry, sm) of ((aux_entry, aux_value), (sp, m)) \<Rightarrow>
        let sp = sp - 16 in
        (sp, if dry_run then m else store64 (store64 m sp aux_entry) (sp + 8) aux_value))"

definition aux_vectors :: "Process \<Rightarrow> u64 \<Rightarrow> machine \<Rightarrow> fault + (u64 \<times> u64) list" where
  "aux_vectors q cookie s =
     (if SubBinary q \<noteq> 0 then
        ok_bind (get_binary (SubBinary q) s) (\<lambda>b.
        Inr [(AT_NULL, 0), (AT_PAGESZ, 4096), (AT_RANDOM, cookie),
             (AT_ENTRY, Entry b), (AT_BASE, BaseAddress b), (AT_PHNUM, ucast (ProgramHeaderCount b)),
             (AT_PHENT, ucast (ProgramHeaderEntrySize b)), (AT_PHDR, ProgramHeaders b)])
      else
        ok_bind (get_binary (Binary q) s) (\<lambda>b.
        Inr [(AT_NULL, 0), (AT_PAGESZ, 4096), (AT_RANDOM, cookie),
             (AT_ENTRY, Entry b), (AT_BASE, BaseAddress b), (AT_PAGESZ, 4096),
             (AT_PHNUM, ucast (ProgramHeaderCount b)), (AT_PHENT, ucast (ProgramHeaderEntrySize b)),
             (AT_PHDR, ProgramHeaders b)]))"

definition WriteProcessAuxVectors :: "Process \<Rightarrow> u64 \<Rightarrow> bool \<Rightarrow> u64 \<Rightarrow> machine \<Rightarrow> fault + u64 \<times> machine" where
  "WriteProcessAuxVectors q sp dry_run cookie s =
     ok_bind (aux_vectors q cookie s) (\<lambda>entries.
     let (sp, m) = fold (WriteAuxEntry dry_run) entries (sp, Ram s) in Inr (sp, s\<lparr>Ram := m\<rparr>))"

section \<open>The initial stack\<close>

text \<open>
  \<^verbatim>\<open>STACK_LEFT\<close>, whose pointer difference counts words, converted to the \<^verbatim>\<open>int\<close> parameter of
  \<^verbatim>\<open>wide_to_ascii\<close>.
\<close>

definition STACK_LEFT :: "u64 \<Rightarrow> u64 \<Rightarrow> u64 \<Rightarrow> int" where
  "STACK_LEFT stack_size stack_top sp = sint (ucast (stack_size - (stack_top - sp) div 8) :: u32)"

fun measure_strings :: "int \<Rightarrow> wstr list \<Rightarrow> u64 \<Rightarrow> fault + u64" where
  "measure_strings left [] n = Inr n"
| "measure_strings left (w # ws) n =
     ok_bind (wide_to_ascii None w left) (\<lambda>(k, _). measure_strings left ws (n + (of_nat k + 1)))"

text \<open>
  The loops that write the strings downwards from \<^verbatim>\<open>bytes\<close> and their addresses upwards from
  \<^verbatim>\<open>slot\<close>.
\<close>

fun write_strings :: "int \<Rightarrow> wstr list \<Rightarrow> u64 \<Rightarrow> u64 \<Rightarrow> memory \<Rightarrow> fault + u64 \<times> memory" where
  "write_strings left [] slot bytes m = Inr (bytes, m)"
| "write_strings left (w # ws) slot bytes m =
     ok_bind (wide_to_ascii None w left) (\<lambda>(k, _).
     let bytes = bytes - (of_nat k + 1) in
     ok_bind (wide_to_ascii (Some (bytes_at m bytes (Suc k))) w left) (\<lambda>(k, out).
     let m = store_bytes m bytes (the out);
         m = m(bytes + of_nat k := 0);
         m = store64 m slot bytes
     in write_strings left ws (slot + 8) bytes m))"

definition build_stack :: "Process \<Rightarrow> wstr list \<Rightarrow> wstr list \<Rightarrow> machine \<Rightarrow> fault + Process \<times> machine" where
  "build_stack q args env s =
     (let stack_size = DefaultThreadStackSize q;
          stack_top = DefaultThreadStackBase q + stack_size;
          cookie = TlsMemory (TLS q) + TLSData_StackCanary;
          sp = stack_top - 8;
          s = s\<lparr>Ram := store64 (Ram s) sp 0\<rparr>
      in
      ok_bind (measure_strings (STACK_LEFT stack_size stack_top sp) env 0) (\<lambda>n.
      ok_bind (measure_strings (STACK_LEFT stack_size stack_top sp) args n) (\<lambda>n.
      let block = (n + 0xF) AND NOT 0xF;
          s = s\<lparr>Ram := store64 (Ram s) (sp - block) 0\<rparr>
      in
      ok_bind (WriteProcessAuxVectors q (sp - block) True cookie s) (\<lambda>(after, s).
      let left = STACK_LEFT stack_size stack_top after;
          envc = length env; argc = length args;
          env_array = after - 8 * (of_nat envc + 1);
          s = s\<lparr>Ram := store64 (Ram s) (env_array + 8 * of_nat envc) 0\<rparr>
      in
      ok_bind (write_strings left env env_array sp (Ram s)) (\<lambda>(bytes, m).
      let arg_array = after - 8 * (of_nat envc + of_nat argc + 2);
          new_sp = arg_array - 8;
          left = STACK_LEFT stack_size stack_top new_sp;
          m = store64 m (arg_array + 8 * of_nat argc) 0
      in
      ok_bind (write_strings left args arg_array bytes m) (\<lambda>(bytes, m).
      let s = s\<lparr>Ram := store64 m new_sp (of_nat argc)\<rparr> in
      ok_bind (WriteProcessAuxVectors q (sp - block) False cookie s) (\<lambda>(_, s).
      Inr (q\<lparr>argv := arg_array, envp := env_array, DefaultThreadStackStart := new_sp\<rparr>, s))))))))"

section \<open>Processes\<close>

definition new_process :: Process where
  "new_process = \<lparr>DefaultThreadStackStart = 0, DefaultThreadStackBase = 0, DefaultThreadStackSize = 0,
     argv = 0, envp = 0, Binary = 0, SubBinary = 0, TLS = \<lparr>TlsMemory = 0, TlsSize = 0, FSBase = 0\<rparr>, ProgramBreak = 0\<rparr>"

text \<open>
  The fresh addresses are those of the process and of the structures of its two binaries.  The
  result is the pointer, 0 for null.
\<close>

record fresh =
  at_process :: u64
  at_binary :: u64
  at_interpreter :: u64

definition load_binaries :: "page_source \<Rightarrow> hash \<Rightarrow> fresh \<Rightarrow> wstr \<Rightarrow> Process \<Rightarrow> machine \<Rightarrow> fault + Process option \<times> machine" where
  "load_binaries get XXH64 at program q s =
     ok_bind (LoadElf get XXH64 (at_binary at) program s) (\<lambda>(binary, s).
     if binary = 0 then Inr (None, s)
     else
       ok_bind (get_binary binary s) (\<lambda>b.
       if InterpreterFileHandle b \<noteq> 0 then
         ok_bind (LoadElfFromHandle get XXH64 (at_interpreter at) (InterpreterName b) (InterpreterFileHandle b) s) (\<lambda>(interpreter, s).
         Inr (Some (q\<lparr>Binary := interpreter, SubBinary := binary\<rparr>), s))
       else Inr (Some (q\<lparr>Binary := binary\<rparr>), s)))"

definition CreateProcess ::
  "page_source \<Rightarrow> hash \<Rightarrow> user_run \<Rightarrow> fresh \<Rightarrow> wstr \<Rightarrow> wstr list \<Rightarrow> wstr list \<Rightarrow> machine \<Rightarrow> fault + u64 \<times> machine" where
  "CreateProcess get XXH64 run at program args env s =
     (let stack_size = 128 * 1024 in
      ok_bind (alloc_pages get stack_size User s) (\<lambda>(stack, s).
      let q = new_process\<lparr>DefaultThreadStackSize := stack_size, DefaultThreadStackBase := stack\<rparr>;
          s = s\<lparr>Ram := FillUnique (Ram s) stack 0x57a0000000000000 stack_size\<rparr> in
      ok_bind (load_binaries get XXH64 at program q s) (\<lambda>(loaded, s).
      case loaded of
        None \<Rightarrow> Inr (0, s)
      | Some q \<Rightarrow>
          ok_bind (get_binary (Binary q) s) (\<lambda>b.
          let q = q\<lparr>ProgramBreak := ProgramBreakLow b\<rparr> in
          ok_bind (CreateUserModeTLS get (TLSDataSize b) (TBSSSize b) (TLSDataStart b) (ucast (TLSAlign b)) s) (\<lambda>(tls, s).
          let q = q\<lparr>TLS := tls\<rparr>;
              s = s\<lparr>Ram := FillUnique (Ram s) (FSBase tls) 0x7150000000000000 (TLSDataSize b + TBSSSize b)\<rparr> in
          ok_bind (build_stack q args env s) (\<lambda>(q, s).
          ok_bind (ScheduleProcess run (at_process at) (set_process (at_process at) q s)) (\<lambda>s.
          Inr (at_process at, s))))))))"

definition DestroyProcess :: "page_source \<Rightarrow> u64 \<Rightarrow> machine \<Rightarrow> fault + machine" where
  "DestroyProcess get p s =
     ok_bind (get_process p s) (\<lambda>q.
     ok_bind (free_pages get (DefaultThreadStackBase q) (DefaultThreadStackSize q) s) (\<lambda>s.
     ok_bind (DestroyTLS get (TLS q) s) (\<lambda>s.
     ok_bind (UnloadElf get (Binary q) s) (\<lambda>s.
     Inr (s\<lparr>Processes := (Processes s)(p := None)\<rparr>)))))"

definition RunProgram ::
  "page_source \<Rightarrow> hash \<Rightarrow> user_run \<Rightarrow> fresh \<Rightarrow> wstr \<Rightarrow> wstr list \<Rightarrow> wstr list \<Rightarrow> machine \<Rightarrow> fault + int \<times> machine" where
  "RunProgram get XXH64 run at program args env s =
     ok_bind (CreateProcess get XXH64 run at program args env s) (\<lambda>(p, s).
     ok_bind (if p \<noteq> 0 then DestroyProcess get p s else Inr s) (\<lambda>s. Inr (0, s)))"

end
