(* ===== verification/ProcessCorrect.thy ===== *)
theory ProcessCorrect
  imports Process CStringsCorrect DemoMachine
begin

text \<open>
  The initial stack of a program, as the program reads it: the arguments, the environment and the
  auxiliary vector.  All writes go to a block of z bytes at B, so memory is described by its
  window over the block.
\<close>

section \<open>Writes into a block\<close>

text \<open>m' is m with the window w over the block.\<close>

definition block_memory :: "u64 \<Rightarrow> nat \<Rightarrow> memory \<Rightarrow> (nat \<Rightarrow> u8) \<Rightarrow> memory \<Rightarrow> bool" where
  "block_memory B z m w m' \<longleftrightarrow> (\<forall>k < z. win m' B k = w k) \<and> (\<forall>a. z \<le> unat (a - B) \<longrightarrow> m' a = m a)"

lemma block_memory_refl: "block_memory B z m (win m B) m"
  by (simp add: block_memory_def)

lemma block_memory_put:
  assumes "block_memory B z m w m'" and "j + length bs \<le> z" and "z < 2 ^ 64"
  shows "block_memory B z m (put w j bs) (store_bytes m' (B + of_nat j) bs)"
proof -
  have "store_bytes m' (B + of_nat j) bs a = m' a" if "z \<le> unat (a - B)" for a
  proof (cases "bs = []")
    case False
    have "unat (a - (B + of_nat j)) = unat (a - B) - j"
      using assms that unat_less_pow2 [of "a - B"] offset_diff [of j "unat (a - B)"] by (simp add: diff_diff_eq)
    then have "\<not> unat (a - (B + of_nat j)) < length bs"
      using assms that by arith
    then show ?thesis
      using assms by (simp add: store_bytes_spec)
  qed simp
  moreover have "win (store_bytes m' (B + of_nat j) bs) B k = put w j bs k" if "k < z" for k
    using assms that by (subst win_store_bytes) (auto simp: block_memory_def put_def)
  ultimately show ?thesis
    using assms by (simp add: block_memory_def)
qed

lemma block_memory_store64:
  assumes "block_memory B z m w m'" and "j + 8 \<le> z" and "z < 2 ^ 64"
  shows "block_memory B z m (put w j (map (byte_of v) [0 ..< 8])) (store64 m' (B + of_nat j) v)"
  unfolding store64_def using assms by (intro block_memory_put) auto

lemma block_memory_cong: "block_memory B z m w m' \<Longrightarrow> (\<And>k. k < z \<Longrightarrow> w k = w' k) \<Longrightarrow> block_memory B z m w' m'"
  by (simp add: block_memory_def)

lemma put_Nil [simp]: "put w j [] = w"
  by (rule ext) (auto simp: put_def)

lemma put_append: "put w j (bs @ cs) = put (put w j bs) (j + length bs) cs"
  by (rule ext) (auto simp: put_def nth_append)

lemma put_swap: "j + length bs \<le> i \<or> i + length cs \<le> j \<Longrightarrow> put (put w j bs) i cs = put (put w i cs) j bs"
  by (rule ext) (auto simp: put_def)

definition words :: "u64 list \<Rightarrow> u8 list" where
  "words vs = concat (map (\<lambda>v. map (byte_of v) [0 ..< 8]) vs)"

lemma words_simps [simp]: "words [] = []" "words (v # vs) = map (byte_of v) [0 ..< 8] @ words vs"
  "words (us @ vs) = words us @ words vs" "length (words vs) = 8 * length vs"
  by (simp_all add: words_def) (induction vs, auto)

lemma words_nth: "i < length vs \<Longrightarrow> b < 8 \<Longrightarrow> words vs ! (8 * i + b) = byte_of (vs ! i) b"
proof (induction vs arbitrary: i)
  case (Cons v vs)
  then show ?case
    by (cases i) (simp_all add: nth_append)
qed simp

lemma load_words:
  assumes "block_memory B z m w m'" and "j + 8 * length vs \<le> z" and "i < length vs"
    and "\<And>k. j \<le> k \<Longrightarrow> k < j + 8 * length vs \<Longrightarrow> w k = words vs ! (k - j)"
  shows "load64 m' (B + of_nat (j + 8 * i)) = vs ! i"
proof (rule load64_of_bytes)
  fix b :: nat assume "b < 8"
  then have "w (j + 8 * i + b) = words vs ! (8 * i + b)"
    using assms(3) assms(4) [of "j + 8 * i + b"] by simp
  then show "win m' B (j + 8 * i + b) = byte_of (vs ! i) b"
    using assms \<open>b < 8\<close> by (simp add: block_memory_def words_nth)
qed

section \<open>The strings\<close>

definition zstring :: "wstr \<Rightarrow> u8 list" where
  "zstring x = map ucast x @ [0]"

definition total_bytes :: "'a list list \<Rightarrow> nat" where
  "total_bytes xs = sum_list (map (\<lambda>x. Suc (length x)) xs)"

definition string_block :: "wstr list \<Rightarrow> u8 list" where
  "string_block xs = concat (rev (map zstring xs))"

fun string_offsets :: "nat \<Rightarrow> wstr list \<Rightarrow> nat list" where
  "string_offsets j [] = []"
| "string_offsets j (x # xs) = (j - Suc (length x)) # string_offsets (j - Suc (length x)) xs"

definition zero_terminated :: "wstr list \<Rightarrow> wstr list" where
  "zero_terminated xs = map (\<lambda>x. x @ [0]) xs"

lemma total_bytes_simps [simp]:
  "total_bytes [] = 0" "total_bytes (x # xs) = Suc (length x) + total_bytes xs"
  by (simp_all add: total_bytes_def)

lemma string_simps [simp]:
  "string_block [] = []" "string_block (x # xs) = string_block xs @ zstring x"
  "zero_terminated [] = []" "zero_terminated (x # xs) = (x @ [0]) # zero_terminated xs"
  "length (zstring x) = Suc (length x)"
  by (simp_all add: string_block_def zero_terminated_def zstring_def)

lemma string_lengths [simp]:
  "length (string_block xs) = total_bytes xs" "length (string_offsets j xs) = length xs"
  "length (zero_terminated xs) = length xs"
  by (induction xs arbitrary: j) (auto simp: zero_terminated_def)

lemma string_block_nth:
  assumes "total_bytes xs \<le> j" and "i < length xs" and "t \<le> length (xs ! i)"
  shows "j - total_bytes xs \<le> string_offsets j xs ! i
    \<and> string_offsets j xs ! i + Suc (length (xs ! i)) \<le> j
    \<and> string_block xs ! (string_offsets j xs ! i + t - (j - total_bytes xs)) = zstring (xs ! i) ! t"
  using assms
proof (induction xs arbitrary: j i)
  case (Cons x xs)
  show ?case
  proof (cases i)
    case 0
    then show ?thesis
      using Cons.prems by (simp add: nth_append)
  next
    case (Suc i')
    let ?j = "j - Suc (length x)"
    have IH: "?j - total_bytes xs \<le> string_offsets ?j xs ! i' \<and> string_offsets ?j xs ! i' + Suc (length (xs ! i')) \<le> ?j
        \<and> string_block xs ! (string_offsets ?j xs ! i' + t - (?j - total_bytes xs)) = zstring (xs ! i') ! t"
      using Cons.prems Suc by (intro Cons.IH) auto
    have "?j - total_bytes xs = j - total_bytes (x # xs)"
      by simp
    moreover have "string_offsets ?j xs ! i' + t - (?j - total_bytes xs) < total_bytes xs"
      using IH Cons.prems(3) Suc by (simp; arith)
    ultimately show ?thesis
      using IH Suc Cons.prems by (simp add: nth_append) arith
  qed
qed simp

lemma convert_count:
  assumes "0 \<notin> set x" and "int (length x) \<le> limit"
  shows "i \<le> length x \<Longrightarrow> convert_loop conv None (x @ [0]) limit i = Inr (length x, None)"
proof (induction "length x - i" arbitrary: i)
  case 0
  then show ?case
    by (subst convert_loop.simps) (simp add: array_get_def nth_append)
next
  case (Suc k)
  then have i: "i < length x"
    by simp
  then have "x ! i \<noteq> 0"
    using assms(1) by (metis nth_mem)
  then show ?case
    using i Suc assms(2) by (subst convert_loop.simps) (simp add: array_get_def nth_append)
qed

definition strings_ok :: "int \<Rightarrow> wstr list \<Rightarrow> bool" where
  "strings_ok left xs \<longleftrightarrow> (\<forall>x \<in> set xs. 0 \<notin> set x \<and> int (length x) \<le> left)"

lemma measure_strings_total:
  "strings_ok left xs \<Longrightarrow> measure_strings left (zero_terminated xs) n = Inr (n + of_nat (total_bytes xs))"
proof (induction xs arbitrary: n)
  case (Cons x xs)
  then have "wide_to_ascii None (x @ [0]) left = Inr (length x, None)"
    by (simp add: strings_ok_def wide_to_ascii_def convert_count)
  moreover have "measure_strings left (zero_terminated xs) (n + (of_nat (length x) + 1))
      = Inr (n + (of_nat (length x) + 1) + of_nat (total_bytes xs))"
    using Cons by (intro Cons.IH) (simp add: strings_ok_def)
  ultimately show ?case
    by (simp add: algebra_simps)
qed simp

lemma write_strings_spec:
  assumes "block_memory B z m w m0" and "strings_ok left xs" and "z < 2 ^ 64"
    and "total_bytes xs \<le> j" and "j \<le> z" and "q + 8 * length xs \<le> j - total_bytes xs"
  shows "\<exists>m'. write_strings left (zero_terminated xs) (B + of_nat q) (B + of_nat j) m0 = Inr (B + of_nat (j - total_bytes xs), m')
    \<and> block_memory B z m
        (put (put w q (words (map (\<lambda>k. B + of_nat k) (string_offsets j xs)))) (j - total_bytes xs) (string_block xs)) m'"
  using assms
proof (induction xs arbitrary: w m0 j q)
  case Nil
  then show ?case
    by simp
next
  case (Cons x xs)
  let ?j = "j - Suc (length x)"
  let ?m1 = "store_bytes m0 (B + of_nat ?j) (zstring x)"
  let ?m2 = "store64 ?m1 (B + of_nat q) (B + of_nat ?j)"
  let ?w2 = "put (put w ?j (zstring x)) q (map (byte_of (B + of_nat ?j)) [0 ..< 8])"
  have x: "0 \<notin> set x" "int (length x) \<le> left"
    using Cons.prems(2) by (simp_all add: strings_ok_def)
  have count: "wide_to_ascii None (x @ [0]) left = Inr (length x, None)"
    using x by (simp add: wide_to_ascii_def convert_count)
  have conv: "wide_to_ascii (Some (bytes_at m0 (B + of_nat ?j) (Suc (length x)))) (x @ [0]) left = Inr (length x, Some (zstring x))"
    using convert_loop_exact [OF x(1) refl x(2), of 0 0 ucast "bytes_at m0 (B + of_nat ?j) (Suc (length x))" "[]"]
    by (simp add: wide_to_ascii_def zstring_def)
  have at: "B + of_nat j - (of_nat (length x) + 1) = B + of_nat ?j"
    using Cons.prems(4) by (simp add: of_nat_diff algebra_simps)
  have "?m1 (B + of_nat ?j + of_nat (length x)) = zstring x ! length x"
    using Cons.prems(3-5) by (simp add: store_bytes_spec unat_of_nat_64)
  then have zero: "?m1(B + of_nat ?j + of_nat (length x) := 0) = ?m1"
    by (simp add: zstring_def fun_upd_idem_iff nth_append)
  have step: "write_strings left (zero_terminated (x # xs)) (B + of_nat q) (B + of_nat j) m0
      = write_strings left (zero_terminated xs) (B + of_nat (q + 8)) (B + of_nat ?j) ?m2"
    using count conv at zero by (simp add: Let_def algebra_simps)
  have w2: "block_memory B z m ?w2 ?m2"
    using Cons.prems by (intro block_memory_store64 block_memory_put) auto
  have ok: "strings_ok left xs"
    using Cons.prems(2) by (simp add: strings_ok_def)
  have "total_bytes xs \<le> ?j" "?j \<le> z" "q + 8 + 8 * length xs \<le> ?j - total_bytes xs"
    using Cons.prems by simp_all
  from Cons.IH [OF w2 ok Cons.prems(3) this] obtain m' where
    run: "write_strings left (zero_terminated xs) (B + of_nat (q + 8)) (B + of_nat ?j) ?m2 = Inr (B + of_nat (?j - total_bytes xs), m')"
    and m': "block_memory B z m (put (put ?w2 (q + 8) (words (map (\<lambda>k. B + of_nat k) (string_offsets ?j xs)))) (?j - total_bytes xs) (string_block xs)) m'"
    by blast
  let ?ws = "words (map (\<lambda>k. B + of_nat k) (string_offsets ?j xs))"
  have "put (put ?w2 (q + 8) ?ws) (?j - total_bytes xs) (string_block xs) k =
      put (put w q (words (map (\<lambda>k. B + of_nat k) (string_offsets j (x # xs))))) (j - total_bytes (x # xs)) (string_block (x # xs)) k" for k
    using Cons.prems(4-6) by (auto simp: put_def nth_append)
  then show ?case
    using run step block_memory_cong [OF m'] by auto
qed

section \<open>The auxiliary vector\<close>

lemma aux_dry_run:
  "fold (WriteAuxEntry True) entries (sp, m) = (sp - 16 * of_nat (length entries), m)"
  by (induction entries arbitrary: sp) (auto simp: WriteAuxEntry_def algebra_simps split: prod.splits)

definition aux_words :: "(u64 \<times> u64) list \<Rightarrow> u64 list" where
  "aux_words entries = concat (map (\<lambda>(e, v). [e, v]) (rev entries))"

lemma aux_words_simps [simp]: "aux_words [] = []" "aux_words ((e, v) # entries) = aux_words entries @ [e, v]"
  "length (aux_words entries) = 2 * length entries"
  by (simp_all add: aux_words_def) (induction entries, auto)

lemma aux_write:
  assumes "block_memory B z m w m0" and "z < 2 ^ 64" and "16 * length entries \<le> t" and "t \<le> z"
  shows "\<exists>m'. fold (WriteAuxEntry False) entries (B + of_nat t, m0) = (B + of_nat (t - 16 * length entries), m')
    \<and> block_memory B z m (put w (t - 16 * length entries) (words (aux_words entries))) m'"
  using assms
proof (induction entries arbitrary: w m0 t)
  case Nil
  then show ?case
    by simp
next
  case (Cons ev entries)
  obtain e v where ev: "ev = (e, v)"
    by (cases ev)
  let ?t = "t - 16"
  let ?m1 = "store64 (store64 m0 (B + of_nat ?t) e) (B + of_nat (?t + 8)) v"
  let ?w1 = "put (put w ?t (map (byte_of e) [0 ..< 8])) (?t + 8) (map (byte_of v) [0 ..< 8])"
  have "B + of_nat t - 16 = B + of_nat ?t"
    using Cons.prems(3) by (simp add: of_nat_diff)
  then have step: "WriteAuxEntry False ev (B + of_nat t, m0) = (B + of_nat ?t, ?m1)"
    by (simp add: WriteAuxEntry_def ev Let_def algebra_simps)
  have w1: "block_memory B z m ?w1 ?m1"
    using Cons.prems by (intro block_memory_store64) auto
  have "16 * length entries \<le> ?t" "?t \<le> z"
    using Cons.prems by simp_all
  from Cons.IH [OF w1 Cons.prems(2) this] obtain m' where
    run: "fold (WriteAuxEntry False) entries (B + of_nat ?t, ?m1) = (B + of_nat (?t - 16 * length entries), m')"
    and m': "block_memory B z m (put ?w1 (?t - 16 * length entries) (words (aux_words entries))) m'"
    by blast
  have "put ?w1 (?t - 16 * length entries) (words (aux_words entries)) k =
      put w (t - 16 * length (ev # entries)) (words (aux_words (ev # entries))) k" for k
    using Cons.prems(3) by (auto simp: put_def nth_append ev add.commute)
  then show ?case
    using run step block_memory_cong [OF m'] by auto
qed

section \<open>The layout\<close>

lemma STACK_LEFT_eq:
  assumes "off \<le> z" and "z \<le> 2 ^ 30"
  shows "STACK_LEFT (of_nat z) (B + of_nat z) (B + of_nat off) = int (z - (z - off) div 8)"
proof -
  have diff: "B + of_nat z - (B + of_nat off) = (of_nat (z - off) :: u64)"
    using assms by (simp add: of_nat_diff)
  have "(of_nat x :: u64) div 8 = of_nat (x div 8)" if "x \<le> 2 ^ 30" for x
    using that by (simp add: word_unat_eq_iff unat_div unat_of_nat_64)
  then have quotient: "(of_nat (z - off) :: u64) div 8 = of_nat ((z - off) div 8)"
    using assms(2) by (meson diff_le_self le_trans)
  have left: "of_nat z - of_nat ((z - off) div 8) = (of_nat (z - (z - off) div 8) :: u64)"
    by (simp add: of_nat_diff)
  have conv: "sint (ucast (of_nat x :: u64) :: u32) = int x" if "x \<le> 2 ^ 30" for x
  proof -
    have "ucast (of_nat x :: u64) = (of_nat x :: u32)"
      using that by (simp add: unsigned_of_nat take_bit_nat_eq_self)
    moreover have "sint (of_nat x :: u32) = int x"
      using that by (simp add: signed_of_nat signed_take_bit_int_eq_self)
    ultimately show ?thesis by simp
  qed
  show ?thesis
    unfolding STACK_LEFT_def diff quotient left using assms by (intro conv) arith
qed

lemma strings_ok_mono: "strings_ok left xs \<Longrightarrow> left \<le> left' \<Longrightarrow> strings_ok left' xs"
  by (auto simp: strings_ok_def)

lemma aux_vectors_ram [simp]: "aux_vectors q cookie (s\<lparr>Ram := m\<rparr>) = aux_vectors q cookie s"
  by (simp add: aux_vectors_def get_binary_def)

lemma block_rounded:
  assumes "n \<le> 2 ^ 30"
  shows "(of_nat n + 0xF) AND NOT 0xF = (of_nat (round_up n 16) :: u64)"
proof -
  have "unat (AlignSize (of_nat n) (2 ^ 4)) = round_up (unat (of_nat n :: u64)) (2 ^ 4)"
    using assms by (intro AlignSize_unat) (simp_all add: unat_of_nat_64)
  then show ?thesis
    using assms by (intro word_of_unat) (simp add: AlignSize_def unat_of_nat_64)
qed

text \<open>The offsets of the layout, from the top: strings, auxiliary vector, arrays.\<close>

definition block_offset :: "nat \<Rightarrow> wstr list \<Rightarrow> wstr list \<Rightarrow> nat" where
  "block_offset z xs es = z - 8 - round_up (total_bytes es + total_bytes xs) 16"

definition aux_offset :: "nat \<Rightarrow> wstr list \<Rightarrow> wstr list \<Rightarrow> nat \<Rightarrow> nat" where
  "aux_offset z xs es n = block_offset z xs es - 16 * n"

definition stack_offset :: "nat \<Rightarrow> wstr list \<Rightarrow> wstr list \<Rightarrow> nat \<Rightarrow> nat" where
  "stack_offset z xs es n = aux_offset z xs es n - 8 * (length xs + length es + 3)"

definition stack_room :: "nat \<Rightarrow> wstr list \<Rightarrow> wstr list \<Rightarrow> nat \<Rightarrow> bool" where
  "stack_room z xs es n \<longleftrightarrow>
     round_up (total_bytes es + total_bytes xs) 16 + 8 + 16 * n + 8 * (length xs + length es + 3) \<le> z
     \<and> strings_ok (int (z div 2)) xs \<and> strings_ok (int (z div 2)) es \<and> z \<le> 2 ^ 30"

definition stack_window :: "u64 \<Rightarrow> nat \<Rightarrow> wstr list \<Rightarrow> wstr list \<Rightarrow> (u64 \<times> u64) list \<Rightarrow> (nat \<Rightarrow> u8) \<Rightarrow> nat \<Rightarrow> u8" where
  "stack_window B z xs es entries w =
     (let at_aux = aux_offset z xs es (length entries);
          at_env = at_aux - 8 * (length es + 1);
          at_args = at_aux - 8 * (length es + length xs + 2);
          zero = map (byte_of 0) [0 ..< 8];
          w = put w (z - 8) zero;
          w = put w (block_offset z xs es) zero;
          w = put w (at_env + 8 * length es) zero;
          w = put w at_env (words (map (\<lambda>k. B + of_nat k) (string_offsets (z - 8) es)));
          w = put w (z - 8 - total_bytes es) (string_block es);
          w = put w (at_args + 8 * length xs) zero;
          w = put w at_args (words (map (\<lambda>k. B + of_nat k) (string_offsets (z - 8 - total_bytes es) xs)));
          w = put w (z - 8 - total_bytes es - total_bytes xs) (string_block xs);
          w = put w (at_args - 8) (map (byte_of (of_nat (length xs))) [0 ..< 8])
      in put w at_aux (words (aux_words entries)))"

lemma layout_bounds:
  fixes a b e g z r te ta le lx n :: nat
  assumes "b + r + 8 = z" and "a + 16 * n = b" and "e + 8 * (le + 1) = a" and "g + 8 * (le + lx + 2) = a"
    and "8 \<le> g" and "te + ta \<le> r"
  shows "a \<le> z" and "te \<le> z - 8" and "z - 8 \<le> z" and "e + 8 * le \<le> z - 8 - te" and "g - 8 \<le> z"
    and "ta \<le> z - 8 - te" and "z - 8 - te \<le> z" and "g + 8 * lx \<le> z - 8 - te - ta"
    and "z - 8 + 8 \<le> z" and "b + 8 \<le> z" and "e + 8 * le + 8 \<le> z" and "g + 8 * lx + 8 \<le> z" and "g - 8 + 8 \<le> z"
    and "16 * n \<le> b" and "b \<le> z"
proof -
  have z: "z = b + r + 8" "z - 8 = b + r" and a: "b = a + 16 * n" "a = e + 8 * (le + 1)" "g + 8 * (lx + 1) = e"
    using assms by simp_all
  have bounds: "g + 8 * lx \<le> b" "e + 8 * le \<le> b" "a \<le> b"
    using a by simp_all
  show "a \<le> z" "te \<le> z - 8" "z - 8 \<le> z" "ta \<le> z - 8 - te" "z - 8 - te \<le> z" "z - 8 + 8 \<le> z" "b + 8 \<le> z"
    "16 * n \<le> b" "b \<le> z"
    using assms(6) bounds a(1) unfolding z(2) by (simp_all add: z(1))
  show "e + 8 * le \<le> z - 8 - te" "g + 8 * lx \<le> z - 8 - te - ta"
    using assms(6) bounds unfolding z(2) by simp_all
  show "e + 8 * le + 8 \<le> z" "g + 8 * lx + 8 \<le> z" "g - 8 \<le> z" "g - 8 + 8 \<le> z"
    using bounds assms(5) by (simp_all add: z(1))
qed

lemma build_stack_window:
  assumes room: "stack_room z xs es (length entries)" and q: "DefaultThreadStackSize q = of_nat z" "DefaultThreadStackBase q = B"
    and aux: "aux_vectors q (TlsMemory (TLS q) + TLSData_StackCanary) s = Inr entries"
  shows "\<exists>q' m'. build_stack q (zero_terminated xs) (zero_terminated es) s = Inr (q', s\<lparr>Ram := m'\<rparr>)
    \<and> DefaultThreadStackStart q' = B + of_nat (stack_offset z xs es (length entries))
    \<and> block_memory B z (Ram s) (stack_window B z xs es entries (win (Ram s) B)) m'"
proof -
  let ?c = "TlsMemory (TLS q) + TLSData_StackCanary" and ?n = "total_bytes es + total_bytes xs"
  let ?b = "block_offset z xs es" and ?a = "aux_offset z xs es (length entries)"
  let ?e = "?a - 8 * (length es + 1)" and ?g = "?a - 8 * (length es + length xs + 2)"
  have n: "?n \<le> round_up ?n 16" "round_up ?n 16 \<le> z" "z \<le> 2 ^ 30"
    using round_up_bounds [of 16 ?n] room by (auto simp: stack_room_def)
  have off: "?b + round_up ?n 16 + 8 = z" "?a + 16 * length entries = ?b" "?e + 8 * (length es + 1) = ?a"
    "?g + 8 * (length es + length xs + 2) = ?a" "8 \<le> ?g" "?g - 8 = stack_offset z xs es (length entries)"
    using room by (auto simp: stack_room_def block_offset_def aux_offset_def stack_offset_def)
  have minus: "B + of_nat x - k = B + of_nat y" if "x = y + j" "k = of_nat j" for x y j :: nat and k
    using that by simp
  have left: "int (z div 2) \<le> STACK_LEFT (of_nat z) (B + of_nat z) (B + of_nat k)" if "k \<le> z" for k
    using that n(3) by (simp add: STACK_LEFT_eq)
  have ok: "strings_ok (STACK_LEFT (of_nat z) (B + of_nat z) (B + of_nat k)) xs"
    "strings_ok (STACK_LEFT (of_nat z) (B + of_nat z) (B + of_nat k)) es" if "k \<le> z" for k
    using room left [OF that] by (auto simp: stack_room_def intro: strings_ok_mono)
  have addr: "B + of_nat z - 8 = B + of_nat (z - 8)"
    "B + of_nat (z - 8) - of_nat (round_up ?n 16) = B + of_nat ?b"
    "B + of_nat ?b - 16 * of_nat (length entries) = B + of_nat ?a"
    "B + of_nat ?a - 8 * (of_nat (length es) + 1) = B + of_nat ?e"
    "B + of_nat ?a - 8 * (of_nat (length es) + of_nat (length xs) + 2) = B + of_nat ?g"
    "B + of_nat ?g - 8 = B + of_nat (?g - 8)"
    using off by (intro minus [of _ _ 8] minus [of _ _ "round_up ?n 16"] minus [of _ _ "16 * length entries"]
      minus [of _ _ "8 * (length es + 1)"] minus [of _ _ "8 * (length es + length xs + 2)"]; simp)+
  have plus: "B + of_nat ?e + 8 * of_nat (length es) = B + of_nat (?e + 8 * length es)"
    "B + of_nat ?g + 8 * of_nat (length xs) = B + of_nat (?g + 8 * length xs)"
    by simp_all
  define m0 where "m0 = Ram s"
  define m2 where "m2 = store64 (store64 m0 (B + of_nat (z - 8)) 0) (B + of_nat ?b) 0"
  define m3 where "m3 = store64 m2 (B + of_nat (?e + 8 * length es)) 0"
  let ?zero = "map (byte_of 0) [0 ..< 8]"
  let ?w2 = "put (put (win m0 B) (z - 8) ?zero) ?b ?zero"
  let ?w3 = "put ?w2 (?e + 8 * length es) ?zero"
  have z: "z < 2 ^ 64"
    using n by simp
  note le = layout_bounds [OF off(1-5) n(1)]
  have w3: "block_memory B z m0 ?w3 m3"
    unfolding m2_def m3_def by (intro block_memory_store64 block_memory_refl le z)
  obtain m4 where run4: "write_strings (STACK_LEFT (of_nat z) (B + of_nat z) (B + of_nat ?a)) (zero_terminated es)
      (B + of_nat ?e) (B + of_nat (z - 8)) m3 = Inr (B + of_nat (z - 8 - total_bytes es), m4)"
    and w4: "block_memory B z m0 (put (put ?w3 ?e (words (map (\<lambda>k. B + of_nat k) (string_offsets (z - 8) es))))
      (z - 8 - total_bytes es) (string_block es)) m4" (is "block_memory _ _ _ ?w4 _")
    using write_strings_spec [OF w3 ok(2) [OF le(1)] z le(2-4)] that by blast
  define m5 where "m5 = store64 m4 (B + of_nat (?g + 8 * length xs)) 0"
  have w5: "block_memory B z m0 (put ?w4 (?g + 8 * length xs) ?zero) m5"
    unfolding m5_def by (intro block_memory_store64 w4 le z)
  obtain m6 where run6: "write_strings (STACK_LEFT (of_nat z) (B + of_nat z) (B + of_nat (?g - 8))) (zero_terminated xs)
      (B + of_nat ?g) (B + of_nat (z - 8 - total_bytes es)) m5
      = Inr (B + of_nat (z - 8 - total_bytes es - total_bytes xs), m6)"
    and w6: "block_memory B z m0 (put (put (put ?w4 (?g + 8 * length xs) ?zero) ?g
        (words (map (\<lambda>k. B + of_nat k) (string_offsets (z - 8 - total_bytes es) xs))))
      (z - 8 - total_bytes es - total_bytes xs) (string_block xs)) m6" (is "block_memory _ _ _ ?w6 _")
    using write_strings_spec [OF w5 ok(1) [OF le(5)] z le(6-8)] that by blast
  define m7 where "m7 = store64 m6 (B + of_nat (?g - 8)) (of_nat (length xs))"
  have w7: "block_memory B z m0 (put ?w6 (?g - 8) (map (byte_of (of_nat (length xs))) [0 ..< 8])) m7"
    unfolding m7_def by (intro block_memory_store64 w6 le z)
  obtain m8 where run8: "fold (WriteAuxEntry False) entries (B + of_nat ?b, m7) = (B + of_nat (?b - 16 * length entries), m8)"
    and w8: "block_memory B z m0 (put (put ?w6 (?g - 8) (map (byte_of (of_nat (length xs))) [0 ..< 8]))
      (?b - 16 * length entries) (words (aux_words entries))) m8"
    using aux_write [OF w7 z le(14,15)] that by blast
  have dry: "WriteProcessAuxVectors q (B + of_nat ?b) True ?c (s\<lparr>Ram := m\<rparr>) = Inr (B + of_nat ?a, s\<lparr>Ram := m\<rparr>)" for m
    by (simp only: WriteProcessAuxVectors_def aux_vectors_ram aux ok_bind_Inr aux_dry_run Let_def case_prod_conv addr(3)
        machine.select_convs machine.update_convs) simp
  have wet: "WriteProcessAuxVectors q (B + of_nat ?b) False ?c (s\<lparr>Ram := m7\<rparr>) = Inr (B + of_nat (?b - 16 * length entries), s\<lparr>Ram := m8\<rparr>)"
    by (simp add: WriteProcessAuxVectors_def aux run8)
  have measure: "measure_strings (STACK_LEFT (of_nat z) (B + of_nat z) (B + of_nat (z - 8))) (zero_terminated es) 0 = Inr (of_nat (total_bytes es))"
    "measure_strings (STACK_LEFT (of_nat z) (B + of_nat z) (B + of_nat (z - 8))) (zero_terminated xs) (of_nat (total_bytes es)) = Inr (of_nat ?n)"
    using measure_strings_total [OF ok(2)] measure_strings_total [OF ok(1)] by simp_all
  have block: "(of_nat ?n + 0xF) AND NOT 0xF = (of_nat (round_up ?n 16) :: u64)"
    using n by (intro block_rounded) simp
  have ram: "Ram (s\<lparr>Ram := m\<rparr>) = m" "s\<lparr>Ram := m\<rparr>\<lparr>Ram := m'\<rparr> = s\<lparr>Ram := m'\<rparr>" for m m'
    by simp_all
  have run: "build_stack q (zero_terminated xs) (zero_terminated es) s
      = Inr (q\<lparr>argv := B + of_nat ?g, envp := B + of_nat ?e, DefaultThreadStackStart := B + of_nat (?g - 8)\<rparr>, s\<lparr>Ram := m8\<rparr>)"
    by (simp only: build_stack_def Let_def q addr plus measure ok_bind_Inr block ram dry string_lengths case_prod_conv
        m0_def [symmetric] m2_def [symmetric] m3_def [symmetric] run4 m5_def [symmetric] run6 m7_def [symmetric] wet)
  have "block_memory B z (Ram s) (stack_window B z xs es entries (win (Ram s) B)) m8"
    using w8 unfolding stack_window_def Let_def aux_offset_def m0_def .
  then show ?thesis
    unfolding run off(6) by (auto intro!: exI [of _ m8])
qed

section \<open>What the program finds\<close>

definition stack_words :: "u64 \<Rightarrow> nat \<Rightarrow> wstr list \<Rightarrow> wstr list \<Rightarrow> (u64 \<times> u64) list \<Rightarrow> u64 list" where
  "stack_words B z xs es entries =
     [of_nat (length xs)] @ map (\<lambda>k. B + of_nat k) (string_offsets (z - 8 - total_bytes es) xs) @ [0]
     @ map (\<lambda>k. B + of_nat k) (string_offsets (z - 8) es) @ [0] @ aux_words entries"

lemma put_skip: "k < j \<or> j + length bs \<le> k \<Longrightarrow> put w j bs k = w k"
  by (auto simp: put_def)

lemma put_hit: "j \<le> k \<Longrightarrow> k < j + length bs \<Longrightarrow> put w j bs k = bs ! (k - j)"
  by (simp add: put_def)

lemma nth_append_hit: "n \<le> i \<Longrightarrow> length xs = n \<Longrightarrow> (xs @ ys) ! i = ys ! (i - n)"
  by (simp add: nth_append)

lemma nth_append_skip: "i < length xs \<Longrightarrow> (xs @ ys) ! i = xs ! i"
  by (simp add: nth_append)

lemma puts_parts:
  fixes start p :: nat
  assumes "W = put (put (put (put (put (put (put (put (put (put w (p + ta + te) Z) b Z) (start + 16 + lx + le) Z)
      (start + 16 + lx) E) (p + ta) Se) (start + 8 + lx) Z) (start + 8) A) p Sx) start C) (start + 24 + lx + le) X"
    and "length Z = 8" and "length C = 8" and "length A = lx" and "length E = le" and "length Se = te" and "length Sx = ta"
    and "start + 24 + lx + le + length X = b" and "b \<le> p" and "\<forall>i < 8. Z ! i = 0"
  shows "\<And>k. start \<le> k \<Longrightarrow> k < start + 24 + lx + le + length X \<Longrightarrow> W k = (C @ A @ Z @ E @ Z @ X) ! (k - start)"
    and "\<And>k. p + ta \<le> k \<Longrightarrow> k < p + ta + te \<Longrightarrow> W k = Se ! (k - (p + ta))"
    and "\<And>k. p \<le> k \<Longrightarrow> k < p + ta \<Longrightarrow> W k = Sx ! (k - p)"
    and "\<And>k. p + ta + te \<le> k \<Longrightarrow> k < p + ta + te + 8 \<Longrightarrow> W k = 0"
proof -
  fix k
  note len = assms(2-10)
  { assume "p + ta \<le> k" "k < p + ta + te"
    then show "W k = Se ! (k - (p + ta))"
      using len unfolding assms(1) by (simp add: put_def) }
  { assume "p \<le> k" "k < p + ta"
    then show "W k = Sx ! (k - p)"
      using len unfolding assms(1) by (simp add: put_def) }
  { assume "p + ta + te \<le> k" "k < p + ta + te + 8"
    then show "W k = 0"
      using len unfolding assms(1) by (simp add: put_def) }
  { assume k: "start \<le> k" "k < start + 24 + lx + le + length X"
    then consider "k < start + 8" | "start + 8 \<le> k" "k < start + 8 + lx" | "start + 8 + lx \<le> k" "k < start + 16 + lx"
      | "start + 16 + lx \<le> k" "k < start + 16 + lx + le" | "start + 16 + lx + le \<le> k" "k < start + 24 + lx + le"
      | "start + 24 + lx + le \<le> k"
      by linarith
    then show "W k = (C @ A @ Z @ E @ Z @ X) ! (k - start)"
    proof cases
      case 1
      have "W k = C ! (k - start)"
        unfolding assms(1) using 1 k len by (subst put_skip, linarith) (rule put_hit; linarith)
      then show ?thesis
        using 1 k len by (subst nth_append_skip) auto
    next
      case 2
      have "W k = A ! (k - (start + 8))"
        unfolding assms(1) using 2 k len by (subst put_skip, linarith, subst put_skip, linarith, subst put_skip, linarith) (rule put_hit; linarith)
      moreover have "(C @ A @ Z @ E @ Z @ X) ! (k - start) = A ! (k - start - 8)"
        using 2 k len by (subst nth_append_hit [where n = 8], linarith, linarith, subst nth_append_skip, linarith) (rule refl)
      ultimately show ?thesis
        by (simp add: algebra_simps)
    next
      case 3
      have "W k = Z ! (k - (start + 8 + lx))"
        unfolding assms(1) using 3 k len by (subst put_skip, linarith, subst put_skip, linarith, subst put_skip, linarith, subst put_skip, linarith) (rule put_hit; linarith)
      moreover have "(C @ A @ Z @ E @ Z @ X) ! (k - start) = Z ! (k - start - 8 - lx)"
        using 3 k len by (subst nth_append_hit [where n = 8], linarith, linarith, subst nth_append_hit [where n = lx], linarith, linarith, subst nth_append_skip, linarith) (rule refl)
      ultimately show ?thesis
        by (simp add: algebra_simps)
    next
      case 4
      have "W k = E ! (k - (start + 16 + lx))"
        unfolding assms(1) using 4 k len by (subst put_skip, linarith, subst put_skip, linarith, subst put_skip, linarith, subst put_skip, linarith, subst put_skip, linarith, subst put_skip, linarith) (rule put_hit; linarith)
      moreover have "(C @ A @ Z @ E @ Z @ X) ! (k - start) = E ! (k - start - 8 - lx - 8)"
        using 4 k len by (subst nth_append_hit [where n = 8], linarith, linarith, subst nth_append_hit [where n = lx], linarith, linarith, subst nth_append_hit [where n = 8], linarith, linarith, subst nth_append_skip, linarith) (rule refl)
      ultimately show ?thesis
        by (simp add: algebra_simps)
    next
      case 5
      have "W k = Z ! (k - (start + 16 + lx + le))"
        unfolding assms(1) using 5 k len by (subst put_skip, linarith, subst put_skip, linarith, subst put_skip, linarith, subst put_skip, linarith, subst put_skip, linarith, subst put_skip, linarith, subst put_skip, linarith) (rule put_hit; linarith)
      moreover have "(C @ A @ Z @ E @ Z @ X) ! (k - start) = Z ! (k - start - 8 - lx - 8 - le)"
        using 5 k len by (subst nth_append_hit [where n = 8], linarith, linarith, subst nth_append_hit [where n = lx], linarith, linarith, subst nth_append_hit [where n = 8], linarith, linarith, subst nth_append_hit [where n = le], linarith, linarith, subst nth_append_skip, linarith) (rule refl)
      ultimately show ?thesis
        by (simp add: algebra_simps)
    next
      case 6
      have "W k = X ! (k - (start + 24 + lx + le))"
        unfolding assms(1) using 6 k len by (intro put_hit) linarith+
      moreover have "(C @ A @ Z @ E @ Z @ X) ! (k - start) = X ! (k - start - 8 - lx - 8 - le - 8)"
        using 6 k len by (subst nth_append_hit [where n = 8], linarith, linarith, subst nth_append_hit [where n = lx], linarith, linarith, subst nth_append_hit [where n = 8], linarith, linarith, subst nth_append_hit [where n = le], linarith, linarith, subst nth_append_hit [where n = 8], linarith, linarith) (rule refl)
      ultimately show ?thesis
        by (simp add: algebra_simps)
    qed }
qed

lemma stack_window_parts:
  fixes B :: u64 and z :: nat and xs es :: "wstr list" and entries :: "(u64 \<times> u64) list" and w :: "nat \<Rightarrow> u8"
  defines "start \<equiv> stack_offset z xs es (length entries)" and "p \<equiv> z - 8 - total_bytes es - total_bytes xs"
  defines "W \<equiv> stack_window B z xs es entries w"
  assumes "stack_room z xs es (length entries)"
  shows "\<And>k. start \<le> k \<Longrightarrow> k < start + 8 * length (stack_words B z xs es entries) \<Longrightarrow>
      W k = words (stack_words B z xs es entries) ! (k - start)"
    and "\<And>k. p + total_bytes xs \<le> k \<Longrightarrow> k < p + total_bytes xs + total_bytes es \<Longrightarrow> W k = string_block es ! (k - (p + total_bytes xs))"
    and "\<And>k. p \<le> k \<Longrightarrow> k < p + total_bytes xs \<Longrightarrow> W k = string_block xs ! (k - p)"
    and "start + 8 * length (stack_words B z xs es entries) \<le> p" and "p + total_bytes xs + total_bytes es + 8 = z"
proof -
  let ?r = "round_up (total_bytes es + total_bytes xs) 16" and ?lx = "8 * length xs" and ?le = "8 * length es"
  let ?A = "words (map (\<lambda>k. B + of_nat k) (string_offsets (z - 8 - total_bytes es) xs))"
  let ?E = "words (map (\<lambda>k. B + of_nat k) (string_offsets (z - 8) es))"
  let ?C = "map (byte_of (of_nat (length xs))) [0 ..< 8]" and ?X = "words (aux_words entries)"
  let ?Z = "map (byte_of 0) [0 ..< 8]"
  have r: "total_bytes es + total_bytes xs \<le> ?r"
    using round_up_bounds [of 16 "total_bytes es + total_bytes xs"] by simp
  have room: "?r + 8 + 16 * length entries + 8 * (length xs + length es + 3) \<le> z"
    using assms(4) by (simp add: stack_room_def)
  have off: "start + 24 + ?lx + ?le = aux_offset z xs es (length entries)"
    "start + 24 + ?lx + ?le + 16 * length entries = block_offset z xs es" "block_offset z xs es + ?r + 8 = z"
    using room by (simp_all add: start_def stack_offset_def aux_offset_def block_offset_def)
  have p: "p + total_bytes xs + total_bytes es + 8 = z" "block_offset z xs es \<le> p"
    using r off(3) by (simp_all add: p_def)
  have W: "W = put (put (put (put (put (put (put (put (put (put w (p + total_bytes xs + total_bytes es) ?Z)
      (block_offset z xs es) ?Z) (start + 16 + ?lx + ?le) ?Z) (start + 16 + ?lx) ?E) (p + total_bytes xs) (string_block es))
      (start + 8 + ?lx) ?Z) (start + 8) ?A) p (string_block xs)) start ?C) (start + 24 + ?lx + ?le) ?X"
  proof -
    have at: "z - 8 = p + total_bytes xs + total_bytes es" "aux_offset z xs es (length entries) - 8 * (length es + 1) = start + 16 + ?lx"
      "aux_offset z xs es (length entries) - 8 * (length es + length xs + 2) = start + 8" "start + 8 - 8 = start"
      "p + total_bytes xs + total_bytes es - total_bytes es = p + total_bytes xs" "p + total_bytes xs - total_bytes xs = p"
      using p off by simp_all
    show ?thesis
      unfolding W_def stack_window_def Let_def at unfolding off(1) ..
  qed
  have zero: "\<forall>i < 8. ?Z ! i = 0"
    by (simp add: byte_of_def)
  have X: "start + 24 + ?lx + ?le + length ?X = block_offset z xs es"
    using off by simp
  have list: "words (stack_words B z xs es entries) = ?C @ ?A @ ?Z @ ?E @ ?Z @ ?X"
    "8 * length (stack_words B z xs es entries) = 24 + ?lx + ?le + length ?X"
    by (simp_all add: stack_words_def)
  note parts = puts_parts [OF W _ _ _ _ _ _ X p(2) zero]
  show "\<And>k. start \<le> k \<Longrightarrow> k < start + 8 * length (stack_words B z xs es entries) \<Longrightarrow>
      W k = words (stack_words B z xs es entries) ! (k - start)"
    unfolding list by (rule parts(1)) simp_all
  show "\<And>k. p + total_bytes xs \<le> k \<Longrightarrow> k < p + total_bytes xs + total_bytes es \<Longrightarrow> W k = string_block es ! (k - (p + total_bytes xs))"
    by (rule parts(2)) simp_all
  show "\<And>k. p \<le> k \<Longrightarrow> k < p + total_bytes xs \<Longrightarrow> W k = string_block xs ! (k - p)"
    by (rule parts(3)) simp_all
  show "start + 8 * length (stack_words B z xs es entries) \<le> p" "p + total_bytes xs + total_bytes es + 8 = z"
    using X p unfolding list by simp_all
qed

text \<open>The string x stands at address a.\<close>

definition c_string_at :: "memory \<Rightarrow> u64 \<Rightarrow> wstr \<Rightarrow> bool" where
  "c_string_at m a x \<longleftrightarrow> (\<forall>t \<le> length x. m (a + of_nat t) = zstring x ! t)"

lemma strings_at:
  assumes m': "block_memory B z m w m'" and "total_bytes xs \<le> j" and "j \<le> z" and "i < length xs"
    and w: "\<And>k. j - total_bytes xs \<le> k \<Longrightarrow> k < j \<Longrightarrow> w k = string_block xs ! (k - (j - total_bytes xs))"
  shows "c_string_at m' (B + of_nat (string_offsets j xs ! i)) (xs ! i)"
  unfolding c_string_at_def
proof (intro allI impI)
  fix t assume t: "t \<le> length (xs ! i)"
  note at = string_block_nth [OF assms(2,4) t]
  let ?k = "string_offsets j xs ! i + t"
  have k: "j - total_bytes xs \<le> ?k" "?k < j" "?k < z"
    using at t assms(3) by auto
  have "B + of_nat (string_offsets j xs ! i) + of_nat t = B + of_nat ?k"
    by simp
  moreover have "m' (B + of_nat ?k) = w ?k"
    using m' k(3) unfolding block_memory_def win_def by blast
  ultimately have "m' (B + of_nat (string_offsets j xs ! i) + of_nat t) = w ?k"
    by (simp only:)
  then show "m' (B + of_nat (string_offsets j xs ! i) + of_nat t) = zstring (xs ! i) ! t"
    using w [OF k(1,2)] at by simp
qed

lemma stack_words_nth:
  assumes "W = stack_words B z xs es entries"
  shows "W ! 0 = of_nat (length xs)"
    and "i < length xs \<Longrightarrow> W ! (1 + i) = B + of_nat (string_offsets (z - 8 - total_bytes es) xs ! i)"
    and "W ! (length xs + 1) = 0"
    and "i < length es \<Longrightarrow> W ! (length xs + 2 + i) = B + of_nat (string_offsets (z - 8) es ! i)"
    and "W ! (length xs + length es + 2) = 0"
    and "i < 2 * length entries \<Longrightarrow> W ! (length xs + length es + 3 + i) = aux_words entries ! i"
    and "length W = length xs + length es + 3 + 2 * length entries"
  by (simp_all add: assms stack_words_def nth_append)

text \<open>
  C22: a program finds its arguments: from the stack pointer upwards stand the number of
  arguments, the addresses of their texts, a null, the addresses of the environment strings, a
  null, and the auxiliary vector with its last written entry first; each address leads to the
  characters of the string, cut to bytes, and a zero; and nothing outside the stack changes.
\<close>

theorem build_stack_correct:
  assumes room: "stack_room z xs es (length entries)" and "DefaultThreadStackSize q = of_nat z"
    and "aux_vectors q (TlsMemory (TLS q) + TLSData_StackCanary) s = Inr entries"
  shows "\<exists>q' m'. build_stack q (zero_terminated xs) (zero_terminated es) s = Inr (q', s\<lparr>Ram := m'\<rparr>)
    \<and> (let word = (\<lambda>i. load64 m' (DefaultThreadStackStart q' + 8 * of_nat i)) in
        word 0 = of_nat (length xs)
        \<and> (\<forall>i < length xs. c_string_at m' (word (1 + i)) (xs ! i)) \<and> word (length xs + 1) = 0
        \<and> (\<forall>i < length es. c_string_at m' (word (length xs + 2 + i)) (es ! i)) \<and> word (length xs + length es + 2) = 0
        \<and> (\<forall>i < 2 * length entries. word (length xs + length es + 3 + i) = aux_words entries ! i))
    \<and> (\<forall>a. z \<le> unat (a - DefaultThreadStackBase q) \<longrightarrow> m' a = Ram s a)"
proof -
  let ?B = "DefaultThreadStackBase q" and ?start = "stack_offset z xs es (length entries)"
  let ?W = "stack_words ?B z xs es entries"
  from build_stack_window [OF room assms(2) refl assms(3)] obtain q' m' where
    run: "build_stack q (zero_terminated xs) (zero_terminated es) s = Inr (q', s\<lparr>Ram := m'\<rparr>)"
    and sp: "DefaultThreadStackStart q' = ?B + of_nat ?start"
    and m': "block_memory ?B z (Ram s) (stack_window ?B z xs es entries (win (Ram s) ?B)) m'"
    by blast
  note parts = stack_window_parts(1-3) [OF room, where B = ?B and w = "win (Ram s) ?B"]
    stack_window_parts(4) [OF room, where B = ?B] stack_window_parts(5) [OF room]
    and W = stack_words_nth(1,3,5,7) [where B = ?B and z = z and xs = xs and es = es and entries = entries, OF refl]
    stack_words_nth(2,4,6) [where B = ?B and z = z and xs = xs and es = es and entries = entries, OF refl]
  have word: "load64 m' (DefaultThreadStackStart q' + 8 * of_nat i) = ?W ! i" if "i < length ?W" for i
    using load_words [OF m' _ that, of ?start] parts(1,4,5) sp by (simp add: algebra_simps)
  let ?word = "\<lambda>i. load64 m' (DefaultThreadStackStart q' + 8 * of_nat i)"
  have "c_string_at m' (?B + of_nat (string_offsets (z - 8 - total_bytes es) xs ! i)) (xs ! i)" if "i < length xs" for i
    using parts(3,5) that by (intro strings_at [OF m']) auto
  then have args: "c_string_at m' (?word (1 + i)) (xs ! i)" if "i < length xs" for i
    using that word [of "1 + i"] W by simp
  have "c_string_at m' (?B + of_nat (string_offsets (z - 8) es ! i)) (es ! i)" if "i < length es" for i
    using parts(2,5) that by (intro strings_at [OF m']) auto
  then have env: "c_string_at m' (?word (length xs + 2 + i)) (es ! i)" if "i < length es" for i
    using that word [of "length xs + 2 + i"] W by simp
  have fixed: "?word 0 = of_nat (length xs)" "?word (length xs + 1) = 0" "?word (length xs + length es + 2) = 0"
    using word [of 0] word [of "length xs + 1"] word [of "length xs + length es + 2"] W by simp_all
  have aux: "?word (length xs + length es + 3 + i) = aux_words entries ! i" if "i < 2 * length entries" for i
    using that word [of "length xs + length es + 3 + i"] W by simp
  have "m' a = Ram s a" if "z \<le> unat (a - ?B)" for a
    using m' that by (simp add: block_memory_def)
  then show ?thesis
    unfolding Let_def by (intro exI [of _ q'] exI [of _ m'] conjI run fixed allI impI args env aux) auto
qed

definition demo_process :: Process where
  "demo_process = new_process\<lparr>DefaultThreadStackBase := 0x10000, DefaultThreadStackSize := 512, Binary := 5\<rparr>"

definition demo_aux :: "(u64 \<times> u64) list" where
  "demo_aux = [(AT_NULL, 0), (AT_PAGESZ, 4096), (AT_RANDOM, 40), (AT_ENTRY, 0), (AT_BASE, 0), (AT_PAGESZ, 4096),
     (AT_PHNUM, 0), (AT_PHENT, 0), (AT_PHDR, 0)]"

lemma demo_stack:
  "stack_room 512 [[97, 98]] [[99]] (length demo_aux)"
  "aux_vectors demo_process (TlsMemory (TLS demo_process) + TLSData_StackCanary) (set_binary 5 no_binary demo_machine) = Inr demo_aux"
  by (simp_all add: stack_room_def demo_aux_def total_bytes_def round_up_def strings_ok_def aux_vectors_def demo_process_def
      new_process_def get_binary_def set_binary_def no_binary_def TLSData_StackCanary_def)

theorem build_stack_correct_witness:
  "\<exists>q' m'. build_stack demo_process [[97, 98, 0]] [[99, 0]] (set_binary 5 no_binary demo_machine)
      = Inr (q', set_binary 5 no_binary demo_machine\<lparr>Ram := m'\<rparr>)
    \<and> load64 m' (DefaultThreadStackStart q') = 1 \<and> m' (load64 m' (DefaultThreadStackStart q' + 8)) = 97
    \<and> load64 m' (DefaultThreadStackStart q' + 40) = AT_PHDR"
proof -
  have z: "DefaultThreadStackSize demo_process = of_nat 512"
    by (simp add: demo_process_def)
  obtain q' m' where run: "build_stack demo_process (zero_terminated [[97, 98]]) (zero_terminated [[99]]) (set_binary 5 no_binary demo_machine)
      = Inr (q', set_binary 5 no_binary demo_machine\<lparr>Ram := m'\<rparr>)"
    and argc: "load64 m' (DefaultThreadStackStart q') = 1"
    and arg: "\<forall>i < 1. c_string_at m' (load64 m' (DefaultThreadStackStart q' + 8 * of_nat (1 + i))) ([[97, 98]] ! i)"
    and aux: "\<forall>i < 2 * length demo_aux. load64 m' (DefaultThreadStackStart q' + 8 * of_nat (1 + 1 + 3 + i)) = aux_words demo_aux ! i"
    using build_stack_correct [OF demo_stack(1) z demo_stack(2)] by (auto simp: Let_def)
  have "m' (load64 m' (DefaultThreadStackStart q' + 8)) = 97"
    using arg by (auto simp: c_string_at_def zstring_def dest!: spec [of _ 0])
  moreover have "load64 m' (DefaultThreadStackStart q' + 40) = AT_PHDR"
    using aux [rule_format, of 0] by (simp add: demo_aux_def aux_words_def)
  ultimately show ?thesis
    using run argc by auto
qed

text \<open>
  The stack pointer a program starts with is a multiple of 16, as the calling convention of
  the platform wants, exactly if the number of arguments and environment strings is even;
  otherwise it is off by eight.
\<close>

theorem build_stack_alignment:
  assumes room: "stack_room z xs es (length entries)" and "DefaultThreadStackSize q = of_nat z"
    and "aux_vectors q (TlsMemory (TLS q) + TLSData_StackCanary) s = Inr entries"
    and "unat (DefaultThreadStackBase q) mod 16 = 0" and "z mod 16 = 0"
    and "build_stack q (zero_terminated xs) (zero_terminated es) s = Inr (q', s')"
  shows "unat (DefaultThreadStackStart q') mod 16 = (if even (length xs + length es) then 0 else 8)"
proof -
  let ?start = "stack_offset z xs es (length entries)" and ?c = "length xs + length es"
  have sp: "DefaultThreadStackStart q' = DefaultThreadStackBase q + of_nat ?start"
    using build_stack_window [OF room assms(2) refl assms(3)] assms(6) by auto
  obtain r where r: "round_up (total_bytes es + total_bytes xs) 16 = 16 * r"
    by (metis mult.commute round_up_def)
  obtain y where y: "z = 16 * y"
    using assms(5) by (metis mod_0_imp_dvd dvdE)
  have start: "?start + 8 + 16 * r + 16 * length entries + 8 * (?c + 3) = 16 * y"
    using room r y by (simp add: stack_room_def stack_offset_def aux_offset_def block_offset_def)
  have "unat (DefaultThreadStackStart q') mod 16 = (unat (DefaultThreadStackBase q) + unat (of_nat ?start :: u64)) mod 2 ^ 64 mod 16"
    unfolding sp by (simp add: unat_word_ariths(1))
  also have "\<dots> = (unat (DefaultThreadStackBase q) + unat (of_nat ?start :: u64)) mod 16"
    by (rule mod_mod_cancel) simp
  also have "\<dots> = unat (of_nat ?start :: u64) mod 16"
    using assms(4) by (metis add_0 mod_add_left_eq)
  also have "unat (of_nat ?start :: u64) = ?start"
    using start y room by (intro unat_of_nat_64) (simp add: stack_room_def)
  also have "?start mod 16 = (if even ?c then 0 else 8)"
  proof (cases "even ?c")
    case True
    then obtain d where "?c = 2 * d"
      by (elim evenE)
    then have "?start + 16 * (r + length entries + d + 2) = 16 * y"
      using start by simp
    then have "?start = 16 * (y - (r + length entries + d + 2))"
      by (simp add: diff_mult_distrib2)
    then show ?thesis
      using True by (simp only: mod_mult_self1_is_0 if_True)
  next
    case False
    then obtain d where "?c = 2 * d + 1"
      by (elim oddE)
    then have "?start + 8 + 16 * (r + length entries + d + 2) = 16 * y"
      using start by simp
    moreover from this have "?start + 8 = 16 * (y - (r + length entries + d + 2))" "0 < y - (r + length entries + d + 2)"
      by (simp_all add: diff_mult_distrib2)
    ultimately have "?start = 16 * (y - (r + length entries + d + 2) - 1) + 8"
      by (simp add: diff_mult_distrib2)
    then show ?thesis
      using False by (simp only: mod_mult_self4 if_False) simp
  qed
  finally show ?thesis .
qed

theorem build_stack_alignment_witness:
  "\<exists>q' s'. build_stack demo_process [[97, 98, 0]] [[99, 0]] (set_binary 5 no_binary demo_machine) = Inr (q', s')
    \<and> unat (DefaultThreadStackStart q') mod 16 = 0"
proof -
  have z: "DefaultThreadStackSize demo_process = of_nat 512" "unat (DefaultThreadStackBase demo_process) mod 16 = 0"
    by (simp_all add: demo_process_def)
  obtain q' s' where "build_stack demo_process (zero_terminated [[97, 98]]) (zero_terminated [[99]]) (set_binary 5 no_binary demo_machine) = Inr (q', s')"
    using build_stack_window [OF demo_stack(1) z(1) refl demo_stack(2)] by auto
  with build_stack_alignment [OF demo_stack(1) z(1) demo_stack(2) z(2) _ this] show ?thesis
    by simp
qed

end
