(* ===== verification/Time.thy ===== *)
theory Time
  imports VirtualMem "HOL-Library.Stream"
begin

text \<open>
  The timers, \<^verbatim>\<open>src/kernel/scheduling/time.cpp\<close>.  The hardware is a record: the values that
  the counter of the high precision timer will show, one for each time it is read; whether
  the interrupt of the interval timer arrives at the points where the code can be
  interrupted, one for each point; and what was written to the ports, the newest first.  The
  points are the store that clears \<^verbatim>\<open>PITReceived\<close>, just before it, and each halt of the
  processor.
\<close>

record timer =
  HpetCounter :: "u64 stream"
  HpetConfig :: u64
  HpetTicksPerNanosecond :: u64
  Arrivals :: "bool stream"
  PITReceived :: bool
  Ports :: "(u16 \<times> u8) list"

definition read_counter :: "timer \<Rightarrow> u64 \<times> timer" where
  "read_counter t = (shd (HpetCounter t), t\<lparr>HpetCounter := stl (HpetCounter t)\<rparr>)"

definition out_port :: "u16 \<Rightarrow> u8 \<Rightarrow> timer \<Rightarrow> timer" where
  "out_port port v t = t\<lparr>Ports := (port, v) # Ports t\<rparr>"

section \<open>The interval timer\<close>

definition PITInterrupt :: "timer \<Rightarrow> timer" where
  "PITInterrupt t = out_port 0x20 0x20 (t\<lparr>PITReceived := True\<rparr>)"

text \<open>A point at which the interrupt may arrive.\<close>

definition interruptible :: "timer \<Rightarrow> timer" where
  "interruptible t =
     (let now = shd (Arrivals t); t = t\<lparr>Arrivals := stl (Arrivals t)\<rparr>
      in if now then PITInterrupt t else t)"

partial_function (option) halt_loop :: "timer \<Rightarrow> timer option" where
  "halt_loop t = (if PITReceived t then Some t else halt_loop (interruptible t))"

definition PIT_FREQUENCY :: u64 where "PIT_FREQUENCY = 1193182"

text \<open>The command and the two bytes of a count.\<close>

definition program_pit :: "u16 \<Rightarrow> timer \<Rightarrow> timer" where
  "program_pit count t =
     out_port 0x40 (ucast (drop_bit 8 count AND 0xFF))
       (out_port 0x40 (ucast (count AND 0xFF)) (out_port 0x43 0x36 t))"

definition actual_count :: "u64 \<Rightarrow> u16" where
  "actual_count count = (if count > 65535 then 65535 else ucast count)"

partial_function (option) pit_loop :: "u64 \<Rightarrow> timer \<Rightarrow> timer option" where
  "pit_loop count t =
     (if count > 0 then
        Option.bind
          (halt_loop ((interruptible (program_pit (actual_count count) t))\<lparr>PITReceived := False\<rparr>))
          (pit_loop (count - ucast (actual_count count)))
      else Some t)"

definition pit_count :: "u64 \<Rightarrow> u64" where
  "pit_count microseconds = microseconds * PIT_FREQUENCY div 1000000"

definition WaitForPIT :: "u64 \<Rightarrow> timer \<Rightarrow> timer option" where
  "WaitForPIT microseconds t = pit_loop (pit_count microseconds) t"

section \<open>Calibration\<close>

definition GetCalibrationHPETSampleNS :: "bool \<Rightarrow> timer \<Rightarrow> (u64 \<times> timer) option" where
  "GetCalibrationHPETSampleNS warm_up t =
     (let delay = (if warm_up then 1 else 50 :: u64);
          (start, t) = read_counter t
      in Option.bind (WaitForPIT (delay * 1000) t) (\<lambda>t.
         let (finish, t) = read_counter t in Some ((finish - start) * (1000 div delay), t)))"

definition SampleCount :: nat where "SampleCount = 6"

text \<open>The samples that are kept: the first of the seven is thrown away.\<close>

fun take_samples :: "nat \<Rightarrow> timer \<Rightarrow> (u64 list \<times> timer) option" where
  "take_samples 0 t = Some ([], t)"
| "take_samples (Suc n) t =
     Option.bind (GetCalibrationHPETSampleNS False t) (\<lambda>(x, t).
     Option.bind (take_samples n t) (\<lambda>(xs, t). Some (x # xs, t)))"

definition collect_samples :: "timer \<Rightarrow> (u64 list \<times> timer) option" where
  "collect_samples t =
     Option.bind (GetCalibrationHPETSampleNS True t) (\<lambda>(_, t). take_samples SampleCount t)"

definition lowest_highest :: "u64 list \<Rightarrow> u64 \<times> u64" where
  "lowest_highest samples =
     fold (\<lambda>x (lo, hi). (if x < lo then x else lo, if x > hi then x else hi)) samples (- 1, 0)"

fun add_samples :: "u64 list \<Rightarrow> u64 \<Rightarrow> u64 \<Rightarrow> u64 \<Rightarrow> u64 \<Rightarrow> u64 \<times> u64" where
  "add_samples [] lo hi acc used = (acc, used)"
| "add_samples (x # xs) lo hi acc used =
     (if x = lo then add_samples xs (- 1) hi acc used
      else if x = hi then add_samples xs lo (- 1) acc used
      else add_samples xs lo hi (acc + x) (used + 1))"

definition calibrate :: "u64 list \<Rightarrow> fault + u64" where
  "calibrate samples =
     (let (lo, hi) = lowest_highest samples;
          (acc, used) = add_samples samples lo hi 0 0
      in if used = 0 then Inl DivideByZero else Inr (acc div used))"

text \<open>
  \<^verbatim>\<open>InitHPET\<close> with the address from its ACPI table.  The registers appear at the new virtual
  address, which is not used further.
\<close>

definition InitHPET :: "page_source \<Rightarrow> u64 \<Rightarrow> paging \<times> timer \<Rightarrow> (fault + paging \<times> timer) option" where
  "InitHPET get address pt =
     (case PhysicalAlloc get address 4096 Kernel PageFlags_None (fst pt) of
        Inl e \<Rightarrow> Some (Inl e)
      | Inr (base, p) \<Rightarrow>
          let t = (snd pt)\<lparr>HpetConfig := HpetConfig (snd pt) OR 1\<rparr> in
          Option.bind (collect_samples t) (\<lambda>(samples, t).
          Some (ok_bind (calibrate samples) (\<lambda>average.
            Inr (p, t\<lparr>HpetTicksPerNanosecond := average\<rparr>)))))"

section \<open>Sleeping\<close>

partial_function (option) spin_until :: "u64 \<Rightarrow> timer \<Rightarrow> timer option" where
  "spin_until finish t =
     (let (now, t) = read_counter t in if now < finish then spin_until finish t else Some t)"

definition HpetSleepNS :: "u64 \<Rightarrow> timer \<Rightarrow> timer option" where
  "HpetSleepNS nanoseconds t =
     (let (start, t) = read_counter t
      in spin_until (start + nanoseconds * HpetTicksPerNanosecond t div 1000) t)"

definition HpetSleepUS :: "u64 \<Rightarrow> timer \<Rightarrow> timer option" where
  "HpetSleepUS microseconds t =
     (let (start, t) = read_counter t
      in spin_until (start + microseconds * HpetTicksPerNanosecond t div (1000 * 1000)) t)"

definition HpetSleepMS :: "u64 \<Rightarrow> timer \<Rightarrow> timer option" where
  "HpetSleepMS milliseconds t = HpetSleepUS (1000 * milliseconds) t"

end
