(* ===== verification/TimeCorrect.thy ===== *)
theory TimeCorrect
  imports Time DemoMachine
begin

text \<open>
  The timers wait long enough and come back.  The hardware is assumed to go on: the interval
  timer keeps interrupting, the counter reaches the end of the delay at some time.
\<close>

section \<open>The interval timer\<close>

definition fair :: "bool stream \<Rightarrow> bool" where
  "fair s \<longleftrightarrow> (\<forall>n. \<exists>m \<ge> n. s !! m)"

lemma fair_stl: "fair s \<Longrightarrow> fair (stl s)"
  unfolding fair_def by (metis Suc_le_D Suc_le_mono snth.simps(2))

lemma fair_next: "fair s \<Longrightarrow> \<exists>m. s !! m"
  unfolding fair_def by blast

text \<open>The counts that were programmed, from the writes to the ports, the oldest first.\<close>

fun pit_counts :: "(u16 \<times> u8) list \<Rightarrow> nat list" where
  "pit_counts (command # low # high # ps) =
     (if command = (0x43, 0x36) \<and> fst low = 0x40 \<and> fst high = 0x40
      then (256 * unat (snd high) + unat (snd low)) # pit_counts ps else [])"
| "pit_counts _ = []"

definition programmed :: "(u16 \<times> u8) list \<Rightarrow> nat list" where
  "programmed ps = pit_counts (rev (filter (\<lambda>p. fst p \<noteq> 0x20) ps))"

text \<open>What happens to the timer while an interrupt is awaited.\<close>

definition waited :: "timer \<Rightarrow> timer \<Rightarrow> bool" where
  "waited t t' \<longleftrightarrow> fair (Arrivals t') \<and> HpetCounter t' = HpetCounter t \<and> HpetConfig t' = HpetConfig t
     \<and> HpetTicksPerNanosecond t' = HpetTicksPerNanosecond t
     \<and> (\<exists>n. Ports t' = replicate n (0x20, 0x20) @ Ports t)"

lemma waited_interruptible: "fair (Arrivals t) \<Longrightarrow> waited t (interruptible t)"
  by (auto simp: waited_def interruptible_def PITInterrupt_def out_port_def Let_def fair_stl
      intro: exI [of _ 0] exI [of _ "Suc 0"])

lemma waited_trans: "waited t t1 \<Longrightarrow> waited t1 t2 \<Longrightarrow> waited t t2"
  unfolding waited_def by (auto simp flip: replicate_add append_assoc)

lemma halt_loop_returns:
  assumes "fair (Arrivals t)"
  shows "\<exists>t'. halt_loop t = Some t' \<and> waited t t'"
proof -
  have "\<exists>t'. halt_loop t = Some t' \<and> waited t t'" if "Arrivals t !! m" "fair (Arrivals t)" for m
    using that
  proof (induction m arbitrary: t)
    case 0
    then have "halt_loop t = Some (if PITReceived t then t else interruptible t)"
      by (subst halt_loop.simps, subst halt_loop.simps)
        (simp add: interruptible_def PITInterrupt_def out_port_def Let_def)
    then show ?case
      using 0 waited_interruptible [of t] by (auto simp: waited_def intro: exI [of _ 0])
  next
    case (Suc m)
    let ?s = "interruptible t"
    have "Arrivals ?s = stl (Arrivals t)"
      by (simp add: interruptible_def PITInterrupt_def out_port_def Let_def)
    then obtain t' where "halt_loop ?s = Some t'" "waited ?s t'"
      using Suc.IH [of ?s] Suc.prems by (auto simp: fair_stl)
    then show ?case
      using Suc.prems waited_interruptible [of t] waited_trans
      by (subst halt_loop.simps) (auto simp: waited_def intro: exI [of _ 0])
  qed
  then show ?thesis
    using fair_next assms by blast
qed

lemma unat_bytes_of_count:
  "256 * unat (ucast (drop_bit 8 c AND 0xFF) :: u8) + unat (ucast (c AND 0xFF) :: u8) = unat c" for c :: u16
proof -
  have mask: "(0xFF :: u16) = mask 8"
    by (simp add: mask_eq_exp_minus_1)
  have "ucast (drop_bit 8 c AND mask 8) = (ucast (drop_bit 8 c) :: u8)" "ucast (c AND mask 8) = (ucast c :: u8)"
    by (rule bit_word_eqI, auto simp: bit_simps)+
  moreover have "unat (ucast (drop_bit 8 c) :: u8) = unat c div 256"
    using unat_less_pow2 [of c]
    by (simp only: unsigned_ucast_eq unsigned_drop_bit_eq)
      (simp add: drop_bit_eq_div take_bit_nat_eq_self less_mult_imp_div_less)
  moreover have "unat (ucast c :: u8) = unat c mod 256"
    by (simp add: unsigned_ucast_eq take_bit_eq_mod)
  ultimately show ?thesis
    by (simp only: mask) simp
qed

lemma actual_count:
  assumes "count > 0"
  shows "unat (actual_count count) = min (unat count) 65535"
    and "unat (count - ucast (actual_count count)) = unat count - min (unat count) 65535"
proof -
  show *: "unat (actual_count count) = min (unat count) 65535"
    by (auto simp: actual_count_def word_less_nat_alt unsigned_ucast_eq take_bit_eq_mod)
  have "unat (ucast (actual_count count) :: u64) = unat (actual_count count)"
    by (simp add: unsigned_ucast_eq take_bit_nat_eq_self less_trans [OF unat_less_pow2])
  then show "unat (count - ucast (actual_count count)) = unat count - min (unat count) 65535"
    by (subst unat_sub) (simp_all add: * word_le_nat_alt)
qed

lemma programmed_chunk:
  "programmed (ps @ replicate n (0x20, 0x20) @ (0x40, h) # (0x40, l) # (0x43, 0x36) # [])
    = (256 * unat h + unat l) # programmed ps"
  by (simp add: programmed_def)

definition chunks_sent :: "timer \<Rightarrow> timer \<Rightarrow> nat \<Rightarrow> bool" where
  "chunks_sent t t' n \<longleftrightarrow> (\<exists>ps. Ports t' = ps @ Ports t
     \<and> sum_list (programmed ps) = n \<and> (\<forall>c \<in> set (programmed ps). 0 < c \<and> c \<le> 65535))"

lemma pit_loop_returns:
  assumes "fair (Arrivals t)"
  shows "\<exists>t'. pit_loop count t = Some t' \<and> fair (Arrivals t') \<and> HpetCounter t' = HpetCounter t
    \<and> HpetConfig t' = HpetConfig t \<and> HpetTicksPerNanosecond t' = HpetTicksPerNanosecond t
    \<and> chunks_sent t t' (unat count)"
  using assms
proof (induction "unat count" arbitrary: count t rule: less_induct)
  case less
  show ?case
  proof (cases "count > 0")
    case False
    then have "count = 0"
      using word_gt_0 by blast
    then show ?thesis
      using less.prems by (subst pit_loop.simps) (auto simp: chunks_sent_def programmed_def)
  next
    case True
    let ?c = "actual_count count"
    let ?p = "program_pit ?c t"
    let ?r = "(interruptible ?p)\<lparr>PITReceived := False\<rparr>"
    have p: "Ports ?p = (0x40, ucast (drop_bit 8 ?c AND 0xFF)) # (0x40, ucast (?c AND 0xFF)) # (0x43, 0x36) # Ports t"
      "fair (Arrivals ?p)" "HpetCounter ?p = HpetCounter t" "HpetConfig ?p = HpetConfig t"
      "HpetTicksPerNanosecond ?p = HpetTicksPerNanosecond t"
      using less.prems by (simp_all add: program_pit_def out_port_def)
    have r: "waited ?p ?r"
      using waited_interruptible [OF p(2)] by (simp add: waited_def)
    then obtain t1 where t1: "halt_loop ?r = Some t1" "waited ?r t1"
      using halt_loop_returns [of ?r] by (auto simp: waited_def)
    then have w: "waited ?p t1"
      using r waited_trans by blast
    moreover have "unat (count - ucast ?c) < unat count"
      using True by (simp add: actual_count(2) word_less_nat_alt)
    ultimately obtain t2 where t2: "pit_loop (count - ucast ?c) t1 = Some t2" "fair (Arrivals t2)"
      "HpetCounter t2 = HpetCounter t1" "HpetConfig t2 = HpetConfig t1"
      "HpetTicksPerNanosecond t2 = HpetTicksPerNanosecond t1" "chunks_sent t1 t2 (unat (count - ucast ?c))"
      using less.hyps [of "count - ucast ?c" t1] by (auto simp: waited_def)
    have "pit_loop count t = Some t2"
      using True t1(1) t2(1) by (subst pit_loop.simps) simp
    moreover have "chunks_sent t t2 (unat count)"
    proof -
      obtain n where n: "Ports t1 = replicate n (0x20, 0x20) @ Ports ?p"
        using w by (auto simp: waited_def)
      obtain ps where ps: "Ports t2 = ps @ Ports t1" "sum_list (programmed ps) = unat (count - ucast ?c)"
        "\<forall>c \<in> set (programmed ps). 0 < c \<and> c \<le> 65535"
        using t2(6) by (auto simp: chunks_sent_def)
      let ?all = "ps @ replicate n (0x20, 0x20) @ (0x40, ucast (drop_bit 8 ?c AND 0xFF)) # (0x40, ucast (?c AND 0xFF)) # (0x43, 0x36) # []"
      have "programmed ?all = unat ?c # programmed ps"
        by (simp only: programmed_chunk unat_bytes_of_count)
      moreover have "Ports t2 = ?all @ Ports t"
        by (simp add: ps(1) n p(1))
      moreover have "0 < unat count"
        using True by (simp add: word_less_nat_alt)
      ultimately show ?thesis
        using ps(2,3) True by (auto simp: chunks_sent_def actual_count intro!: exI [of _ ?all])
    qed
    ultimately show ?thesis
      using t2 w p by (auto simp: waited_def)
  qed
qed

section \<open>Calibration\<close>

lemma lowest_highest:
  assumes "samples \<noteq> []"
  shows "lowest_highest samples = (Min (set samples), Max (set samples))"
proof -
  have step: "(\<lambda>x (lo, hi). (if x < lo then x else lo, if x > hi then x else hi))
      = (\<lambda>x (lo, hi). (min x lo, max x (hi :: u64)))"
    by (auto simp: fun_eq_iff min_def max_def)
  have "fold (\<lambda>x (lo, hi). (min x lo, max x (hi :: u64))) xs (lo, hi) = (fold min xs lo, fold max xs hi)"
    for xs and lo hi :: u64
    by (induction xs arbitrary: lo hi) simp_all
  then have "lowest_highest samples = (Min (set (- 1 # samples)), Max (set (0 # samples)))"
    by (simp only: lowest_highest_def step Min.set_eq_fold Max.set_eq_fold)
  also have "\<dots> = (Min (set samples), Max (set samples))"
    using assms by (simp add: min_absorb2 word_order.extremum max_absorb2)
  finally show ?thesis .
qed

text \<open>The samples without one of the lowest and one of the highest.\<close>

definition middle :: "u64 list \<Rightarrow> u64 list" where
  "middle xs = (let ys = remove1 (Min (set xs)) xs in remove1 (Max (set xs)) ys)"

lemma add_samples_rest:
  assumes "\<forall>x \<in> set xs. x \<noteq> - 1"
  shows "add_samples xs (- 1) (- 1) acc used = (acc + sum_list xs, used + of_nat (length xs))"
  using assms by (induction xs arbitrary: acc used) (simp_all add: algebra_simps)

lemma add_samples_one:
  assumes "\<forall>x \<in> set xs. x \<noteq> - 1" and "v \<in> set xs"
  shows "add_samples xs v (- 1) acc used = (acc + sum_list (remove1 v xs), used + of_nat (length (remove1 v xs)))"
    and "add_samples xs (- 1) v acc used = (acc + sum_list (remove1 v xs), used + of_nat (length (remove1 v xs)))"
  using assms by (induction xs arbitrary: acc used) (auto simp: algebra_simps add_samples_rest)

lemma add_samples_two:
  assumes "\<forall>x \<in> set xs. x \<noteq> - 1" and "lo \<in> set xs" and "hi \<in> set (remove1 lo xs)"
  shows "add_samples xs lo hi acc used
    = (acc + sum_list (remove1 hi (remove1 lo xs)), used + of_nat (length (remove1 hi (remove1 lo xs))))"
  using assms
proof (induction xs arbitrary: acc used)
  case (Cons x xs)
  then show ?case
    by (cases "x = lo"; cases "x = hi")
      (auto simp: add_samples_one remove1_commute algebra_simps)
qed simp

lemma sum_list_unat:
  fixes xs :: "u64 list"
  assumes "sum_list (map unat xs) < 2 ^ 64"
  shows "unat (sum_list xs) = sum_list (map unat xs)"
  using assms by (induction xs) (auto simp: unat_add_no_wrap)

lemma sum_list_remove1:
  "x \<in> set xs \<Longrightarrow> sum_list (map f (remove1 x xs)) + f x = sum_list (map f xs)" for f :: "'a \<Rightarrow> nat"
  by (induction xs) auto

lemma highest_left:
  fixes xs :: "u64 list"
  assumes "2 \<le> length xs"
  shows "Max (set xs) \<in> set (remove1 (Min (set xs)) xs)"
proof (cases "Max (set xs) = Min (set xs)")
  case True
  have "remove1 (Min (set xs)) xs \<noteq> []"
    using assms by (auto simp: length_remove1 dest!: arg_cong [of _ "[]" length] split: if_splits)
  then obtain y where y: "y \<in> set (remove1 (Min (set xs)) xs)"
    by (metis hd_in_set)
  then have "y \<in> set xs"
    by (meson notin_set_remove1)
  then have "Min (set xs) \<le> y" "y \<le> Max (set xs)"
    by simp_all
  then show ?thesis
    using y True by simp
next
  case False
  have "xs \<noteq> []"
    using assms by auto
  then show ?thesis
    using False by (simp add: Max_in)
qed

lemma calibrate_trimmed:
  assumes "length samples = SampleCount" and "\<forall>x \<in> set samples. x \<noteq> - 1"
    and "sum_list (map unat samples) < 2 ^ 64"
  shows "\<exists>v. calibrate samples = Inr v \<and> unat v =
    (sum_list (map unat samples) - unat (Min (set samples)) - unat (Max (set samples))) div 4"
proof -
  let ?lo = "Min (set samples)" and ?hi = "Max (set samples)"
  let ?rest = "remove1 ?hi (remove1 ?lo samples)"
  have "samples \<noteq> []" "2 \<le> length samples"
    using assms(1) by (auto simp: SampleCount_def)
  then have lo: "?lo \<in> set samples" and hi: "?hi \<in> set (remove1 ?lo samples)"
    by (simp_all add: highest_left)
  have n: "length ?rest = 4"
    using assms(1) lo hi by (simp add: length_remove1 SampleCount_def)
  have sum: "sum_list (map unat ?rest) + unat ?hi + unat ?lo = sum_list (map unat samples)"
    using sum_list_remove1 [OF hi, of unat] sum_list_remove1 [OF lo, of unat] by simp
  have "calibrate samples = Inr (sum_list ?rest div 4)"
    using add_samples_two [OF assms(2) lo hi, of 0 0]
    by (simp only: calibrate_def lowest_highest [OF \<open>samples \<noteq> []\<close>] n) simp
  moreover have "unat (sum_list ?rest) = sum_list (map unat ?rest)"
    using sum assms(3) by (intro sum_list_unat) simp
  ultimately show ?thesis
    using sum by (auto simp: unat_div)
qed

text \<open>The sample that a calibration takes from the readings around its delay.\<close>

lemma sample_returns:
  assumes "fair (Arrivals t)"
  shows "\<exists>t'. GetCalibrationHPETSampleNS warm_up t =
      Some ((HpetCounter t !! 1 - HpetCounter t !! 0) * (1000 div (if warm_up then 1 else 50)), t')
    \<and> fair (Arrivals t') \<and> HpetCounter t' = sdrop 2 (HpetCounter t) \<and> HpetConfig t' = HpetConfig t"
proof -
  let ?t = "t\<lparr>HpetCounter := stl (HpetCounter t)\<rparr>"
  obtain t' where "pit_loop (pit_count ((if warm_up then 1 else 50) * 1000)) ?t = Some t'"
    "fair (Arrivals t')" "HpetCounter t' = HpetCounter ?t" "HpetConfig t' = HpetConfig ?t"
    using pit_loop_returns [of ?t] assms by auto
  then show ?thesis
    by (auto simp: GetCalibrationHPETSampleNS_def WaitForPIT_def read_counter_def Let_def numeral_2_eq_2)
qed

definition calibration_sample :: "u64 stream \<Rightarrow> nat \<Rightarrow> u64" where
  "calibration_sample r i = (r !! (2 * i + 1) - r !! (2 * i)) * 20"

lemma take_samples_returns:
  assumes "fair (Arrivals t)"
  shows "\<exists>t'. take_samples n t = Some (map (calibration_sample (HpetCounter t)) [0 ..< n], t')
    \<and> fair (Arrivals t') \<and> HpetCounter t' = sdrop (2 * n) (HpetCounter t) \<and> HpetConfig t' = HpetConfig t"
  using assms
proof (induction n arbitrary: t)
  case (Suc n)
  obtain t1 where t1: "GetCalibrationHPETSampleNS False t = Some (calibration_sample (HpetCounter t) 0, t1)"
    "fair (Arrivals t1)" "HpetCounter t1 = sdrop 2 (HpetCounter t)" "HpetConfig t1 = HpetConfig t"
    using sample_returns [OF Suc.prems, of False] by (auto simp: calibration_sample_def)
  have "map (calibration_sample (sdrop 2 r)) [0 ..< n] = map (\<lambda>i. calibration_sample r (Suc i)) [0 ..< n]" for r
    by (simp add: calibration_sample_def sdrop_snth del: sdrop.simps snth.simps)
  then show ?case
    using Suc.IH [OF t1(2)] t1 by (auto simp: map_upt_Suc simp del: upt_Suc)
qed simp

lemma VirtualAlloc_PhysicalAlloc:
  assumes "VirtualAlloc get n level flags s = Inr (va, s')" and "va \<noteq> 0"
  shows "\<exists>pa. PhysicalAlloc get pa n level flags s = Inr (va, s')"
proof -
  obtain pa where "FindMinimumSizeFreeBlock (PhysicalMemoryState s) n = Inr pa"
    using assms by (auto simp: VirtualAlloc_def ok_bind_eq_Inr)
  then have "PhysicalAlloc get pa n level flags s = Inr (va, s')"
    using assms
    by (auto simp: VirtualAlloc_def PhysicalAlloc_def store_through_def ok_bind_eq_Inr
        split: if_splits)
  then show ?thesis
    by blast
qed

text \<open>
  C23: Calibration of the timer ends, and the frequency it computes is the mean of the four
  middle samples: of the six that are taken from the counter before and after a delay of 50
  ms, scaled to a second, the lowest and the highest are left out.
\<close>

theorem InitHPET_calibrates:
  assumes "fair (Arrivals t)"
    and "samples = map (calibration_sample (sdrop 2 (HpetCounter t))) [0 ..< 6]"
    and "PhysicalAlloc get address 4096 Kernel PageFlags_None p = Inr (base, p')"
    and "\<forall>x \<in> set samples. x \<noteq> - 1" and "sum_list (map unat samples) < 2 ^ 64"
  shows "\<exists>t'. InitHPET get address (p, t) = Some (Inr (p', t')) \<and> bit (HpetConfig t') 0
    \<and> unat (HpetTicksPerNanosecond t') =
      (sum_list (map unat samples) - unat (Min (set samples)) - unat (Max (set samples))) div 4"
proof -
  let ?t = "t\<lparr>HpetConfig := HpetConfig t OR 1\<rparr>"
  obtain t1 where t1: "GetCalibrationHPETSampleNS True ?t = Some ((HpetCounter t !! 1 - HpetCounter t !! 0) * 1000, t1)"
    "fair (Arrivals t1)" "HpetCounter t1 = sdrop 2 (HpetCounter t)" "HpetConfig t1 = HpetConfig t OR 1"
    using sample_returns [of ?t True] assms(1) by auto
  obtain t2 where t2: "take_samples 6 t1 = Some (samples, t2)" "HpetConfig t2 = HpetConfig t OR 1"
    using take_samples_returns [OF t1(2), of 6] by (auto simp: t1(3,4) assms(2))
  obtain v where "calibrate samples = Inr v"
    "unat v = (sum_list (map unat samples) - unat (Min (set samples)) - unat (Max (set samples))) div 4"
    using calibrate_trimmed [of samples] assms(2,4,5) by (auto simp: SampleCount_def)
  then show ?thesis
    using t1(1) t2 assms(3)
    by (auto simp: InitHPET_def collect_samples_def SampleCount_def bit_simps)
qed

definition demo_timer :: timer where
  "demo_timer = \<lparr>HpetCounter = smap (\<lambda>n. of_nat (1000 * n)) (fromN 0), HpetConfig = 0,
     HpetTicksPerNanosecond = 0, Arrivals = sconst True, PITReceived = False, Ports = []\<rparr>"

lemma demo_fair: "fair (Arrivals demo_timer)"
  by (auto simp: fair_def demo_timer_def)

lemma demo_counter: "HpetCounter demo_timer !! k = of_nat (1000 * k)"
  by (simp add: demo_timer_def snth_smap del: snth.simps)

lemma demo_samples: "map (calibration_sample (sdrop 2 (HpetCounter demo_timer))) [0 ..< 6] = replicate 6 20000"
  by (rule nth_equalityI)
    (auto simp: calibration_sample_def sdrop_snth demo_counter algebra_simps simp del: sdrop.simps snth.simps)

lemma demo_PhysicalAlloc:
  "\<exists>pa base p'. PhysicalAlloc (GetPML4FreePage 1 demo_rpmalloc) pa 4096 Kernel PageFlags_None demo_manager = Inr (base, p')"
proof -
  have f: "FindMinimumSizeFreeBlock (PhysicalMemoryState demo_manager) 4096 = Inr 0x1000"
    "FindMinimumSizeFreeBlock (VirtualMemoryState demo_manager) 4096 = Inr 0x1000"
    by (simp_all add: demo_manager_fields FindMinimumSizeFreeBlock_def demo_used_def demo_tracker_ok PAGE_MASK_def)
  have "manager_ok demo_manager (Suc 9) 2048"
    using demo_manager_ok(1) by simp
  from VirtualAlloc_core [OF this _ demo_manager_ok(2) f(1) _ f(2), of 1 demo_rpmalloc Kernel PageFlags_None]
  show ?thesis
    using VirtualAlloc_PhysicalAlloc by fastforce
qed

lemma InitHPET_calibrates_witness:
  "\<exists>pa p t. InitHPET (GetPML4FreePage 1 demo_rpmalloc) pa (demo_manager, demo_timer) = Some (Inr (p, t))
    \<and> unat (HpetTicksPerNanosecond t) = 20000"
proof -
  obtain pa base p' where "PhysicalAlloc (GetPML4FreePage 1 demo_rpmalloc) pa 4096 Kernel PageFlags_None demo_manager = Inr (base, p')"
    using demo_PhysicalAlloc by blast
  from InitHPET_calibrates [OF demo_fair demo_samples [symmetric] this]
  show ?thesis
    by (auto simp: sum_list_replicate simp del: GetPML4FreePage.simps)
qed

section \<open>Sleeping\<close>

lemma spin_until_first:
  assumes "\<forall>j < k. HpetCounter t !! j < finish" and "\<not> HpetCounter t !! k < finish"
  shows "spin_until finish t = Some (t\<lparr>HpetCounter := sdrop (Suc k) (HpetCounter t)\<rparr>)"
  using assms
proof (induction k arbitrary: t)
  case 0
  then show ?case
    by (subst spin_until.simps) (simp add: read_counter_def)
next
  case (Suc k)
  have "HpetCounter t !! 0 < finish"
    using Suc.prems(1) by blast
  moreover have "\<forall>j < k. stl (HpetCounter t) !! j < finish"
    using Suc.prems(1) by (metis Suc_less_eq snth.simps(2))
  ultimately show ?case
    using Suc.IH [of "t\<lparr>HpetCounter := stl (HpetCounter t)\<rparr>"] Suc.prems(2)
    by (subst spin_until.simps) (simp add: read_counter_def)
qed

text \<open>
  A sleep ends when the counter, once it was read at the start, shows a value that lies
  the given number of microseconds further, and not before; the products must fit.
\<close>

theorem HpetSleepUS_correct:
  assumes "0 < k" and "unat (HpetCounter t !! k) \<ge> unat (HpetCounter t !! 0) + delay"
    and "\<forall>j < k. 0 < j \<longrightarrow> unat (HpetCounter t !! j) < unat (HpetCounter t !! 0) + delay"
    and "delay = unat microseconds * unat (HpetTicksPerNanosecond t) div 10 ^ 6"
    and "unat microseconds * unat (HpetTicksPerNanosecond t) < 2 ^ 64"
  shows "HpetSleepUS microseconds t = Some (t\<lparr>HpetCounter := sdrop (Suc k) (HpetCounter t)\<rparr>)"
proof -
  let ?c = "HpetCounter t"
  let ?finish = "?c !! 0 + microseconds * HpetTicksPerNanosecond t div (1000 * 1000)"
  have "unat (microseconds * HpetTicksPerNanosecond t) = unat microseconds * unat (HpetTicksPerNanosecond t)"
    using assms(5) by (simp add: unat_word_ariths)
  then have "unat (microseconds * HpetTicksPerNanosecond t div (1000 * 1000)) = delay"
    by (simp add: unat_div assms(4))
  then have e: "unat ?finish = unat (?c !! 0) + delay"
    using assms(2) unat_less_pow2 [of "?c !! k"] by (subst unat_add_no_wrap) simp_all
  obtain k' where k': "k = Suc k'"
    using assms(1) gr0_implies_Suc by blast
  have "stl ?c !! j < ?finish" if "j < k'" for j
    using assms(3) [rule_format, of "Suc j"] that k' by (simp only: word_less_nat_alt e) simp
  moreover have "\<not> stl ?c !! k' < ?finish"
    using assms(2) k' by (simp only: word_less_nat_alt e) simp
  ultimately show ?thesis
    using spin_until_first [of k' "t\<lparr>HpetCounter := stl ?c\<rparr>" ?finish] k'
    by (simp add: HpetSleepUS_def read_counter_def)
qed

text \<open>
  A request to sleep n nanoseconds sleeps n milliseconds.  The value that the
  calibration stores as ticks per nanosecond is the number of ticks per second.
\<close>

theorem HpetSleepNS_too_long:
  assumes "1000 * unat n * unat (HpetTicksPerNanosecond t) < 2 ^ 64" and "1000 * unat n < 2 ^ 64"
  shows "HpetSleepNS n t = HpetSleepMS n t"
proof -
  let ?f = "HpetTicksPerNanosecond t"
  have "unat (n * ?f) = unat n * unat ?f" "unat (1000 * n * ?f) = 1000 * unat n * unat ?f"
    using assms by (simp_all add: unat_word_ariths)
  then have "unat (n * ?f div 1000) = unat (1000 * n * ?f div (1000 * 1000))"
    by (simp add: unat_div)
  then have "n * ?f div 1000 = 1000 * n * ?f div (1000 * 1000)"
    by (simp only: word_unat_eq_iff)
  then show ?thesis
    by (simp add: HpetSleepNS_def HpetSleepMS_def HpetSleepUS_def read_counter_def)
qed

lemma HpetSleepUS_correct_witness:
  "HpetSleepUS 3 (demo_timer\<lparr>HpetTicksPerNanosecond := 2000000000\<rparr>)
    = Some (demo_timer\<lparr>HpetTicksPerNanosecond := 2000000000, HpetCounter := sdrop (Suc 6) (HpetCounter demo_timer)\<rparr>)"
proof -
  let ?t = "demo_timer\<lparr>HpetTicksPerNanosecond := 2000000000\<rparr>"
  have r: "unat (HpetCounter ?t !! j) = 1000 * j" if "j \<le> 6" for j
  proof -
    have "unat (of_nat (1000 * j) :: u64) = 1000 * j"
      using that by (intro unat_of_nat_64) simp
    then show ?thesis
      using demo_counter [of j] by simp
  qed
  have "HpetSleepUS 3 ?t = Some (?t\<lparr>HpetCounter := sdrop (Suc 6) (HpetCounter ?t)\<rparr>)"
  proof (rule HpetSleepUS_correct [where delay = 6000])
    show "unat (HpetCounter ?t !! 6) \<ge> unat (HpetCounter ?t !! 0) + 6000"
      by (simp only: r)
    show "\<forall>j < 6. 0 < j \<longrightarrow> unat (HpetCounter ?t !! j) < unat (HpetCounter ?t !! 0) + 6000"
      using r [of 0] by (auto simp only: r le0 less_imp_le)
  qed simp_all
  then show ?thesis
    by (simp del: sdrop.simps)
qed

lemma HpetSleepNS_too_long_witness:
  "HpetSleepNS 5 (demo_timer\<lparr>HpetTicksPerNanosecond := 1000000\<rparr>)
    = HpetSleepMS 5 (demo_timer\<lparr>HpetTicksPerNanosecond := 1000000\<rparr>)"
  by (rule HpetSleepNS_too_long) simp_all

text \<open>
  C24: When the interval timer keeps interrupting, a wait on it ends.  The counts that were
  programmed fit into the counter of 16 bits, none is empty, and together they are the delay
  at the frequency of the timer.
\<close>

theorem WaitForPIT_returns:
  assumes "fair (Arrivals t)" and "unat microseconds * 1193182 < 2 ^ 64"
  shows "\<exists>t'. WaitForPIT microseconds t = Some t'
    \<and> chunks_sent t t' (unat microseconds * 1193182 div 10 ^ 6) \<and> HpetCounter t' = HpetCounter t"
proof -
  have "unat (microseconds * PIT_FREQUENCY) = unat microseconds * 1193182"
    using assms(2) by (simp add: PIT_FREQUENCY_def unat_word_ariths)
  then have "unat (pit_count microseconds) = unat microseconds * 1193182 div 10 ^ 6"
    by (simp add: pit_count_def unat_div)
  then show ?thesis
    using pit_loop_returns [OF assms(1), of "pit_count microseconds"] by (auto simp: WaitForPIT_def)
qed

lemma WaitForPIT_returns_witness:
  "\<exists>t'. WaitForPIT 50000 demo_timer = Some t' \<and> chunks_sent demo_timer t' 59659"
  using WaitForPIT_returns [OF demo_fair, of 50000] by auto

end
