(* ===== verification/Syscalls.thy ===== *)
theory Syscalls
  imports Process Interrupts Time
begin

text \<open>
  The system calls of \<^verbatim>\<open>src/kernel/user_mode/syscalls.cpp\<close>.  A routine takes the arguments at the
  width of its parameters and acts on the machine; its answer is an \<^verbatim>\<open>int\<close>, a value of 64 bits,
  or no return to the caller.  User memory is reached through the pointers as they are; only a
  null pointer is noticed.  What is outside of the kernel, or not determined by the code, is
  an argument: the hash function, the pages, what a program does, fresh addresses, the
  build number, the time stamp counter, and what a buffer on the stack held before.
  Messages on the serial port are left out.
\<close>

datatype answer = Result32 u32 | Result64 u64 | ReturnToKernel

definition ENOMEM :: u64 where "ENOMEM = 12"
definition ENOSYS :: u64 where "ENOSYS = 38"

section \<open>User memory\<close>

text \<open>The string at an address, up to its terminator and of at most n cells.\<close>

fun read_cstr :: "nat \<Rightarrow> memory \<Rightarrow> u64 \<Rightarrow> cstr" where
  "read_cstr 0 m a = []"
| "read_cstr (Suc n) m a = (if m a = 0 then [0] else m a # read_cstr n m (a + 1))"

definition store_string :: "memory \<Rightarrow> u64 \<Rightarrow> string \<Rightarrow> memory" where
  "store_string m a t = store_bytes m a (map char_code t @ [0])"

text \<open>The \<^verbatim>\<open>hack\<close> of the path arguments: one leading dot is skipped.\<close>

definition skip_dot :: "u64 \<Rightarrow> machine \<Rightarrow> u64" where
  "skip_dot filename s = (if filename \<noteq> 0 \<and> Ram s filename = 46 then filename + 1 else filename)"

text \<open>The path in the buffer of 256 characters, which held \<^verbatim>\<open>wide_name\<close> before.\<close>

definition user_path :: "wstr \<Rightarrow> u64 \<Rightarrow> machine \<Rightarrow> fault + wstr" where
  "user_path wide_name filename s =
     (if filename = 0 then Inl NullPointer
      else ok_bind (ascii_to_wide (Some wide_name) (read_cstr 257 (Ram s) (skip_dot filename s)) 256)
        (\<lambda>(k, out). Inr (the out)))"

section \<open>Trivial answers\<close>

definition sys_dummy :: "machine \<Rightarrow> fault + answer \<times> machine" where
  "sys_dummy s = Inr (Result64 (- EINVAL), s)"

definition sys_not_implemented :: "u64 \<Rightarrow> machine \<Rightarrow> fault + answer \<times> machine" where
  "sys_not_implemented syscall_number s =
     ok_bind (console_number False 64 10 (uint syscall_number) 10 (console (wide_text ''Syscall '') s)) (\<lambda>s.
     Inr (Result64 (- ENOSYS), console (wide_text '' not implemented'' @ [10]) s))"

definition sys_getcwd :: "u64 \<Rightarrow> u64 \<Rightarrow> machine \<Rightarrow> fault + answer \<times> machine" where
  "sys_getcwd buf n s =
     (if buf = 0 then Inl NullPointer else Inr (Result32 0, s\<lparr>Ram := store_string (Ram s) buf ''/''\<rparr>))"

definition sys_clock_gettime :: "u64 \<Rightarrow> machine \<Rightarrow> fault + answer \<times> machine" where
  "sys_clock_gettime tp s =
     (if tp = 0 then Inl NullPointer else Inr (Result32 0, s\<lparr>Ram := memset (Ram s) tp 0 16\<rparr>))"

definition sys_prlimit64 :: "machine \<Rightarrow> fault + answer \<times> machine" where
  "sys_prlimit64 s = Inr (Result32 0, s)"

definition sys_mprotect :: "machine \<Rightarrow> fault + answer \<times> machine" where
  "sys_mprotect s = Inr (Result32 0, s)"

definition sys_getpid :: "machine \<Rightarrow> fault + answer \<times> machine" where
  "sys_getpid s = Inr (Result32 1, s)"

definition sys_set_tid_address :: "u64 \<Rightarrow> machine \<Rightarrow> fault + answer \<times> machine" where
  "sys_set_tid_address tidptr s =
     (if tidptr = 0 then Inl NullPointer
      else Inr (Result32 99999, s\<lparr>Ram := store32 (Ram s) tidptr 99999\<rparr>))"

definition sys_getrandom :: "u64 \<Rightarrow> u64 \<Rightarrow> machine \<Rightarrow> fault + answer \<times> machine" where
  "sys_getrandom buf n s =
     (if buf = 0 \<and> n \<noteq> 0 then Inl NullPointer
      else Inr (Result32 0, s\<lparr>Ram := fold (\<lambda>i m. m(buf + of_nat i := of_nat (i mod 256))) [0 ..< unat n] (Ram s)\<rparr>))"

section \<open>Thread pointer\<close>

definition ARCH_SET_FS :: u32 where "ARCH_SET_FS = 0x1002"
definition ARCH_GET_FS :: u32 where "ARCH_GET_FS = 0x1003"
definition ARCH_CET_STATUS :: u32 where "ARCH_CET_STATUS = 0x3001"

definition sys_arch_prctl :: "u32 \<Rightarrow> u64 \<Rightarrow> machine \<Rightarrow> fault + answer \<times> machine" where
  "sys_arch_prctl code addr s =
     (if code = ARCH_SET_FS then ok_bind (SetUserFSBase addr s) (\<lambda>s. Inr (Result64 0, s))
      else if code = ARCH_GET_FS then ok_bind (GetUserFSBase s) (\<lambda>fs. Inr (Result64 fs, s))
      else if code = ARCH_CET_STATUS then Inr (Result64 (- EINVAL), s)
      else
        ok_bind (console_number True 32 10 (sint code) 16 (console (wide_text ''sys_arch_prctl code 0x'') s)) (\<lambda>s.
        Inr (Result64 (- EINVAL), console (wide_text '' not implemented'' @ [10]) s)))"

section \<open>Files\<close>

text \<open>Handles that the code passes on are 64 bits wide; an \<^verbatim>\<open>int\<close> is sign extended.\<close>

definition open_path :: "hash \<Rightarrow> wstr \<Rightarrow> u64 \<Rightarrow> u64 \<Rightarrow> machine \<Rightarrow> fault + u64 \<times> machine" where
  "open_path XXH64 wide_name filename mode s =
     ok_bind (user_path wide_name filename s) (\<lambda>path.
     ok_bind (VolumeOpenHandle XXH64 (Mounts s) 0 path (ucast mode) (World s)) (\<lambda>(h, w).
     Inr (h, s\<lparr>World := w\<rparr>)))"

definition sys_access :: "hash \<Rightarrow> wstr \<Rightarrow> u64 \<Rightarrow> u64 \<Rightarrow> machine \<Rightarrow> fault + answer \<times> machine" where
  "sys_access XXH64 wide_name filename mode s =
     ok_bind (open_path XXH64 wide_name filename mode s) (\<lambda>(h, s).
     if h = 0 then Inr (Result64 (- ENOENT), s)
     else ok_bind (VolumeCloseHandle (Mounts s) h (World s)) (\<lambda>w. Inr (Result64 0, s\<lparr>World := w\<rparr>)))"

definition sys_open :: "hash \<Rightarrow> wstr \<Rightarrow> u64 \<Rightarrow> u64 \<Rightarrow> machine \<Rightarrow> fault + answer \<times> machine" where
  "sys_open XXH64 wide_name filename mode s =
     ok_bind (open_path XXH64 wide_name filename mode s) (\<lambda>(h, s).
     Inr (Result32 (if h = 0 then - ucast ENOENT else 0), s))"

text \<open>The handle is unsigned: the test \<^verbatim>\<open>handle < 0\<close> is never true.\<close>

definition sys_openat :: "hash \<Rightarrow> wstr \<Rightarrow> u64 \<Rightarrow> u64 \<Rightarrow> machine \<Rightarrow> fault + answer \<times> machine" where
  "sys_openat XXH64 wide_name filename mode s =
     ok_bind (open_path XXH64 wide_name filename mode s) (\<lambda>(h, s).
     Inr (Result32 (if h < 0 then - ucast ENOENT else ucast h), s))"

definition sys_close :: "u64 \<Rightarrow> machine \<Rightarrow> fault + answer \<times> machine" where
  "sys_close h s = ok_bind (VolumeCloseHandle (Mounts s) h (World s)) (\<lambda>w. Inr (Result32 0, s\<lparr>World := w\<rparr>))"

definition read_into :: "u64 \<Rightarrow> u64 \<Rightarrow> u64 \<Rightarrow> u64 \<Rightarrow> machine \<Rightarrow> fault + u64 \<times> machine" where
  "read_into h offset data n s =
     ok_bind (VolumeRead (Mounts s) h offset (bytes_at (Ram s) data (unat n)) n (World s)) (\<lambda>(r, buffer, w).
     Inr (r, s\<lparr>World := w, Ram := store_bytes (Ram s) data buffer\<rparr>))"

definition write_from :: "u64 \<Rightarrow> u64 \<Rightarrow> u64 \<Rightarrow> machine \<Rightarrow> fault + u64 \<times> machine" where
  "write_from h data n s =
     ok_bind (VolumeWrite (Mounts s) h (- 1) (bytes_at (Ram s) data (unat n)) n (World s)) (\<lambda>(r, w).
     Inr (r, s\<lparr>World := w\<rparr>))"

definition sys_pread64 :: "u64 \<Rightarrow> u64 \<Rightarrow> u64 \<Rightarrow> u64 \<Rightarrow> machine \<Rightarrow> fault + answer \<times> machine" where
  "sys_pread64 h data n offset s = ok_bind (read_into h offset data n s) (\<lambda>(r, s). Inr (Result64 r, s))"

definition sys_read :: "u64 \<Rightarrow> u64 \<Rightarrow> u64 \<Rightarrow> machine \<Rightarrow> fault + answer \<times> machine" where
  "sys_read h data n s = ok_bind (read_into h (- 1) data n s) (\<lambda>(r, s). Inr (Result32 (ucast r), s))"

definition sys_write :: "u64 \<Rightarrow> u64 \<Rightarrow> u64 \<Rightarrow> machine \<Rightarrow> fault + answer \<times> machine" where
  "sys_write h data n s = ok_bind (write_from h data n s) (\<lambda>(r, s). Inr (Result32 (ucast r), s))"

fun writev_loop :: "nat \<Rightarrow> u64 \<Rightarrow> u64 \<Rightarrow> u64 \<Rightarrow> machine \<Rightarrow> fault + u64 \<times> machine" where
  "writev_loop 0 h iov written s = Inr (written, s)"
| "writev_loop (Suc n) h iov written s =
     ok_bind (write_from h (load64 (Ram s) iov) (load64 (Ram s) (iov + 8)) s) (\<lambda>(r, s).
     writev_loop n h (iov + 16) (written + r) s)"

definition sys_writev :: "u32 \<Rightarrow> u64 \<Rightarrow> u32 \<Rightarrow> machine \<Rightarrow> fault + answer \<times> machine" where
  "sys_writev fd iov iovcnt s =
     ok_bind (if iov \<noteq> 0 \<and> iovcnt \<noteq> 0 then writev_loop (nat (sint iovcnt)) (scast fd) iov 0 s else Inr (0, s))
       (\<lambda>(r, s). Inr (Result64 r, s))"

definition sys_ioctl :: "u32 \<Rightarrow> u32 \<Rightarrow> u64 \<Rightarrow> machine \<Rightarrow> fault + answer \<times> machine" where
  "sys_ioctl fd cmd arg s =
     ok_bind (VolumeCommand (Mounts s) (ucast fd) (ucast cmd) arg (World s)) (\<lambda>(r, w).
     Inr (Result32 (ucast r), s\<lparr>World := w\<rparr>))"

definition seek_mode :: "u32 \<Rightarrow> SeekMode option" where
  "seek_mode origin =
     (if origin = 0 then Some SeekSet else if origin = 1 then Some SeekCurrent
      else if origin = 2 then Some SeekEnd else None)"

definition sys_lseek :: "u32 \<Rightarrow> u64 \<Rightarrow> u32 \<Rightarrow> machine \<Rightarrow> fault + answer \<times> machine" where
  "sys_lseek fd offset origin s =
     (case seek_mode origin of
        None \<Rightarrow> Inr (Result32 (- ucast EINVAL), s)
      | Some mode \<Rightarrow>
          ok_bind (VolumeSeek (Mounts s) (ucast fd) offset mode (World s)) (\<lambda>(r, w).
          Inr (Result32 (ucast r), s\<lparr>World := w\<rparr>)))"

text \<open>
  \<^verbatim>\<open>struct stat\<close> of the platform: device at 0, inode 8, links 16, mode 24, user 28, group 32,
  device type 40, size 48, block size 56, blocks 64.  The first clearing covers the size of
  the pointer only, and the name is not used.
\<close>

definition fill_stat :: "u64 \<Rightarrow> u32 \<Rightarrow> u64 \<Rightarrow> memory \<Rightarrow> memory" where
  "fill_stat a inode n m =
     (let m = memset m a 0 8;
          m = store64 m (a + 48) n;
          m = store64 m a 0;
          m = store64 m (a + 8) (scast inode);
          m = store32 m (a + 24) 0x8124;
          m = store64 m (a + 16) 0;
          m = store32 m (a + 28) 0;
          m = store32 m (a + 32) 0;
          m = store64 m (a + 40) 0;
          m = store64 m (a + 56) 0
      in store64 m (a + 64) 0)"

definition sys_newfstatat :: "u32 \<Rightarrow> u64 \<Rightarrow> u64 \<Rightarrow> machine \<Rightarrow> fault + answer \<times> machine" where
  "sys_newfstatat dfd filename statbuf s =
     (if statbuf = 0 then Inl NullPointer
      else
        ok_bind (VolumeGetSize (Mounts s) (scast dfd) (World s)) (\<lambda>(n, w).
        if inodeTemp s = 0x7FFFFFFF then Inl SignedOverflow
        else
          let inode = inodeTemp s + 1 in
          Inr (Result32 (if sint n < 0 then ucast n else 0),
               s\<lparr>World := w, inodeTemp := inode, Ram := fill_stat statbuf inode n (Ram s)\<rparr>)))"

section \<open>The end of a program and its break\<close>

definition sys_exit :: "u64 \<Rightarrow> machine \<Rightarrow> fault + answer \<times> machine" where
  "sys_exit exit_code s =
     ok_bind (console_number True 32 10 (sint (ucast exit_code :: u32)) 10 (console (wide_text ''Exit 0x'') s)) (\<lambda>s.
     Inr (ReturnToKernel, console [10] s))"

definition sys_brk :: "u64 \<Rightarrow> machine \<Rightarrow> fault + answer \<times> machine" where
  "sys_brk new_break s =
     ok_bind (get_process (GCurrentProcess s) s) (\<lambda>q.
     ok_bind (get_binary (Binary q) s) (\<lambda>b.
     if new_break > ProgramBreakLow b then
       assertf (new_break \<le> ProgramBreakHigh b) ''Exceeded allocated program break''
         (Inr (Result64 new_break, set_process (GCurrentProcess s) (q\<lparr>ProgramBreak := new_break\<rparr>) s))
     else Inr (Result64 (ProgramBreak q), s)))"

section \<open>Mapping memory\<close>

text \<open>
  The loop over the pages of the range; after as many rounds as there are pages \<^verbatim>\<open>next_address\<close>
  is \<^verbatim>\<open>end_address\<close>.
\<close>

fun range_mapped :: "nat \<Rightarrow> u64 \<Rightarrow> u64 \<Rightarrow> paging \<Rightarrow> fault + bool" where
  "range_mapped 0 next_address end_address p = Inr True"
| "range_mapped (Suc n) next_address end_address p =
     (if next_address < end_address then
        ok_bind (GetPhysicalAddress next_address True p) (\<lambda>pa.
        if pa \<noteq> INVALID_ADDRESS then range_mapped n (next_address + PAGE_SIZE) end_address p
        else Inr False)
      else Inr True)"

definition map_fixed :: "page_source \<Rightarrow> u64 \<Rightarrow> u64 \<Rightarrow> machine \<Rightarrow> fault + machine option" where
  "map_fixed get address n s =
     ok_bind (range_mapped (unat (n div PAGE_SIZE)) address (address + n) (Memory (World s))) (\<lambda>ok.
     if \<not> ok then Inr None
     else
       ok_bind (FindMinimumSizeFreeBlock (PhysicalMemoryState (Memory (World s))) n) (\<lambda>pa.
       ok_bind (MapPages get address pa n True True User Used PageFlags_None (Memory (World s))) (\<lambda>p.
       Inr (Some (s\<lparr>World := (World s)\<lparr>Memory := p\<rparr>,
                    Ram := FillUnique (Ram s) address 0x7FFFFFFF0000 n\<rparr>)))))"

definition sys_memory_map :: "page_source \<Rightarrow> u64 \<Rightarrow> u64 \<Rightarrow> u32 \<Rightarrow> u64 \<Rightarrow> machine \<Rightarrow> fault + answer \<times> machine" where
  "sys_memory_map get address n fd offset s =
     (let aligned_size = AlignSize n PAGE_SIZE in
      ok_bind (if address \<noteq> 0 then map_fixed get address aligned_size s else Inr (Some s)) (\<lambda>mapped.
      case mapped of
        None \<Rightarrow> Inr (Result64 (- ENOMEM), s)
      | Some s \<Rightarrow>
          ok_bind (GetVolumeIndex (Mounts s) (scast fd)) (\<lambda>v.
          if VolumeImplementation v \<noteq> None \<and> handle_segments (scast fd) = 2
          then Inr (Result64 (Base (GBootFramebuffer (World s))), s)
          else if fd = - 1 then
            ok_bind (if address \<noteq> 0 then Inr (address, s) else alloc_pages get aligned_size User s) (\<lambda>(memory, s).
            if memory = 0 \<and> aligned_size \<noteq> 0 then Inl NullPointer
            else Inr (Result64 memory, s\<lparr>Ram := memset (Ram s) memory 0 aligned_size\<rparr>))
          else if sint fd > 0 then
            ok_bind (if address \<noteq> 0 then Inr (address, s) else alloc_pages get aligned_size User s) (\<lambda>(memory, s).
            ok_bind (read_into (scast fd) offset memory n s) (\<lambda>(r, s). Inr (Result64 memory, s)))
          else Inr (Result64 0, s))))"

section \<open>Running a program\<close>

definition maxLength :: int where "maxLength = 2 ^ 30"

definition user_string :: "memory \<Rightarrow> u64 \<Rightarrow> cstr" where
  "user_string m p = read_cstr (Suc (2 ^ 30)) m p"

text \<open>The null terminated array of pointers at an address; it may have no end.\<close>

partial_function (option) pointer_array :: "memory \<Rightarrow> u64 \<Rightarrow> u64 list option" where
  "pointer_array m a =
     (let p = load64 m a in
      if p = 0 then Some [] else Option.bind (pointer_array m (a + 8)) (\<lambda>ps. Some (p # ps)))"

fun measure_wide :: "memory \<Rightarrow> u64 list \<Rightarrow> u64 \<Rightarrow> fault + u64" where
  "measure_wide m [] n = Inr n"
| "measure_wide m (p # ps) n =
     ok_bind (ascii_to_wide None (user_string m p) maxLength) (\<lambda>(k, _).
     measure_wide m ps (n + (of_nat k + 1)))"

text \<open>
  The block of strings and the position in it; the entries of the pointer array are positions
  in the block.
\<close>

definition put_wide :: "memory \<Rightarrow> u64 \<Rightarrow> wstr \<times> nat \<Rightarrow> fault + wstr \<times> nat" where
  "put_wide m p st =
     (case st of (block, at) \<Rightarrow>
        ok_bind (ascii_to_wide (Some (drop at block)) (user_string m p) maxLength) (\<lambda>(writing, out).
        ok_bind (array_set (take at block @ the out) (at + writing) 0) (\<lambda>block.
        Inr (block, at + writing + 1))))"

fun put_all_wide :: "memory \<Rightarrow> u64 list \<Rightarrow> wstr \<times> nat \<Rightarrow> fault + nat list \<times> wstr \<times> nat" where
  "put_all_wide m [] st = Inr ([], st)"
| "put_all_wide m (p # ps) st =
     ok_bind (put_wide m p st) (\<lambda>st'.
     ok_bind (put_all_wide m ps st') (\<lambda>(offsets, st'').
     Inr (snd st # offsets, st'')))"

text \<open>
  The block of pointers: those to the environment, a null, those to the arguments, a null.  A pointer
  is the position of its string; an array is what comes before the next null.
\<close>

definition pointer_block :: "nat list \<Rightarrow> nat list \<Rightarrow> nat option list" where
  "pointer_block env arg = map Some env @ None # map Some arg @ [None]"

fun until_null :: "nat option list \<Rightarrow> fault + nat list" where
  "until_null [] = Inl OutOfBounds"
| "until_null (None # ps) = Inr []"
| "until_null (Some k # ps) = ok_bind (until_null ps) (\<lambda>ks. Inr (k # ks))"

text \<open>
  The arguments that \<^verbatim>\<open>RunProgram\<close> is called with: the name, \<^verbatim>\<open>argv\<close> and \<^verbatim>\<open>envp\<close>.  The two blocks are
  there; the one for the strings is zero where nothing has been written yet.
\<close>

definition wide_arguments :: "memory \<Rightarrow> u64 \<Rightarrow> u64 list \<Rightarrow> u64 list \<Rightarrow> fault + wstr \<times> wstr list \<times> wstr list" where
  "wide_arguments m filename args env =
     ok_bind (measure_wide m [filename] 0) (\<lambda>n.
     ok_bind (measure_wide m env n) (\<lambda>n.
     ok_bind (measure_wide m args n) (\<lambda>n.
     ok_bind (put_wide m filename (replicate (unat n) 0, 0)) (\<lambda>st.
     ok_bind (put_all_wide m env st) (\<lambda>(wide_env, st).
     ok_bind (put_all_wide m args st) (\<lambda>(wide_arg, block, at).
     ok_bind (until_null (pointer_block wide_env wide_arg)) (\<lambda>env_pointers.
     ok_bind (until_null (drop (Suc (length wide_env)) (pointer_block wide_env wide_arg))) (\<lambda>arg_pointers.
     Inr (block, map (\<lambda>k. drop k block) arg_pointers, map (\<lambda>k. drop k block) env_pointers)))))))))"

definition sys_execve ::
  "page_source \<Rightarrow> hash \<Rightarrow> user_run \<Rightarrow> fresh \<Rightarrow> u64 \<Rightarrow> u64 \<Rightarrow> u64 \<Rightarrow> machine \<Rightarrow> (fault + answer \<times> machine) option" where
  "sys_execve get XXH64 run at filename arg_array env_array s =
     (if filename = 0 \<or> arg_array = 0 \<or> env_array = 0 then Some (Inl NullPointer)
      else
        Option.bind (pointer_array (Ram s) env_array) (\<lambda>env.
        Option.bind (pointer_array (Ram s) arg_array) (\<lambda>args.
        Some (ok_bind (wide_arguments (Ram s) (skip_dot filename s) args env) (\<lambda>(name, wide_arg, wide_env).
          ok_bind (RunProgram get XXH64 run at name wide_arg wide_env s) (\<lambda>(r, s).
          Inr (Result32 (word_of_int r), s)))))))"

section \<open>System and time\<close>

text \<open>\<^verbatim>\<open>struct utsname\<close> holds strings of 65 characters.\<close>

definition sys_uname :: "wstr \<Rightarrow> u64 \<Rightarrow> machine \<Rightarrow> fault + answer \<times> machine" where
  "sys_uname build_id buf s =
     (if buf = 0 then Inl NullPointer
      else
        let m = store_string (store_string (Ram s) buf ''Enkel'') (buf + 65) ''enkel'' in
        ok_bind (wide_to_ascii (Some (bytes_at m (buf + 195) 66)) build_id 65) (\<lambda>(k, out).
        let m = store_bytes m (buf + 195) (the out);
            m = store_string m (buf + 130) ''90200'';
            m = store_string m (buf + 260) ''x86_64''
        in Inr (Result32 0, s\<lparr>Ram := m\<rparr>)))"

definition sys_gettimeofday :: "u64 \<Rightarrow> u64 \<Rightarrow> u64 \<Rightarrow> machine \<Rightarrow> fault + answer \<times> machine" where
  "sys_gettimeofday rdtsc tv tz s =
     (if tv = 0 \<or> tz = 0 then Inl NullPointer
      else
        let m = memset (memset (Ram s) tv 0 8) tz 0 8;
            start = (if start_tsc s = 0 then rdtsc else start_tsc s);
            curr = curr_tsc s + 1000000;
            sec = curr div 1000000000;
            m = store64 (store64 m tv sec) (tv + 8) (word_of_int (sint sec mod 1000000));
            m = (if tz \<noteq> 0 then store32 (store32 m tz 0) (tz + 4) 0 else m)
        in Inr (Result32 0, s\<lparr>start_tsc := start, curr_tsc := curr, Ram := m\<rparr>))"

definition sys_clock_nanosleep :: "u64 \<Rightarrow> machine \<times> timer \<Rightarrow> (fault + answer \<times> machine \<times> timer) option" where
  "sys_clock_nanosleep rqtp st =
     (case st of (s, t) \<Rightarrow>
        if rqtp = 0 then Some (Inr (Result32 0, s, t))
        else
          Option.bind (HpetSleepMS (word_of_int (trunc_div (sint (load64 (Ram s) (rqtp + 8))) (1000 * 1000))) t) (\<lambda>t.
          Some (Inr (Result32 0, s, t))))"

end
