(* ===== verification/SyscallTable.thy ===== *)
theory SyscallTable
  imports Syscalls
begin

text \<open>
  The table of the system calls, the choice of the dispatcher
  \<^verbatim>\<open>src/kernel/user_mode/dispatcher.asm\<close>, and the start-up of the instruction.  The saving of
  the registers and the change of the stack are left out.
\<close>

datatype routine =
    Routine_not_implemented | Routine_dummy | Routine_read | Routine_write | Routine_open
  | Routine_close | Routine_lseek | Routine_memory_map | Routine_mprotect | Routine_brk
  | Routine_ioctl | Routine_pread64 | Routine_writev | Routine_access | Routine_getpid
  | Routine_execve | Routine_exit | Routine_uname | Routine_getcwd | Routine_gettimeofday
  | Routine_arch_prctl | Routine_set_tid_address | Routine_clock_gettime
  | Routine_clock_nanosleep | Routine_openat | Routine_newfstatat | Routine_prlimit64
  | Routine_getrandom

section \<open>The table\<close>

definition SYSCALL_MAX :: nat where "SYSCALL_MAX = 400"

definition unimplemented :: "nat \<Rightarrow> routine list" where
  "unimplemented n = replicate n Routine_not_implemented"

definition SyscallTable_000 :: "routine list" where
  "SyscallTable_000 =
     [Routine_read, Routine_write, Routine_open, Routine_close] @
     unimplemented 4 @
     [Routine_lseek, Routine_memory_map, Routine_mprotect, Routine_not_implemented, Routine_brk] @
     unimplemented 3 @
     [Routine_ioctl, Routine_pread64] @
     unimplemented 2 @
     [Routine_writev, Routine_access] @
     unimplemented 17 @
     [Routine_getpid] @
     unimplemented 19 @
     [Routine_execve, Routine_exit] @
     unimplemented 2 @
     [Routine_uname] @
     unimplemented 15 @
     [Routine_getcwd] @
     unimplemented 16 @
     [Routine_gettimeofday] @
     unimplemented 3"

definition SyscallTable_100 :: "routine list" where
  "SyscallTable_100 = unimplemented 58 @ [Routine_arch_prctl] @ unimplemented 41"

definition SyscallTable_200 :: "routine list" where
  "SyscallTable_200 =
     unimplemented 18 @
     [Routine_set_tid_address] @
     unimplemented 9 @
     [Routine_clock_gettime, Routine_not_implemented, Routine_clock_nanosleep, Routine_exit] @
     unimplemented 25 @
     [Routine_openat] @
     unimplemented 4 @
     [Routine_newfstatat] @
     unimplemented 10 @
     [Routine_dummy] @
     unimplemented 26"

definition SyscallTable_300 :: "routine list" where
  "SyscallTable_300 =
     unimplemented 2 @
     [Routine_prlimit64] @
     unimplemented 15 @
     [Routine_getrandom] @
     unimplemented 15 @
     [Routine_dummy] @
     unimplemented 65"

definition SyscallTable :: "routine list" where
  "SyscallTable = SyscallTable_000 @ SyscallTable_100 @ SyscallTable_200 @ SyscallTable_300"

section \<open>The call\<close>

text \<open>What the routines use besides their arguments and the machine.\<close>

record services =
  FreePage :: page_source
  HashPath :: hash
  RunUser :: user_run
  FreshAddresses :: fresh
  StackBuffer :: wstr
  KernelBuildId :: wstr
  TimeStamp :: u64

type_synonym arguments = "u64 \<times> u64 \<times> u64 \<times> u64 \<times> u64 \<times> u64"

text \<open>A routine with the six argument registers; \<^verbatim>\<open>rax\<close> still holds the number.\<close>

definition machine_call :: "services \<Rightarrow> routine \<Rightarrow> u64 \<Rightarrow> arguments \<Rightarrow> machine \<Rightarrow> fault + answer \<times> machine" where
  "machine_call e r rax args s =
     (case args of (a0, a1, a2, a3, a4, a5) \<Rightarrow>
       (case r of
          Routine_dummy \<Rightarrow> sys_dummy s
        | Routine_read \<Rightarrow> sys_read a0 a1 a2 s
        | Routine_write \<Rightarrow> sys_write a0 a1 a2 s
        | Routine_open \<Rightarrow> sys_open (HashPath e) (StackBuffer e) a0 a2 s
        | Routine_close \<Rightarrow> sys_close a0 s
        | Routine_lseek \<Rightarrow> sys_lseek (ucast a0) a1 (ucast a2) s
        | Routine_memory_map \<Rightarrow> sys_memory_map (FreePage e) a0 a1 (ucast a4) a5 s
        | Routine_mprotect \<Rightarrow> sys_mprotect s
        | Routine_brk \<Rightarrow> sys_brk a0 s
        | Routine_ioctl \<Rightarrow> sys_ioctl (ucast a0) (ucast a1) a2 s
        | Routine_pread64 \<Rightarrow> sys_pread64 a0 a1 a2 a3 s
        | Routine_writev \<Rightarrow> sys_writev (ucast a0) a1 (ucast a2) s
        | Routine_access \<Rightarrow> sys_access (HashPath e) (StackBuffer e) a0 a1 s
        | Routine_getpid \<Rightarrow> sys_getpid s
        | Routine_exit \<Rightarrow> sys_exit a0 s
        | Routine_uname \<Rightarrow> sys_uname (KernelBuildId e) a0 s
        | Routine_getcwd \<Rightarrow> sys_getcwd a0 a1 s
        | Routine_gettimeofday \<Rightarrow> sys_gettimeofday (TimeStamp e) a0 a1 s
        | Routine_arch_prctl \<Rightarrow> sys_arch_prctl (ucast a0) a1 s
        | Routine_set_tid_address \<Rightarrow> sys_set_tid_address a0 s
        | Routine_clock_gettime \<Rightarrow> sys_clock_gettime a1 s
        | Routine_openat \<Rightarrow> sys_openat (HashPath e) (StackBuffer e) a1 a3 s
        | Routine_newfstatat \<Rightarrow> sys_newfstatat (ucast a0) a1 a2 s
        | Routine_prlimit64 \<Rightarrow> sys_prlimit64 s
        | Routine_getrandom \<Rightarrow> sys_getrandom a0 a1 s
        | _ \<Rightarrow> sys_not_implemented rax s))"

definition call_routine ::
  "services \<Rightarrow> routine \<Rightarrow> u64 \<Rightarrow> arguments \<Rightarrow> machine \<times> timer \<Rightarrow> (fault + answer \<times> machine \<times> timer) option" where
  "call_routine e r rax args st =
     (case (args, st) of ((a0, a1, a2, a3, a4, a5), (s, t)) \<Rightarrow>
        (case r of
           Routine_clock_nanosleep \<Rightarrow> sys_clock_nanosleep a2 (s, t)
         | Routine_execve \<Rightarrow>
             map_option (\<lambda>x. ok_bind x (\<lambda>(answer, s). Inr (answer, s, t)))
               (sys_execve (FreePage e) (HashPath e) (RunUser e) (FreshAddresses e) a0 a1 a2 s)
         | _ \<Rightarrow> Some (ok_bind (machine_call e r rax args s) (\<lambda>(answer, s). Inr (answer, s, t)))))"

text \<open>
  Both branches of the dispatcher end in a call through memory.  For a valid number that is
  the entry of the table; otherwise the register holds the address of
  \<^verbatim>\<open>sys_not_implemented\<close> itself, and the first bytes of its code are taken for an address.
\<close>

datatype target = Routine routine | CodeBytes

definition dispatch_target :: "u64 \<Rightarrow> target" where
  "dispatch_target rax = (if rax < 400 then Routine (SyscallTable ! unat rax) else CodeBytes)"

section \<open>Start-up\<close>

definition IA32_STAR :: u32 where "IA32_STAR = 0xC0000081"
definition IA32_LSTAR :: u32 where "IA32_LSTAR = 0xC0000082"
definition IA32_FMASK :: u32 where "IA32_FMASK = 0xC0000084"
definition IA32_EFER :: u32 where "IA32_EFER = 0xC0000080"
definition EFER_SCE :: u64 where "EFER_SCE = 1"

definition SetMSR :: "u32 \<Rightarrow> u64 \<Rightarrow> machine \<Rightarrow> machine" where
  "SetMSR r v s = s\<lparr>MSRs := (MSRs s)(r := v)\<rparr>"

text \<open>\<^verbatim>\<open>EnvironmentKernel\<close> has the stack at offset 8 and the table at 16.\<close>

definition InitializeSyscalls :: "page_source \<Rightarrow> u64 \<Rightarrow> u64 \<Rightarrow> machine \<Rightarrow> fault + machine" where
  "InitializeSyscalls get dispatcher table s =
     (let s = SetMSR IA32_LSTAR dispatcher s;
          kernel_cs = of_nat SIZEOF_GDTEntry * ucast (gdt_index GDT_KernelCode);
          user_star = of_nat SIZEOF_GDTEntry * ucast (gdt_index GDT_Star48);
          s = SetMSR IA32_STAR (push_bit 48 user_star OR push_bit 32 kernel_cs) s;
          s = SetMSR IA32_FMASK 0x200 s;
          s = SetMSR IA32_EFER (MSRs s IA32_EFER OR EFER_SCE) s
      in ok_bind (alloc_pages get (16 * 1024) Kernel s) (\<lambda>(stack, s).
         let env = GKernelEnvironment s in
         if env = 0 then Inl NullPointer
         else
           Inr (s\<lparr>Ram := store64 (store64 (Ram s) (env + 8) (stack + 16 * 1024)) (env + 16) table\<rparr>)))"

end
