(* ===== verification/SyscallsCorrect.thy ===== *)
theory SyscallsCorrect
  imports SyscallTable ProcessCorrect DescriptorsCorrect DemoMachine DeviceVolumesCorrect
begin

text \<open>
  The selectors that the instruction loads against the descriptor table, the strings that a new
  program gets, the break, and the answers for missing files.
\<close>

section \<open>Strings for a new program\<close>

definition holds_string :: "memory \<Rightarrow> u64 \<Rightarrow> cstr \<Rightarrow> bool" where
  "holds_string m p x \<longleftrightarrow> 0 \<notin> set x \<and> length x < 2 ^ 30
     \<and> (\<forall>i < length x. m (p + of_nat i) = x ! i) \<and> m (p + of_nat (length x)) = 0"

definition holds_array :: "memory \<Rightarrow> u64 \<Rightarrow> u64 list \<Rightarrow> bool" where
  "holds_array m a ps \<longleftrightarrow> 0 \<notin> set ps
     \<and> (\<forall>i < length ps. load64 m (a + 8 * of_nat i) = ps ! i) \<and> load64 m (a + 8 * of_nat (length ps)) = 0"

lemma pointer_array_returns: "holds_array m a ps \<Longrightarrow> pointer_array m a = Some ps"
proof (induction ps arbitrary: a)
  case Nil
  then show ?case
    by (subst pointer_array.simps) (simp add: holds_array_def)
next
  case (Cons p ps)
  have "load64 m (a + 8 * of_nat (Suc i)) = load64 m ((a + 8) + 8 * of_nat i)" for i
    by (simp add: algebra_simps)
  then have "holds_array m (a + 8) ps"
    using Cons.prems unfolding holds_array_def by (metis Suc_less_eq length_Cons list.set_intros(2) nth_Cons_Suc)
  moreover have "load64 m a = p" "p \<noteq> 0"
    using Cons.prems by (auto simp: holds_array_def dest: spec [of _ 0])
  ultimately show ?case
    using Cons.IH by (subst pointer_array.simps) simp
qed

lemma read_cstr_string:
  assumes "0 \<notin> set x" and "\<forall>i < length x. m (p + of_nat i) = x ! i" and "m (p + of_nat (length x)) = 0"
    and "length x < n"
  shows "read_cstr n m p = x @ [0]"
  using assms
proof (induction x arbitrary: p n)
  case Nil
  then show ?case
    by (cases n) auto
next
  case (Cons c x)
  have "p + 1 + of_nat i = p + of_nat (Suc i)" for i
    by simp
  then have "\<forall>i < length x. m (p + 1 + of_nat i) = x ! i" "m (p + 1 + of_nat (length x)) = 0"
    using Cons.prems(2,3) by (metis Suc_less_eq length_Cons nth_Cons_Suc)+
  moreover have "m p = c" "c \<noteq> 0"
    using Cons.prems by (auto dest: spec [of _ 0])
  moreover obtain k where "n = Suc k"
    using Cons.prems(4) by (cases n) auto
  ultimately show ?case
    using Cons by auto
qed

lemma user_string_holds: "holds_string m p x \<Longrightarrow> user_string m p = x @ [0]"
  unfolding user_string_def holds_string_def by (rule read_cstr_string) auto

lemma measure_wide_total:
  "list_all2 (holds_string m) ps xs \<Longrightarrow> measure_wide m ps n = Inr (n + of_nat (total_bytes xs))"
proof (induction arbitrary: n rule: list_all2_induct)
  case (Cons p ps x xs)
  then have "ascii_to_wide None (user_string m p) maxLength = Inr (length x, None)"
    unfolding ascii_to_wide_def
    by (subst user_string_holds) (auto simp: holds_string_def maxLength_def intro!: convert_count)
  then show ?case
    using Cons.IH by (simp add: algebra_simps)
qed simp

definition widened :: "cstr \<Rightarrow> wstr" where
  "widened x = map scast x"

definition packed :: "cstr list \<Rightarrow> wstr" where
  "packed xs = concat (map (\<lambda>x. widened x @ [0]) xs)"

fun pack_offsets :: "nat \<Rightarrow> cstr list \<Rightarrow> nat list" where
  "pack_offsets at [] = []"
| "pack_offsets at (x # xs) = at # pack_offsets (at + Suc (length x)) xs"

lemma packed_simps [simp]:
  "packed [] = []" "packed (x # xs) = widened x @ 0 # packed xs" "packed (xs @ ys) = packed xs @ packed ys"
  "length (widened x) = length x"
  by (simp_all add: packed_def widened_def)

lemma length_packed [simp]: "length (packed xs) = total_bytes xs"
  by (induction xs) auto

lemma put_wide_fits:
  assumes "holds_string m p x" and "length x < length rest"
  shows "put_wide m p (pre @ rest, length pre) =
    Inr (pre @ widened x @ 0 # drop (Suc (length x)) rest, length pre + Suc (length x))"
proof -
  have "ascii_to_wide (Some rest) (user_string m p) maxLength
      = Inr (length x, Some (widened x @ 0 # drop (Suc (length x)) rest))"
    using assms convert_loop_exact [of x "length x" maxLength 0 0 scast rest "[]"]
    by (simp add: ascii_to_wide_def user_string_holds holds_string_def maxLength_def widened_def)
  then show ?thesis
    by (simp add: put_wide_def array_set_def nth_append list_update_append)
qed

lemma put_all_wide_fits:
  assumes "list_all2 (holds_string m) ps xs" and "total_bytes xs \<le> length rest"
  shows "put_all_wide m ps (pre @ rest, length pre) =
    Inr (pack_offsets (length pre) xs, pre @ packed xs @ drop (total_bytes xs) rest, length pre + total_bytes xs)"
  using assms
proof (induction arbitrary: pre rest rule: list_all2_induct)
  case (Cons p ps x xs)
  let ?pre = "pre @ widened x @ [0]" and ?rest = "drop (Suc (length x)) rest"
  have "put_wide m p (pre @ rest, length pre) = Inr (?pre @ ?rest, length ?pre)"
    using Cons by (subst put_wide_fits) auto
  moreover have "total_bytes xs \<le> length ?rest"
    using Cons.prems by simp
  ultimately show ?case
    using Cons.IH [of ?rest ?pre] by (simp add: add.commute add.left_commute)
qed simp

lemma packed_texts:
  assumes "\<forall>x \<in> set xs. 0 \<notin> set x"
  shows "map (\<lambda>k. c_string (drop k (pre @ packed xs @ suf))) (pack_offsets (length pre) xs) = map widened xs
    \<and> (\<forall>k \<in> set (pack_offsets (length pre) xs). terminated (drop k (pre @ packed xs @ suf)))"
  using assms
proof (induction xs arbitrary: pre)
  case (Cons x xs)
  then have "0 \<notin> set (widened x)"
    by (auto simp: widened_def scast_zero_iff)
  then show ?case
    using Cons.IH [of "pre @ widened x @ [0]"] Cons.prems by (simp add: c_string_append)
qed simp

lemma holds_string_nonzero: "list_all2 (holds_string m) ps xs \<Longrightarrow> \<forall>x \<in> set xs. 0 \<notin> set x"
  by (induction rule: list_all2_induct) (auto simp: holds_string_def)

text \<open>The block is filled exactly: name, environment, arguments.\<close>

lemma until_null_block: "until_null (map Some ks @ None # ps) = Inr ks"
  by (induction ks) simp_all

lemma pointer_block_arrays:
  "until_null (pointer_block es as) = Inr es"
  "until_null (drop (Suc (length es)) (pointer_block es as)) = Inr as"
  using until_null_block [of as "[]"] by (simp_all add: pointer_block_def until_null_block)

lemma wide_arguments_block:
  assumes "holds_string m f x" and "list_all2 (holds_string m) as args" and "list_all2 (holds_string m) es env"
    and "total_bytes (x # env @ args) < 2 ^ 64"
  shows "wide_arguments m f as es =
    (let block = packed (x # env @ args); e = Suc (length x); a = e + total_bytes env in
     Inr (block, map (\<lambda>k. drop k block) (pack_offsets a args), map (\<lambda>k. drop k block) (pack_offsets e env)))"
proof -
  let ?n = "total_bytes (x # env @ args)"
  have total: "total_bytes (env @ args) = total_bytes env + total_bytes args"
    by (simp add: total_bytes_def)
  have size: "measure_wide m [f] 0 = Inr (of_nat (total_bytes [x]))"
    "measure_wide m es (of_nat (total_bytes [x])) = Inr (of_nat (total_bytes (x # env)))"
    "measure_wide m as (of_nat (total_bytes (x # env))) = Inr (of_nat ?n)"
    using measure_wide_total [of m "[f]" "[x]" 0] measure_wide_total [OF assms(3)] measure_wide_total [OF assms(2)] assms(1)
    by (simp_all add: total algebra_simps del: measure_wide.simps)
  have n: "unat (of_nat ?n :: u64) = ?n"
    using assms(4) by (rule unat_of_nat_64)
  have name: "put_wide m f (replicate ?n 0, 0)
      = Inr ((widened x @ [0]) @ replicate (total_bytes (env @ args)) 0, length (widened x @ [0]))"
    using put_wide_fits [OF assms(1), of "replicate ?n 0" "[]"] by simp
  have envs: "put_all_wide m es ((widened x @ [0]) @ replicate (total_bytes (env @ args)) 0, length (widened x @ [0]))
      = Inr (pack_offsets (Suc (length x)) env, packed (x # env) @ replicate (total_bytes args) 0, length (packed (x # env)))"
    using put_all_wide_fits [OF assms(3), of "replicate (total_bytes (env @ args)) 0" "widened x @ [0]"] by (simp add: total)
  have argss: "put_all_wide m as (packed (x # env) @ replicate (total_bytes args) 0, length (packed (x # env)))
      = Inr (pack_offsets (Suc (length x) + total_bytes env) args, packed (x # env @ args), length (packed (x # env @ args)))"
    using put_all_wide_fits [OF assms(2), of "replicate (total_bytes args) 0" "packed (x # env)"] by (simp add: total)
  show ?thesis
    by (simp only: wide_arguments_def size ok_bind_Inr n name envs argss case_prod_conv Let_def pointer_block_arrays)
qed

text \<open>
  C25: A program that is started with a name, arguments and an environment gets exactly these
  strings, each character widened and each string terminated, in their order; of a name that starts with a
  dot it gets what follows the dot.
\<close>

theorem sys_execve_passes_strings:
  assumes "filename \<noteq> 0" and "arg_array \<noteq> 0" and "env_array \<noteq> 0"
    and "holds_string (Ram s) (skip_dot filename s) x"
    and "holds_array (Ram s) arg_array as" and "list_all2 (holds_string (Ram s)) as args"
    and "holds_array (Ram s) env_array es" and "list_all2 (holds_string (Ram s)) es env"
    and "total_bytes (x # env @ args) < 2 ^ 64"
  shows "\<exists>name wide_arg wide_env. sys_execve get XXH64 run at filename arg_array env_array s =
        Some (ok_bind (RunProgram get XXH64 run at name wide_arg wide_env s)
          (\<lambda>(r, s). Inr (Result32 (word_of_int r), s)))
    \<and> c_string name = widened x \<and> map c_string wide_arg = map widened args
    \<and> map c_string wide_env = map widened env
    \<and> (\<forall>w \<in> set (name # wide_arg @ wide_env). terminated w)"
proof -
  let ?block = "packed (x # env @ args)" and ?e = "Suc (length x)"
  let ?args = "map (\<lambda>k. drop k ?block) (pack_offsets (?e + total_bytes env) args)"
  let ?env = "map (\<lambda>k. drop k ?block) (pack_offsets ?e env)"
  have run: "sys_execve get XXH64 run at filename arg_array env_array s =
      Some (ok_bind (RunProgram get XXH64 run at ?block ?args ?env s) (\<lambda>(r, s). Inr (Result32 (word_of_int r), s)))"
    using assms(1-3) wide_arguments_block [OF assms(4,6,8,9)]
    by (simp add: sys_execve_def pointer_array_returns [OF assms(5)] pointer_array_returns [OF assms(7)] Let_def
        del: packed_simps total_bytes_simps)
  have "0 \<notin> set (widened x)"
    using assms(4) by (auto simp: holds_string_def widened_def scast_zero_iff)
  then have "c_string ?block = widened x" "terminated ?block"
    by (simp_all add: c_string_append)
  moreover have "map c_string ?env = map widened env" "\<forall>w \<in> set ?env. terminated w"
    using packed_texts [OF holds_string_nonzero [OF assms(8)], of "widened x @ [0]" "packed args"]
    by (simp_all add: comp_def)
  moreover have "map c_string ?args = map widened args" "\<forall>w \<in> set ?args. terminated w"
    using packed_texts [OF holds_string_nonzero [OF assms(6)], of "packed (x # env)" "[]"]
    by (simp_all add: comp_def)
  ultimately show ?thesis
    using run by (rule_tac exI [of _ ?block], rule_tac exI [of _ ?args], rule_tac exI [of _ ?env])
      (simp add: ball_Un del: packed_simps set_map)
qed

section \<open>The program break\<close>

text \<open>The break of the running program lies in the area that was set aside for it.\<close>

definition break_ok :: "machine \<Rightarrow> bool" where
  "break_ok s \<longleftrightarrow> (\<exists>q b. get_process (GCurrentProcess s) s = Inr q \<and> get_binary (Binary q) s = Inr b
     \<and> ProgramBreakLow b \<le> ProgramBreak q \<and> ProgramBreak q \<le> ProgramBreakHigh b)"

definition current_break :: "machine \<Rightarrow> u64" where
  "current_break s = (case get_process (GCurrentProcess s) s of Inl _ \<Rightarrow> 0 | Inr q \<Rightarrow> ProgramBreak q)"

text \<open>
  C26: Whatever a program asks for, its break stays in its area; the answer is the break that
  is then in force, which is the one asked for if that lies in the area.  Above the area the
  machine stops.  Nothing but the break changes.
\<close>

theorem sys_brk_keeps_area:
  assumes "break_ok s"
  shows "\<exists>q b. get_process (GCurrentProcess s) s = Inr q \<and> get_binary (Binary q) s = Inr b
    \<and> (if x > ProgramBreakHigh b then sys_brk x s = Inl (AssertionFailed ''Exceeded allocated program break'')
       else \<exists>s'. sys_brk x s = Inr (Result64 (current_break s'), s') \<and> break_ok s'
         \<and> current_break s' = (if x > ProgramBreakLow b then x else current_break s)
         \<and> Processes s' = (Processes s)(GCurrentProcess s \<mapsto> q\<lparr>ProgramBreak := current_break s'\<rparr>)
         \<and> s'\<lparr>Processes := Processes s\<rparr> = s)"
proof -
  obtain q b where q: "get_process (GCurrentProcess s) s = Inr q" "get_binary (Binary q) s = Inr b"
    and low: "ProgramBreakLow b \<le> ProgramBreak q" and high: "ProgramBreak q \<le> ProgramBreakHigh b"
    using assms by (auto simp: break_ok_def)
  have p: "GCurrentProcess s \<noteq> 0" "Processes s (GCurrentProcess s) = Some q"
    using q(1) by (auto simp: get_process_def split: if_splits option.splits)
  consider "x > ProgramBreakHigh b" | "x > ProgramBreakLow b" "x \<le> ProgramBreakHigh b" | "x \<le> ProgramBreakLow b" "\<not> x > ProgramBreakHigh b"
    using low high by fastforce
  then show ?thesis
  proof cases
    case 1
    then have "x > ProgramBreakLow b"
      using low high by (meson le_less_trans)
    then show ?thesis
      using 1 q by (auto simp: sys_brk_def assertf_def)
  next
    case 2
    let ?s = "set_process (GCurrentProcess s) (q\<lparr>ProgramBreak := x\<rparr>) s"
    have "sys_brk x s = Inr (Result64 x, ?s)"
      using 2 q by (simp add: sys_brk_def assertf_def)
    moreover have "current_break ?s = x" "break_ok ?s"
      using p q(2) 2 by (auto simp: current_break_def break_ok_def get_process_def set_process_def get_binary_def)
    ultimately show ?thesis
      using 2 q by (intro exI [of _ q] exI [of _ b]) (auto simp: set_process_def)
  next
    case 3
    then have "sys_brk x s = Inr (Result64 (ProgramBreak q), s)" "current_break s = ProgramBreak q"
      using q by (simp_all add: sys_brk_def current_break_def leD)
    moreover have "\<not> x > ProgramBreakLow b"
      using 3 by (simp add: not_less)
    ultimately show ?thesis
      using 3 q p(2) assms by (intro exI [of _ q] exI [of _ b]) (auto simp: fun_upd_idem)
  qed
qed

section \<open>After a program\<close>

lemma free_pages_current: "free_pages get a n s = Inr s' \<Longrightarrow> GCurrentProcess s' = GCurrentProcess s"
  by (auto simp: free_pages_def ok_bind_eq_Inr)

lemma UnloadElf_current: "UnloadElf get p s = Inr s' \<Longrightarrow> GCurrentProcess s' = GCurrentProcess s"
  by (auto simp: UnloadElf_def Let_def ok_bind_eq_Inr set_binary_def dest!: free_pages_current split: if_splits)

lemma DestroyProcess_current: "DestroyProcess get p s = Inr s' \<Longrightarrow> GCurrentProcess s' = GCurrentProcess s"
  by (auto simp: DestroyProcess_def DestroyTLS_def ok_bind_eq_Inr dest!: free_pages_current UnloadElf_current)

lemma ScheduleProcess_current: "ScheduleProcess run p s = Inr s' \<Longrightarrow> GCurrentProcess s' = 0"
  by (auto simp: ScheduleProcess_def Let_def ok_bind_eq_Inr split: if_splits)

text \<open>
  When a program that started another one goes on and asks for its break, the kernel
  reads a null pointer: after the other one there is no current process any more.
\<close>

theorem sys_brk_after_program:
  assumes "ScheduleProcess run p s = Inr s1" and "s2 = s1 \<or> DestroyProcess get p s1 = Inr s2"
  shows "sys_brk x s2 = Inl NullPointer"
proof -
  have "GCurrentProcess s2 = 0"
    using assms DestroyProcess_current ScheduleProcess_current by metis
  then show ?thesis
    by (simp add: sys_brk_def get_process_def)
qed

section \<open>Missing files\<close>

text \<open>
  C27: What the three calls answer for a file that cannot be opened depends on who says so.  The FAT
  volume answers zero: access and open report that there is no such file, and the call relative to
  a directory answers zero.  For a device path, and for a path without a mount, the answer is
  a negative code, which is a handle to access and open: the test of access says that the file
  exists and open answers zero, as it does for every file, while the call relative to a
  directory hands out the code.
\<close>

theorem missing_file_answers:
  assumes "user_path (StackBuffer e) name s = Inr path"
    and "VolumeOpenHandle (HashPath e) (Mounts s) 0 path (ucast mode) (World s) = Inr (h, w)"
    and "h = 0 \<or> (h = - ENOENT \<or> h = - EINVAL) \<and>
      GetVolumeIndex (Mounts s) h = Inr v \<and> VolumeImplementation v = None"
  shows "machine_call e Routine_access rax (name, mode, a2, a3, a4, a5) s =
      Inr (Result64 (if h = 0 then - ENOENT else 0), s\<lparr>World := w\<rparr>)
    \<and> machine_call e Routine_open rax (name, a1, mode, a3, a4, a5) s =
      Inr (Result32 (if h = 0 then - ucast ENOENT else 0), s\<lparr>World := w\<rparr>)
    \<and> machine_call e Routine_openat rax (a0, name, a2, mode, a4, a5) s = Inr (Result32 (ucast h), s\<lparr>World := w\<rparr>)"
proof -
  have opened: "open_path (HashPath e) (StackBuffer e) name mode s = Inr (h, s\<lparr>World := w\<rparr>)"
    using assms(1,2) by (simp add: open_path_def)
  show ?thesis
  proof (cases "h = 0")
    case True
    with opened show ?thesis
      by (simp add: machine_call_def sys_access_def sys_open_def sys_openat_def)
  next
    case False
    with opened assms(3) show ?thesis
      by (auto simp: machine_call_def sys_access_def sys_open_def sys_openat_def VolumeCloseHandle_def)
  qed
qed

section \<open>Start-up\<close>

lemma alloc_pages_fields:
  assumes "alloc_pages get n level s = Inr (a, s')"
  shows "MSRs s' = MSRs s" "GKernelEnvironment s' = GKernelEnvironment s"
  using assms by (auto simp: alloc_pages_def ok_bind_eq_Inr)

text \<open>
  C28: The selectors that the processor derives from the register for the two instructions
  are those of the descriptor table: ring 0 code and data on the way in, ring 3 code and data
  on the way out, the same that start a program.  Interrupts are off during a call, and the
  dispatcher finds the table and the top of its stack where it looks for them.
\<close>

theorem InitializeSyscalls_selectors:
  assumes "InitializeSyscalls get dispatcher table s = Inr s'"
    and "t' = InitGDT tss_base target t" and "tss_LimitHigh (GDT_TSSEntry t) = 0"
    and "m = Storage t'" and "gdt = snd (GDTLimits t')"
    and "enter = ucast (drop_bit 32 (MSRs s' IA32_STAR))" and "leave = ucast (drop_bit 48 (MSRs s' IA32_STAR))"
  shows "is_code64 m gdt enter \<and> descriptor_ring m gdt enter = 0
    \<and> is_writable_data m gdt (enter + 8) \<and> descriptor_ring m gdt (enter + 8) = 0
    \<and> is_code64 m gdt (leave + 16) \<and> descriptor_ring m gdt (leave + 16) = 3
    \<and> is_writable_data m gdt (leave + 8) \<and> descriptor_ring m gdt (leave + 8) = 3
    \<and> (leave + 16) OR 3 = user_selector GDT_UserCode \<and> (leave + 8) OR 3 = user_selector GDT_UserData
    \<and> MSRs s' IA32_LSTAR = dispatcher \<and> bit (MSRs s' IA32_FMASK) 9 \<and> bit (MSRs s' IA32_EFER) 0
    \<and> load64 (Ram s') (GKernelEnvironment s' + 16) = table
    \<and> (\<exists>stack. load64 (Ram s') (GKernelEnvironment s' + 8) = stack + 16 * 1024)"
proof -
  obtain stack s1 where s1: "alloc_pages get (16 * 1024) Kernel
        (SetMSR IA32_EFER (MSRs s IA32_EFER OR EFER_SCE) (SetMSR IA32_FMASK 0x200
          (SetMSR IA32_STAR 0x18000800000000 (SetMSR IA32_LSTAR dispatcher s)))) = Inr (stack, s1)"
    and s': "s' = s1\<lparr>Ram := store64 (store64 (Ram s1) (GKernelEnvironment s1 + 8) (stack + 16 * 1024))
        (GKernelEnvironment s1 + 16) table\<rparr>"
    using assms(1) by (auto simp: InitializeSyscalls_def Let_def ok_bind_eq_Inr SetMSR_def SIZEOF_GDTEntry_def
        IA32_EFER_def IA32_FMASK_def IA32_STAR_def IA32_LSTAR_def push_bit_eq_mult split: if_splits)
  have msr: "MSRs s' IA32_STAR = 0x18000800000000" "MSRs s' IA32_LSTAR = dispatcher"
    "MSRs s' IA32_FMASK = 0x200" "MSRs s' IA32_EFER = MSRs s IA32_EFER OR EFER_SCE"
    using alloc_pages_fields(1) [OF s1]
    by (simp_all add: s' SetMSR_def IA32_EFER_def IA32_FMASK_def IA32_STAR_def IA32_LSTAR_def)
  have sel: "enter = 0x8" "leave = 0x18"
    by (simp_all add: assms(6,7) msr(1) drop_bit_eq_div)
  have "load64 (Ram s') (GKernelEnvironment s' + 16) = table"
    "load64 (Ram s') (GKernelEnvironment s' + 8) = stack + 16 * 1024"
    by (simp_all add: s' load_store64 load_store64_apart)
  then show ?thesis
    using InitGDT_well_formed [OF assms(2,4,5,3)] msr
    by (simp add: sel user_selector_def SIZEOF_GDTEntry_def EFER_SCE_def bit_simps)
qed

end
