(* ===== verification/SyscallsDemo.thy ===== *)
theory SyscallsDemo
  imports SyscallsCorrect
begin

text \<open>Memory mapping for programs, and concrete machines for the facts about system calls.\<close>

section \<open>Anonymous memory\<close>

lemma AlignSize_range:
  assumes "n \<noteq> 0" and "unat n + 4096 \<le> 2 ^ 64"
  shows "unat (AlignSize n PAGE_SIZE) = round_up (unat n) 4096" "AlignSize n PAGE_SIZE \<noteq> 0"
    "unat (AlignSize n PAGE_SIZE) mod 4096 = 0" "4096 \<le> unat (AlignSize n PAGE_SIZE)"
proof -
  show *: "unat (AlignSize n PAGE_SIZE) = round_up (unat n) 4096"
    using AlignSize_unat [of 12 n] assms(2) by (simp add: PAGE_SIZE_def)
  moreover have "0 < unat n"
    using assms(1) by (simp add: unat_gt_0)
  ultimately show "4096 \<le> unat (AlignSize n PAGE_SIZE)" "unat (AlignSize n PAGE_SIZE) mod 4096 = 0"
    using round_up_bounds [of 4096 "unat n"] by (auto intro!: dvd_imp_le)
  then show "AlignSize n PAGE_SIZE \<noteq> 0"
    by auto
qed

text \<open>
  C29: A program that asks for anonymous memory gets whole pages, the first virtual block that
  fits, of which every byte is zero; no other byte of memory changes.  Each page is backed by
  a page of a physical block that was free, and all other translations stay.
\<close>

theorem sys_memory_map_anonymous:
  assumes "n \<noteq> 0" and "unat n + 4096 \<le> 2 ^ 64" and "room = round_up (unat n) 4096"
    and "p = Memory (World s)" and "manager_ok p (Suc k) m" and "3 * (room div 4096) \<le> m" and "live_ok p"
    and "FindMinimumSizeFreeBlock (PhysicalMemoryState p) (of_nat room) = Inr pa" and "pa \<noteq> 0"
    and "FindMinimumSizeFreeBlock (VirtualMemoryState p) (of_nat room) = Inr va" and "va \<noteq> 0"
    and "GetVolumeIndex (Mounts s) (- 1) = Inr v"
  shows "\<exists>s'. sys_memory_map (GetPML4FreePage depth rpmalloc) 0 n (- 1) offset s = Inr (Result64 va, s')
    \<and> (\<forall>a. Ram s' a = (if unat (a - va) < room then 0 else Ram s a))
    \<and> (\<forall>i < room div 4096. \<forall>a. same_page a (page va i) \<longrightarrow>
         GetPhysicalAddress a True (Memory (World s')) = Inr (page pa i + (a AND (PAGE_SIZE - 1))))
    \<and> (\<forall>a. \<not> in_range a va (of_nat room) \<longrightarrow>
         GetPhysicalAddress a True (Memory (World s')) = GetPhysicalAddress a True p)
    \<and> manager_ok (Memory (World s')) k (m - 3 * (room div 4096))"
proof -
  let ?n = "AlignSize n PAGE_SIZE" and ?get = "GetPML4FreePage depth rpmalloc"
  have n: "unat ?n = room" "?n \<noteq> 0" "unat ?n mod 4096 = 0"
    using AlignSize_range [OF assms(1,2)] assms(3) by simp_all
  have w: "?n = of_nat room"
    using n(1) by (rule word_of_unat)
  have "8 \<le> unat ?n"
    using AlignSize_range(4) [OF assms(1,2)] by simp
  have minus: "(scast (- 1 :: u32) :: u64) = - 1" "handle_segments (- 1) \<noteq> 2"
    by (simp_all add: handle_segments_def get_field_def drop_bit_eq_div mask_eq_exp_minus_1)
  have f: "FindMinimumSizeFreeBlock (PhysicalMemoryState p) ?n = Inr pa" "FindMinimumSizeFreeBlock (VirtualMemoryState p) ?n = Inr va"
    and r: "3 * (unat ?n div 4096) \<le> m"
    using assms(6,8,10) n(1) by (simp_all only: w)
  obtain q where q: "VirtualAlloc ?get ?n User PageFlags_None p = Inr (va, q)"
    "manager_ok q k (m - 3 * (room div 4096))"
    "\<forall>i < room div 4096. \<forall>a. same_page a (page va i) \<longrightarrow>
       GetPhysicalAddress a True q = Inr (page pa i + (a AND (PAGE_SIZE - 1)))"
    "\<forall>a. \<not> in_range a va ?n \<longrightarrow> GetPhysicalAddress a True q = GetPhysicalAddress a True p"
    using VirtualAlloc_core [OF assms(5) r assms(7) f(1) assms(9) f(2) assms(11) n(3,2), of depth rpmalloc User PageFlags_None]
    by (auto simp: n(1))
  let ?s = "s\<lparr>World := (World s)\<lparr>Memory := q\<rparr>, Ram := memset (store64 (Ram s) va 0) va 0 ?n\<rparr>"
  have "sys_memory_map ?get 0 n (- 1) offset s = Inr (Result64 va, ?s)"
    using q(1) assms(11,12) minus by (simp add: sys_memory_map_def Let_def alloc_pages_def assms(4) [symmetric])
  moreover have "Ram ?s a = (if unat (a - va) < room then 0 else Ram s a)" for a
    using \<open>8 \<le> unat ?n\<close> less_imp_le [OF unat_less_pow2 [of ?n]]
    by (auto simp: memset_def set_loop_spec store64_outside n(1))
  ultimately show ?thesis
    using q w by (intro exI [of _ ?s]) simp
qed

lemma sys_memory_map_anonymous_witness:
  "\<exists>s'. sys_memory_map (GetPML4FreePage 1 demo_rpmalloc) 0 0x1801 (- 1) 0 demo_machine = Inr (Result64 0x1000, s')
    \<and> Ram s' 0x2FFF = 0 \<and> Ram s' 0x3001 = 1"
proof -
  have r: "round_up (unat (0x1801 :: u64)) 4096 = 0x2000" "Memory (World demo_machine) = demo_manager"
    by (simp_all add: round_up_def demo_machine_def)
  have f: "FindMinimumSizeFreeBlock (PhysicalMemoryState demo_manager) (of_nat 0x2000) = Inr 0x1000"
    "FindMinimumSizeFreeBlock (VirtualMemoryState demo_manager) (of_nat 0x2000) = Inr 0x1000"
    using demo_used_find by (simp_all only: demo_manager_fields of_nat_numeral)
  have ok: "manager_ok demo_manager (Suc 9) 2048"
    using demo_manager_ok(1) by simp
  obtain v where v: "GetVolumeIndex (Mounts demo_machine) (- 1) = Inr v"
    by (simp add: GetVolumeIndex_def demo_machine_def InitializeVolumeSystem_def array_get_def MAX_SEGMENTS_def
        VOLUMES_PER_PAGE_def handle_segments_def handle_volume_def get_field_def drop_bit_eq_div mask_eq_exp_minus_1)
  from sys_memory_map_anonymous [OF _ _ r(1) [symmetric] r(2) [symmetric] ok _ demo_manager_ok(2) f(1) _ f(2) _ v, of 1 demo_rpmalloc "0"]
  show ?thesis
    by (auto simp: demo_machine_def simp del: GetPML4FreePage.simps)
qed

text \<open>
  A request for memory at a given address is refused when the first page is not mapped,
  which is when it could be granted; nothing changes.
\<close>

theorem sys_memory_map_fixed:
  assumes "address \<noteq> 0" and "n \<noteq> 0" and "unat address + unat n + 4096 \<le> 2 ^ 64"
    and "GetPhysicalAddress address True (Memory (World s)) = Inr INVALID_ADDRESS"
  shows "sys_memory_map get address n fd offset s = Inr (Result64 (- ENOMEM), s)"
proof -
  let ?n = "AlignSize n PAGE_SIZE"
  have n: "unat ?n = round_up (unat n) 4096" "?n \<noteq> 0" "unat ?n mod 4096 = 0"
    using AlignSize_range [of n] assms(2,3) by simp_all
  then have "unat address + unat ?n < 2 ^ 64"
    using round_up_bounds [of 4096 "unat n"] assms(3) by simp
  then have "address < address + ?n"
    using n(2) by (simp add: word_less_nat_alt unat_add_no_wrap unat_gt_0)
  moreover have "1 \<le> unat (?n div PAGE_SIZE)"
    using AlignSize_range(4) [of n] assms(2,3) by (simp add: unat_div PAGE_SIZE_def div_le_mono [of 4096])
  then obtain k where "unat (?n div PAGE_SIZE) = Suc k"
    using not0_implies_Suc by fastforce
  ultimately have "range_mapped (unat (?n div PAGE_SIZE)) address (address + ?n) (Memory (World s)) = Inr False"
    using assms(4) by simp
  then show ?thesis
    using assms(1) by (simp add: sys_memory_map_def map_fixed_def Let_def)
qed

section \<open>Machines\<close>

text \<open>A program with a break, and memory with the strings \<^verbatim>\<open>ls\<close> and \<^verbatim>\<open>-l\<close> and their array.\<close>

definition demo_program :: machine where
  "demo_program =
     set_process 1 (new_process\<lparr>Binary := 2, ProgramBreak := 0x5000\<rparr>)
       (set_binary 2 (no_binary\<lparr>ProgramBreakLow := 0x4000, ProgramBreakHigh := 0x8000\<rparr>)
         (demo_machine\<lparr>GCurrentProcess := 1, GKernelEnvironment := 0x7000, GUserEnvironment := 0x8000\<rparr>))"

definition demo_strings :: memory where
  "demo_strings = (\<lambda>a. 0)(0x100 := 108, 0x101 := 115, 0x200 := 45, 0x201 := 108, 0x301 := 1, 0x309 := 2)"

lemma demo_program_facts:
  "get_process 1 demo_program = Inr (new_process\<lparr>Binary := 2, ProgramBreak := 0x5000\<rparr>)"
  "get_binary 2 demo_program = Inr (no_binary\<lparr>ProgramBreakLow := 0x4000, ProgramBreakHigh := 0x8000\<rparr>)"
  "GCurrentProcess demo_program = 1" "GKernelEnvironment demo_program = 0x7000" "GUserEnvironment demo_program = 0x8000"
  by (simp_all add: demo_program_def get_process_def get_binary_def set_process_def set_binary_def)

lemma sys_brk_keeps_area_witness:
  "\<exists>s'. sys_brk 0x6000 demo_program = Inr (Result64 0x6000, s') \<and> break_ok s'"
proof -
  have "break_ok demo_program"
    by (simp add: break_ok_def demo_program_facts new_process_def no_binary_def)
  from sys_brk_keeps_area [OF this, where x = "0x6000"] show ?thesis
    by (auto simp: demo_program_facts new_process_def no_binary_def)
qed

lemma sys_brk_after_program_witness:
  "\<exists>s. ScheduleProcess (\<lambda>sp entry cs ds s. Inr s) 1 demo_program = Inr s \<and> sys_brk 0 s = Inl NullPointer"
proof -
  have "\<exists>s. ScheduleProcess (\<lambda>sp entry cs ds s. Inr s) 1 demo_program = Inr s"
    using demo_program_facts
    by (simp add: ScheduleProcess_def SetUserFSBase_def SetUserGS_def SetUserGSBase_def get_binary_def new_process_def Let_def
        split: option.splits)
  then show ?thesis
    using sys_brk_after_program by blast
qed

lemma sys_execve_passes_strings_witness:
  "\<forall>get XXH64 run at. \<exists>name wide_arg wide_env.
     sys_execve get XXH64 run at 0x100 0x300 0x400 (demo_machine\<lparr>Ram := demo_strings\<rparr>) =
        Some (ok_bind (RunProgram get XXH64 run at name wide_arg wide_env (demo_machine\<lparr>Ram := demo_strings\<rparr>))
          (\<lambda>(r, s). Inr (Result32 (word_of_int r), s)))
    \<and> c_string name = [108, 115] \<and> map c_string wide_arg = [[108, 115], [45, 108]] \<and> wide_env = []"
proof (intro allI)
  fix get XXH64 run at
  let ?s = "demo_machine\<lparr>Ram := demo_strings\<rparr>"
  have str: "holds_string (Ram ?s) 0x100 [108, 115]" "holds_string (Ram ?s) 0x200 [45, 108]"
    by (auto simp: holds_string_def demo_strings_def less_Suc_eq)
  have load: "load64 demo_strings 0x300 = 0x100" "load64 demo_strings 0x308 = 0x200" "load64 demo_strings 0x310 = 0"
    "load64 demo_strings 0x400 = 0"
    by (simp_all add: load64_def demo_strings_def upt_rec)
  have arr: "holds_array (Ram ?s) 0x300 [0x100, 0x200]" "holds_array (Ram ?s) 0x400 []"
    using load by (auto simp: holds_array_def less_Suc_eq)
  have skip: "skip_dot 0x100 ?s = 0x100"
    by (simp add: skip_dot_def demo_strings_def)
  have "filename \<noteq> 0" if "filename \<in> {0x100, 0x300, 0x400}" for filename :: u64
    using that by auto
  with sys_execve_passes_strings [of "0x100" "0x300" "0x400" ?s "[108, 115]" "[0x100, 0x200]" "[[108, 115], [45, 108]]" "[]" "[]" get XXH64 run at]
  obtain name wide_arg wide_env where "sys_execve get XXH64 run at 0x100 0x300 0x400 ?s =
        Some (ok_bind (RunProgram get XXH64 run at name wide_arg wide_env ?s) (\<lambda>(r, s). Inr (Result32 (word_of_int r), s)))"
    "c_string name = widened [108, 115]" "map c_string wide_arg = map widened [[108, 115], [45, 108]]" "map c_string wide_env = map widened []"
    using str arr skip by auto
  then show "\<exists>name wide_arg wide_env.
     sys_execve get XXH64 run at 0x100 0x300 0x400 ?s =
        Some (ok_bind (RunProgram get XXH64 run at name wide_arg wide_env ?s)
          (\<lambda>(r, s). Inr (Result32 (word_of_int r), s)))
    \<and> c_string name = [108, 115] \<and> map c_string wide_arg = [[108, 115], [45, 108]] \<and> wide_env = []"
    by (intro exI [of _ name] exI [of _ wide_arg] exI [of _ wide_env]) (simp add: widened_def)
qed

lemma sys_memory_map_fixed_witness:
  "sys_memory_map (GetPML4FreePage 1 demo_rpmalloc) 0x5000 100 (- 1) 0 demo_machine = Inr (Result64 (- ENOMEM), demo_machine)"
proof -
  have "GetPhysicalAddress 0x5000 True demo_manager = Inr INVALID_ADDRESS"
    using GetPhysicalAddress_translation [OF demo_manager_ok(1), of "0x5000"] demo_manager_boot(3)
      GetPhysicalAddress_live [of demo_manager "0x5000"] demo_manager_ok(2)
    by (simp add: translation_def live_ok_def)
  then have "GetPhysicalAddress 0x5000 True (Memory (World demo_machine)) = Inr INVALID_ADDRESS"
    by (simp add: demo_machine_def)
  then show ?thesis
    by (intro sys_memory_map_fixed) simp_all
qed

definition demo_services :: services where
  "demo_services = \<lparr>FreePage = GetPML4FreePage 1 demo_rpmalloc, HashPath = (\<lambda>t. 7),
     RunUser = (\<lambda>sp entry cs ds s. Inr s), FreshAddresses = \<lparr>at_process = 1, at_binary = 2, at_interpreter = 3\<rparr>,
     StackBuffer = replicate 256 0, KernelBuildId = [49, 0], TimeStamp = 1\<rparr>"

text \<open>
  The name at 0x1FE, of two characters, belongs to the first mount of the first page.  Nothing is mounted on
  the machine at first; then a volume is, which answers zero like the FAT volume does for a missing file.
\<close>

definition missing_volume :: "drivers Volume" where
  "missing_volume = \<lparr>OpenHandle = Some (\<lambda>h ctx path mode w. Inr (0, w)), CloseHandle = None, Read = None,
     Write = None, GetSize = None, Seek = None, Command = None\<rparr>"

definition missing_mounts :: "drivers volumes" where
  "missing_mounts = [[\<lparr>RootHash = 0, VolumeImplementation = Some missing_volume, Context = 0\<rparr>]]"

lemma demo_path:
  "user_path (StackBuffer demo_services) 0x1FE (demo_machine\<lparr>Mounts := vols\<rparr>)
    = Inr ([0xFFFE, 0xFFFF] @ 0 # replicate 253 0)"
proof -
  have r: "read_cstr 257 (\<lambda>a. ucast a) 0x1FE = [0xFE, 0xFF] @ [0]"
    by (rule read_cstr_string) (auto simp: less_Suc_eq)
  have "convert_loop scast (Some (replicate 256 0)) ([0xFE, 0xFF :: u8] @ 0 # []) 256 0
      = Inr (2, Some ([0xFFFE, 0xFFFF] @ 0 # replicate 253 (0 :: u16)))"
    by (subst convert_loop_exact [where n = 2]) (simp_all add: drop_replicate)
  then show ?thesis
    by (simp add: user_path_def demo_services_def ascii_to_wide_def skip_dot_def demo_machine_def r)
qed

lemma demo_break:
  "BreakPath (HashPath demo_services) (vols :: drivers volumes) ([0xFFFE, 0xFFFF] @ 0 # replicate 253 0)
    = Inr (0, [0xFFFE, 0xFFFF] @ 0 # replicate 253 0)"
proof -
  have "strlen_loop ([0xFFFE, 0xFFFF] @ 0 # replicate 253 (0 :: u16)) 0 = Inr (0 + 2)"
    by (subst strlen_loop_c_string) simp_all
  then show ?thesis
    by (simp add: BreakPath_def strlen16_def array_get_def SLASH_def)
qed

lemma missing_file_answers_witness:
  "machine_call demo_services Routine_access 21 (0x1FE, 0, 0, 0, 0, 0) demo_machine = Inr (Result64 0, demo_machine)
    \<and> machine_call demo_services Routine_open 2 (0x1FE, 0, 0, 0, 0, 0) demo_machine = Inr (Result32 0, demo_machine)
    \<and> machine_call demo_services Routine_openat 257 (0, 0x1FE, 0, 0, 0, 0) demo_machine = Inr (Result32 (- 22), demo_machine)
    \<and> machine_call demo_services Routine_access 21 (0x1FE, 0, 0, 0, 0, 0) (demo_machine\<lparr>Mounts := missing_mounts\<rparr>)
      = Inr (Result64 (- 2), demo_machine\<lparr>Mounts := missing_mounts\<rparr>)
    \<and> machine_call demo_services Routine_open 2 (0x1FE, 0, 0, 0, 0, 0) (demo_machine\<lparr>Mounts := missing_mounts\<rparr>)
      = Inr (Result32 (- 2), demo_machine\<lparr>Mounts := missing_mounts\<rparr>)"
proof -
  have handle: "handle_segments (- EINVAL) = 7" "handle_volume (- EINVAL) = 7" "handle_segments 0 = 0" "handle_volume 0 = 0"
    by (simp_all add: EINVAL_def handle_segments_def handle_volume_def get_field_def drop_bit_eq_div mask_eq_exp_minus_1)
  have m: "Mounts demo_machine = InitializeVolumeSystem"
    by (simp add: demo_machine_def)
  have free: "GetVolumeIndex (InitializeVolumeSystem :: drivers volumes) h = Inr \<lparr>RootHash = 0, VolumeImplementation = None, Context = 0\<rparr>"
    if "unat (handle_segments h) < 8" "unat (handle_volume h) < 8" for h
    using that by (simp add: GetVolumeIndex_def InitializeVolumeSystem_def array_get_def MAX_SEGMENTS_def VOLUMES_PER_PAGE_def)
  have same: "demo_machine\<lparr>Mounts := InitializeVolumeSystem\<rparr> = demo_machine"
    "demo_machine\<lparr>World := World demo_machine\<rparr> = demo_machine"
    "demo_machine\<lparr>Mounts := missing_mounts, World := World demo_machine\<rparr> = demo_machine\<lparr>Mounts := missing_mounts\<rparr>"
    by (simp_all add: m [symmetric])
  have e: "(ucast (- EINVAL) :: u32) = - 22"
    by (simp add: EINVAL_def)
  have o: "VolumeOpenHandle (HashPath demo_services) (Mounts demo_machine) 0 ([0xFFFE, 0xFFFF] @ 0 # replicate 253 0) (ucast (0 :: u64)) (World demo_machine)
      = Inr (- EINVAL, World demo_machine)"
    using free [of 0] handle demo_break [of InitializeVolumeSystem] by (simp add: VolumeOpenHandle_def m)
  have v: "GetVolumeIndex (Mounts demo_machine) (- EINVAL) = Inr \<lparr>RootHash = 0, VolumeImplementation = None, Context = 0\<rparr>"
    using free [of "- EINVAL"] handle by (simp add: m)
  have "- EINVAL \<noteq> 0" by (simp add: EINVAL_def)
  then have unmounted: "machine_call demo_services Routine_access 21 (0x1FE, 0, 0, 0, 0, 0) demo_machine = Inr (Result64 0, demo_machine)
    \<and> machine_call demo_services Routine_open 2 (0x1FE, 0, 0, 0, 0, 0) demo_machine = Inr (Result32 0, demo_machine)
    \<and> machine_call demo_services Routine_openat 257 (0, 0x1FE, 0, 0, 0, 0) demo_machine = Inr (Result32 (- 22), demo_machine)"
    using missing_file_answers [OF demo_path [of InitializeVolumeSystem, unfolded same] o] v by (simp add: e same)
  have "VolumeOpenHandle (HashPath demo_services) missing_mounts 0 ([0xFFFE, 0xFFFF] @ 0 # replicate 253 0) (ucast (0 :: u64)) (World demo_machine)
      = Inr (0, World demo_machine)"
    using handle demo_break [of missing_mounts]
    by (simp add: VolumeOpenHandle_def GetVolumeIndex_def missing_mounts_def missing_volume_def call_def)
  then have f: "VolumeOpenHandle (HashPath demo_services) (Mounts (demo_machine\<lparr>Mounts := missing_mounts\<rparr>)) 0
      ([0xFFFE, 0xFFFF] @ 0 # replicate 253 0) (ucast (0 :: u64)) (World (demo_machine\<lparr>Mounts := missing_mounts\<rparr>))
      = Inr (0, World demo_machine)"
    by simp
  show ?thesis
    using unmounted missing_file_answers [OF demo_path [of missing_mounts] f] by (simp add: same ENOENT_def)
qed

lemma InitializeSyscalls_selectors_witness:
  "\<exists>s'. InitializeSyscalls (GetPML4FreePage 1 demo_rpmalloc) 0x111 0x222 demo_program = Inr s'
    \<and> MSRs s' IA32_LSTAR = 0x111 \<and> load64 (Ram s') (GKernelEnvironment s' + 16) = 0x222"
proof -
  have f: "FindMinimumSizeFreeBlock (PhysicalMemoryState demo_manager) 0x4000 = Inr 0x1000"
    "FindMinimumSizeFreeBlock (VirtualMemoryState demo_manager) 0x4000 = Inr 0x1000"
    by (simp_all add: demo_manager_fields FindMinimumSizeFreeBlock_def demo_used_def demo_tracker_ok PAGE_MASK_def)
  have ok: "manager_ok demo_manager (Suc 9) 2048"
    using demo_manager_ok(1) by simp
  have w: "Memory (World (SetMSR r v s)) = Memory (World s)" "GKernelEnvironment (SetMSR r v s) = GKernelEnvironment s"
    "Memory (World demo_program) = demo_manager" for r v s
    by (simp_all add: SetMSR_def demo_program_def set_process_def set_binary_def demo_machine_def)
  obtain q where q: "VirtualAlloc (GetPML4FreePage 1 demo_rpmalloc) 0x4000 Kernel PageFlags_None demo_manager = Inr (0x1000, q)"
    using VirtualAlloc_core [OF ok _ demo_manager_ok(2) f(1) _ f(2), of 1 demo_rpmalloc Kernel PageFlags_None] by auto
  have "\<exists>s'. InitializeSyscalls (GetPML4FreePage 1 demo_rpmalloc) 0x111 0x222 demo_program = Inr s'"
    using q by (simp add: InitializeSyscalls_def Let_def alloc_pages_def w demo_program_facts del: GetPML4FreePage.simps)
  then obtain s' where s': "InitializeSyscalls (GetPML4FreePage 1 demo_rpmalloc) 0x111 0x222 demo_program = Inr s'"
    by blast
  from InitializeSyscalls_selectors [OF this, of _ "0x1000" "0x2000" demo_tables, OF refl _ refl refl refl refl]
  show ?thesis
    using s' by (simp add: demo_tables_def gdt_tss_def)
qed

end
