(* ===== verification/AcpiOs.thy ===== *)
theory AcpiOs
  imports Machine
begin

text \<open>
  What the kernel provides to the ACPI library: \<^verbatim>\<open>src/kernel/acpi_os/acpi_os_interface.cpp\<close>, the
  configuration space of PCI devices (\<^verbatim>\<open>src/kernel/devices/pci.cpp\<close>) and the start of it in
  \<^verbatim>\<open>src/kernel/init/acpi.cpp\<close>.  Memory is kept by physical address, because the same device
  register is seen at several virtual addresses, and every access goes through the page tables.
  The ports of the processor are a record of two functions on a device state of type
  \<^typ>\<open>'h\<close>.
\<close>

section \<open>Memory\<close>

record host =
  Physical :: memory
  Tables :: paging
  GAcpiMcfgAllocation :: "(u64 \<times> u8 \<times> u8) list"
  RsdpPhyAdd :: u64

text \<open>The bytes at a virtual address.\<close>

fun read_bytes :: "nat \<Rightarrow> u64 \<Rightarrow> host \<Rightarrow> fault + u8 list" where
  "read_bytes 0 va s = Inr []"
| "read_bytes (Suc n) va s =
     ok_bind (GetPhysicalAddress va True (Tables s)) (\<lambda>pa.
       if pa = INVALID_ADDRESS then Inl PageFault
       else ok_bind (read_bytes n (va + 1) s) (\<lambda>bs. Inr (Physical s pa # bs)))"

fun write_bytes :: "u8 list \<Rightarrow> u64 \<Rightarrow> host \<Rightarrow> fault + host" where
  "write_bytes [] va s = Inr s"
| "write_bytes (b # bs) va s =
     ok_bind (GetPhysicalAddress va True (Tables s)) (\<lambda>pa.
       if pa = INVALID_ADDRESS then Inl PageFault
       else write_bytes bs (va + 1) (s\<lparr>Physical := (Physical s)(pa := b)\<rparr>))"

definition word_of_bytes :: "u8 list \<Rightarrow> u64" where
  "word_of_bytes bs = foldr (\<lambda>b v. ucast b OR push_bit 8 v) bs 0"

definition read_width :: "nat \<Rightarrow> u64 \<Rightarrow> host \<Rightarrow> fault + u64" where
  "read_width n va s = ok_bind (read_bytes n va s) (\<lambda>bs. Inr (word_of_bytes bs))"

definition write_width :: "nat \<Rightarrow> u64 \<Rightarrow> u64 \<Rightarrow> host \<Rightarrow> fault + host" where
  "write_width n va v s = write_bytes (map (byte_of v) [0 ..< n]) va s"

definition load8 :: "u64 \<Rightarrow> host \<Rightarrow> fault + u8" where
  "load8 a s = ok_bind (read_width 1 a s) (\<lambda>v. Inr (ucast v))"

text \<open>\<^verbatim>\<open>VirtualAlloc\<close> with the zero that it stores in the new memory.\<close>

definition host_alloc :: "page_source \<Rightarrow> u64 \<Rightarrow> PageFlags \<Rightarrow> host \<Rightarrow> fault + u64 \<times> host" where
  "host_alloc get n flags s =
     ok_bind (VirtualAlloc get n Kernel flags (Tables s)) (\<lambda>(va, p).
     let s = s\<lparr>Tables := p\<rparr> in
     if va = 0 then Inr (0, s) else ok_bind (write_width 8 va 0 s) (\<lambda>s. Inr (va, s)))"

text \<open>The status codes by their names; \<^verbatim>\<open>Status\<close> is a number that the code returns as such.\<close>

datatype ACPI_STATUS =
    AE_OK | AE_ERROR | AE_BAD_PARAMETER | AE_SUPPORT | AE_NO_ACPI_TABLES | Status u32

text \<open>
  The address is used as it is.  The value read is stored in the low bytes of what \<^verbatim>\<open>Value\<close>
  points to, whose other bytes stay.
\<close>

definition put_low :: "nat \<Rightarrow> u64 \<Rightarrow> u64 \<Rightarrow> u64" where
  "put_low width v old = (old AND NOT (mask width)) OR (v AND mask width)"

definition AcpiOsReadMemory :: "u64 \<Rightarrow> u64 \<Rightarrow> u32 \<Rightarrow> host \<Rightarrow> fault + ACPI_STATUS \<times> u64" where
  "AcpiOsReadMemory address old width s =
     (if width = 8 then ok_bind (read_width 1 address s) (\<lambda>v. Inr (AE_OK, put_low 8 v old))
      else if width = 16 then ok_bind (read_width 2 address s) (\<lambda>v. Inr (AE_OK, put_low 16 v old))
      else if width = 32 then ok_bind (read_width 4 address s) (\<lambda>v. Inr (AE_OK, put_low 32 v old))
      else if width = 64 then ok_bind (read_width 8 address s) (\<lambda>v. Inr (AE_OK, v))
      else Inr (AE_BAD_PARAMETER, old))"

definition AcpiOsWriteMemory :: "u64 \<Rightarrow> u64 \<Rightarrow> u32 \<Rightarrow> host \<Rightarrow> fault + ACPI_STATUS \<times> host" where
  "AcpiOsWriteMemory address v width s =
     (if width = 8 then ok_bind (write_width 1 address (v AND 0xFF) s) (\<lambda>s. Inr (AE_OK, s))
      else if width = 16 then ok_bind (write_width 2 address (v AND 0xFFFF) s) (\<lambda>s. Inr (AE_OK, s))
      else if width = 32 then ok_bind (write_width 4 address (v AND 0xFFFFFFFF) s) (\<lambda>s. Inr (AE_OK, s))
      else if width = 64 then ok_bind (write_width 8 address v s) (\<lambda>s. Inr (AE_OK, s))
      else Inr (AE_BAD_PARAMETER, s))"

text \<open>\<^verbatim>\<open>PhysicalFree\<close> is another name for \<^verbatim>\<open>VirtualFree\<close>.\<close>

definition AcpiOsMapMemory :: "page_source \<Rightarrow> u64 \<Rightarrow> u64 \<Rightarrow> host \<Rightarrow> fault + u64 \<times> host" where
  "AcpiOsMapMemory get location n s =
     (let offset = location - (location AND PAGE_MASK)
      in ok_bind (PhysicalAlloc get (location AND PAGE_MASK) ((n + offset + PAGE_SIZE) AND PAGE_MASK)
            Kernel PageFlags_Cache_Disable (Tables s)) (\<lambda>(va, p).
         Inr (va + offset, s\<lparr>Tables := p\<rparr>)))"

definition AcpiOsUnmapMemory :: "page_source \<Rightarrow> u64 \<Rightarrow> u64 \<Rightarrow> host \<Rightarrow> fault + host" where
  "AcpiOsUnmapMemory get location n s =
     (let offset = location - (location AND PAGE_MASK)
      in ok_bind (VirtualFree get (location AND PAGE_MASK) ((n + offset + PAGE_SIZE) AND PAGE_MASK) (Tables s))
           (\<lambda>(ok, p). Inr (s\<lparr>Tables := p\<rparr>)))"

definition AcpiOsGetRootPointer :: "u64 \<Rightarrow> host \<Rightarrow> fault + u64 \<times> host" where
  "AcpiOsGetRootPointer rsdt s =
     (if RsdpPhyAdd s \<noteq> 0 then Inr (RsdpPhyAdd s, s)
      else ok_bind (GetPhysicalAddress rsdt True (Tables s)) (\<lambda>pa. Inr (pa, s\<lparr>RsdpPhyAdd := pa\<rparr>)))"

section \<open>Configuration space\<close>

record ACPI_PCI_ID =
  Segment :: u16
  Bus :: u16
  Device :: u16
  Function :: u16

text \<open>
  \<^verbatim>\<open>InitializeMMIO\<close> with the table that the library found, if it did: its length, and the
  allocations behind its header of 44 bytes, each with a base and the range of its buses.
\<close>

definition InitializeMMIO :: "(u32 \<times> (u64 \<times> u8 \<times> u8) list) option \<Rightarrow> host \<Rightarrow> fault + host" where
  "InitializeMMIO table s =
     (case table of
        None \<Rightarrow> Inl (AssertionFailed ''Hardware does not support MMIO'')
      | Some (n, allocations) \<Rightarrow>
          let entries = unat ((ucast n - 44) div 16 :: u64)
          in if entries \<le> length allocations
             then Inr (s\<lparr>GAcpiMcfgAllocation := take entries allocations\<rparr>)
             else Inl OutOfBounds)"

text \<open>The first allocation that has the bus.\<close>

fun find_bus :: "u8 \<Rightarrow> (u64 \<times> u8 \<times> u8) list \<Rightarrow> u64 option" where
  "find_bus bus [] = None"
| "find_bus bus ((base, first, final) # as) =
     (if first \<le> bus \<and> bus \<le> final then Some base else find_bus bus as)"

definition PciConfigGetMMIOAddress :: "u8 \<Rightarrow> u8 \<Rightarrow> u8 \<Rightarrow> u8 \<Rightarrow> host \<Rightarrow> fault + u64" where
  "PciConfigGetMMIOAddress bus device function offset s =
     (let pciOffset = push_bit 20 (ucast bus :: u64) OR push_bit 15 (ucast device)
            OR push_bit 12 (ucast function) OR (ucast offset AND 0xFF)
      in case find_bus bus (GAcpiMcfgAllocation s) of
           Some base \<Rightarrow> Inr (base + 4 * drop_bit 2 pciOffset)
         | None \<Rightarrow> Inl (AssertionFailed ''Bus not found in MMIO''))"

definition config_address :: "ACPI_PCI_ID \<Rightarrow> u32 \<Rightarrow> host \<Rightarrow> fault + u64" where
  "config_address i r s =
     PciConfigGetMMIOAddress (ucast (Bus i)) (ucast (Device i)) (ucast (Function i)) (ucast r) s"

text \<open>
  Both pointer arguments are given.  A read of 8 bits reads 64; with another width nothing is
  read, and the value stays.
\<close>

definition AcpiOsReadPciConfiguration ::
  "page_source \<Rightarrow> ACPI_PCI_ID \<Rightarrow> u32 \<Rightarrow> u64 \<Rightarrow> u32 \<Rightarrow> host \<Rightarrow> fault + ACPI_STATUS \<times> u64 \<times> host" where
  "AcpiOsReadPciConfiguration get i r old width s =
     ok_bind (config_address i r s) (\<lambda>target.
     if target = 0 then Inr (AE_ERROR, old, s)
     else
       ok_bind (AcpiOsMapMemory get target PAGE_SIZE s) (\<lambda>(va, s).
       ok_bind
         (if width = 8 then read_width 8 va s
          else if width = 16 then read_width 2 va s
          else if width = 32 then read_width 4 va s
          else if width = 64 then read_width 8 va s
          else Inr old) (\<lambda>v.
       ok_bind (AcpiOsUnmapMemory get va PAGE_SIZE s) (\<lambda>s. Inr (AE_OK, v, s)))))"

text \<open>A write uses the physical address as a pointer; the mask of the old value leaves nothing of it.\<close>

definition AcpiOsWritePciConfiguration ::
  "ACPI_PCI_ID \<Rightarrow> u32 \<Rightarrow> u64 \<Rightarrow> u32 \<Rightarrow> host \<Rightarrow> fault + ACPI_STATUS \<times> host" where
  "AcpiOsWritePciConfiguration i r v width s =
     ok_bind (config_address i r s) (\<lambda>target.
     if width = 8 then
       ok_bind (read_width 1 target s) (\<lambda>old.
       ok_bind (write_width 1 target ((old AND 0xFFFFFFFFFFFFFF00) OR (v AND 0xFF)) s) (\<lambda>s. Inr (AE_OK, s)))
     else if width = 16 then
       ok_bind (read_width 2 target s) (\<lambda>old.
       ok_bind (write_width 2 target ((old AND 0xFFFFFFFFFFFF0000) OR (v AND 0xFFFF)) s) (\<lambda>s. Inr (AE_OK, s)))
     else if width = 32 then
       ok_bind (read_width 4 target s) (\<lambda>old.
       ok_bind (write_width 4 target ((old AND 0xFFFFFFFF00000000) OR (v AND 0xFFFFFFFF)) s) (\<lambda>s. Inr (AE_OK, s)))
     else if width = 64 then ok_bind (write_width 8 target v s) (\<lambda>s. Inr (AE_OK, s))
     else Inr (AE_BAD_PARAMETER, s))"

section \<open>Ports\<close>

record 'h ports =
  InPort :: "u16 \<Rightarrow> 'h \<Rightarrow> u8 \<times> 'h"
  sys_out8 :: "u8 \<Rightarrow> u16 \<Rightarrow> 'h \<Rightarrow> 'h"
  sys_out16 :: "u16 \<Rightarrow> u16 \<Rightarrow> 'h \<Rightarrow> 'h"
  sys_out32 :: "u32 \<Rightarrow> u16 \<Rightarrow> 'h \<Rightarrow> 'h"

text \<open>
  Several bytes are read from consecutive ports.  The operands of the bitwise or have no order
  in C++; they are taken from left to right.
\<close>

fun in_ports :: "nat \<Rightarrow> 'h ports \<Rightarrow> u64 \<Rightarrow> 'h \<Rightarrow> u32 \<times> 'h" where
  "in_ports 0 hw address h = (0, h)"
| "in_ports (Suc n) hw address h =
     (let (b, h) = InPort hw (ucast address) h; (v, h) = in_ports n hw (address + 1) h
      in (ucast b OR push_bit 8 v, h))"

definition AcpiOsReadPort :: "'h ports \<Rightarrow> u64 \<Rightarrow> u32 \<Rightarrow> u32 \<Rightarrow> 'h \<Rightarrow> ACPI_STATUS \<times> u32 \<times> 'h" where
  "AcpiOsReadPort hw address old width h =
     (if width = 8 then (AE_OK, in_ports 1 hw address h)
      else if width = 16 then (AE_OK, in_ports 2 hw address h)
      else if width = 32 then (AE_OK, in_ports 4 hw address h)
      else (Status 2, old, h))"

definition AcpiOsWritePort :: "'h ports \<Rightarrow> u64 \<Rightarrow> u32 \<Rightarrow> u32 \<Rightarrow> 'h \<Rightarrow> ACPI_STATUS \<times> 'h" where
  "AcpiOsWritePort hw address v width h =
     (if width = 8 then (AE_OK, sys_out8 hw (ucast v) (ucast address) h)
      else if width = 16 then (AE_OK, sys_out16 hw (ucast v) (ucast address) h)
      else if width = 32 then (AE_OK, sys_out32 hw v (ucast address) h)
      else if width = 64 then
        (AE_OK, sys_out32 hw (v + 4) (ucast (address + 4)) (sys_out32 hw v (ucast address) h))
      else (AE_BAD_PARAMETER, h))"

end
