(* ===== verification/Waiting.thy ===== *)
theory Waiting
  imports Prelude
begin

text \<open>
  Operations that may fail and that may also go on for ever: an option of a sum, \<^const>\<open>None\<close> for
  a loop or a wait without end.
\<close>

definition io_bind :: "(fault + 'a) option \<Rightarrow> ('a \<Rightarrow> (fault + 'b) option) \<Rightarrow> (fault + 'b) option" where
  "io_bind x f = (case x of None \<Rightarrow> None | Some (Inl e) \<Rightarrow> Some (Inl e) | Some (Inr a) \<Rightarrow> f a)"

definition io_wait :: "'a option \<Rightarrow> (fault + 'a) option" where
  "io_wait x = map_option Inr x"

lemma io_bind_simps [simp]:
  "io_bind None f = None" "io_bind (Some (Inl e)) f = Some (Inl e)" "io_bind (Some (Inr a)) f = f a"
  by (simp_all add: io_bind_def)

lemma io_wait_simps [simp]: "io_wait None = None" "io_wait (Some a) = Some (Inr a)"
  by (simp_all add: io_wait_def)

text \<open>Recursive calls are allowed on both sides of the sequencing.\<close>

lemma io_bind_mono [partial_function_mono]:
  assumes "mono_option B" and "\<And>y. mono_option (\<lambda>f. C y f)"
  shows "mono_option (\<lambda>f. io_bind (B f) (\<lambda>y. C y f))"
proof -
  have "(\<lambda>f. io_bind (B f) (\<lambda>y. C y f)) =
    (\<lambda>f. Option.bind (B f) (\<lambda>x. case x of Inl e \<Rightarrow> Some (Inl e) | Inr y \<Rightarrow> C y f))"
    by (rule ext) (simp add: io_bind_def split: option.splits sum.splits)
  moreover have "mono_option (\<lambda>f. case x of Inl e \<Rightarrow> Some (Inl e) | Inr y \<Rightarrow> C y f)" for x
    using assms(2) by (cases x) (auto intro!: monotoneI simp: flat_ord_def)
  ultimately show ?thesis
    by (simp only:) (rule bind_mono [OF assms(1)])
qed

text \<open>The work ends, with a value or a fault.\<close>

definition ends_io :: "(fault + 'a) option \<Rightarrow> bool" where
  "ends_io x \<longleftrightarrow> x \<noteq> None"

lemma ends_io_bind:
  assumes "ends_io x" and "\<And>a. x = Some (Inr a) \<Longrightarrow> ends_io (f a)"
  shows "ends_io (io_bind x f)"
  using assms by (auto simp: ends_io_def io_bind_def split: option.splits sum.splits)

lemma ends_io_simps [simp]: "\<not> ends_io None" "ends_io (Some r)"
  by (simp_all add: ends_io_def)

lemma io_bind_eq_Some_Inr:
  "io_bind x f = Some (Inr b) \<longleftrightarrow> (\<exists>a. x = Some (Inr a) \<and> f a = Some (Inr b))"
  by (auto simp: io_bind_def split: option.splits sum.splits)

section \<open>Counted loops\<close>

text \<open>\<^verbatim>\<open>for (i = first; i < last; i++) body\<close>, the state threaded through the body.\<close>

fun each_ok :: "(nat \<Rightarrow> 's \<Rightarrow> fault + 's) \<Rightarrow> nat list \<Rightarrow> 's \<Rightarrow> fault + 's" where
  "each_ok body [] s = Inr s"
| "each_ok body (i # is) s = ok_bind (body i s) (each_ok body is)"

text \<open>An \<^verbatim>\<open>int\<close> of 32 bits; a sum outside its range has no defined value.\<close>

definition int32 :: "int \<Rightarrow> fault + int" where
  "int32 x = (if - (2 ^ 31) \<le> x \<and> x < 2 ^ 31 then Inr x else Inl SignedOverflow)"

end
