(* ===== verification/Ahci.thy ===== *)
theory Ahci
  imports AcpiOs Time Waiting
begin

text \<open>
  The disk controller and the bus, \<^verbatim>\<open>inc/kernel/devices/ahci/ahci.h\<close> and
  \<^verbatim>\<open>src/kernel/devices/ahci/sata.cpp\<close>.  The controller itself is hardware: the argument \<^verbatim>\<open>hw\<close>
  says what a read of a register shows and what a read or a write does, to the state of the
  drive, of type \<^typ>\<open>'d\<close>, and to the memory that the controller reaches by itself.  Structures
  that the kernel shares with the controller are records, kept by their address.  A
  loop that waits for the hardware need not end, so operations return an option; \<^verbatim>\<open>None\<close> is a
  wait without end.
\<close>

section \<open>Structures\<close>

text \<open>The bit fields that the code never touches are left out.\<close>

record HBAPRDTEntry =
  DataBaseLow :: u32
  DataBaseHigh :: u32
  ByteCount :: "22 word"
  InterruptOnCompletion :: bool

record FISRegisterHostToDevice =
  FISType :: u8
  CommandControl :: bool
  FISCommand :: u8
  FeatureLow :: u8
  LBA0 :: u8
  LBA1 :: u8
  LBA2 :: u8
  FISDevice :: u8
  LBA3 :: u8
  LBA4 :: u8
  LBA5 :: u8
  FeatureHigh :: u8
  CountLow :: u8
  CountHigh :: u8

record HBACommandListHeader =
  CommandFISLength :: "5 word"
  Atapi :: bool
  WriteCommand :: bool
  PRDTLength :: u16
  PRDByteCount :: u32
  CommandTableBaseLow :: u32
  CommandTableBaseHigh :: u32

record HBACommandTable =
  CommandFIS :: FISRegisterHostToDevice
  AtapiCommand :: "u8 list"
  PRDTEntry0 :: HBAPRDTEntry

definition zero_entry :: HBAPRDTEntry where
  "zero_entry = \<lparr>DataBaseLow = 0, DataBaseHigh = 0, ByteCount = 0, InterruptOnCompletion = False\<rparr>"

definition zero_fis :: FISRegisterHostToDevice where
  "zero_fis = \<lparr>FISType = 0, CommandControl = False, FISCommand = 0, FeatureLow = 0, LBA0 = 0, LBA1 = 0,
     LBA2 = 0, FISDevice = 0, LBA3 = 0, LBA4 = 0, LBA5 = 0, FeatureHigh = 0, CountLow = 0, CountHigh = 0\<rparr>"

definition zero_table :: HBACommandTable where
  "zero_table = \<lparr>CommandFIS = zero_fis, AtapiCommand = replicate 16 0, PRDTEntry0 = zero_entry\<rparr>"

definition sizeof_HBACommandTable :: u64 where "sizeof_HBACommandTable = 144"
definition sizeof_HBAPRDTEntry :: u64 where "sizeof_HBAPRDTEntry = 16"
definition sizeof_HBACommandListHeader :: u64 where "sizeof_HBACommandListHeader = 32"
definition sizeof_FISData :: u64 where "sizeof_FISData = 220"
definition sizeof_HBAMemory :: u64 where "sizeof_HBAMemory = 256"
definition sizeof_HBAPort :: u64 where "sizeof_HBAPort = 128"

section \<open>Registers\<close>

datatype PortRegister =
    CommandListBaseLow | CommandListBaseHigh | FISBaseLow | FISBaseHigh | InterruptStatus
  | CommandAndStatus | TaskFileData | Signature | SATAStatus | SATAError | CommandIssue

datatype Register =
    GlobalHostControl | PortsImplemented | HostCapabilitiesExtended | BIOSHandoffControlStatus
  | PortAt u32 PortRegister

definition STS_BSY :: u32 where "STS_BSY = 0x80"
definition STS_DRQ :: u32 where "STS_DRQ = 0x08"
definition STS_ERR :: u32 where "STS_ERR = 0x01"
definition HBA_PxIS_TFES :: u32 where "HBA_PxIS_TFES = 0x40000000"
definition IS_ERR_FATAL :: u32 where "IS_ERR_FATAL = 0x40000000"
definition SATA_SIG_ATAPI :: u32 where "SATA_SIG_ATAPI = 0xEB140101"
definition HBA_PORT_DET_PRESENT :: u32 where "HBA_PORT_DET_PRESENT = 3"
definition HBA_PORT_IPM_ACTIVE :: u32 where "HBA_PORT_IPM_ACTIVE = 1"
definition HBA_PxCMD_ST :: u32 where "HBA_PxCMD_ST = 0x1"
definition HBA_PxCMD_SUD :: u32 where "HBA_PxCMD_SUD = 0x2"
definition HBA_PxCMD_POD :: u32 where "HBA_PxCMD_POD = 0x4"
definition HBA_PxCMD_FRE :: u32 where "HBA_PxCMD_FRE = 0x10"
definition HBA_PxCMD_FR :: u32 where "HBA_PxCMD_FR = 0x4000"
definition HBA_PxCMD_CR :: u32 where "HBA_PxCMD_CR = 0x8000"
definition HBA_PxCMD_ATAPI :: u32 where "HBA_PxCMD_ATAPI = 0x1000000"
definition HBA_PxCMD_ICC_ACTIVE :: u32 where "HBA_PxCMD_ICC_ACTIVE = 0x10000000"

text \<open>
  The state: the drive, the memory of the host, the clock, and the fields of the bus and
  of the device objects.  \<^verbatim>\<open>Headers\<close> and \<^verbatim>\<open>CommandTableAt\<close> are the shared structures by their
  address; \<^verbatim>\<open>HbaMemory\<close> is the pointer to the registers, 0 before they are mapped.
\<close>

record cdrom_port =
  PortNumber :: u32
  IsEnabled :: bool
  CommandLists :: u64
  CommandTableAlloc :: u64
  FIS :: u64
  CommandTables :: "u64 list"

record 'd disk =
  Drive :: 'd
  Host :: host
  Clock :: timer
  Headers :: "u64 \<Rightarrow> HBACommandListHeader"
  CommandTableAt :: "u64 \<Rightarrow> HBACommandTable"
  PciId :: ACPI_PCI_ID
  HbaMemory :: u64
  CommandList :: u64
  CdromPorts :: "cdrom_port list"
  CdPort :: u16
  VolumeId :: u64
  GTempCDRomBufferSize :: u64
  GTempCDRomBuffer :: u64

record 'd hba =
  ReadRegister :: "Register \<Rightarrow> 'd disk \<Rightarrow> u32 \<times> 'd disk"
  WriteRegister :: "Register \<Rightarrow> u32 \<Rightarrow> 'd disk \<Rightarrow> 'd disk"

text \<open>An assignment such as \<^verbatim>\<open>|=\<close> to a register reads it and writes it back.\<close>

definition modify_register :: "'d hba \<Rightarrow> Register \<Rightarrow> (u32 \<Rightarrow> u32) \<Rightarrow> 'd disk \<Rightarrow> 'd disk" where
  "modify_register hw r f s = (let (v, s) = ReadRegister hw r s in WriteRegister hw r (f v) s)"

text \<open>The loop that waits until none of the given bits is set.\<close>

partial_function (option) wait_while :: "'d hba \<Rightarrow> Register \<Rightarrow> u32 \<Rightarrow> 'd disk \<Rightarrow> 'd disk option" where
  "wait_while hw r bits s =
     (let (v, s) = ReadRegister hw r s in if v AND bits \<noteq> 0 then wait_while hw r bits s else Some s)"

definition sleep_ms :: "u64 \<Rightarrow> 'd disk \<Rightarrow> 'd disk option" where
  "sleep_ms n s = map_option (\<lambda>t. s\<lparr>Clock := t\<rparr>) (HpetSleepMS n (Clock s))"

section \<open>Memory for the controller\<close>

definition disk_alloc :: "page_source \<Rightarrow> u64 \<Rightarrow> PageFlags \<Rightarrow> 'd disk \<Rightarrow> fault + u64 \<times> 'd disk" where
  "disk_alloc get n flags s = ok_bind (host_alloc get n flags (Host s)) (\<lambda>(va, h). Inr (va, s\<lparr>Host := h\<rparr>))"

definition disk_clear :: "u64 \<Rightarrow> u64 \<Rightarrow> 'd disk \<Rightarrow> fault + 'd disk" where
  "disk_clear va n s = ok_bind (write_bytes (replicate (unat n) 0) va (Host s)) (\<lambda>h. Inr (s\<lparr>Host := h\<rparr>))"

definition disk_physical :: "u64 \<Rightarrow> 'd disk \<Rightarrow> fault + u64" where
  "disk_physical va s = GetPhysicalAddress va True (Tables (Host s))"

text \<open>\<^verbatim>\<open>TO_LOW_HIGH\<close>\<close>

definition low32 :: "u64 \<Rightarrow> u32" where "low32 v = ucast (v AND 0xFFFFFFFF)"
definition high32 :: "u64 \<Rightarrow> u32" where "high32 v = ucast (drop_bit 32 v AND 0xFFFFFFFF)"

section \<open>Device paths\<close>

text \<open>
  A device path is a chain of nodes in memory, each with its type, its subtype and its
  length, \<^verbatim>\<open>DevicePathNodeLength\<close> and \<^verbatim>\<open>NextDevicePathNode\<close> of \<^verbatim>\<open>init/acpi.cpp\<close>.  The constants are
  those of the UEFI specification.  A node of length zero is its own successor.
\<close>

definition END_DEVICE_PATH_TYPE :: u8 where "END_DEVICE_PATH_TYPE = 0x7F"
definition HARDWARE_DEVICE_PATH :: u8 where "HARDWARE_DEVICE_PATH = 1"
definition ACPI_DEVICE_PATH :: u8 where "ACPI_DEVICE_PATH = 2"
definition MESSAGING_DEVICE_PATH :: u8 where "MESSAGING_DEVICE_PATH = 3"
definition HW_PCI_DP :: u8 where "HW_PCI_DP = 1"
definition MSG_SATA_DP :: u8 where "MSG_SATA_DP = 0x12"

definition DevicePathNodeLength :: "u64 \<Rightarrow> host \<Rightarrow> fault + u32" where
  "DevicePathNodeLength node h =
     ok_bind (load8 (node + 2) h) (\<lambda>lo.
     ok_bind (load8 (node + 3) h) (\<lambda>hi. Inr (ucast lo OR push_bit 8 (ucast hi))))"

definition NextDevicePathNode :: "u64 \<Rightarrow> host \<Rightarrow> fault + u64" where
  "NextDevicePathNode node h = ok_bind (DevicePathNodeLength node h) (\<lambda>n. Inr (node + ucast n))"

text \<open>One round of the loops: \<^verbatim>\<open>None\<close> at the end of the path, otherwise the next node.\<close>

definition path_step ::
  "(u8 \<Rightarrow> u8 \<Rightarrow> u64 \<Rightarrow> 'n \<Rightarrow> 'n) \<Rightarrow> host \<Rightarrow> u64 \<Rightarrow> 'n \<Rightarrow> fault + (u64 \<times> 'n) option" where
  "path_step visit h node found =
     ok_bind (load8 node h) (\<lambda>kind.
     if kind = END_DEVICE_PATH_TYPE then Inr None
     else
       ok_bind (load8 (node + 1) h) (\<lambda>subkind.
       ok_bind (NextDevicePathNode node h) (\<lambda>next. Inr (Some (next, visit kind subkind node found)))))"

partial_function (option) walk_path ::
  "(u8 \<Rightarrow> u8 \<Rightarrow> u64 \<Rightarrow> 'n \<Rightarrow> 'n) \<Rightarrow> host \<Rightarrow> u64 \<Rightarrow> 'n \<Rightarrow> (fault + 'n) option" where
  "walk_path visit h node found =
     (case path_step visit h node found of
        Inl e \<Rightarrow> Some (Inl e)
      | Inr None \<Rightarrow> Some (Inr found)
      | Inr (Some (next, found)) \<Rightarrow> walk_path visit h next found)"

section \<open>The command engine of a port\<close>

definition StartCommandEngine :: "'d hba \<Rightarrow> u32 \<Rightarrow> 'd disk \<Rightarrow> 'd disk" where
  "StartCommandEngine hw p s =
     modify_register hw (PortAt p CommandAndStatus) (\<lambda>v. v OR HBA_PxCMD_ST)
       (modify_register hw (PortAt p CommandAndStatus) (\<lambda>v. v OR HBA_PxCMD_FRE) s)"

definition StopCommandEngine :: "'d hba \<Rightarrow> u32 \<Rightarrow> 'd disk \<Rightarrow> 'd disk option" where
  "StopCommandEngine hw p s =
     wait_while hw (PortAt p CommandAndStatus) (HBA_PxCMD_FR OR HBA_PxCMD_CR)
       (modify_register hw (PortAt p CommandAndStatus) (\<lambda>v. v AND NOT HBA_PxCMD_FRE)
         (modify_register hw (PortAt p CommandAndStatus) (\<lambda>v. v AND NOT HBA_PxCMD_ST) s))"

text \<open>The condition of the loops of \<^verbatim>\<open>ResetPort\<close>, register by register.\<close>

definition reset_busy :: "'d hba \<Rightarrow> u32 \<Rightarrow> 'd disk \<Rightarrow> bool \<times> 'd disk" where
  "reset_busy hw p s =
     (let (cmd, s) = ReadRegister hw (PortAt p CommandAndStatus) s;
          (running, s) =
            (if cmd AND HBA_PxCMD_CR \<noteq> 0
             then let (status, s) = ReadRegister hw (PortAt p SATAStatus) s
                  in (status AND HBA_PORT_DET_PRESENT \<noteq> 0, s)
             else (False, s))
      in if running then (True, s)
         else let (err, s) = ReadRegister hw (PortAt p SATAError) s in (err \<noteq> 0, s))"

partial_function (option) reset_loop :: "'d hba \<Rightarrow> u32 \<Rightarrow> 'd disk \<Rightarrow> 'd disk option" where
  "reset_loop hw p s =
     (let (busy, s) = reset_busy hw p s
      in if busy then Option.bind (sleep_ms 1 s) (reset_loop hw p) else Some s)"

definition restart_list :: "'d hba \<Rightarrow> u32 \<Rightarrow> 'd disk \<Rightarrow> 'd disk option" where
  "restart_list hw p s =
     Option.bind (sleep_ms 5 s) (\<lambda>s.
     Option.bind (sleep_ms 5 (modify_register hw (PortAt p CommandAndStatus) (\<lambda>v. v OR HBA_PxCMD_CR) s))
       (reset_loop hw p))"

definition ResetPort :: "'d hba \<Rightarrow> u32 \<Rightarrow> 'd disk \<Rightarrow> (fault + 'd disk) option" where
  "ResetPort hw p s =
     io_bind (io_wait (StopCommandEngine hw p s)) (\<lambda>s.
     io_bind (io_wait (sleep_ms 5 s)) (\<lambda>s.
     let s = modify_register hw (PortAt p InterruptStatus) (\<lambda>v. v) s;
         s = WriteRegister hw (PortAt p CommandAndStatus) HBA_PxCMD_ICC_ACTIVE s;
         s = modify_register hw (PortAt p CommandAndStatus) (\<lambda>v. v OR HBA_PxCMD_FRE) s
     in io_bind (io_wait (restart_list hw p s)) (\<lambda>s.
     let (sig, s) = ReadRegister hw (PortAt p Signature) s
     in if sig = 0 then Some (Inr s)
        else
          let s = modify_register hw (PortAt p CommandAndStatus)
                (\<lambda>v. v OR (HBA_PxCMD_POD OR HBA_PxCMD_SUD)) s
          in io_bind (io_wait (restart_list hw p s)) (\<lambda>s.
          let (err, s) = ReadRegister hw (PortAt p SATAError) s
          in if err \<noteq> 0 then Some (Inl (AssertionFailed ''SATA Error''))
             else Some (Inr (StartCommandEngine hw p
                    (WriteRegister hw (PortAt p SATAError) 0xFFFFFFFF s)))))))"

definition GetCommandListBase :: "u32 \<Rightarrow> 'd disk \<Rightarrow> u64" where
  "GetCommandListBase p s = CommandList s + ucast (p * 1024)"

section \<open>Starting the bus\<close>

definition AHCI_ENABLE_FLAG :: u32 where "AHCI_ENABLE_FLAG = 0x80000000"
definition HBA_CAP2_BOH :: u32 where "HBA_CAP2_BOH = 1"
definition HBA_BOHC_OS_OWNED_SEMAPHORE :: u32 where "HBA_BOHC_OS_OWNED_SEMAPHORE = 1"
definition HBA_BOHC_BIOS_OWNED_SEMAPHORE :: u32 where "HBA_BOHC_BIOS_OWNED_SEMAPHORE = 2"
definition HBA_AE_BIT :: u32 where "HBA_AE_BIT = 0x80000000"
definition HBA_HR_BIT :: u32 where "HBA_HR_BIT = 1"

text \<open>The nodes of the ACPI bus and of the PCI device, 0 where none was found.\<close>

definition visit_bus :: "u8 \<Rightarrow> u8 \<Rightarrow> u64 \<Rightarrow> u64 \<times> u64 \<Rightarrow> u64 \<times> u64" where
  "visit_bus kind subkind node = (\<lambda>(acpi, pci).
     if kind = ACPI_DEVICE_PATH then (if subkind = HW_PCI_DP then (node, pci) else (acpi, pci))
     else if kind = HARDWARE_DEVICE_PATH then (if subkind = HW_PCI_DP then (acpi, node) else (acpi, pci))
     else (acpi, pci))"

text \<open>The registers of the controller are mapped for every bus that has one; the last stays.\<close>

definition map_controller :: "page_source \<Rightarrow> u64 \<Rightarrow> 'd disk \<Rightarrow> fault + 'd disk" where
  "map_controller get abar s =
     (let n = sizeof_HBAMemory + 32 * sizeof_HBAPort;
          aligned_size = (n + (PAGE_SIZE - 1)) AND PAGE_MASK;
          pa = abar AND NOT 0xF;
          pa_aligned = pa AND PAGE_MASK
      in ok_bind (PhysicalAlloc get pa_aligned aligned_size Kernel PageFlags_Cache_Disable (Tables (Host s)))
           (\<lambda>(va, p). Inr (s\<lparr>Host := (Host s)\<lparr>Tables := p\<rparr>, HbaMemory := va + (pa - pa_aligned)\<rparr>)))"

definition probe_bus :: "page_source \<Rightarrow> nat \<Rightarrow> 'd disk \<Rightarrow> fault + 'd disk" where
  "probe_bus get bus s =
     (let s = s\<lparr>PciId := (PciId s)\<lparr>Bus := of_nat bus\<rparr>\<rparr> in
      ok_bind (AcpiOsReadPciConfiguration get (PciId s) 0x08 0 32 (Host s)) (\<lambda>(status, class_code, h).
      let s = s\<lparr>Host := h\<rparr> in
      if status = AE_OK \<and> drop_bit 16 class_code AND 0xFFFF = 0x0106 then
        ok_bind (AcpiOsReadPciConfiguration get (PciId s) 0x24 0 64 (Host s)) (\<lambda>(status, abar, h).
        let s = s\<lparr>Host := h\<rparr> in
        if status \<noteq> AE_OK then Inl (AssertionFailed ''Failed to read ABAR'')
        else map_controller get abar s)
      else Inr s))"

fun probe_buses :: "page_source \<Rightarrow> nat list \<Rightarrow> 'd disk \<Rightarrow> fault + 'd disk" where
  "probe_buses get [] s = Inr s"
| "probe_buses get (bus # buses) s = ok_bind (probe_bus get bus s) (probe_buses get buses)"

text \<open>
  After the scan: the check of the mode, the handover from the firmware, the reset, and the
  memory for the command lists.  The product is computed in 32 bits.
\<close>

definition start_controller :: "page_source \<Rightarrow> 'd hba \<Rightarrow> 'd disk \<Rightarrow> (fault + 'd disk) option" where
  "start_controller get hw s =
     (let (ghc, s) = ReadRegister hw GlobalHostControl s
      in if ghc AND AHCI_ENABLE_FLAG = 0 then Some (Inl (AssertionFailed ''AHCI mode boot device is mandatory''))
      else
        let (cap, s) = ReadRegister hw HostCapabilitiesExtended s
        in io_bind
          (if cap AND HBA_CAP2_BOH \<noteq> 0
           then io_wait (wait_while hw BIOSHandoffControlStatus HBA_BOHC_BIOS_OWNED_SEMAPHORE
             (modify_register hw BIOSHandoffControlStatus (\<lambda>v. v OR HBA_BOHC_OS_OWNED_SEMAPHORE) s))
           else Some (Inr s)) (\<lambda>s.
        io_bind (io_wait (wait_while hw GlobalHostControl HBA_HR_BIT
          (modify_register hw GlobalHostControl (\<lambda>v. v OR HBA_HR_BIT) s))) (\<lambda>s.
        let s = modify_register hw GlobalHostControl (\<lambda>v. v OR HBA_AE_BIT) s;
            (implemented, s) = ReadRegister hw PortsImplemented s;
            n = ucast (implemented * 1024 + (4096 - 1)) AND PAGE_MASK
        in Some (ok_bind (disk_alloc get n PageFlags_Cache_Disable s) (\<lambda>(va, s).
             Inr (s\<lparr>CommandList := va\<rparr>))))))"

definition SataBus_Initialize ::
  "page_source \<Rightarrow> 'd hba \<Rightarrow> u64 \<Rightarrow> 'd disk \<Rightarrow> (fault + 'd disk) option" where
  "SataBus_Initialize get hw path s =
     (let s = s\<lparr>PciId := \<lparr>Segment = 0, Bus = 0, Device = 0, Function = 0\<rparr>, HbaMemory := 0, CommandList := 0\<rparr>
      in io_bind (walk_path visit_bus (Host s) path (0, 0)) (\<lambda>(acpi, pci).
      io_bind (Some (assertf (acpi \<noteq> 0) ''ACPI bus is mandatory''
        (assertf (pci \<noteq> 0) ''PCI host is mandatory''
          (ok_bind (load8 (pci + 5) (Host s)) (\<lambda>device.
           ok_bind (load8 (pci + 4) (Host s)) (\<lambda>function.
           probe_buses get [0 ..< 256]
             (s\<lparr>PciId := (PciId s)\<lparr>Segment := 0, Device := ucast device, Function := ucast function\<rparr>\<rparr>))))))) (\<lambda>s.
      if HbaMemory s = 0 then Some (Inl NullPointer) else start_controller get hw s)))"

end
