(* ===== verification/Cdrom.thy ===== *)
theory Cdrom
  imports Ahci
begin

text \<open>
  The driver of the CD-ROM drive, \<^verbatim>\<open>src/kernel/devices/ahci/cdrom.cpp\<close>: the set-up of a port,
  the commands, and the volume through which files on the disc are read.  Text on the
  serial port and the console is not recorded, but the register reads for it are.
\<close>

section \<open>Constants\<close>

definition MaxPRDTEntries :: nat where "MaxPRDTEntries = 16"
definition MaxCommands :: nat where "MaxCommands = 32"
definition MaxPorts :: nat where "MaxPorts = 32"
definition FIS_RegisterHostToDevice :: u8 where "FIS_RegisterHostToDevice = 0x27"
definition ATA_CMD_IDENTIFY :: u8 where "ATA_CMD_IDENTIFY = 0xEC"
definition ATA_CMD_IDENTIFY_ATAPI :: u8 where "ATA_CMD_IDENTIFY_ATAPI = 0xA1"
definition ATA_CMD_PACKET :: u8 where "ATA_CMD_PACKET = 0xA0"
definition ATA_CMD_READ_DMA_EX :: u8 where "ATA_CMD_READ_DMA_EX = 0x25"
definition ATAPI_CMD_READ_12 :: u8 where "ATAPI_CMD_READ_12 = 0xA8"
definition PCI_COMMAND_BITS :: u32 where "PCI_COMMAND_BITS = 0x407"

section \<open>Commands\<close>

definition StartCommand :: "'d hba \<Rightarrow> u32 \<Rightarrow> nat \<Rightarrow> 'd disk \<Rightarrow> 'd disk" where
  "StartCommand hw p slot s =
     modify_register hw (PortAt p CommandIssue) (\<lambda>v. v OR push_bit slot 1)
       (modify_register hw (PortAt p InterruptStatus) (\<lambda>v. v) s)"

text \<open>
  The table and the header of a slot, by the pointers that the port keeps.  The functions
  change both; no register is read in between.
\<close>

definition set_command ::
  "cdrom_port \<Rightarrow> nat \<Rightarrow> (HBACommandTable \<Rightarrow> HBACommandTable) \<Rightarrow>
   (HBACommandListHeader \<Rightarrow> HBACommandListHeader) \<Rightarrow> 'd disk \<Rightarrow> fault + 'd disk" where
  "set_command p slot table header s =
     ok_bind (array_get (CommandTables p) slot) (\<lambda>t.
     if t = 0 \<or> CommandLists p = 0 then Inl NullPointer
     else
       let h = CommandLists p + sizeof_HBACommandListHeader * of_nat slot
       in Inr (s\<lparr>CommandTableAt := (CommandTableAt s)(t := table (CommandTableAt s t)),
                 Headers := (Headers s)(h := header (Headers s h))\<rparr>))"

definition slot_header :: "cdrom_port \<Rightarrow> nat \<Rightarrow> 'd disk \<Rightarrow> HBACommandListHeader" where
  "slot_header p slot s = Headers s (CommandLists p + sizeof_HBACommandListHeader * of_nat slot)"

text \<open>
  The wait for the end of a command: false when the error bits were set, true when the command
  is no longer issued and the busy bits, which are looked for in the interrupt status, are
  clear.
\<close>

definition BusyMask :: u32 where "BusyMask = STS_BSY OR STS_DRQ"

definition command_pending :: "'d hba \<Rightarrow> u32 \<Rightarrow> nat \<Rightarrow> 'd disk \<Rightarrow> bool \<times> 'd disk" where
  "command_pending hw p slot s =
     (let (issued, s) = ReadRegister hw (PortAt p CommandIssue) s
      in if issued AND push_bit slot 1 \<noteq> 0 then (True, s)
         else let (status, s) = ReadRegister hw (PortAt p InterruptStatus) s
              in (status AND BusyMask \<noteq> 0, s))"

partial_function (option) command_loop ::
  "'d hba \<Rightarrow> u32 \<Rightarrow> nat \<Rightarrow> u32 \<Rightarrow> 'd disk \<Rightarrow> (bool \<times> 'd disk) option" where
  "command_loop hw p slot fatal s =
     (let (pending, s) = command_pending hw p slot s
      in if pending then
           let (status, s) = ReadRegister hw (PortAt p InterruptStatus) s
           in if status AND fatal \<noteq> 0 then Some (False, s) else command_loop hw p slot fatal s
         else Some (True, s))"

definition sata_error :: "'d hba \<Rightarrow> u32 \<Rightarrow> 'd disk \<Rightarrow> fault + 'd disk" where
  "sata_error hw p s =
     (let (err, s) = ReadRegister hw (PortAt p SATAError) s
      in if err \<noteq> 0 then Inl (AssertionFailed ''SATA Error'') else Inr s)"

text \<open>The error code of the task file; it is read again for the message.\<close>

definition task_failed :: "'d hba \<Rightarrow> u32 \<Rightarrow> 'd disk \<Rightarrow> bool \<times> 'd disk" where
  "task_failed hw p s =
     (let (tfd, s) = ReadRegister hw (PortAt p TaskFileData) s;
          code = ucast (drop_bit 8 tfd AND 0xFF) :: u8;
          (tfd, s) = ReadRegister hw (PortAt p TaskFileData) s
      in if tfd AND STS_ERR \<noteq> 0 \<or> code \<noteq> 0
         then (True, snd (ReadRegister hw (PortAt p TaskFileData) s)) else (False, s))"

definition FIS_DWORDS :: "5 word" where "FIS_DWORDS = 20 div 4"

definition data_entry :: "u64 \<Rightarrow> u32 \<Rightarrow> bool \<Rightarrow> HBAPRDTEntry \<Rightarrow> HBAPRDTEntry" where
  "data_entry pa n interrupt e =
     e\<lparr>DataBaseLow := low32 pa, DataBaseHigh := high32 pa, ByteCount := ucast (n - 1),
       InterruptOnCompletion := interrupt\<rparr>"

definition packet_fis :: FISRegisterHostToDevice where
  "packet_fis = zero_fis\<lparr>FISType := FIS_RegisterHostToDevice, FeatureLow := 1,
     FISCommand := ATA_CMD_PACKET, CommandControl := True\<rparr>"

definition read_header :: "bool \<Rightarrow> HBACommandListHeader \<Rightarrow> HBACommandListHeader" where
  "read_header atapi h =
     h\<lparr>Atapi := atapi, PRDTLength := 1, CommandFISLength := FIS_DWORDS, WriteCommand := False, PRDByteCount := 0\<rparr>"

section \<open>Reading sectors\<close>

text \<open>The packet READ(12); only its first twelve bytes are written.\<close>

definition read12_packet :: "u64 \<Rightarrow> u64 \<Rightarrow> u8 list" where
  "read12_packet lba n =
     [ATAPI_CMD_READ_12, 0, ucast (drop_bit 24 lba AND 0xFF), ucast (drop_bit 16 lba AND 0xFF),
      ucast (drop_bit 8 lba AND 0xFF), ucast (lba AND 0xFF), 0, 0, 0,
      (if n = 256 then 0 else ucast (n AND 0xFF)), 0, 0]"

definition read_cd_table :: "u64 \<Rightarrow> u64 \<Rightarrow> u64 \<Rightarrow> u32 \<Rightarrow> HBACommandTable \<Rightarrow> HBACommandTable" where
  "read_cd_table lba n pa byte_size t =
     t\<lparr>CommandFIS := packet_fis, AtapiCommand := read12_packet lba n @ drop 12 (AtapiCommand t),
       PRDTEntry0 := data_entry pa byte_size False zero_entry\<rparr>"

definition ReadSectorsCD ::
  "'d hba \<Rightarrow> cdrom_port \<Rightarrow> u64 \<Rightarrow> u64 \<Rightarrow> u64 \<Rightarrow> 'd disk \<Rightarrow> (fault + u64 \<times> 'd disk) option" where
  "ReadSectorsCD hw p lba n buffer s =
     (let byte_size = ucast (n * 2048) :: u32 in
      if \<not> n < 256 then Some (Inl (AssertionFailed ''READ(12) limited to 255 sectors.''))
      else if \<not> byte_size \<le> 4 * 1024 * 1024 then Some (Inl (AssertionFailed ''PRDT limited to 4MB each.''))
      else
        io_bind (io_wait (wait_while hw (PortAt (PortNumber p) SATAStatus) STS_BSY s)) (\<lambda>s.
        io_bind (Some (disk_physical buffer s)) (\<lambda>pa.
        io_bind (Some (set_command p 1 (read_cd_table lba n pa byte_size) (read_header True) s)) (\<lambda>s.
        io_bind (io_wait (command_loop hw (PortNumber p) 1 HBA_PxIS_TFES
            (StartCommand hw (PortNumber p) 1 s))) (\<lambda>(ok, s).
        if \<not> ok then Some (Inr (0, s))
        else
          let (failed, s) = task_failed hw (PortNumber p) s
          in if failed then Some (Inr (0, s))
             else io_bind (Some (sata_error hw (PortNumber p) s)) (\<lambda>s.
               Some (Inr (ucast (PRDByteCount (slot_header p 1 s)), s))))))))"

text \<open>The command FIS for a hard disk has the address of the sector but no count.\<close>

definition read_ata_fis :: "u64 \<Rightarrow> FISRegisterHostToDevice" where
  "read_ata_fis lba = zero_fis\<lparr>FISType := FIS_RegisterHostToDevice, FISCommand := ATA_CMD_READ_DMA_EX,
     FISDevice := 0x40, LBA0 := ucast (lba AND 0xFF), LBA1 := ucast (drop_bit 8 lba AND 0xFF),
     LBA2 := ucast (drop_bit 16 lba AND 0xFF), LBA3 := ucast (drop_bit 24 lba AND 0xFF),
     LBA4 := ucast (drop_bit 32 lba AND 0xFF), LBA5 := ucast (drop_bit 40 lba AND 0xFF), CommandControl := True\<rparr>"

definition read_ata_table :: "u64 \<Rightarrow> u64 \<Rightarrow> u32 \<Rightarrow> HBACommandTable \<Rightarrow> HBACommandTable" where
  "read_ata_table lba pa byte_size t =
     t\<lparr>CommandFIS := read_ata_fis lba, PRDTEntry0 := data_entry pa byte_size True (PRDTEntry0 t)\<rparr>"

definition ReadSectorsSATA ::
  "'d hba \<Rightarrow> cdrom_port \<Rightarrow> u64 \<Rightarrow> u64 \<Rightarrow> u64 \<Rightarrow> 'd disk \<Rightarrow> (fault + u64 \<times> 'd disk) option" where
  "ReadSectorsSATA hw p lba n buffer s =
     (let byte_size = ucast (n * 2048) :: u32 in
      if \<not> byte_size \<le> 4 * 1024 * 1024 then Some (Inl (AssertionFailed ''PRDT limited to 4MB each.''))
      else
        io_bind (io_wait (wait_while hw (PortAt (PortNumber p) SATAStatus) STS_BSY s)) (\<lambda>s.
        io_bind (Some (disk_physical buffer s)) (\<lambda>pa.
        io_bind (Some (set_command p 0 (read_ata_table lba pa byte_size) (read_header False) s)) (\<lambda>s.
        io_bind (io_wait (command_loop hw (PortNumber p) 0 HBA_PxIS_TFES
            (StartCommand hw (PortNumber p) 0 s))) (\<lambda>(ok, s).
        if \<not> ok then Some (Inr (0, s))
        else
          io_bind (io_wait (wait_while hw (PortAt (PortNumber p) SATAStatus) STS_BSY s)) (\<lambda>s.
          io_bind (Some (sata_error hw (PortNumber p) s)) (\<lambda>s.
          let (failed, s) = task_failed hw (PortNumber p) s
          in if failed then Some (Inr (0, s))
             else Some (Inr (ucast (PRDByteCount (slot_header p 0 s)), s)))))))))"

text \<open>READ TOC, from the first track in the default format.\<close>

definition read_toc_table :: "u64 \<Rightarrow> u32 \<Rightarrow> HBACommandTable \<Rightarrow> HBACommandTable" where
  "read_toc_table pa n t =
     t\<lparr>CommandFIS := packet_fis,
       AtapiCommand := [0x43, 0, 0, 0, 0, 0, 0, ucast (drop_bit 8 n AND 0xFF), ucast (n AND 0xFF), 0, 0, 0]
         @ drop 12 (AtapiCommand t),
       PRDTEntry0 := data_entry pa n False zero_entry\<rparr>"

definition CdromPort_ReadToc ::
  "'d hba \<Rightarrow> cdrom_port \<Rightarrow> u64 \<Rightarrow> u32 \<Rightarrow> 'd disk \<Rightarrow> (fault + u64 \<times> 'd disk) option" where
  "CdromPort_ReadToc hw p buffer n s =
     (if buffer = 0 then Some (Inl (AssertionFailed ''Buffer cannot be null''))
      else
        io_bind (io_wait (wait_while hw (PortAt (PortNumber p) SATAStatus) STS_BSY s)) (\<lambda>s.
        io_bind (Some (disk_clear buffer (ucast n) s)) (\<lambda>s.
        io_bind (Some (disk_physical buffer s)) (\<lambda>pa.
        io_bind (Some (set_command p 0 (read_toc_table pa n) (read_header True) s)) (\<lambda>s.
        io_bind (io_wait (command_loop hw (PortNumber p) 0 HBA_PxIS_TFES
            (StartCommand hw (PortNumber p) 0 s))) (\<lambda>(ok, s).
        if \<not> ok then Some (Inr (0, s))
        else
          io_bind (io_wait (wait_while hw (PortAt (PortNumber p) SATAStatus) STS_BSY s)) (\<lambda>s.
          let (failed, s) = task_failed hw (PortNumber p) s
          in if failed then Some (Inr (0, s))
             else io_bind (Some (sata_error hw (PortNumber p) s)) (\<lambda>s.
               Some (Inr (ucast (PRDByteCount (slot_header p 0 s)), s))))))))))"

section \<open>Identifying the drive\<close>

definition IsATAPI :: "'d hba \<Rightarrow> cdrom_port \<Rightarrow> 'd disk \<Rightarrow> bool \<times> 'd disk" where
  "IsATAPI hw p s =
     (let (sig, s) = ReadRegister hw (PortAt (PortNumber p) Signature) s in (sig = SATA_SIG_ATAPI, s))"

definition register_has :: "'d hba \<Rightarrow> cdrom_port \<Rightarrow> PortRegister \<Rightarrow> u32 \<Rightarrow> 'd disk \<Rightarrow> bool \<times> 'd disk" where
  "register_has hw p r bits s =
     (let (v, s) = ReadRegister hw (PortAt (PortNumber p) r) s in (v AND bits \<noteq> 0, s))"

definition IsActive :: "'d hba \<Rightarrow> cdrom_port \<Rightarrow> 'd disk \<Rightarrow> bool \<times> 'd disk" where
  "IsActive hw p s =
     (if \<not> IsEnabled p then (False, s)
      else
        let (atapi, s) = IsATAPI hw p s
        in if \<not> atapi then (False, s)
           else
             let (active, s) = register_has hw p SATAStatus HBA_PORT_IPM_ACTIVE s
             in if \<not> active then (False, s)
                else register_has hw p SATAStatus HBA_PORT_DET_PRESENT s)"

text \<open>The words of the identification have their bytes swapped.\<close>

definition ConvertToString :: "u16 list \<Rightarrow> u8 list" where
  "ConvertToString src = concat (map (\<lambda>w. [ucast (drop_bit 8 w), ucast (w AND 0xFF)]) src) @ [0]"

fun words_of :: "u8 list \<Rightarrow> u16 list" where
  "words_of (a # b # bs) = (ucast a OR push_bit 8 (ucast b)) # words_of bs"
| "words_of bs = []"

text \<open>The model name, the serial number and the revision of the firmware; they are only logged.\<close>

definition identify_strings :: "u64 \<Rightarrow> host \<Rightarrow> fault + u8 list \<times> u8 list \<times> u8 list" where
  "identify_strings buffer h =
     ok_bind (read_bytes 40 (buffer + 54) h) (\<lambda>model.
     ok_bind (read_bytes 20 (buffer + 20) h) (\<lambda>serial.
     ok_bind (read_bytes 8 (buffer + 46) h) (\<lambda>firmware.
     Inr (ConvertToString (words_of model), ConvertToString (words_of serial),
          ConvertToString (words_of firmware)))))"

definition identify_table :: "u64 \<Rightarrow> u8 \<Rightarrow> HBACommandTable \<Rightarrow> HBACommandTable" where
  "identify_table pa command t =
     t\<lparr>CommandFIS := zero_fis\<lparr>FISType := FIS_RegisterHostToDevice, FISCommand := command, FISDevice := 0,
         CommandControl := True\<rparr>,
       PRDTEntry0 := data_entry pa 512 False (PRDTEntry0 t)\<rparr>"

text \<open>The header keeps its ATAPI bit here.\<close>

definition identify_header :: "HBACommandListHeader \<Rightarrow> HBACommandListHeader" where
  "identify_header h =
     h\<lparr>PRDTLength := 1, CommandFISLength := FIS_DWORDS, WriteCommand := False, PRDByteCount := 0\<rparr>"

text \<open>What follows the command: every way out but the last one keeps the buffer.\<close>

definition identify_result ::
  "page_source \<Rightarrow> 'd hba \<Rightarrow> cdrom_port \<Rightarrow> u64 \<Rightarrow> 'd disk \<Rightarrow> (fault + bool \<times> 'd disk) option" where
  "identify_result get hw p buffer s =
     io_bind (Some (sata_error hw (PortNumber p) s)) (\<lambda>s.
     let (tfd, s) = ReadRegister hw (PortAt (PortNumber p) TaskFileData) s
     in if tfd AND STS_ERR \<noteq> 0
        then Some (Inr (False, snd (ReadRegister hw (PortAt (PortNumber p) TaskFileData) s)))
        else
          let (running, s) = register_has hw p CommandAndStatus HBA_PxCMD_CR s
          in if \<not> running then Some (Inr (False, s))
             else
               io_bind (Some (identify_strings buffer (Host s))) (\<lambda>strings.
               io_bind (io_wait (wait_while hw (PortAt (PortNumber p) SATAStatus) STS_BSY s)) (\<lambda>s.
               io_bind (Some (VirtualFree get buffer 4096 (Tables (Host s)))) (\<lambda>(ok, t).
               Some (Inr (True, s\<lparr>Host := (Host s)\<lparr>Tables := t\<rparr>\<rparr>))))))"

definition IdentifyDrive ::
  "page_source \<Rightarrow> 'd hba \<Rightarrow> cdrom_port \<Rightarrow> 'd disk \<Rightarrow> (fault + bool \<times> 'd disk) option" where
  "IdentifyDrive get hw p s =
     io_bind (io_wait (wait_while hw (PortAt (PortNumber p) SATAStatus) STS_BSY s)) (\<lambda>s.
     io_bind (Some (disk_alloc get 4096 PageFlags_Cache_WriteThrough s)) (\<lambda>(buffer, s).
     io_bind (Some (disk_clear buffer 512 s)) (\<lambda>s.
     io_bind (Some (disk_physical buffer s)) (\<lambda>pa.
     let (atapi, s) = IsATAPI hw p s in
     io_bind (Some (set_command p 0
         (identify_table pa (if atapi then ATA_CMD_IDENTIFY_ATAPI else ATA_CMD_IDENTIFY)) identify_header s)) (\<lambda>s.
     io_bind (io_wait (command_loop hw (PortNumber p) 0 (HBA_PxIS_TFES OR IS_ERR_FATAL)
         (StartCommand hw (PortNumber p) 0 s))) (\<lambda>(ok, s).
     if \<not> ok then Some (Inr (False, s)) else identify_result get hw p buffer s))))))"

section \<open>Setting up a port\<close>

definition FISSize :: u64 where "FISSize = AlignSize sizeof_FISData 128"

definition CommandListAndPRDTSize :: u64 where
  "CommandListAndPRDTSize =
     AlignSize (sizeof_HBACommandTable + sizeof_HBAPRDTEntry * of_nat (MaxCommands * MaxPRDTEntries - 1)) 128"

definition CommandTableAllocSize :: u64 where
  "CommandTableAllocSize = AlignSize (FISSize + CommandListAndPRDTSize * of_nat MaxCommands) PAGE_SIZE"

definition setup_header :: "u64 \<Rightarrow> HBACommandListHeader \<Rightarrow> HBACommandListHeader" where
  "setup_header pa h =
     h\<lparr>CommandTableBaseLow := low32 pa, CommandTableBaseHigh := high32 pa,
       PRDTLength := of_nat MaxPRDTEntries, PRDByteCount := 0\<rparr>"

text \<open>The loop over the commands; the first argument counts the rounds that are left.\<close>

fun setup_commands :: "nat \<Rightarrow> nat \<Rightarrow> u64 \<Rightarrow> cdrom_port \<Rightarrow> 'd disk \<Rightarrow> fault + cdrom_port \<times> 'd disk" where
  "setup_commands 0 i table p s = Inr (p, s)"
| "setup_commands (Suc n) i table p s =
     assertf (table AND 0x7F = 0) ''Command table not aligned''
       (ok_bind (array_set (CommandTables p) i table) (\<lambda>ts.
        ok_bind (disk_physical table s) (\<lambda>pa.
        let h = CommandLists p + sizeof_HBACommandListHeader * of_nat i in
        setup_commands n (Suc i)
          (table + sizeof_HBACommandTable + (CommandListAndPRDTSize - sizeof_HBACommandTable))
          (p\<lparr>CommandTables := ts\<rparr>) (s\<lparr>Headers := (Headers s)(h := setup_header pa (Headers s h))\<rparr>))))"

definition write_base :: "'d hba \<Rightarrow> u32 \<Rightarrow> PortRegister \<Rightarrow> PortRegister \<Rightarrow> u64 \<Rightarrow> 'd disk \<Rightarrow> 'd disk" where
  "write_base hw p lo hi pa s =
     WriteRegister hw (PortAt p hi) (high32 pa) (WriteRegister hw (PortAt p lo) (low32 pa) s)"

text \<open>The memory of a port: its command list and one block for the received frames and the tables.\<close>

definition setup_memory ::
  "page_source \<Rightarrow> 'd hba \<Rightarrow> cdrom_port \<Rightarrow> 'd disk \<Rightarrow> fault + cdrom_port \<times> 'd disk" where
  "setup_memory get hw p s =
     (let n = PortNumber p;
          (cmd, s) = ReadRegister hw (PortAt n CommandAndStatus) s;
          lists = GetCommandListBase n s;
          p = p\<lparr>CommandLists := lists\<rparr>;
          s = WriteRegister hw (PortAt n CommandAndStatus) ((cmd AND NOT PCI_COMMAND_BITS) OR PCI_COMMAND_BITS) s
      in ok_bind (disk_physical lists s) (\<lambda>pa.
      let s = write_base hw n CommandListBaseLow CommandListBaseHigh pa s in
      ok_bind (disk_alloc get CommandTableAllocSize PageFlags_Cache_Disable s) (\<lambda>(block, s).
      ok_bind (disk_clear block CommandTableAllocSize s) (\<lambda>s.
      let s = s\<lparr>CommandTableAt := (\<lambda>a. if unat (a - block) < unat CommandTableAllocSize then zero_table
                                  else CommandTableAt s a)\<rparr>;
          p = p\<lparr>CommandTableAlloc := block, FIS := block\<rparr>
      in ok_bind (disk_physical block s) (\<lambda>pa.
         setup_commands MaxCommands 0 (block + FISSize) p (write_base hw n FISBaseLow FISBaseHigh pa s))))))"

definition CdromPort_Initialize ::
  "page_source \<Rightarrow> 'd hba \<Rightarrow> u32 \<Rightarrow> cdrom_port \<Rightarrow> 'd disk \<Rightarrow> (fault + bool \<times> cdrom_port \<times> 'd disk) option" where
  "CdromPort_Initialize get hw n p s =
     (let p = p\<lparr>PortNumber := n, IsEnabled := False\<rparr> in
      io_bind (io_wait (StopCommandEngine hw n s)) (\<lambda>s.
      io_bind (Some (setup_memory get hw p s)) (\<lambda>(p, s).
      io_bind (ResetPort hw n s) (\<lambda>s.
      let (atapi, s) = IsATAPI hw p s
      in if \<not> atapi then Some (Inr (False, p, s))
         else
           let (active, s) = register_has hw p SATAStatus HBA_PORT_IPM_ACTIVE s
           in if \<not> active then Some (Inr (False, p, s))
              else
                let (present, s) = register_has hw p SATAStatus HBA_PORT_DET_PRESENT s
                in if \<not> present then Some (Inr (False, p, s))
                   else
                     let (atapi, s) = IsATAPI hw p s;
                         s = (if atapi then modify_register hw (PortAt n CommandAndStatus)
                                (\<lambda>v. v OR HBA_PxCMD_ATAPI) s else s)
                     in io_bind (IdentifyDrive get hw p s) (\<lambda>(ok, s).
                        if ok then Some (Inr (True, p\<lparr>IsEnabled := True\<rparr>, s))
                        else Some (Inr (False, p, s)))))))"

section \<open>Messages\<close>

definition status_names :: "(nat \<times> string) list" where
  "status_names =
     [(0, ''ST ''), (1, ''SUD ''), (2, ''POD ''), (3, ''CLO ''), (4, ''FRE ''), (13, ''MPSS ''),
      (14, ''FR ''), (15, ''CR ''), (16, ''CPS ''), (17, ''PMA ''), (18, ''HPCP ''), (19, ''MPSP ''),
      (20, ''CPD ''), (21, ''ESP ''), (22, ''FBSCP ''), (23, ''APSTE ''), (24, ''ATAPI ''),
      (25, ''DLAE ''), (26, ''ALPE ''), (27, ''ASP '')]"

text \<open>The register is read again for every name.\<close>

fun log_names :: "'d hba \<Rightarrow> u32 \<Rightarrow> (nat \<times> string) list \<Rightarrow> 'd disk \<Rightarrow> string \<times> 'd disk" where
  "log_names hw p [] s = ([], s)"
| "log_names hw p ((n, name) # names) s =
     (let (v, s) = ReadRegister hw (PortAt p CommandAndStatus) s;
          (rest, s) = log_names hw p names s
      in ((if v AND push_bit n 1 \<noteq> 0 then name else []) @ rest, s))"

definition LogStatus :: "'d hba \<Rightarrow> cdrom_port \<Rightarrow> 'd disk \<Rightarrow> string \<times> 'd disk" where
  "LogStatus hw p s =
     (let (names, s) = log_names hw (PortNumber p) status_names s
      in (''Device state: '' @ names @ [char_of (10 :: nat)], s))"

end
