(* ===== verification/CdromVolume.thy ===== *)
theory CdromVolume
  imports Cdrom
begin

text \<open>
  The device object of \<^verbatim>\<open>src/kernel/devices/ahci/cdrom.cpp\<close> and its volume, which programs and the
  loader read the disc through.
\<close>

section \<open>The device\<close>

definition port_at :: "nat \<Rightarrow> 'd disk \<Rightarrow> fault + cdrom_port" where
  "port_at i s = array_get (CdromPorts s) i"

definition empty_port :: cdrom_port where
  "empty_port = \<lparr>PortNumber = 0, IsEnabled = False, CommandLists = 0, CommandTableAlloc = 0, FIS = 0,
     CommandTables = replicate MaxCommands 0\<rparr>"

text \<open>The loop over the ports of the controller; whether one was set up is not looked at.\<close>

fun setup_ports :: "page_source \<Rightarrow> 'd hba \<Rightarrow> nat list \<Rightarrow> 'd disk \<Rightarrow> (fault + 'd disk) option" where
  "setup_ports get hw [] s = Some (Inr s)"
| "setup_ports get hw (i # is) s =
     io_bind (Some (port_at i s)) (\<lambda>p.
     io_bind (CdromPort_Initialize get hw (of_nat i) p s) (\<lambda>(ok, p, s).
     setup_ports get hw is (s\<lparr>CdromPorts := (CdromPorts s)[i := p]\<rparr>)))"

definition SetupPorts :: "page_source \<Rightarrow> 'd hba \<Rightarrow> 'd disk \<Rightarrow> (fault + 'd disk) option" where
  "SetupPorts get hw s =
     setup_ports get hw [0 ..< MaxPorts] (s\<lparr>CdromPorts := replicate MaxPorts empty_port\<rparr>)"

definition CdRomDevice_ReadSectors ::
  "'d hba \<Rightarrow> u64 \<Rightarrow> u64 \<Rightarrow> u64 \<Rightarrow> 'd disk \<Rightarrow> (fault + u64 \<times> 'd disk) option" where
  "CdRomDevice_ReadSectors hw lba n buffer s =
     io_bind (Some (port_at (unat (CdPort s)) s)) (\<lambda>p.
     let (atapi, s) = IsATAPI hw p s
     in if atapi then ReadSectorsCD hw p lba n buffer s else ReadSectorsSATA hw p lba n buffer s)"

definition CdRomDevice_ReadToc ::
  "'d hba \<Rightarrow> u64 \<Rightarrow> u32 \<Rightarrow> 'd disk \<Rightarrow> (fault + u64 \<times> 'd disk) option" where
  "CdRomDevice_ReadToc hw buffer n s =
     io_bind (Some (port_at (unat (CdPort s)) s)) (\<lambda>p.
     let (atapi, s) = IsATAPI hw p s
     in if atapi then CdromPort_ReadToc hw p buffer n s
        else Some (Inl (AssertionFailed ''Not implemented'')))"

section \<open>The volume\<close>

text \<open>
  \<^verbatim>\<open>rpmalloc\<close> and \<^verbatim>\<open>rpfree\<close> are arguments.  A read that waits for ever is \<^const>\<open>Halted\<close> for the callers
  of the volume.
\<close>

record 'd heap =
  heap_alloc :: "u64 \<Rightarrow> 'd disk \<Rightarrow> u64 \<times> 'd disk"
  heap_free :: "u64 \<Rightarrow> 'd disk \<Rightarrow> 'd disk"

definition sectorSize :: u64 where "sectorSize = 2048"

definition start_sector :: "u64 \<Rightarrow> u64" where
  "start_sector offset = (offset AND NOT (sectorSize - 1)) div sectorSize"

definition sector_bound :: "u64 \<Rightarrow> u64 \<Rightarrow> u64" where
  "sector_bound offset n = 1 + (AlignSize (offset + n) sectorSize div sectorSize - start_sector offset)"

definition grow_buffer :: "'d heap \<Rightarrow> u64 \<Rightarrow> 'd disk \<Rightarrow> 'd disk" where
  "grow_buffer heap n s =
     (if GTempCDRomBufferSize s < n then
        let s = (if GTempCDRomBuffer s \<noteq> 0 then heap_free heap (GTempCDRomBuffer s) s else s);
            (a, s) = heap_alloc heap n (s\<lparr>GTempCDRomBufferSize := n\<rparr>)
        in s\<lparr>GTempCDRomBuffer := a\<rparr>
      else s)"

definition copy_out :: "u8 list \<Rightarrow> u8 list \<Rightarrow> fault + u8 list" where
  "copy_out bytes buffer =
     (if length bytes \<le> length buffer then Inr (bytes @ drop (length bytes) buffer) else Inl OutOfBounds)"

definition CdromVolume_Read ::
  "'d hba \<Rightarrow> 'd heap \<Rightarrow> u64 \<Rightarrow> u8 list \<Rightarrow> u64 \<Rightarrow> 'd disk \<Rightarrow> (fault + u64 \<times> u8 list \<times> 'd disk) option" where
  "CdromVolume_Read hw heap offset buffer n s =
     (let start = start_sector offset;
          count = sector_bound offset n;
          s = grow_buffer heap (count * sectorSize) s
      in io_bind (CdRomDevice_ReadSectors hw start count (GTempCDRomBuffer s) s) (\<lambda>(read_size, s).
      let write_size = (if read_size < n then read_size else n) in
      io_bind (Some (read_bytes (unat write_size)
        (GTempCDRomBuffer s + offset - start * sectorSize) (Host s))) (\<lambda>bytes.
      io_bind (Some (copy_out bytes buffer)) (\<lambda>buffer.
      Some (Inr (write_size, buffer, s))))))"

definition no_wait :: "(fault + 'a) option \<Rightarrow> fault + 'a" where
  "no_wait x = (case x of None \<Rightarrow> Inl Halted | Some r \<Rightarrow> r)"

definition CdromVolume :: "'d hba \<Rightarrow> 'd heap \<Rightarrow> 'd disk Volume" where
  "CdromVolume hw heap =
     \<lparr>OpenHandle = Some (\<lambda>h ctx path mode s. Inr (h, s)),
      CloseHandle = Some (\<lambda>h ctx s. Inr s),
      Read = Some (\<lambda>h ctx offset buffer n s. no_wait (CdromVolume_Read hw heap offset buffer n s)),
      Write = None, GetSize = None, Seek = None, Command = None\<rparr>"

section \<open>Finding the drive\<close>

definition visit_drive :: "u8 \<Rightarrow> u8 \<Rightarrow> u64 \<Rightarrow> u64 \<Rightarrow> u64" where
  "visit_drive kind subkind node found =
     (if kind = MESSAGING_DEVICE_PATH \<and> subkind = MSG_SATA_DP then node else found)"

text \<open>The name of the volume; \<^verbatim>\<open>junk\<close> is what the local array held before the first \<^verbatim>\<open>strcat\<close>.\<close>

definition volume_root :: "u16 list \<Rightarrow> u16 list \<Rightarrow> int \<Rightarrow> fault + u16 list" where
  "volume_root junk digits volume_id =
     ok_bind (strcat16 junk (wide ''/device/cdrom/'')) (\<lambda>root.
     ok_bind (witoabuf16 True 32 digits volume_id 10 0) (\<lambda>(digits, n).
     strcat16 root digits))"

definition mount_drive ::
  "hash \<Rightarrow> u64 \<Rightarrow> 'd disk Volume \<Rightarrow> u16 list \<Rightarrow> u64 \<Rightarrow> 'd disk \<Rightarrow> 'd disk volumes
    \<Rightarrow> fault + bool \<times> 'd disk \<times> 'd disk volumes" where
  "mount_drive XXH64 junk volume root this s vols =
     ok_bind (MountVolume XXH64 junk volume root this vols) (\<lambda>(h, vols).
       Inr (True, s\<lparr>VolumeId := h\<rparr>, vols))"

text \<open>
  \<^verbatim>\<open>CdromDeviceCount\<close> is zero, nothing changes it.  The other nodes of the device path are looked
  at only for messages.
\<close>

definition CdRomDevice_Initialize ::
  "page_source \<Rightarrow> 'd hba \<Rightarrow> 'd heap \<Rightarrow> hash \<Rightarrow> u64 \<Rightarrow> u16 list \<Rightarrow> u16 list \<Rightarrow> u64 \<Rightarrow> u64
    \<Rightarrow> 'd disk \<Rightarrow> 'd disk volumes \<Rightarrow> (fault + bool \<times> 'd disk \<times> 'd disk volumes) option" where
  "CdRomDevice_Initialize get hw heap XXH64 junk junk_root junk_digits this path s vols =
     (let s = s\<lparr>CdromPorts := replicate MaxPorts empty_port, CdPort := 0, VolumeId := 0\<rparr> in
      io_bind (walk_path visit_drive (Host s) path 0) (\<lambda>sata.
      if sata = 0 then Some (Inl (AssertionFailed ''SATA device is mandatory''))
      else
        io_bind (SetupPorts get hw s) (\<lambda>s.
        io_bind (Some (read_width 2 (sata + 4) (Host s))) (\<lambda>port_number.
        let s = s\<lparr>CdPort := ucast port_number\<rparr> in
        io_bind (Some (port_at (unat (CdPort s)) s)) (\<lambda>p.
        let (active, s) = IsActive hw p s
        in if \<not> active then Some (Inr (False, s, vols))
           else io_bind (Some (volume_root junk_root junk_digits 0)) (\<lambda>root.
             Some (mount_drive XXH64 junk (CdromVolume hw heap) root this s vols)))))))"

end
