(* ===== verification/FatDisk.thy ===== *)
theory FatDisk
  imports CdromVolume
begin

text \<open>
  The glue between the volumes and the FatFs library, \<^verbatim>\<open>src/kernel/fs/fat/diskio.cpp\<close>: the
  sectors that the library asks for, and the volume that it provides.  The library is a
  parameter; its configuration has file positions and sector numbers of 32 bits.
\<close>

section \<open>Sectors for the library\<close>

datatype DRESULT = RES_OK | RES_ERROR | RES_WRPRT | RES_NOTRDY | RES_PARERR

definition GCDPartitionStartSector :: u64 where "GCDPartitionStartSector = 33"
definition MAX_FILE_HANDLES :: nat where "MAX_FILE_HANDLES = 512"
definition GET_SECTOR_SIZE :: u8 where "GET_SECTOR_SIZE = 2"

definition disk_status :: "u8 \<Rightarrow> DRESULT" where "disk_status pdrv = RES_OK"
definition disk_initialize :: "u8 \<Rightarrow> DRESULT" where "disk_initialize pdrv = RES_OK"

text \<open>\<^verbatim>\<open>drives\<close> are the handles of the mounted drives.  The products with 512 have 32 bits.\<close>

definition disk_read ::
  "'w volumes \<Rightarrow> u64 list \<Rightarrow> u8 \<Rightarrow> u8 list \<Rightarrow> u32 \<Rightarrow> u32 \<Rightarrow> 'w \<Rightarrow> fault + DRESULT \<times> u8 list \<times> 'w" where
  "disk_read vols drives pdrv buffer sector count w =
     ok_bind (array_get drives (unat pdrv)) (\<lambda>drive.
     ok_bind (VolumeRead vols drive (GCDPartitionStartSector * 2048 + ucast (sector * 512)) buffer
       (ucast (count * 512)) w) (\<lambda>(n, buffer, w). Inr (RES_OK, buffer, w)))"

definition disk_write :: "u8 \<Rightarrow> u8 list \<Rightarrow> u32 \<Rightarrow> u32 \<Rightarrow> DRESULT" where
  "disk_write pdrv buffer sector count = RES_WRPRT"

text \<open>The sector size is the only question that is answered.\<close>

definition disk_ioctl :: "u8 \<Rightarrow> u8 \<Rightarrow> u16 \<Rightarrow> fault + DRESULT \<times> u16" where
  "disk_ioctl pdrv cmd buff =
     (if cmd = GET_SECTOR_SIZE then Inr (RES_OK, 512) else Inl (AssertionFailed ''Not implemented''))"

definition get_fattime :: "u64 \<Rightarrow> u32" where "get_fattime rdtsc = ucast rdtsc"

section \<open>Files\<close>

text \<open>
  The functions of the library that the glue calls; a file object is known by its entry in
  \<^verbatim>\<open>FileHandles\<close>.  Results say whether \<^verbatim>\<open>FR_OK\<close> was returned.
\<close>

record 's fatfs =
  f_mount :: "nat \<Rightarrow> wstr \<Rightarrow> 's \<Rightarrow> 's"
  f_open :: "nat \<Rightarrow> wstr \<Rightarrow> 's \<Rightarrow> bool \<times> 's"
  f_tell :: "nat \<Rightarrow> 's \<Rightarrow> u32"
  f_size :: "nat \<Rightarrow> 's \<Rightarrow> u32"
  f_lseek :: "nat \<Rightarrow> u32 \<Rightarrow> 's \<Rightarrow> 's"
  f_read :: "nat \<Rightarrow> u32 \<Rightarrow> 's \<Rightarrow> bool \<times> u8 list \<times> 's"
  f_write :: "nat \<Rightarrow> u8 list \<Rightarrow> 's \<Rightarrow> bool \<times> u32 \<times> 's"

record 's fat =
  FileHandles :: "bool list"
  FatDriveVolumes :: "u64 list"
  MountedFatDrives :: nat
  Library :: 's

text \<open>The file behind a handle; the pointer of a free entry is null.\<close>

definition open_file :: "u64 \<Rightarrow> 's fat \<Rightarrow> fault + nat" where
  "open_file h s =
     (let i = unat (handle_file h) in
      ok_bind (array_get (FileHandles s) i) (\<lambda>used. if used then Inr i else Inl NullPointer))"

fun first_free :: "bool list \<Rightarrow> nat \<Rightarrow> nat option" where
  "first_free [] i = None"
| "first_free (used # us) i = (if used then first_free us (Suc i) else Some i)"

text \<open>
  \<^verbatim>\<open>junk\<close> is what the local array held before.  Of the mode only reading is used.
\<close>

definition FatVolume_OpenHandle ::
  "'s fatfs \<Rightarrow> wstr \<Rightarrow> u64 \<Rightarrow> wstr \<Rightarrow> 's fat \<Rightarrow> fault + u64 \<times> 's fat" where
  "FatVolume_OpenHandle fs junk volume_handle path s =
     ok_bind (strcpy16 (take 256 junk) (wide ''/'')) (\<lambda>adjusted.
     ok_bind (strcat16 adjusted path) (\<lambda>adjusted.
     case first_free (FileHandles s) 0 of
       None \<Rightarrow> Inr (0, s)
     | Some i \<Rightarrow>
         let (ok, l) = f_open fs i adjusted (Library s)
         in if ok then Inr (set_handle_file (of_nat i) volume_handle,
                s\<lparr>FileHandles := (FileHandles s)[i := True], Library := l\<rparr>)
            else Inr (0, s\<lparr>Library := l\<rparr>)))"

definition FatVolume_CloseHandle :: "u64 \<Rightarrow> 's fat \<Rightarrow> fault + 's fat" where
  "FatVolume_CloseHandle h s =
     ok_bind (array_get (FileHandles s) (unat (handle_file h))) (\<lambda>used.
       if used then Inr (s\<lparr>FileHandles := (FileHandles s)[unat (handle_file h) := False]\<rparr>) else Inr s)"

definition lseek :: "'s fatfs \<Rightarrow> nat \<Rightarrow> u64 \<Rightarrow> 's fat \<Rightarrow> 's fat" where
  "lseek fs i offset s = s\<lparr>Library := f_lseek fs i (ucast offset) (Library s)\<rparr>"

text \<open>
  Before a transfer at an offset the position is set; \<^verbatim>\<open>-1\<close> stands for the position as it is.
  Afterwards the old position is set again.
\<close>

definition seek_before :: "'s fatfs \<Rightarrow> nat \<Rightarrow> u64 \<Rightarrow> 's fat \<Rightarrow> fault + 's fat" where
  "seek_before fs i offset s =
     (if offset = - 1 then Inr s
      else if offset <s 0 then Inl (AssertionFailed ''Invalid offset'')
      else Inr (lseek fs i offset s))"

definition seek_after :: "'s fatfs \<Rightarrow> nat \<Rightarrow> u64 \<Rightarrow> u32 \<Rightarrow> 's fat \<Rightarrow> 's fat" where
  "seek_after fs i offset tell s = (if offset = - 1 then s else lseek fs i (ucast tell) s)"

definition FatVolume_Read ::
  "'s fatfs \<Rightarrow> u64 \<Rightarrow> u64 \<Rightarrow> u8 list \<Rightarrow> u64 \<Rightarrow> 's fat \<Rightarrow> fault + u64 \<times> u8 list \<times> 's fat" where
  "FatVolume_Read fs h offset buffer n s =
     (if n = 0 then Inr (0, buffer, s)
      else
        ok_bind (open_file h s) (\<lambda>i.
        let tell = f_tell fs i (Library s) in
        ok_bind (seek_before fs i offset s) (\<lambda>s.
        let (ok, bytes, l) = f_read fs i (ucast n) (Library s);
            s = seek_after fs i offset tell (s\<lparr>Library := l\<rparr>)
        in ok_bind (copy_out bytes buffer) (\<lambda>buffer.
           Inr (if ok then of_nat (length bytes) else 0, buffer, s)))))"

definition FatVolume_Write ::
  "'s fatfs \<Rightarrow> u64 \<Rightarrow> u64 \<Rightarrow> u8 list \<Rightarrow> u64 \<Rightarrow> 's fat \<Rightarrow> fault + u64 \<times> 's fat" where
  "FatVolume_Write fs h offset buffer n s =
     (if n = 0 then Inr (0, s)
      else
        ok_bind (open_file h s) (\<lambda>i.
        let tell = f_tell fs i (Library s) in
        ok_bind (seek_before fs i offset s) (\<lambda>s.
        if unat (ucast n :: u32) > length buffer then Inl OutOfBounds
        else
          let (ok, written, l) = f_write fs i (take (unat (ucast n :: u32)) buffer) (Library s);
              s = seek_after fs i offset tell (s\<lparr>Library := l\<rparr>)
          in Inr (if ok then ucast written else 0, s))))"

definition FatVolume_GetSize :: "'s fatfs \<Rightarrow> u64 \<Rightarrow> 's fat \<Rightarrow> fault + u64 \<times> 's fat" where
  "FatVolume_GetSize fs h s = ok_bind (open_file h s) (\<lambda>i. Inr (ucast (f_size fs i (Library s)), s))"

text \<open>From the end the offset counts backwards.\<close>

definition FatVolume_Seek ::
  "'s fatfs \<Rightarrow> u64 \<Rightarrow> u64 \<Rightarrow> SeekMode \<Rightarrow> 's fat \<Rightarrow> fault + u64 \<times> 's fat" where
  "FatVolume_Seek fs h offset origin s =
     ok_bind (open_file h s) (\<lambda>i.
     case origin of
       SeekSet \<Rightarrow> let s = lseek fs i offset s in Inr (ucast (f_tell fs i (Library s)), s)
     | SeekCurrent \<Rightarrow>
         let current = ucast (f_tell fs i (Library s))
         in Inr (current + offset, lseek fs i (offset + current) s)
     | SeekEnd \<Rightarrow>
         let byte_size = ucast (f_size fs i (Library s))
         in Inr (byte_size - offset, lseek fs i (byte_size - offset) s))"

definition FatVolume :: "'s fatfs \<Rightarrow> wstr \<Rightarrow> 's fat Volume" where
  "FatVolume fs junk =
     \<lparr>OpenHandle = Some (\<lambda>h ctx path mode s. FatVolume_OpenHandle fs junk h path s),
      CloseHandle = Some (\<lambda>h ctx s. FatVolume_CloseHandle h s),
      Read = Some (\<lambda>h ctx offset buffer n s. FatVolume_Read fs h offset buffer n s),
      Write = Some (\<lambda>h ctx offset buffer n s. FatVolume_Write fs h offset buffer n s),
      GetSize = Some (\<lambda>h ctx s. FatVolume_GetSize fs h s),
      Seek = Some (\<lambda>h ctx offset origin s. FatVolume_Seek fs h offset origin s),
      Command = Some (\<lambda>h ctx command data s. Inr (- EINVAL, s))\<rparr>"

text \<open>
  \<^verbatim>\<open>drive_address\<close> is the address of an entry of \<^verbatim>\<open>FatDrives\<close>; \<^verbatim>\<open>digits\<close> is the local array for
  the number of the drive.
\<close>

definition MountFatVolume ::
  "'s fatfs \<Rightarrow> hash \<Rightarrow> u64 \<Rightarrow> wstr \<Rightarrow> wstr \<Rightarrow> (nat \<Rightarrow> u64) \<Rightarrow> wstr \<Rightarrow> u64 \<Rightarrow> 's fat \<Rightarrow> 's fat volumes
    \<Rightarrow> fault + u64 \<times> 's fat \<times> 's fat volumes" where
  "MountFatVolume fs XXH64 junk junk_path digits drive_address mount_point volume s vols =
     (let i = MountedFatDrives s in
      ok_bind (witoabuf16 False 64 (take 9 digits) (int i) 10 0) (\<lambda>(digits, n).
      ok_bind (array_set (FatDriveVolumes s) i volume) (\<lambda>drives.
      let s = s\<lparr>FatDriveVolumes := drives, Library := f_mount fs i digits (Library s), MountedFatDrives := Suc i\<rparr>
      in ok_bind (MountVolume XXH64 junk (FatVolume fs junk_path) mount_point (drive_address i) vols) (\<lambda>(h, vols).
         Inr (h, s, vols)))))"

text \<open>A file that the library cannot open is answered with zero.\<close>

lemma FatVolume_missing_file:
  assumes "\<forall>i name l. \<not> fst (f_open fs i name l)" and "FatVolume_OpenHandle fs junk h path s = Inr (r, s')"
  shows "r = 0"
  using assms by (auto simp: FatVolume_OpenHandle_def ok_bind_eq_Inr Let_def case_prod_beta split: option.splits)

section \<open>Reading and writing at an offset\<close>

text \<open>
  What is assumed of the library, as it documents its functions: a file is open under its entry
  and has a size and bytes; the position can be set up to the size, in read mode a position
  behind it becomes the size, and a read returns the bytes from the position on and moves it.
  \<^verbatim>\<open>bytes\<close> and \<^verbatim>\<open>position\<close> say what the state of the library means.
\<close>

definition reads_files :: "'s fatfs \<Rightarrow> ('s \<Rightarrow> nat \<Rightarrow> u8 list) \<Rightarrow> ('s \<Rightarrow> nat \<Rightarrow> nat) \<Rightarrow> bool" where
  "reads_files fs bytes position \<longleftrightarrow>
     (\<forall>i l. length (bytes l i) < 2 ^ 32 \<and> position l i \<le> length (bytes l i)
        \<and> f_tell fs i l = of_nat (position l i) \<and> f_size fs i l = of_nat (length (bytes l i))) \<and>
     (\<forall>i l o1. let l' = f_lseek fs i o1 l in bytes l' = bytes l
        \<and> position l' = (position l)(i := min (unat o1) (length (bytes l i)))) \<and>
     (\<forall>i l n. let data = take (unat n) (drop (position l i) (bytes l i)) in
        \<exists>l'. f_read fs i n l = (True, data, l') \<and> bytes l' = bytes l
          \<and> position l' = (position l)(i := position l i + length data))"

lemma reads_filesD:
  assumes "reads_files fs bytes position"
  shows "length (bytes l i) < 2 ^ 32" "position l i \<le> length (bytes l i)"
    "f_tell fs i l = of_nat (position l i)" "f_size fs i l = of_nat (length (bytes l i))"
    "bytes (f_lseek fs i o1 l) = bytes l"
    "position (f_lseek fs i o1 l) = (position l)(i := min (unat o1) (length (bytes l i)))"
    "\<exists>l'. f_read fs i n l = (True, take (unat n) (drop (position l i) (bytes l i)), l') \<and> bytes l' = bytes l
      \<and> position l' = (position l)(i := position l i + length (take (unat n) (drop (position l i) (bytes l i))))"
  using assms by (auto simp: reads_files_def Let_def)

lemma unat_u32: "unat (ucast (x :: u64) :: u32) = unat x" if "unat x < 2 ^ 32"
  using that by (simp add: unsigned_ucast_eq take_bit_nat_eq_self)

lemma unat_of_nat_u32: "n < 2 ^ 32 \<Longrightarrow> unat (of_nat n :: u32) = n"
  unfolding unat_of_nat by simp

lemma copy_out_fits: "length bs \<le> length buffer \<Longrightarrow> copy_out bs buffer = Inr (bs @ drop (length bs) buffer)"
  by (simp add: copy_out_def)

lemma small_not_negative:
  fixes x :: u64
  assumes "unat x < 2 ^ 32"
  shows "\<not> x <s 0"
proof -
  have "uint x < 2 ^ 32"
    using assms by (metis of_nat_less_numeral_power_cancel_iff uint_nat)
  then have "\<not> bit (uint x) 63"
    by (simp add: bit_iff_odd)
  then show ?thesis
    by (simp add: word_sless_alt sint_uint)
qed

lemma seek_back:
  assumes "reads_files fs bytes position"
  shows "ucast (ucast (f_tell fs i l) :: u64) = f_tell fs i l"
  by (rule bit_word_eqI) (simp add: bit_simps)

text \<open>
  C39: A read at an offset is a positional read: it returns the bytes of the file from there
  on, as many as were asked for and the file has, and leaves the files and all positions as
  they were.  A read at the current position, offset \<^verbatim>\<open>-1\<close>, returns the bytes from there and moves
  the position behind them.
\<close>

theorem FatVolume_Read_positional:
  assumes "reads_files fs bytes position" and "open_file h s = Inr i"
    and "n \<noteq> 0" and "unat n < 2 ^ 32" and "offset = - 1 \<or> unat offset < 2 ^ 32"
    and "start = (if offset = - 1 then position (Library s) i else unat offset)"
    and "data = take (unat n) (drop start (bytes (Library s) i))" and "length data \<le> length buffer"
  shows "\<exists>s'. FatVolume_Read fs h offset buffer n s
      = Inr (of_nat (length data), data @ drop (length data) buffer, s')
    \<and> bytes (Library s') = bytes (Library s)
    \<and> position (Library s') = (if offset = - 1 then (position (Library s))(i := start + length data)
        else position (Library s))"
proof (cases "offset = - 1")
  case True
  obtain l' where "f_read fs i (ucast n) (Library s) = (True, data, l')" "bytes l' = bytes (Library s)"
    "position l' = (position (Library s))(i := start + length data)"
    using reads_filesD(7) [OF assms(1), of i "ucast n" "Library s"] True assms(4,6,7) by (auto simp: unat_u32)
  then show ?thesis
    using True assms(2,3,8)
    by (simp add: FatVolume_Read_def seek_before_def seek_after_def copy_out_fits)
next
  case False
  let ?l = "Library s" and ?at = "f_lseek fs i (ucast offset) (Library s)"
  have o: "unat offset < 2 ^ 32" "start = unat offset"
    using assms(5,6) False by auto
  have pos: "\<not> offset <s 0"
    using o(1) by (rule small_not_negative)
  have at: "bytes ?at = bytes ?l" "position ?at = (position ?l)(i := min start (length (bytes ?l i)))"
    using reads_filesD(5,6) [OF assms(1)] o by (simp_all add: unat_u32)
  have "take (unat n) (drop (position ?at i) (bytes ?at i)) = data"
    using at assms(7) by (simp add: min_def)
  then obtain l' where l': "f_read fs i (ucast n) ?at = (True, data, l')" "bytes l' = bytes ?l"
    "position l' = (position ?at)(i := position ?at i + length data)"
    using reads_filesD(7) [OF assms(1), of i "ucast n" ?at] assms(4) at(1) by (auto simp: unat_u32)
  let ?returned = "f_lseek fs i (f_tell fs i ?l) l'"
  have "unat (f_tell fs i ?l) = position ?l i"
    using reads_filesD(1,2,3) [OF assms(1), where l = ?l and i = i] by (simp add: unat_of_nat_u32)
  then have "bytes ?returned = bytes ?l" "position ?returned = position ?l"
    using reads_filesD(5,6) [OF assms(1)] reads_filesD(2) [OF assms(1), where l = ?l and i = i] l'(2,3) at(2)
    by (simp_all add: min_def)
  then show ?thesis
    using False pos l'(1) assms(2,3,8) seek_back [OF assms(1)]
    by (simp add: FatVolume_Read_def seek_before_def seek_after_def lseek_def copy_out_fits)
qed

end
