(* ===== verification/AcpiOsCorrect.thy ===== *)
theory AcpiOsCorrect
  imports AcpiOs MemoryManager
begin

text \<open>
  Configuration space: where a register is, what a read of it returns, and what the read
  leaves behind in the tracker of physical memory.
\<close>

section \<open>Offsets in a page\<close>

lemma take_bit_low:
  fixes a :: u64
  assumes "unat a < 2 ^ k"
  shows "take_bit k a = a"
  using assms by (intro word_unat_eq_iff [THEN iffD2]) (simp add: unat_take_bit)

lemma split_location:
  fixes a :: u64
  assumes "unat a < 2 ^ 48"
  shows "(a AND PAGE_MASK) + (a AND (PAGE_SIZE - 1)) = a"
proof -
  have "bit a n \<Longrightarrow> n < 48" for n
    using take_bit_low [OF assms] by (metis bit_take_bit_iff)
  then have "(a AND PAGE_MASK) OR (a AND (PAGE_SIZE - 1)) = a"
    unfolding page_offset
    by (intro bit_word_eqI) (auto simp: bit_or_iff bit_and_iff bit_PAGE_MASK bit_take_bit_iff)
  moreover have "(a AND PAGE_MASK) AND (a AND (PAGE_SIZE - 1)) = 0"
    unfolding page_offset
    by (intro bit_word_eqI) (auto simp: bit_and_iff bit_PAGE_MASK bit_take_bit_iff)
  ultimately show ?thesis
    by (simp add: disjunctive_add_eq_or)
qed

lemma join_location:
  fixes v off :: u64
  assumes "v AND PAGE_MASK = v" and "unat off < 4096"
  shows "(v + off) AND PAGE_MASK = v" and "(v + off) AND (PAGE_SIZE - 1) = off"
proof -
  have b: "bit v n \<longleftrightarrow> bit v n \<and> 12 \<le> n \<and> n < 48" for n
    using assms(1) by (metis bit_and_iff bit_PAGE_MASK)
  have "take_bit 12 off = off"
    using take_bit_low [of off 12] assms(2) by simp
  then have o: "bit off n \<longleftrightarrow> n < 12 \<and> bit off n" for n
    by (metis bit_take_bit_iff)
  have "\<not> (bit v n \<and> bit off n)" for n
    using b [of n] o [of n] by linarith
  then have "v AND off = 0"
    by (intro bit_word_eqI) (simp add: bit_and_iff)
  then have e: "v + off = v OR off"
    by (rule disjunctive_add_eq_or)
  show "(v + off) AND PAGE_MASK = v"
  proof (rule bit_word_eqI)
    fix n
    show "bit ((v + off) AND PAGE_MASK) n = bit v n"
      using b [of n] o [of n] by (auto simp: e bit_and_iff bit_or_iff bit_PAGE_MASK)
  qed
  show "(v + off) AND (PAGE_SIZE - 1) = off"
    unfolding page_offset
  proof (rule bit_word_eqI)
    fix n
    show "bit (take_bit 12 (v + off)) n = bit off n"
      using b [of n] o [of n] by (auto simp: e bit_take_bit_iff bit_or_iff)
  qed
qed

lemma unat_offset: "unat (a AND (PAGE_SIZE - 1)) < 4096"
  unfolding page_offset unat_take_bit by simp

lemma size_0x2000: "unat (0x2000 :: u64) = 0x2000" "0x2000 div 4096 = (2 :: nat)"
  by simp_all

text \<open>An offset into a range of pages: the page it falls into and the offset there.\<close>

lemma split_page:
  assumes "page_range ms va n" and "unat off < unat n"
  defines "i \<equiv> unat off div 4096" and "low \<equiv> (of_nat (unat off mod 4096) :: u64)"
  shows "i < unat n div 4096" and "off = of_nat (4096 * i) + low" and "same_page (va + off) (page va i)"
    and "(va + off) AND (PAGE_SIZE - 1) = low"
proof -
  have "unat n = 4096 * (unat n div 4096)"
    using assms(1) mult_div_mod_eq [of 4096 "unat n"] by (simp add: page_range_def)
  then show i: "i < unat n div 4096"
    using assms(2) unfolding i_def by (metis less_mult_imp_div_less mult.commute)
  have "off = of_nat (4096 * (unat off div 4096) + unat off mod 4096)"
    by simp
  then show off: "off = of_nat (4096 * i) + low"
    unfolding i_def low_def by (simp only: of_nat_add)
  have "unat low = unat off mod 4096"
    unfolding low_def by (intro unat_of_nat_u64) (rule less_trans [of _ 4096], simp_all)
  then have low: "unat low < 4096"
    by simp
  have "page va i AND PAGE_MASK = page va i"
    using assms(1) i by (intro page_aligned [of va "unat n div 4096"]) (auto simp: page_range_def)
  from join_location [OF this low] show "same_page (va + off) (page va i)" "(va + off) AND (PAGE_SIZE - 1) = low"
    using \<open>page va i AND PAGE_MASK = page va i\<close>
    by (simp_all add: same_page_def page_def off add.assoc)
qed

section \<open>Bytes in memory\<close>

lemma read_bytes_mapped:
  assumes "\<forall>j < n. GetPhysicalAddress (va + of_nat j) True (Tables s) = Inr (pa + of_nat j)"
    and "\<forall>j < n. pa + of_nat j \<noteq> INVALID_ADDRESS"
  shows "read_bytes n va s = Inr (map (\<lambda>j. Physical s (pa + of_nat j)) [0 ..< n])"
  using assms
proof (induction n arbitrary: va pa)
  case (Suc n)
  have "GetPhysicalAddress va True (Tables s) = Inr pa" "pa \<noteq> INVALID_ADDRESS"
    using Suc.prems [THEN spec, of 0] by simp_all
  moreover have "\<forall>j < n. GetPhysicalAddress (va + 1 + of_nat j) True (Tables s) = Inr (pa + 1 + of_nat j)"
    "\<forall>j < n. pa + 1 + of_nat j \<noteq> INVALID_ADDRESS"
    using Suc.prems [THEN spec, of "Suc _"] by (simp_all add: algebra_simps)
  ultimately show ?case
    using Suc.IH [of "va + 1" "pa + 1"] by (simp add: map_upt_Suc add.assoc del: upt_Suc)
qed simp

section \<open>Mapping a device\<close>

lemma PhysicalAlloc_core:
  assumes ok: "manager_ok p (Suc k) m" and room: "3 * (unat n div 4096) \<le> m" and live: "live_ok p"
    and pr: "page_range (PhysicalMemoryState p) pa n"
    and va: "FindMinimumSizeFreeBlock (VirtualMemoryState p) n = Inr va" "va \<noteq> 0"
  shows "\<exists>p'. PhysicalAlloc (GetPML4FreePage depth rpmalloc) pa n level flags p = Inr (va, p')
    \<and> manager_ok p' k (m - 3 * (unat n div 4096)) \<and> live_ok p'
    \<and> (\<forall>i < unat n div 4096. \<forall>a. same_page a (page va i) \<longrightarrow>
         GetPhysicalAddress a True p' = Inr (page pa i + (a AND (PAGE_SIZE - 1))))
    \<and> tracked pa n Used (PhysicalMemoryState p) (PhysicalMemoryState p')
    \<and> tracked va n Used (VirtualMemoryState p) (VirtualMemoryState p')
    \<and> page_range (VirtualMemoryState p) va n"
proof -
  have n: "unat n mod 4096 = 0" "n \<noteq> 0"
    using pr by (auto simp: page_range_def)
  have vr: "page_range (VirtualMemoryState p) va n"
    using found_page_range(1) [OF _ va n] manager_okD(2) [OF ok] live by (simp add: live_ok_def)
  from MapPages_core [OF ok room vr pr, of Used depth rpmalloc True False level flags] obtain p' where p':
    "MapPages (GetPML4FreePage depth rpmalloc) va pa n True False level Used flags p = Inr p'"
    "manager_ok p' k (m - 3 * (unat n div 4096))"
    and m: "mapped (unat n div 4096) va pa (new_entry Used True False level flags)
        (pte (Heap p) (PML4 p)) (pte (Heap p') (PML4 p'))"
    and t: "tracked pa n Used (PhysicalMemoryState p) (PhysicalMemoryState p')"
      "tracked va n Used (VirtualMemoryState p) (VirtualMemoryState p')"
    and same: "PML4 p' = PML4 p" "CR3 p' = CR3 p"
    by auto
  have lv: "CR3 p' AND PML4AddressMask = PML4 p'"
    using live same by (simp add: live_ok_def)
  have "live_ok p'"
    using live t lv by (simp add: live_ok_def tracked_def)
  have al: "page pa i AND PAGE_MASK = page pa i" if "i < unat n div 4096" for i
    using pr that page_range_facts(8) [OF pr]
    by (intro page_aligned [of pa "unat n div 4096"]) (auto simp: page_range_def)
  have "GetPhysicalAddress a True p' = Inr (page pa i + (a AND (PAGE_SIZE - 1)))"
    if "i < unat n div 4096" "same_page a (page va i)" for i a
    using m that new_entry_translation [OF al [OF that(1)]]
    by (simp add: GetPhysicalAddress_live [OF lv] GetPhysicalAddress_translation [OF p'(2)] mapped_def)
  then show ?thesis
    using p' va t vr \<open>live_ok p'\<close> by (auto simp: PhysicalAlloc_def)
qed

section \<open>Reading a register\<close>

lemma window_length:
  assumes "unat off < 4096"
  shows "(PAGE_SIZE + off + PAGE_SIZE) AND PAGE_MASK = 0x2000"
proof -
  have "PAGE_SIZE + off + PAGE_SIZE = 0x2000 + off"
    by (simp add: PAGE_SIZE_def)
  then show ?thesis
    using join_location(1) [of "0x2000" off] assms by (simp add: PAGE_MASK_def)
qed

text \<open>The registers that a read can reach, through the two pages that it maps.\<close>

lemma mapped_window:
  assumes "unat target < 2 ^ 48" and "n \<le> 8" and vr: "page_range ms va 0x2000"
    and hit: "\<forall>i < 2. \<forall>a. same_page a (page va i) \<longrightarrow>
      GetPhysicalAddress a True (Tables s) = Inr (page (target AND PAGE_MASK) i + (a AND (PAGE_SIZE - 1)))"
  shows "read_bytes n (va + (target AND (PAGE_SIZE - 1))) s
    = Inr (map (\<lambda>j. Physical s (target + of_nat j)) [0 ..< n])"
proof (rule read_bytes_mapped)
  let ?off = "target AND (PAGE_SIZE - 1)"
  have addr: "GetPhysicalAddress (va + ?off + of_nat j) True (Tables s) = Inr (target + of_nat j)" if "j < n" for j
  proof -
    have u: "unat (?off + of_nat j) < 0x2000"
      using unat_offset [of target] that assms(2)
      by (subst unat_add_no_wrap) (simp_all add: unat_of_nat_u64)
    note sp = split_page [OF vr, unfolded size_0x2000, OF u]
    have "GetPhysicalAddress (va + (?off + of_nat j)) True (Tables s)
      = Inr ((target AND PAGE_MASK) + (?off + of_nat j))"
      using hit [rule_format, OF sp(1,3)] sp(4) sp(2) by (simp add: page_def add.assoc)
    moreover have "(target AND PAGE_MASK) + (?off + of_nat j) = target + of_nat j"
      using split_location [OF assms(1)] by (simp add: add.assoc [symmetric])
    ultimately show ?thesis
      by (simp add: add.assoc)
  qed
  then show "\<forall>j < n. GetPhysicalAddress (va + ?off + of_nat j) True (Tables s) = Inr (target + of_nat j)"
    by blast
  have "target + of_nat j \<noteq> INVALID_ADDRESS" if "j < n" for j
  proof -
    have "unat (target + of_nat j) = unat target + j"
      using assms(1,2) that by (subst unat_add_no_wrap) (simp_all add: unat_of_nat_u64)
    moreover have "unat INVALID_ADDRESS = 2 ^ 64 - 1"
      by (simp add: INVALID_ADDRESS_def unsigned_minus_1_eq_mask mask_eq_exp_minus_1)
    ultimately have "unat (target + of_nat j) < unat INVALID_ADDRESS"
      using assms(1,2) that by simp
    then show ?thesis by auto
  qed
  then show "\<forall>j < n. target + of_nat j \<noteq> INVALID_ADDRESS"
    by blast
qed

definition register_width :: "u32 \<Rightarrow> nat" where
  "register_width width = (if width = 16 then 2 else if width = 32 then 4 else 8)"

lemma AcpiOsReadPciConfiguration_core:
  assumes ok: "manager_ok (Tables s) (Suc (Suc k)) m" and room: "12 \<le> m" and live: "live_ok (Tables s)"
    and target: "config_address i r s = Inr target" "target \<noteq> 0" "unat target < 2 ^ 48"
    and width: "width \<in> {8, 16, 32, 64}"
    and pr: "page_range (PhysicalMemoryState (Tables s)) (target AND PAGE_MASK) 0x2000"
    and va: "FindMinimumSizeFreeBlock (VirtualMemoryState (Tables s)) 0x2000 = Inr va" "va \<noteq> 0"
  shows "\<exists>s'. AcpiOsReadPciConfiguration (GetPML4FreePage depth rpmalloc) i r old width s
      = Inr (AE_OK, word_of_bytes (map (\<lambda>j. Physical s (target + of_nat j)) [0 ..< register_width width]), s')
    \<and> Physical s' = Physical s
    \<and> (\<exists>p. tracked (target AND PAGE_MASK) 0x2000 Used (PhysicalMemoryState (Tables s)) p
         \<and> tracked (target AND PAGE_MASK) 0x2000 Free p (PhysicalMemoryState (Tables s')))"
proof -
  let ?off = "target AND (PAGE_SIZE - 1)" and ?base = "target AND PAGE_MASK"
  have n: "unat (0x2000 :: u64) div 4096 = 2"
    by simp
  note len = window_length [OF unat_offset]
  from PhysicalAlloc_core [OF ok _ live pr va, of depth rpmalloc Kernel PageFlags_Cache_Disable] room
  obtain p where p:
    "PhysicalAlloc (GetPML4FreePage depth rpmalloc) ?base 0x2000 Kernel PageFlags_Cache_Disable (Tables s) = Inr (va, p)"
    "manager_ok p (Suc k) (m - 6)" "live_ok p"
    and hit: "\<forall>i < 2. \<forall>a. same_page a (page va i) \<longrightarrow>
      GetPhysicalAddress a True p = Inr (page ?base i + (a AND (PAGE_SIZE - 1)))"
    and t: "tracked ?base 0x2000 Used (PhysicalMemoryState (Tables s)) (PhysicalMemoryState p)"
      "tracked va 0x2000 Used (VirtualMemoryState (Tables s)) (VirtualMemoryState p)"
    and vr: "page_range (VirtualMemoryState (Tables s)) va 0x2000"
    unfolding n by auto
  let ?s = "s\<lparr>Tables := p\<rparr>"
  have off: "target - ?base = ?off"
    using split_location [OF target(3)] by (simp add: diff_eq_eq add.commute)
  have map: "AcpiOsMapMemory (GetPML4FreePage depth rpmalloc) target PAGE_SIZE s = Inr (va + ?off, ?s)"
    by (simp only: AcpiOsMapMemory_def Let_def off len p(1) ok_bind_Inr prod.case)
  have vm: "va AND PAGE_MASK = va"
    using page_range_facts(1) [OF vr] by (simp add: aligned_def)
  have r': "page_range (VirtualMemoryState p) va 0x2000" "page_range (PhysicalMemoryState p) ?base 0x2000"
    using vr pr t by (auto simp: page_range_def tracked_def)
  have six: "3 * (unat (0x2000 :: u64) div 4096) \<le> m - 6"
    using room by simp
  from VirtualFree_core [OF p(2) six p(3) r', of depth rpmalloc] hit obtain p' where p':
    "VirtualFree (GetPML4FreePage depth rpmalloc) va 0x2000 p = Inr (True, p')"
    "tracked ?base 0x2000 Free (PhysicalMemoryState p) (PhysicalMemoryState p')"
    unfolding n by auto
  have unmap: "AcpiOsUnmapMemory (GetPML4FreePage depth rpmalloc) (va + ?off) PAGE_SIZE ?s = Inr (s\<lparr>Tables := p'\<rparr>)"
    by (simp only: AcpiOsUnmapMemory_def Let_def join_location(1) [OF vm unat_offset]
        add_diff_cancel_left' len) (simp add: p'(1))
  have bytes: "read_bytes l (va + ?off) ?s = Inr (map (\<lambda>j. Physical s (target + of_nat j)) [0 ..< l])"
    if "l \<le> 8" for l
    using mapped_window [OF target(3) that vr, of ?s] hit by simp
  show ?thesis
    using width t(1) p'(2) target(1,2) map unmap
    by (auto simp: AcpiOsReadPciConfiguration_def read_width_def bytes register_width_def
        simp del: upt_Suc upt_rec_numeral intro!: exI [of _ "s\<lparr>Tables := p'\<rparr>"])
qed

text \<open>
  C30: A read of a register in configuration space returns the bytes that the device has at
  the computed address, least significant first, as many as the width says, except that a
  width of 8 bits gives eight bytes.  The two pages of configuration space that it maps are
  tagged as free physical memory afterwards, unless they are reserved, so that an allocation
  may be given them.
\<close>

theorem AcpiOsReadPciConfiguration_reads:
  assumes "manager_ok (Tables s) (Suc (Suc k)) m" and "12 \<le> m" and "live_ok (Tables s)"
    and "config_address i r s = Inr target" and "target \<noteq> 0" and "unat target < 2 ^ 48"
    and "width \<in> {8, 16, 32, 64}"
    and "page_range (PhysicalMemoryState (Tables s)) (target AND PAGE_MASK) 0x2000"
    and "FindMinimumSizeFreeBlock (VirtualMemoryState (Tables s)) 0x2000 = Inr va" and "va \<noteq> 0"
  shows "\<exists>s'. AcpiOsReadPciConfiguration (GetPML4FreePage depth rpmalloc) i r old width s
      = Inr (AE_OK, word_of_bytes (map (\<lambda>j. Physical s (target + of_nat j)) [0 ..< register_width width]), s')
    \<and> Physical s' = Physical s
    \<and> (\<forall>a. target AND PAGE_MASK \<le> a \<and> a < (target AND PAGE_MASK) + 0x2000 \<longrightarrow>
         GetPageState (PhysicalMemoryState (Tables s')) a =
           (if GetPageState (PhysicalMemoryState (Tables s)) a = Reserved then Reserved else Free))"
proof -
  have "a < highest_address (PhysicalMemoryState (Tables s))" if "a < (target AND PAGE_MASK) + 0x2000" for a
    using less_le_trans [OF that] assms(8) by (simp only: page_range_def)
  then show ?thesis
    using AcpiOsReadPciConfiguration_core [OF assms(1-6,7-10), of depth rpmalloc old]
    by (fastforce simp: tracked_def)
qed

definition demo_host :: host where
  "demo_host = \<lparr>Physical = (\<lambda>a. 0)(0x8010 := 0x34, 0x8011 := 0x12), Tables = demo_manager,
     GAcpiMcfgAllocation = [(0x8000, 0, 3)], RsdpPhyAdd = 0\<rparr>"

definition demo_pci :: ACPI_PCI_ID where
  "demo_pci = \<lparr>Segment = 0, Bus = 0, Device = 0, Function = 0\<rparr>"

lemma AcpiOsReadPciConfiguration_reads_witness:
  "\<exists>s'. AcpiOsReadPciConfiguration (GetPML4FreePage 1 demo_rpmalloc) demo_pci 0x10 0 16 demo_host = Inr (AE_OK, 0x1234, s')
    \<and> GetPageState (PhysicalMemoryState (Tables s')) 0x8000 = Free"
proof -
  have ok: "manager_ok (Tables demo_host) (Suc (Suc 8)) 2048" "live_ok (Tables demo_host)"
    using demo_manager_ok by (simp_all add: demo_host_def)
  have target: "config_address demo_pci 0x10 demo_host = Inr 0x8010"
    by (simp add: config_address_def PciConfigGetMMIOAddress_def demo_pci_def demo_host_def)
  have base: "0x8010 AND PAGE_MASK = 0x8000"
    by (simp add: PAGE_MASK_def)
  have r: "page_range (PhysicalMemoryState (Tables demo_host)) (0x8010 AND PAGE_MASK) 0x2000"
    unfolding base by (simp add: demo_host_def demo_manager_fields demo_range)
  have f: "FindMinimumSizeFreeBlock (VirtualMemoryState (Tables demo_host)) 0x2000 = Inr 0x1000"
    by (simp add: demo_host_def demo_manager_fields demo_used_find)
  have w: "(16 :: u32) \<in> {8, 16, 32, 64}"
    by simp
  have v: "word_of_bytes (map (\<lambda>j. Physical demo_host (0x8010 + of_nat j)) [0 ..< register_width 16]) = 0x1234"
    by (simp add: demo_host_def register_width_def word_of_bytes_def upt_rec)
  from AcpiOsReadPciConfiguration_reads [OF ok(1) _ ok(2) target _ _ w r f, of 1 demo_rpmalloc 0]
  obtain s' where s': "AcpiOsReadPciConfiguration (GetPML4FreePage 1 demo_rpmalloc) demo_pci 0x10 0 16 demo_host = Inr (AE_OK, 0x1234, s')"
    "\<forall>a. 0x8000 \<le> a \<and> a < 0x8000 + 0x2000 \<longrightarrow> GetPageState (PhysicalMemoryState (Tables s')) a =
       (if GetPageState (PhysicalMemoryState (Tables demo_host)) a = Reserved then Reserved else Free)"
    unfolding base v by auto
  have "GetPageState (PhysicalMemoryState (Tables demo_host)) 0x8000 = Free"
    by (simp add: demo_host_def demo_manager_fields tracker_eval demo_used_def GetPageState_def PAGE_MASK_def)
  then show ?thesis
    using s'(1) s'(2) [rule_format, of "0x8000"] by auto
qed

section \<open>Where a register is\<close>

lemma or_is_sum:
  fixes x y :: u64
  assumes "\<And>n. bit x n \<Longrightarrow> k \<le> n" and "unat y < 2 ^ k"
  shows "x OR y = x + y"
proof -
  have "take_bit k y = y"
    using assms(2) by (rule take_bit_low)
  then have "bit y n \<Longrightarrow> n < k" for n
    by (metis bit_take_bit_iff)
  then have "\<not> (bit x n \<and> bit y n)" for n
    using assms(1) [of n] by fastforce
  then have "x AND y = 0"
    by (intro bit_word_eqI) (simp add: bit_and_iff)
  then show ?thesis
    by (simp add: disjunctive_add_eq_or)
qed

lemma unat_field:
  fixes b :: u8
  assumes "k \<le> 32"
  shows "unat (push_bit k (ucast b) :: u64) = 2 ^ k * unat b"
proof -
  have "2 ^ k * unat b \<le> 2 ^ 32 * unat b"
    by (rule mult_le_mono1, rule power_increasing [OF assms]) simp
  also have "\<dots> < 2 ^ 64"
    using unat_less_pow2 [of b] by simp
  finally have "2 ^ k * unat b < 2 ^ 64" .
  moreover have "push_bit k (ucast b) = (of_nat (2 ^ k * unat b) :: u64)"
    by (simp add: push_bit_eq_mult mult.commute)
  ultimately show ?thesis
    by (simp only: unat_of_nat_u64)
qed

text \<open>
  C31: The registers of a function lie in a page of their own.  The address of one is the
  base of the allocation that has the bus, 4096 times the number of the function among all
  that the bus, device and function numbers distinguish, and the offset, rounded down to a
  multiple of four.
\<close>

theorem PciConfigGetMMIOAddress_window:
  assumes "find_bus bus (GAcpiMcfgAllocation s) = Some base" and "device < 32" and "function < 8"
    and "unat base + 2 ^ 28 < 2 ^ 64"
  shows "\<exists>a. PciConfigGetMMIOAddress bus device function offset s = Inr a
    \<and> unat a = unat base + 4096 * ((unat bus * 32 + unat device) * 8 + unat function) + 4 * (unat offset div 4)"
proof -
  let ?A = "push_bit 20 (ucast bus) :: u64" and ?B = "push_bit 15 (ucast device) :: u64"
    and ?C = "push_bit 12 (ucast function) :: u64" and ?D = "ucast offset AND 0xFF :: u64"
  have small: "unat device < 32" "unat function < 8" "unat bus < 2 ^ 8" "unat offset < 2 ^ 8"
    using assms(2,3) unat_less_pow2 [of bus] unat_less_pow2 [of offset] by (simp_all add: word_less_nat_alt)
  have "?D = take_bit 8 (ucast offset)"
    by (simp add: take_bit_eq_mask mask_eq_exp_minus_1)
  then have D: "unat ?D = unat offset"
    using small(4) by (simp only: unat_take_bit) (simp add: unsigned_ucast_eq take_bit_nat_eq_self)
  have c: "?C OR ?D = ?C + ?D"
    by (rule or_is_sum [of _ 12]) (use small D in \<open>auto simp: bit_push_bit_iff\<close>)
  have uc: "unat (?C + ?D) = 2 ^ 12 * unat function + unat offset"
    using small D by (subst unat_add_no_wrap) (simp_all add: unat_field)
  have b: "?B OR (?C + ?D) = ?B + (?C + ?D)"
    by (rule or_is_sum [of _ 15]) (use small uc in \<open>auto simp: bit_push_bit_iff\<close>)
  have ub: "unat (?B + (?C + ?D)) = 2 ^ 15 * unat device + (2 ^ 12 * unat function + unat offset)"
    using small uc by (subst unat_add_no_wrap) (simp_all add: unat_field)
  have a: "?A OR (?B + (?C + ?D)) = ?A + (?B + (?C + ?D))"
    by (rule or_is_sum [of _ 20]) (use small ub in \<open>auto simp: bit_push_bit_iff\<close>)
  have ua: "unat (?A + (?B + (?C + ?D)))
    = 2 ^ 20 * unat bus + (2 ^ 15 * unat device + (2 ^ 12 * unat function + unat offset))"
    using small ub by (subst unat_add_no_wrap) (simp_all add: unat_field)
  let ?dwords = "drop_bit 2 (?A + (?B + (?C + ?D)))"
  have "unat ?dwords = (2 ^ 20 * unat bus + (2 ^ 15 * unat device + (2 ^ 12 * unat function + unat offset))) div 4"
    by (simp only: drop_bit_eq_div unat_div ua) simp
  then have d: "unat ?dwords = 2 ^ 18 * unat bus + 2 ^ 13 * unat device + 2 ^ 10 * unat function + unat offset div 4"
    by simp
  then have "unat (4 * ?dwords) = 4 * unat ?dwords"
    using small by (simp add: unat_word_ariths)
  then have "unat (base + 4 * ?dwords) = unat base + 4 * unat ?dwords"
    using assms(4) small d by (subst unat_add_no_wrap) simp_all
  moreover have "PciConfigGetMMIOAddress bus device function offset s = Inr (base + 4 * ?dwords)"
    using assms(1) by (simp add: PciConfigGetMMIOAddress_def c b a)
  ultimately show ?thesis
    using d by (simp add: algebra_simps)
qed

lemma PciConfigGetMMIOAddress_window_witness:
  "\<exists>a. PciConfigGetMMIOAddress 1 2 3 0x3D demo_host = Inr a \<and> unat a = 0x8000 + 4096 * 275 + 60"
proof -
  have "find_bus 1 (GAcpiMcfgAllocation demo_host) = Some 0x8000"
    by (simp add: demo_host_def)
  from PciConfigGetMMIOAddress_window [OF this, of 2 3 "0x3D"] show ?thesis
    by simp
qed

end
