(* ===== verification/CdromSetup.thy ===== *)
theory CdromSetup
  imports CdromVolume AcpiOsCorrect
begin

text \<open>
  The memory of a port: where the set-up puts the command tables, and that the headers point
  to them.
\<close>

definition slot_table :: "u64 \<Rightarrow> nat \<Rightarrow> u64" where
  "slot_table block i = block + FISSize + CommandListAndPRDTSize * of_nat i"

text \<open>The address in a header, as the controller reads it.\<close>

definition header_base :: "HBACommandListHeader \<Rightarrow> u64" where
  "header_base h = push_bit 32 (ucast (CommandTableBaseHigh h)) OR ucast (CommandTableBaseLow h)"

lemma join_low_high: "push_bit 32 (ucast (high32 pa)) OR ucast (low32 pa) = (pa :: u64)"
proof (rule bit_word_eqI)
  fix n assume "n < LENGTH(64)"
  have m: "(0xFFFFFFFF :: u64) = mask 32"
    by (simp add: mask_eq_exp_minus_1)
  show "bit (push_bit 32 (ucast (high32 pa)) OR ucast (low32 pa) :: u64) n = bit pa n"
    using \<open>n < LENGTH(64)\<close>
    by (auto simp: high32_def low32_def m bit_simps)
qed

lemma sizes: "FISSize = 256" "CommandListAndPRDTSize = 8320" "CommandTableAllocSize = 0x42000"
proof -
  show f: "FISSize = 256" and c: "CommandListAndPRDTSize = 8320"
    by (simp_all add: FISSize_def sizeof_FISData_def CommandListAndPRDTSize_def sizeof_HBACommandTable_def
        sizeof_HBAPRDTEntry_def MaxCommands_def MaxPRDTEntries_def AlignSize_def)
  show "CommandTableAllocSize = 0x42000"
    by (simp add: CommandTableAllocSize_def f c MaxCommands_def AlignSize_def PAGE_SIZE_def)
qed

lemma unat_slot_table:
  assumes "unat block + 0x42000 < 2 ^ 64" and "i < 32"
  shows "unat (slot_table block i) = unat block + 256 + 8320 * i"
proof -
  have i: "unat (of_nat i :: u64) = i"
    using assms(2) by (intro unat_of_nat_u64) simp
  have "unat (8320 * of_nat i :: u64) = 8320 * i"
    using assms(2) by (simp add: unat_word_ariths i)
  moreover have "unat (block + 256) = unat block + 256"
    using assms(1) by (subst unat_add_no_wrap) simp_all
  ultimately show ?thesis
    using assms unfolding slot_table_def sizes by (subst unat_add_no_wrap) simp_all
qed

lemma low_bits_128: "t AND 0x7F = 0 \<longleftrightarrow> unat (t :: u64) mod 128 = 0"
proof -
  have "t AND 0x7F = take_bit 7 t"
    by (simp add: take_bit_eq_mask mask_eq_exp_minus_1)
  then have "unat (t AND 0x7F) = unat t mod 128"
    by (simp only: unat_take_bit) (simp add: take_bit_eq_mod)
  then show ?thesis
    by (metis unat_eq_zero)
qed

lemma slot_table_aligned:
  assumes "unat block mod 128 = 0" and "unat block + 0x42000 < 2 ^ 64" and "i < 32"
  shows "slot_table block i AND 0x7F = 0"
proof -
  have "unat block + 256 + 8320 * i = unat block + 128 * (2 + 65 * i)"
    by simp
  then show ?thesis
    using assms(1) unfolding low_bits_128 unat_slot_table [OF assms(2,3)] by (simp only: mod_mult_self2)
qed

section \<open>The loop over the commands\<close>

definition header_at :: "u64 \<Rightarrow> nat \<Rightarrow> u64" where
  "header_at base i = base + sizeof_HBACommandListHeader * of_nat i"

text \<open>The headers that rounds \<^verbatim>\<open>i\<close> to \<^verbatim>\<open>i + n\<close> leave.\<close>

fun set_headers ::
  "nat \<Rightarrow> nat \<Rightarrow> (nat \<Rightarrow> u64) \<Rightarrow> u64 \<Rightarrow> (u64 \<Rightarrow> HBACommandListHeader) \<Rightarrow> u64 \<Rightarrow> HBACommandListHeader" where
  "set_headers 0 i pa base hs = hs"
| "set_headers (Suc n) i pa base hs =
     set_headers n (Suc i) pa base
       (hs(header_at base i := setup_header (pa i) (hs (header_at base i))))"

lemma header_at_inj:
  assumes "header_at base i = header_at base j" and "i < 32" and "j < 32"
  shows "i = j"
proof -
  have u: "unat (32 * of_nat k :: u64) = 32 * k" if "k < 32" for k
  proof -
    have "unat (of_nat k :: u64) = k"
      using that by (intro unat_of_nat_u64) simp
    then show ?thesis
      using that by (simp add: unat_word_ariths)
  qed
  have "(32 * of_nat i :: u64) = 32 * of_nat j"
    using assms(1) by (simp add: header_at_def sizeof_HBACommandListHeader_def)
  then have "unat (32 * of_nat i :: u64) = unat (32 * of_nat j :: u64)"
    by simp
  then show ?thesis
    using u [OF assms(2)] u [OF assms(3)] by simp
qed

lemma set_headers_frame:
  "(\<forall>j. i \<le> j \<longrightarrow> j < i + n \<longrightarrow> a \<noteq> header_at base j) \<Longrightarrow> set_headers n i pa base hs a = hs a"
  by (induction n arbitrary: i hs) auto

lemma set_headers_at:
  assumes "i \<le> j" and "j < i + n" and "i + n \<le> 32"
  shows "set_headers n i pa base hs (header_at base j) = setup_header (pa j) (hs (header_at base j))"
  using assms
proof (induction n arbitrary: i hs)
  case (Suc n)
  show ?case
  proof (cases "i = j")
    case True
    have "\<forall>k. Suc i \<le> k \<longrightarrow> k < Suc i + n \<longrightarrow> header_at base i \<noteq> header_at base k"
      using header_at_inj [of base i] Suc.prems(3) by fastforce
    then show ?thesis
      using True by (simp add: set_headers_frame)
  next
    case False
    then have "header_at base j \<noteq> header_at base i"
      using header_at_inj [of base j i] Suc.prems by auto
    then show ?thesis
      using False Suc.IH [of "Suc i"] Suc.prems by simp
  qed
qed simp

lemma setup_commands_from:
  assumes "\<forall>j. i \<le> j \<longrightarrow> j < i + n \<longrightarrow> slot_table block j AND 0x7F = 0
      \<and> disk_physical (slot_table block j) s = Inr (pa j)"
    and "i + n \<le> length (CommandTables p)"
  shows "setup_commands n i (slot_table block i) p s
    = Inr (p\<lparr>CommandTables := take i (CommandTables p) @ map (slot_table block) [i ..< i + n]
        @ drop (i + n) (CommandTables p)\<rparr>,
      s\<lparr>Headers := set_headers n i pa (CommandLists p) (Headers s)\<rparr>)"
  using assms
proof (induction n arbitrary: i p s)
  case (Suc n)
  let ?t = "slot_table block i"
  have next_table: "?t + sizeof_HBACommandTable + (CommandListAndPRDTSize - sizeof_HBACommandTable) = slot_table block (Suc i)"
    by (simp add: slot_table_def sizes sizeof_HBACommandTable_def algebra_simps)
  have here: "?t AND 0x7F = 0" "disk_physical ?t s = Inr (pa i)"
    using Suc.prems(1) [rule_format, of i] by simp_all
  let ?p = "p\<lparr>CommandTables := (CommandTables p)[i := ?t]\<rparr>"
  define hs where "hs = (Headers s)(header_at (CommandLists p) i :=
    setup_header (pa i) (Headers s (header_at (CommandLists p) i)))"
  let ?s = "s\<lparr>Headers := hs\<rparr>"
  have "\<forall>j. Suc i \<le> j \<longrightarrow> j < Suc i + n \<longrightarrow> slot_table block j AND 0x7F = 0
      \<and> disk_physical (slot_table block j) ?s = Inr (pa j)"
    using Suc.prems(1) by (simp add: disk_physical_def)
  from Suc.IH [OF this, of ?p] Suc.prems(2)
  have "setup_commands n (Suc i) (slot_table block (Suc i)) ?p ?s
    = Inr (?p\<lparr>CommandTables := take (Suc i) (CommandTables ?p) @ map (slot_table block) [Suc i ..< Suc i + n]
        @ drop (Suc i + n) (CommandTables ?p)\<rparr>,
      ?s\<lparr>Headers := set_headers n (Suc i) pa (CommandLists ?p) (Headers ?s)\<rparr>)"
    by simp
  moreover have "take (Suc i) (CommandTables ?p) = take i (CommandTables p) @ [?t]"
    using Suc.prems(2) by (simp add: take_Suc_conv_app_nth)
  moreover have "[i ..< i + Suc n] = i # [Suc i ..< Suc i + n]"
    by (simp add: upt_conv_Cons)
  ultimately show ?case
    using Suc.prems(2) here
    by (simp add: array_set_def next_table header_at_def [symmetric] hs_def [symmetric] del: upt_Suc)
qed simp

text \<open>
  C33: The set-up of a port succeeds when its block of memory is aligned and mapped.  The
  command tables lie behind the received frames inside the block, aligned to 128 bytes, one
  behind the other with room for 512 regions each, and every header holds the physical address
  of its table.
\<close>

theorem setup_commands_layout:
  assumes "unat block mod 4096 = 0" and "unat block + unat CommandTableAllocSize < 2 ^ 64"
    and "length (CommandTables p) = MaxCommands"
    and "\<forall>i < MaxCommands. \<exists>pa. disk_physical (slot_table block i) s = Inr pa"
  shows "\<exists>p' s'. setup_commands MaxCommands 0 (block + FISSize) p s = Inr (p', s')
    \<and> length (CommandTables p') = MaxCommands
    \<and> (\<forall>i < MaxCommands. let t = CommandTables p' ! i; h = slot_header p' i s' in
         unat t mod 128 = 0 \<and> unat block + 220 \<le> unat t
         \<and> unat t + (128 + 16 * 512) \<le> unat block + unat CommandTableAllocSize
         \<and> (\<forall>j < i. unat (CommandTables p' ! j) + (128 + 16 * 512) \<le> unat t)
         \<and> disk_physical t s = Inr (header_base h) \<and> unat (PRDTLength h) \<le> 512 \<and> PRDByteCount h = 0)"
proof -
  obtain pa where pa: "\<forall>i < 32. disk_physical (slot_table block i) s = Inr (pa i)"
    using assms(4) unfolding MaxCommands_def by metis
  have "unat block mod 128 = unat block mod 4096 mod 128"
    by (simp add: mod_mod_cancel)
  then have b: "unat block + 0x42000 < 2 ^ 64" "unat block mod 128 = 0"
    using assms(1,2) by (simp_all add: sizes(3))
  let ?p = "p\<lparr>CommandTables := map (slot_table block) [0 ..< 32]\<rparr>"
  let ?s = "s\<lparr>Headers := set_headers 32 0 pa (CommandLists p) (Headers s)\<rparr>"
  have "setup_commands 32 0 (slot_table block 0) p s = Inr (?p, ?s)"
    using setup_commands_from [of 0 32 block s pa p] slot_table_aligned [OF b(2,1)] pa assms(3)
    by (simp add: MaxCommands_def)
  moreover have "slot_table block 0 = block + FISSize"
    by (simp add: slot_table_def)
  moreover have "header_base (slot_header ?p i ?s) = pa i \<and> unat (PRDTLength (slot_header ?p i ?s)) = 16
      \<and> PRDByteCount (slot_header ?p i ?s) = 0" if "i < 32" for i
    using set_headers_at [of 0 i 32 pa "CommandLists p" "Headers s"] that
    by (simp add: slot_header_def header_at_def [symmetric] header_base_def setup_header_def join_low_high
        MaxPRDTEntries_def)
  moreover have "unat (slot_table block i) mod 128 = 0 \<and> unat block + 220 \<le> unat (slot_table block i)
      \<and> unat (slot_table block i) + 8320 \<le> unat block + 0x42000
      \<and> (\<forall>j < i. unat (slot_table block j) + 8320 \<le> unat (slot_table block i))" if "i < 32" for i
    using slot_table_aligned [OF b(2,1) that] unat_slot_table [OF b(1)] that by (simp add: low_bits_128)
  ultimately show ?thesis
    using pa by (intro exI [of _ ?p] exI [of _ ?s]) (simp add: MaxCommands_def Let_def sizes(3))
qed

end
