(* ===== verification/CdromCorrect.thy ===== *)
theory CdromCorrect
  imports CdromSetup
begin

text \<open>
  Reading from the disc.  What is assumed of the drive is the documented behaviour of its
  registers, on the bits and bytes that it sees; what is shown is that the driver makes of it
  a volume with the bytes of the disc.
\<close>

section \<open>What the drive sees\<close>

definition big_endian :: "u8 list \<Rightarrow> nat" where
  "big_endian bs = foldl (\<lambda>n b. 256 * n + unat b) 0 bs"

text \<open>
  A header and a table, read the way the interface defines them: a packet command READ(12) with
  one memory region, given by the first sector, the number of sectors, the address and the
  length of the region.
\<close>

definition decode_read12 :: "HBACommandListHeader \<Rightarrow> HBACommandTable \<Rightarrow> (nat \<times> nat \<times> u64 \<times> nat) option" where
  "decode_read12 h t =
     (if Atapi h \<and> \<not> WriteCommand h \<and> unat (CommandFISLength h) = 5 \<and> unat (PRDTLength h) = 1
         \<and> unat (FISType (CommandFIS t)) = 0x27 \<and> CommandControl (CommandFIS t)
         \<and> unat (FISCommand (CommandFIS t)) = 0xA0 \<and> bit (FeatureLow (CommandFIS t)) 0
         \<and> AtapiCommand t ! 0 = 0xA8
      then Some (big_endian (take 4 (drop 2 (AtapiCommand t))), big_endian (take 4 (drop 6 (AtapiCommand t))),
        push_bit 32 (ucast (DataBaseHigh (PRDTEntry0 t))) OR ucast (DataBaseLow (PRDTEntry0 t)),
        unat (ByteCount (PRDTEntry0 t)) + 1)
      else None)"

lemma unat_low_byte: "unat (ucast (x AND 0xFF) :: u8) = unat x mod 256" for x :: u64
proof -
  have m: "x AND 0xFF = take_bit 8 x"
    by (simp add: take_bit_eq_mask mask_eq_exp_minus_1)
  show ?thesis
    unfolding m unsigned_ucast_eq unat_take_bit by (simp add: take_bit_eq_mod)
qed

lemma base_256:
  fixes a :: nat
  assumes "256 * b + m1 = a" and "256 * c + m2 = b" and "256 * d + m3 = c"
  shows "16777216 * d + 65536 * m3 + 256 * m2 + m1 = a"
  using assms by simp

lemma big_endian_lba:
  assumes "unat lba < 2 ^ 32"
  shows "big_endian [ucast (drop_bit 24 lba AND 0xFF), ucast (drop_bit 16 lba AND 0xFF),
    ucast (drop_bit 8 lba AND 0xFF), ucast ((lba :: u64) AND 0xFF)] = unat lba"
proof -
  have byte: "unat (ucast (drop_bit k lba AND 0xFF) :: u8) = unat lba div 2 ^ k mod 256" for k
    unfolding unat_low_byte unat_drop_bit_eq by (simp add: drop_bit_eq_div)
  define a where "a = unat lba"
  have d: "a div 65536 = a div 256 div 256" "a div 16777216 = a div 256 div 256 div 256"
    by (simp_all add: div_mult2_eq [symmetric])
  have "a div 16777216 < 256"
    using assms by (simp add: a_def)
  have "16777216 * (a div 16777216) + 65536 * (a div 65536 mod 256) + 256 * (a div 256 mod 256)
    + a mod 256 = a"
    unfolding d by (rule base_256) (rule mult_div_mod_eq)+
  then show ?thesis
    using \<open>a div 16777216 < 256\<close> byte [of 0] byte [of 8] byte [of 16] byte [of 24]
    by (simp add: big_endian_def a_def)
qed

lemma decode_prepared:
  assumes "unat lba < 2 ^ 32" and "0 < unat n" and "unat n < 256" and "unat byte_size = 2048 * unat n"
  shows "decode_read12 (read_header True h) (read_cd_table lba n pa byte_size t)
    = Some (unat lba, unat n, pa, 2048 * unat n)"
proof -
  have "unat (ucast (n AND 0xFF) :: u8) = unat n"
    using assms(3) by (simp only: unat_low_byte) simp
  moreover have "n \<noteq> 256"
    using assms(3) by auto
  ultimately have count: "unat (if n = 256 then 0 else ucast (n AND 0xFF) :: u8) = unat n"
    by simp
  have "1 \<le> byte_size"
    using assms(2,4) by (simp add: word_le_nat_alt)
  then have b: "unat (byte_size - 1) = 2048 * unat n - 1"
    by (simp add: unat_sub_le assms(4))
  then have "unat (byte_size - 1) < 2 ^ 22"
    using assms(3) by simp
  then have "unat (ucast (byte_size - 1) :: 22 word) = unat (byte_size - 1)"
    by (simp add: unsigned_ucast_eq take_bit_nat_eq_self)
  then have size: "unat (ucast (byte_size - 1) :: 22 word) + 1 = 2048 * unat n"
    using assms(2) b by simp
  show ?thesis
    using big_endian_lba [OF assms(1)] count size
    by (simp add: decode_read12_def read_header_def read_cd_table_def FIS_DWORDS_def packet_fis_def zero_fis_def
        FIS_RegisterHostToDevice_def ATA_CMD_PACKET_def read12_packet_def ATAPI_CMD_READ_12_def
        data_entry_def zero_entry_def join_low_high big_endian_def)
qed

section \<open>The drive\<close>

text \<open>
  The reads of the status registers from the time a command is issued: as long as the bit of
  the slot is set the drive works, and no error is reported.
\<close>

inductive completes :: "'d hba \<Rightarrow> u32 \<Rightarrow> nat \<Rightarrow> 'd disk \<Rightarrow> 'd disk \<Rightarrow> bool" for hw n slot where
  completes_done: "ReadRegister hw (PortAt n CommandIssue) s = (ci, s1) \<Longrightarrow> \<not> bit ci slot \<Longrightarrow>
    ReadRegister hw (PortAt n InterruptStatus) s1 = (status, s2) \<Longrightarrow> \<not> bit status 7 \<Longrightarrow> \<not> bit status 3 \<Longrightarrow>
    completes hw n slot s s2"
| completes_busy: "ReadRegister hw (PortAt n CommandIssue) s = (ci, s1) \<Longrightarrow> bit ci slot \<Longrightarrow>
    ReadRegister hw (PortAt n InterruptStatus) s1 = (status, s2) \<Longrightarrow> \<not> bit status 30 \<Longrightarrow>
    completes hw n slot s2 s' \<Longrightarrow> completes hw n slot s s'"

text \<open>The same with an error in the end.\<close>

inductive fails :: "'d hba \<Rightarrow> u32 \<Rightarrow> nat \<Rightarrow> 'd disk \<Rightarrow> 'd disk \<Rightarrow> bool" for hw n slot where
  fails_now: "ReadRegister hw (PortAt n CommandIssue) s = (ci, s1) \<Longrightarrow> bit ci slot \<Longrightarrow>
    ReadRegister hw (PortAt n InterruptStatus) s1 = (status, s2) \<Longrightarrow> bit status 30 \<Longrightarrow>
    fails hw n slot s s2"
| fails_later: "ReadRegister hw (PortAt n CommandIssue) s = (ci, s1) \<Longrightarrow> bit ci slot \<Longrightarrow>
    ReadRegister hw (PortAt n InterruptStatus) s1 = (status, s2) \<Longrightarrow> \<not> bit status 30 \<Longrightarrow>
    fails hw n slot s2 s' \<Longrightarrow> fails hw n slot s s'"

text \<open>A register that, while the drive is ready, shows an acceptable value and changes nothing else.\<close>

definition steady :: "'d hba \<Rightarrow> ('d \<Rightarrow> bool) \<Rightarrow> Register \<Rightarrow> (u32 \<Rightarrow> bool) \<Rightarrow> bool" where
  "steady hw ready r accept \<longleftrightarrow> (\<forall>s. ready (Drive s) \<longrightarrow>
     (\<exists>v d. ReadRegister hw r s = (v, s\<lparr>Drive := d\<rparr>) \<and> accept v \<and> ready d))"

definition idle_drive :: "'d hba \<Rightarrow> ('d \<Rightarrow> bool) \<Rightarrow> u32 \<Rightarrow> bool" where
  "idle_drive hw ready n \<longleftrightarrow>
     steady hw ready (PortAt n SATAStatus) (\<lambda>v. \<not> bit v 7) \<and>
     steady hw ready (PortAt n Signature) (\<lambda>v. v = 0xEB140101) \<and>
     steady hw ready (PortAt n InterruptStatus) (\<lambda>v. True) \<and>
     steady hw ready (PortAt n CommandIssue) (\<lambda>v. True) \<and>
     steady hw ready (PortAt n TaskFileData) (\<lambda>v. \<not> bit v 0 \<and> drop_bit 8 v AND 0xFF = 0) \<and>
     steady hw ready (PortAt n SATAError) (\<lambda>v. v = 0) \<and>
     (\<forall>v s. ready (Drive s) \<longrightarrow>
        (\<exists>d. WriteRegister hw (PortAt n InterruptStatus) v s = s\<lparr>Drive := d\<rparr> \<and> ready d))"

text \<open>The state after a transfer of sectors of the disc to physical memory.\<close>

definition transferred :: "(nat \<Rightarrow> u8) \<Rightarrow> u64 \<Rightarrow> nat \<Rightarrow> nat \<Rightarrow> u64 \<Rightarrow> 'd disk \<Rightarrow> 'd disk \<Rightarrow> bool" where
  "transferred disc header lba n pa s s' \<longleftrightarrow> (\<exists>d. s' = s\<lparr>Drive := d,
     Host := (Host s)\<lparr>Physical := (\<lambda>a. if unat (a - pa) < 2048 * n then disc (2048 * lba + unat (a - pa))
       else Physical (Host s) a)\<rparr>,
     Headers := (Headers s)(header := (Headers s header)\<lparr>PRDByteCount := of_nat (2048 * n)\<rparr>)\<rparr>)"

text \<open>
  A drive with a disc of so many sectors: when a READ(12) whose region has the length of the
  sectors is issued in slot 1, the command completes, the data arrive, and the drive is ready
  again, if the sectors are on the disc; otherwise the command fails.
\<close>

definition reads_disc :: "'d hba \<Rightarrow> ('d \<Rightarrow> bool) \<Rightarrow> cdrom_port \<Rightarrow> (nat \<Rightarrow> u8) \<Rightarrow> nat \<Rightarrow> bool" where
  "reads_disc hw ready p disc sectors \<longleftrightarrow>
     (\<forall>s v lba n pa. ready (Drive s) \<longrightarrow> bit v 1 \<longrightarrow>
        decode_read12 (slot_header p 1 s) (CommandTableAt s (CommandTables p ! 1)) = Some (lba, n, pa, 2048 * n) \<longrightarrow>
        (\<exists>s'. let issued = WriteRegister hw (PortAt (PortNumber p) CommandIssue) v s in
           if lba + n \<le> sectors
           then completes hw (PortNumber p) 1 issued s' \<and> ready (Drive s')
             \<and> transferred disc (CommandLists p + 32) lba n pa s s'
           else fails hw (PortNumber p) 1 issued s' \<and> (\<exists>d. s' = s\<lparr>Drive := d\<rparr>)))"

definition conforming_drive :: "'d hba \<Rightarrow> ('d \<Rightarrow> bool) \<Rightarrow> cdrom_port \<Rightarrow> (nat \<Rightarrow> u8) \<Rightarrow> nat \<Rightarrow> bool" where
  "conforming_drive hw ready p disc sectors \<longleftrightarrow>
     idle_drive hw ready (PortNumber p) \<and> reads_disc hw ready p disc sectors"

section \<open>Waiting\<close>

lemma and_push_bit_1: "v AND push_bit k 1 \<noteq> 0 \<longleftrightarrow> bit v k" for v :: u32
proof
  assume "v AND push_bit k 1 \<noteq> 0"
  then obtain i where "bit (v AND push_bit k 1) i"
    by (auto simp: bit_eq_iff)
  then show "bit v k"
    by (auto simp: bit_simps)
next
  assume b: "bit v k"
  then have "k < 32"
    using bit_imp_le_length by fastforce
  then have "bit (v AND push_bit k 1) k"
    using b by (simp add: bit_simps)
  then show "v AND push_bit k 1 \<noteq> 0"
    by auto
qed

lemma status_bits:
  "v AND STS_BSY \<noteq> 0 \<longleftrightarrow> bit v 7" "v AND BusyMask \<noteq> 0 \<longleftrightarrow> bit v 7 \<or> bit v 3"
  "v AND STS_ERR \<noteq> 0 \<longleftrightarrow> bit v 0" "v AND HBA_PxIS_TFES \<noteq> 0 \<longleftrightarrow> bit v 30"
proof -
  show "v AND STS_BSY \<noteq> 0 \<longleftrightarrow> bit v 7" "v AND STS_ERR \<noteq> 0 \<longleftrightarrow> bit v 0" "v AND HBA_PxIS_TFES \<noteq> 0 \<longleftrightarrow> bit v 30"
    using and_push_bit_1 [of v 7] and_push_bit_1 [of v 0] and_push_bit_1 [of v 30]
    by (simp_all add: STS_BSY_def STS_ERR_def HBA_PxIS_TFES_def push_bit_eq_mult)
  have "BusyMask = push_bit 7 1 OR push_bit 3 1"
    by (simp add: BusyMask_def STS_BSY_def STS_DRQ_def push_bit_eq_mult)
  then have "v AND BusyMask = (v AND push_bit 7 1) OR (v AND push_bit 3 1)"
    by (rule ssubst) (rule bit.conj_disj_distrib)
  then show "v AND BusyMask \<noteq> 0 \<longleftrightarrow> bit v 7 \<or> bit v 3"
    using and_push_bit_1 [of v 7] and_push_bit_1 [of v 3] by (simp add: or_eq_0_iff)
qed

lemma steadyE:
  assumes "steady hw ready r accept" and "ready (Drive s)"
  obtains v d where "ReadRegister hw r s = (v, s\<lparr>Drive := d\<rparr>)" and "accept v" and "ready d"
  using assms by (auto simp: steady_def)

lemma steady_at:
  assumes "steady hw ready r accept" and "ready d"
  shows "\<exists>v d'. ReadRegister hw r (s\<lparr>Drive := d\<rparr>) = (v, s\<lparr>Drive := d'\<rparr>) \<and> accept v \<and> ready d'"
  using assms(1) [unfolded steady_def, rule_format, of "s\<lparr>Drive := d\<rparr>"] assms(2) by auto

lemma idle_driveD:
  assumes "idle_drive hw ready n"
  shows "steady hw ready (PortAt n SATAStatus) (\<lambda>v. \<not> bit v 7)"
    and "steady hw ready (PortAt n Signature) (\<lambda>v. v = 0xEB140101)"
    and "steady hw ready (PortAt n InterruptStatus) (\<lambda>v. True)"
    and "steady hw ready (PortAt n CommandIssue) (\<lambda>v. True)"
    and "steady hw ready (PortAt n TaskFileData) (\<lambda>v. \<not> bit v 0 \<and> drop_bit 8 v AND 0xFF = 0)"
    and "steady hw ready (PortAt n SATAError) (\<lambda>v. v = 0)"
  using assms by (simp_all add: idle_drive_def)

lemma idle_write:
  assumes "idle_drive hw ready n" and "ready d"
  shows "\<exists>d'. WriteRegister hw (PortAt n InterruptStatus) v (s\<lparr>Drive := d\<rparr>) = s\<lparr>Drive := d'\<rparr> \<and> ready d'"
proof -
  have "\<forall>v s. ready (Drive s) \<longrightarrow>
    (\<exists>d. WriteRegister hw (PortAt n InterruptStatus) v s = s\<lparr>Drive := d\<rparr> \<and> ready d)"
    using assms(1) by (simp add: idle_drive_def)
  from this [rule_format, of "s\<lparr>Drive := d\<rparr>" v] show ?thesis
    using assms(2) by auto
qed

lemma wait_ready:
  assumes "idle_drive hw ready n" and "ready (Drive s)"
  shows "\<exists>d. wait_while hw (PortAt n SATAStatus) STS_BSY s = Some (s\<lparr>Drive := d\<rparr>) \<and> ready d"
proof -
  obtain v d where "ReadRegister hw (PortAt n SATAStatus) s = (v, s\<lparr>Drive := d\<rparr>)" "\<not> bit v 7" "ready d"
    using steadyE [OF idle_driveD(1) [OF assms(1)] assms(2)] by blast
  then show ?thesis
    using status_bits(1) [of v] by (subst wait_while.simps) auto
qed

lemma command_loop_completes:
  assumes "completes hw n slot s s'"
  shows "command_loop hw n slot HBA_PxIS_TFES s = Some (True, s')"
  using assms
proof (induction rule: completes.induct)
  case (completes_done s ci s1 status s2)
  then show ?case
    using and_push_bit_1 [of ci slot] status_bits(2) [of status]
    by (subst command_loop.simps) (simp add: command_pending_def)
next
  case (completes_busy s ci s1 status s2 s')
  then show ?case
    using and_push_bit_1 [of ci slot] status_bits(4) [of status]
    by (subst command_loop.simps) (simp add: command_pending_def)
qed

lemma command_loop_fails:
  assumes "fails hw n slot s s'"
  shows "command_loop hw n slot HBA_PxIS_TFES s = Some (False, s')"
  using assms
proof (induction rule: fails.induct)
  case (fails_now s ci s1 status s2)
  then show ?case
    using and_push_bit_1 [of ci slot] status_bits(4) [of status]
    by (subst command_loop.simps) (simp add: command_pending_def)
next
  case (fails_later s ci s1 status s2 s')
  then show ?case
    using and_push_bit_1 [of ci slot] status_bits(4) [of status]
    by (subst command_loop.simps) (simp add: command_pending_def)
qed

section \<open>A read command\<close>

lemma start_command_ready:
  assumes "idle_drive hw ready n" and "ready (Drive s)"
  shows "\<exists>d v. StartCommand hw n slot s
      = WriteRegister hw (PortAt n CommandIssue) (v OR push_bit slot 1) (s\<lparr>Drive := d\<rparr>) \<and> ready d"
proof -
  obtain v d where r: "ReadRegister hw (PortAt n InterruptStatus) s = (v, s\<lparr>Drive := d\<rparr>)" "ready d"
    using steadyE [OF idle_driveD(3) [OF assms(1)] assms(2)] by blast
  obtain d' where w: "WriteRegister hw (PortAt n InterruptStatus) v (s\<lparr>Drive := d\<rparr>) = s\<lparr>Drive := d'\<rparr>" "ready d'"
    using idle_write [OF assms(1) r(2)] by blast
  obtain v' d'' where "ReadRegister hw (PortAt n CommandIssue) (s\<lparr>Drive := d'\<rparr>) = (v', s\<lparr>Drive := d''\<rparr>)" "ready d''"
    using steady_at [OF idle_driveD(4) [OF assms(1)] w(2)] by blast
  then show ?thesis
    using r w by (auto simp: StartCommand_def modify_register_def)
qed

lemma no_errors:
  assumes "idle_drive hw ready n" and "ready (Drive s)"
  shows "\<exists>d. task_failed hw n s = (False, s\<lparr>Drive := d\<rparr>) \<and> ready d"
    and "\<exists>d. sata_error hw n s = Inr (s\<lparr>Drive := d\<rparr>) \<and> ready d"
proof -
  obtain v d where r: "ReadRegister hw (PortAt n TaskFileData) s = (v, s\<lparr>Drive := d\<rparr>)" "drop_bit 8 v AND 0xFF = 0" "ready d"
    using steadyE [OF idle_driveD(5) [OF assms(1)] assms(2)] by blast
  obtain v' d' where "ReadRegister hw (PortAt n TaskFileData) (s\<lparr>Drive := d\<rparr>) = (v', s\<lparr>Drive := d'\<rparr>)" "\<not> bit v' 0" "ready d'"
    using steady_at [OF idle_driveD(5) [OF assms(1)] r(3)] by blast
  then show "\<exists>d. task_failed hw n s = (False, s\<lparr>Drive := d\<rparr>) \<and> ready d"
    using r status_bits(3) [of v'] by (auto simp: task_failed_def)
  obtain v d where "ReadRegister hw (PortAt n SATAError) s = (v, s\<lparr>Drive := d\<rparr>)" "v = 0" "ready d"
    using steadyE [OF idle_driveD(6) [OF assms(1)] assms(2)] by blast
  then show "\<exists>d. sata_error hw n s = Inr (s\<lparr>Drive := d\<rparr>) \<and> ready d"
    by (auto simp: sata_error_def)
qed

text \<open>A port that was set up, and a buffer in physically contiguous memory.\<close>

definition port_ready :: "cdrom_port \<Rightarrow> bool" where
  "port_ready p \<longleftrightarrow> length (CommandTables p) = 32 \<and> CommandTables p ! 1 \<noteq> 0 \<and> CommandLists p \<noteq> 0"

definition contiguous :: "host \<Rightarrow> u64 \<Rightarrow> u64 \<Rightarrow> nat \<Rightarrow> bool" where
  "contiguous h va pa n \<longleftrightarrow> (\<forall>j < n. GetPhysicalAddress (va + of_nat j) True (Tables h) = Inr (pa + of_nat j)
     \<and> pa + of_nat j \<noteq> INVALID_ADDRESS)"

text \<open>What a read leaves behind, apart from the drive and the structures of the command.\<close>

definition read_effect :: "(nat \<Rightarrow> u8) \<Rightarrow> nat \<Rightarrow> nat \<Rightarrow> u64 \<Rightarrow> 'd disk \<Rightarrow> 'd disk \<Rightarrow> bool" where
  "read_effect disc lba n pa s s' \<longleftrightarrow>
     Host s' = (Host s)\<lparr>Physical := (\<lambda>a. if unat (a - pa) < 2048 * n then disc (2048 * lba + unat (a - pa))
       else Physical (Host s) a)\<rparr>
     \<and> GTempCDRomBuffer s' = GTempCDRomBuffer s \<and> GTempCDRomBufferSize s' = GTempCDRomBufferSize s
     \<and> CdromPorts s' = CdromPorts s \<and> CdPort s' = CdPort s"

lemma byte_size_small:
  fixes n :: u64
  assumes "unat n < 256"
  shows "unat (ucast (n * 2048) :: u32) = 2048 * unat n"
    and "(ucast (n * 2048) :: u32) \<le> 4 * 1024 * 1024"
    and "ucast (of_nat (2048 * unat n) :: u32) = 2048 * n"
proof -
  have "unat (n * 2048) = 2048 * unat n"
    using assms by (simp add: unat_word_ariths)
  then show size: "unat (ucast (n * 2048) :: u32) = 2048 * unat n"
    using assms by (simp add: unsigned_ucast_eq take_bit_nat_eq_self)
  show "(ucast (n * 2048) :: u32) \<le> 4 * 1024 * 1024"
    using assms unfolding word_le_nat_alt size by simp
  have "unat (of_nat (2048 * unat n) :: u32) = 2048 * unat n"
    using assms by (simp only: unat_of_nat) (simp add: take_bit_nat_eq_self)
  then have "unat (ucast (of_nat (2048 * unat n) :: u32) :: u64) = 2048 * unat n"
    using assms by (simp add: unsigned_ucast_eq take_bit_nat_eq_self)
  moreover have "unat (2048 * n) = 2048 * unat n"
    using assms by (simp add: unat_word_ariths)
  ultimately show "ucast (of_nat (2048 * unat n) :: u32) = 2048 * n"
    by (simp only: word_unat_eq_iff)
qed

text \<open>The state in which the command is issued.\<close>

definition prepared :: "cdrom_port \<Rightarrow> u64 \<Rightarrow> u64 \<Rightarrow> u64 \<Rightarrow> 'd disk \<Rightarrow> 'd disk" where
  "prepared p lba n pa s =
     (let t = CommandTables p ! 1; h = CommandLists p + 32 in
      s\<lparr>CommandTableAt := (CommandTableAt s)(t := read_cd_table lba n pa (ucast (n * 2048)) (CommandTableAt s t)),
        Headers := (Headers s)(h := read_header True (Headers s h))\<rparr>)"

lemma set_command_prepared:
  assumes "port_ready p"
  shows "set_command p 1 (read_cd_table lba n pa (ucast (n * 2048))) (read_header True) s = Inr (prepared p lba n pa s)"
  using assms by (simp add: port_ready_def set_command_def prepared_def sizeof_HBACommandListHeader_def Let_def)

text \<open>What the drive does with the command decides what the function returns.\<close>

lemma ReadSectorsCD_issues:
  assumes drive: "conforming_drive hw ready p disc sectors" "ready (Drive s)" and port: "port_ready p"
    and range: "unat lba < 2 ^ 32" "0 < unat n" "unat n < 256"
    and buffer: "GetPhysicalAddress buffer True (Tables (Host s)) = Inr pa"
  shows "\<exists>d s'. let s1 = (prepared p lba n pa s)\<lparr>Drive := d\<rparr> in
    if unat lba + unat n \<le> sectors
    then ready (Drive s') \<and> transferred disc (CommandLists p + 32) (unat lba) (unat n) pa s1 s'
      \<and> (\<exists>d'. ReadSectorsCD hw p lba n buffer s
          = Some (Inr (ucast (PRDByteCount (slot_header p 1 s')), s'\<lparr>Drive := d'\<rparr>)) \<and> ready d')
    else (\<exists>d'. ReadSectorsCD hw p lba n buffer s = Some (Inr (0, s1\<lparr>Drive := d'\<rparr>)))"
proof -
  have idle: "idle_drive hw ready (PortNumber p)" and disc: "reads_disc hw ready p disc sectors"
    using drive(1) by (simp_all add: conforming_drive_def)
  obtain d1 where d1: "wait_while hw (PortAt (PortNumber p) SATAStatus) STS_BSY s = Some (s\<lparr>Drive := d1\<rparr>)" "ready d1"
    using wait_ready [OF idle drive(2)] by blast
  let ?s2 = "prepared p lba n pa (s\<lparr>Drive := d1\<rparr>)"
  have "ready (Drive ?s2)"
    using d1(2) by (simp add: prepared_def Let_def)
  then obtain d2 v where start: "StartCommand hw (PortNumber p) 1 ?s2
      = WriteRegister hw (PortAt (PortNumber p) CommandIssue) (v OR push_bit 1 1) (?s2\<lparr>Drive := d2\<rparr>)" "ready d2"
    using start_command_ready [OF idle] by blast
  let ?s3 = "(prepared p lba n pa s)\<lparr>Drive := d2\<rparr>"
  have s3: "?s2\<lparr>Drive := d2\<rparr> = ?s3"
    by (simp add: prepared_def Let_def)
  have "decode_read12 (slot_header p 1 ?s3) (CommandTableAt ?s3 (CommandTables p ! 1))
    = Some (unat lba, unat n, pa, 2048 * unat n)"
    using decode_prepared [OF range byte_size_small(1) [OF range(3)]]
    by (simp add: slot_header_def prepared_def sizeof_HBACommandListHeader_def Let_def)
  moreover have "bit (v OR push_bit 1 1) 1" "ready (Drive ?s3)"
    using start(2) by (simp_all add: bit_simps)
  ultimately have "\<exists>s'. let issued = WriteRegister hw (PortAt (PortNumber p) CommandIssue) (v OR push_bit 1 1) ?s3 in
       if unat lba + unat n \<le> sectors
       then completes hw (PortNumber p) 1 issued s' \<and> ready (Drive s')
         \<and> transferred disc (CommandLists p + 32) (unat lba) (unat n) pa ?s3 s'
       else fails hw (PortNumber p) 1 issued s' \<and> (\<exists>d. s' = ?s3\<lparr>Drive := d\<rparr>)"
    using disc unfolding reads_disc_def by blast
  then obtain s' where s': "let issued = StartCommand hw (PortNumber p) 1 ?s2 in
       if unat lba + unat n \<le> sectors
       then completes hw (PortNumber p) 1 issued s' \<and> ready (Drive s')
         \<and> transferred disc (CommandLists p + 32) (unat lba) (unat n) pa ?s3 s'
       else fails hw (PortNumber p) 1 issued s' \<and> (\<exists>d. s' = ?s3\<lparr>Drive := d\<rparr>)"
    unfolding start(1) s3 by blast
  have "n < 256"
    using range(3) by (simp add: word_less_nat_alt)
  note run = ReadSectorsCD_def d1(1) disk_physical_def buffer set_command_prepared [OF port] byte_size_small(2) [OF range(3), simplified] \<open>n < 256\<close>
  show ?thesis
  proof (cases "unat lba + unat n \<le> sectors")
    case True
    then have c: "completes hw (PortNumber p) 1 (StartCommand hw (PortNumber p) 1 ?s2) s'" "ready (Drive s')"
      "transferred disc (CommandLists p + 32) (unat lba) (unat n) pa ?s3 s'"
      using s' by (simp_all add: Let_def)
    obtain d3 where d3: "task_failed hw (PortNumber p) s' = (False, s'\<lparr>Drive := d3\<rparr>)" "ready d3"
      using no_errors(1) [OF idle c(2)] by blast
    obtain d4 where d4: "sata_error hw (PortNumber p) (s'\<lparr>Drive := d3\<rparr>) = Inr (s'\<lparr>Drive := d4\<rparr>)" "ready d4"
      using no_errors(2) [OF idle, of "s'\<lparr>Drive := d3\<rparr>"] d3(2) by auto
    have "ReadSectorsCD hw p lba n buffer s
      = Some (Inr (ucast (PRDByteCount (slot_header p 1 s')), s'\<lparr>Drive := d4\<rparr>))"
      using command_loop_completes [OF c(1)] d3(1) d4(1) by (simp add: run slot_header_def Let_def del: One_nat_def)
    then show ?thesis
      using True c(2,3) d4(2) by (auto simp: Let_def)
  next
    case False
    then obtain d3 where f: "fails hw (PortNumber p) 1 (StartCommand hw (PortNumber p) 1 ?s2) (?s3\<lparr>Drive := d3\<rparr>)"
      using s' by (auto simp: Let_def)
    have "ReadSectorsCD hw p lba n buffer s = Some (Inr (0, ?s3\<lparr>Drive := d3\<rparr>))"
      using command_loop_fails [OF f] by (simp add: run Let_def del: One_nat_def)
    then show ?thesis
      using False by (auto simp: Let_def)
  qed
qed

lemma ReadSectorsCD_on_disc:
  assumes "conforming_drive hw ready p disc sectors" "ready (Drive s)" and "port_ready p"
    and "unat lba < 2 ^ 32" "0 < unat n" "unat n < 256"
    and "GetPhysicalAddress buffer True (Tables (Host s)) = Inr pa"
    and "unat lba + unat n \<le> sectors"
  shows "\<exists>s'. ReadSectorsCD hw p lba n buffer s = Some (Inr (2048 * n, s'))
    \<and> read_effect disc (unat lba) (unat n) pa s s' \<and> ready (Drive s')"
proof -
  obtain d s' d' where r: "transferred disc (CommandLists p + 32) (unat lba) (unat n) pa ((prepared p lba n pa s)\<lparr>Drive := d\<rparr>) s'"
    "ReadSectorsCD hw p lba n buffer s = Some (Inr (ucast (PRDByteCount (slot_header p 1 s')), s'\<lparr>Drive := d'\<rparr>))" "ready d'"
    using ReadSectorsCD_issues [OF assms(1-7)] assms(8) by (auto simp: Let_def)
  have "PRDByteCount (slot_header p 1 s') = of_nat (2048 * unat n)"
    using r(1) by (auto simp: transferred_def slot_header_def sizeof_HBACommandListHeader_def)
  moreover have "read_effect disc (unat lba) (unat n) pa s (s'\<lparr>Drive := d'\<rparr>)"
    using r(1) by (auto simp: transferred_def read_effect_def prepared_def Let_def cong: if_cong)
  ultimately show ?thesis
    using r(2,3) byte_size_small(3) [OF assms(6)] by auto
qed

section \<open>The volume\<close>

lemma start_sector_unat: "unat (start_sector offset) = unat offset div 2048"
proof -
  have m: "sectorSize - 1 = mask 11"
    by (simp add: sectorSize_def mask_eq_exp_minus_1)
  have "unat (offset AND NOT (mask 11)) = unat offset div 2048 * 2048"
    using word_and_not_mask [of offset 11] by simp
  then show ?thesis
    unfolding start_sector_def m by (simp only: unat_div) (simp add: sectorSize_def)
qed

lemma sector_bound_unat:
  assumes "unat offset + unat n + 2048 \<le> 2 ^ 64"
  shows "unat (sector_bound offset n) = 1 + ((unat offset + unat n + 2047) div 2048 - unat offset div 2048)"
proof -
  have sum: "unat (offset + n) = unat offset + unat n"
    using assms by (subst unat_add_no_wrap) simp_all
  have "unat (AlignSize (offset + n) (2 ^ 11)) = round_up (unat (offset + n)) (2 ^ 11)"
    using assms sum by (intro AlignSize_unat) simp_all
  then have "unat (AlignSize (offset + n) sectorSize div sectorSize) = (unat offset + unat n + 2047) div 2048"
    unfolding unat_div by (simp add: sectorSize_def round_up_def sum)
  moreover have "unat offset div 2048 \<le> (unat offset + unat n + 2047) div 2048"
    by (intro div_le_mono) simp
  ultimately have d: "unat (AlignSize (offset + n) sectorSize div sectorSize - start_sector offset)
    = (unat offset + unat n + 2047) div 2048 - unat offset div 2048"
    using start_sector_unat [of offset] by (subst unat_sub_le) (simp_all add: word_le_nat_alt)
  have "(unat offset + unat n + 2047) div 2048 < 2 ^ 64 - 1"
    using assms by simp
  then show ?thesis
    unfolding sector_bound_def using d by (subst unat_add_no_wrap) simp_all
qed

text \<open>The bytes that were asked for lie in the sectors that are read, with a sector to spare.\<close>

lemma sectors_cover:
  fixes offset n :: nat
  assumes "c = 1 + ((offset + n + 2047) div 2048 - offset div 2048)"
  shows "offset mod 2048 + n + 2048 \<le> 2048 * c"
proof -
  define q r l where "q = offset div 2048" and "r = offset mod 2048" and "l = (offset + n + 2047) div 2048"
  have "2048 * q + r = offset"
    unfolding q_def r_def by (rule mult_div_mod_eq)
  moreover have "2048 * l + (offset + n + 2047) mod 2048 = offset + n + 2047"
    unfolding l_def by (rule mult_div_mod_eq)
  moreover have "(offset + n + 2047) mod 2048 < 2048"
    by simp
  moreover have "q \<le> l"
    unfolding q_def l_def by (intro div_le_mono) simp
  then have "2048 * c + 2048 * q = 2048 + 2048 * l"
    using assms unfolding q_def [symmetric] l_def [symmetric] by simp
  ultimately show ?thesis
    unfolding r_def [symmetric] by linarith
qed

lemma sector_offset: "offset - start_sector offset * sectorSize = of_nat (unat offset mod 2048)"
proof -
  have "offset = of_nat (2048 * unat (start_sector offset) + unat offset mod 2048)"
    unfolding start_sector_unat by simp
  also have "\<dots> = 2048 * start_sector offset + of_nat (unat offset mod 2048)"
    by (simp only: of_nat_add of_nat_mult) simp
  finally have "offset = of_nat (unat offset mod 2048) + start_sector offset * 2048"
    by (simp only: mult.commute add.commute)
  then show ?thesis
    unfolding sectorSize_def diff_eq_eq .
qed

lemma ReadSectors_atapi:
  assumes "idle_drive hw ready (PortNumber p)" and "ready (Drive s)" and "port_at (unat (CdPort s)) s = Inr p"
  shows "\<exists>d. CdRomDevice_ReadSectors hw lba n buffer s = ReadSectorsCD hw p lba n buffer (s\<lparr>Drive := d\<rparr>) \<and> ready d"
proof -
  obtain v d where "ReadRegister hw (PortAt (PortNumber p) Signature) s = (v, s\<lparr>Drive := d\<rparr>)" "v = 0xEB140101" "ready d"
    using steadyE [OF idle_driveD(2) [OF assms(1)] assms(2)] by blast
  then show ?thesis
    using assms(3) by (auto simp: CdRomDevice_ReadSectors_def IsATAPI_def SATA_SIG_ATAPI_def)
qed

lemma contiguous_first: "contiguous h va pa k \<Longrightarrow> 0 < k \<Longrightarrow> GetPhysicalAddress va True (Tables h) = Inr pa"
  by (auto simp: contiguous_def)

lemma contiguous_bytes:
  assumes "contiguous h va pa k" and "m + n \<le> k"
  shows "read_bytes n (va + of_nat m) h = Inr (map (\<lambda>j. Physical h (pa + of_nat (m + j))) [0 ..< n])"
proof -
  have "GetPhysicalAddress (va + of_nat m + of_nat j) True (Tables h) = Inr (pa + of_nat m + of_nat j)
    \<and> pa + of_nat m + of_nat j \<noteq> INVALID_ADDRESS" if "j < n" for j
    using assms(1) [unfolded contiguous_def, rule_format, of "m + j"] assms(2) that
    by (simp add: add.assoc)
  then have "read_bytes n (va + of_nat m) h = Inr (map (\<lambda>j. Physical h (pa + of_nat m + of_nat j)) [0 ..< n])"
    by (intro read_bytes_mapped) auto
  then show ?thesis
    by (simp add: add.assoc)
qed

text \<open>The bytes from an offset on, found again in the memory that the transfer filled.\<close>

lemma disc_bytes:
  assumes "h' = h\<lparr>Physical := (\<lambda>a. if unat (a - pa) < 2048 * count
      then disc (2048 * start + unat (a - pa)) else Physical h a)\<rparr>"
    and "m + n \<le> 2048 * count" and "count < 256" and "2048 * start + m = offset"
  shows "map (\<lambda>j. Physical h' (pa + of_nat (m + j))) [0 ..< n] = map disc [offset ..< offset + n]"
proof (rule nth_equalityI)
  fix j assume "j < length (map (\<lambda>j. Physical h' (pa + of_nat (m + j))) [0 ..< n])"
  then have j: "j < n" "m + j < 2048 * count"
    using assms(2) by simp_all
  then have "unat (of_nat (m + j) :: u64) = m + j"
    using assms(3) by (intro unat_of_nat_u64) simp
  then have u: "unat (pa + of_nat (m + j) - pa) = m + j"
    by (simp only: add_diff_cancel_left')
  have e: "2048 * start + (m + j) = offset + j"
    using assms(4) by simp
  show "map (\<lambda>j. Physical h' (pa + of_nat (m + j))) [0 ..< n] ! j = map disc [offset ..< offset + n] ! j"
    using j u by (simp add: assms(1) del: of_nat_add) (simp only: e)
qed simp

lemma CdromVolume_reads:
  assumes "conforming_drive hw ready p disc sectors" and "port_ready p"
    and "s1 = grow_buffer heap (sector_bound offset n * sectorSize) s"
    and "port_at (unat (CdPort s1)) s1 = Inr p" and "ready (Drive s1)"
    and "contiguous (Host s1) (GTempCDRomBuffer s1) pa (2048 * unat (sector_bound offset n))"
    and "unat offset < 2 ^ 43" and "unat (sector_bound offset n) < 256"
    and "unat (start_sector offset) + unat (sector_bound offset n) \<le> sectors"
    and "unat n < 2 ^ 43" and "unat n \<le> length buffer"
  shows "\<exists>s'. CdromVolume_Read hw heap offset buffer n s
      = Some (Inr (n, map disc [unat offset ..< unat offset + unat n] @ drop (unat n) buffer, s'))
    \<and> ready (Drive s')"
proof -
  let ?start = "start_sector offset" and ?count = "sector_bound offset n"
  let ?m = "unat offset mod 2048"
  have idle: "idle_drive hw ready (PortNumber p)"
    using assms(1) by (simp add: conforming_drive_def)
  have c: "unat ?count = 1 + ((unat offset + unat n + 2047) div 2048 - unat offset div 2048)"
    using assms(7,10) by (intro sector_bound_unat) simp
  note cover = sectors_cover [OF c]
  obtain d where d: "CdRomDevice_ReadSectors hw ?start ?count (GTempCDRomBuffer s1) s1
      = ReadSectorsCD hw p ?start ?count (GTempCDRomBuffer s1) (s1\<lparr>Drive := d\<rparr>)" "ready d"
    using ReadSectors_atapi [OF idle assms(5,4)] by blast
  have lba: "unat ?start < 2 ^ 32"
    using assms(7) by (simp add: start_sector_unat)
  have pa: "GetPhysicalAddress (GTempCDRomBuffer s1) True (Tables (Host (s1\<lparr>Drive := d\<rparr>))) = Inr pa"
    using contiguous_first [OF assms(6)] c by simp
  obtain s' where s': "ReadSectorsCD hw p ?start ?count (GTempCDRomBuffer s1) (s1\<lparr>Drive := d\<rparr>) = Some (Inr (2048 * ?count, s'))"
    "read_effect disc (unat ?start) (unat ?count) pa (s1\<lparr>Drive := d\<rparr>) s'" "ready (Drive s')"
    using ReadSectorsCD_on_disc [OF assms(1) _ assms(2) lba _ assms(8) pa assms(9)] d(2) c by auto
  have size: "unat (2048 * ?count) = 2048 * unat ?count"
    using assms(8) by (simp add: unat_word_ariths)
  then have ws: "(if 2048 * ?count < n then 2048 * ?count else n) = n"
    using cover by (simp add: word_less_nat_alt)
  have h: "Host s' = (Host s1)\<lparr>Physical := (\<lambda>a. if unat (a - pa) < 2048 * unat ?count
      then disc (2048 * unat ?start + unat (a - pa)) else Physical (Host s1) a)\<rparr>"
    and t: "GTempCDRomBuffer s' = GTempCDRomBuffer s1"
    using s'(2) by (simp_all add: read_effect_def cong: if_cong)
  have "contiguous (Host s') (GTempCDRomBuffer s') pa (2048 * unat ?count)"
    using assms(6) by (simp add: contiguous_def h t)
  moreover have "?m + unat n \<le> 2048 * unat ?count"
    using cover by simp
  ultimately have "read_bytes (unat n) (GTempCDRomBuffer s' + of_nat ?m) (Host s')
    = Inr (map (\<lambda>j. Physical (Host s') (pa + of_nat (?m + j))) [0 ..< unat n])"
    by (rule contiguous_bytes)
  moreover have "GTempCDRomBuffer s' + offset - ?start * sectorSize = GTempCDRomBuffer s' + of_nat ?m"
    using sector_offset [of offset] by (simp add: algebra_simps)
  moreover have "map (\<lambda>j. Physical (Host s') (pa + of_nat (?m + j))) [0 ..< unat n]
    = map disc [unat offset ..< unat offset + unat n]"
    using cover assms(8) by (intro disc_bytes [OF h]) (simp_all add: start_sector_unat)
  ultimately have "read_bytes (unat n) (GTempCDRomBuffer s' + offset - ?start * sectorSize) (Host s')
    = Inr (map disc [unat offset ..< unat offset + unat n])"
    by (simp only:)
  then show ?thesis
    using assms(11) d(1) s'(1,3) ws
    by (auto simp: CdromVolume_Read_def assms(3) [symmetric] copy_out_def Let_def)
qed

lemma CdromVolume_past_end:
  assumes "conforming_drive hw ready p disc sectors" and "port_ready p"
    and "s1 = grow_buffer heap (sector_bound offset n * sectorSize) s"
    and "port_at (unat (CdPort s1)) s1 = Inr p" and "ready (Drive s1)"
    and "contiguous (Host s1) (GTempCDRomBuffer s1) pa (2048 * unat (sector_bound offset n))"
    and "unat offset < 2 ^ 43" and "unat (sector_bound offset n) < 256" and "unat n < 2 ^ 43"
    and far: "\<not> unat (start_sector offset) + unat (sector_bound offset n) \<le> sectors"
  shows "\<exists>s'. CdromVolume_Read hw heap offset buffer n s = Some (Inr (0, buffer, s'))"
proof -
  let ?start = "start_sector offset" and ?count = "sector_bound offset n"
  have idle: "idle_drive hw ready (PortNumber p)"
    using assms(1) by (simp add: conforming_drive_def)
  have c: "unat ?count = 1 + ((unat offset + unat n + 2047) div 2048 - unat offset div 2048)"
    using assms(7,9) by (intro sector_bound_unat) simp
  obtain d where d: "CdRomDevice_ReadSectors hw ?start ?count (GTempCDRomBuffer s1) s1
      = ReadSectorsCD hw p ?start ?count (GTempCDRomBuffer s1) (s1\<lparr>Drive := d\<rparr>)" "ready d"
    using ReadSectors_atapi [OF idle assms(5,4)] by blast
  have lba: "unat ?start < 2 ^ 32"
    using assms(7) by (simp add: start_sector_unat)
  have pa: "GetPhysicalAddress (GTempCDRomBuffer s1) True (Tables (Host (s1\<lparr>Drive := d\<rparr>))) = Inr pa"
    using contiguous_first [OF assms(6)] c by simp
  obtain s' where "ReadSectorsCD hw p ?start ?count (GTempCDRomBuffer s1) (s1\<lparr>Drive := d\<rparr>) = Some (Inr (0, s'))"
    using ReadSectorsCD_issues [OF assms(1) _ assms(2) lba _ assms(8) pa] d(2) c far by (auto simp: Let_def)
  moreover have "n = 0 \<or> 0 < n"
    by (auto simp: word_gt_0)
  ultimately show ?thesis
    using d(1) by (auto simp: CdromVolume_Read_def assms(3) [symmetric] copy_out_def Let_def)
qed

lemma CdromVolume_at_end:
  assumes "conforming_drive hw ready p disc sectors" and "port_ready p"
    and "s1 = grow_buffer heap (sector_bound offset n * sectorSize) s"
    and "port_at (unat (CdPort s1)) s1 = Inr p" and "ready (Drive s1)"
    and "contiguous (Host s1) (GTempCDRomBuffer s1) pa (2048 * unat (sector_bound offset n))"
    and "unat offset < 2 ^ 43" and "unat (sector_bound offset n) < 256" and "unat n < 2 ^ 43"
    and "sectors = (unat offset + unat n + 2047) div 2048"
  shows "\<exists>s'. CdromVolume_Read hw heap offset buffer n s = Some (Inr (0, buffer, s'))"
proof (rule CdromVolume_past_end [OF assms(1-9)])
  have "unat (sector_bound offset n) = 1 + ((unat offset + unat n + 2047) div 2048 - unat offset div 2048)"
    using assms(7,9) by (intro sector_bound_unat) simp
  moreover have "unat offset div 2048 \<le> sectors"
    unfolding assms(10) by (intro div_le_mono) simp
  ultimately show "\<not> unat (start_sector offset) + unat (sector_bound offset n) \<le> sectors"
    using assms(10) by (simp add: start_sector_unat)
qed

lemma CdromVolume_too_many:
  assumes "conforming_drive hw ready p disc sectors"
    and "s1 = grow_buffer heap (sector_bound offset n * sectorSize) s"
    and "port_at (unat (CdPort s1)) s1 = Inr p" and "ready (Drive s1)"
    and "\<not> unat (sector_bound offset n) < 256"
  shows "CdromVolume_Read hw heap offset buffer n s
    = Some (Inl (AssertionFailed ''READ(12) limited to 255 sectors.''))"
proof -
  have idle: "idle_drive hw ready (PortNumber p)"
    using assms(1) by (simp add: conforming_drive_def)
  obtain d where d: "CdRomDevice_ReadSectors hw (start_sector offset) (sector_bound offset n) (GTempCDRomBuffer s1) s1
      = ReadSectorsCD hw p (start_sector offset) (sector_bound offset n) (GTempCDRomBuffer s1) (s1\<lparr>Drive := d\<rparr>)"
    using ReadSectors_atapi [OF idle assms(4,3)] by blast
  then show ?thesis
    using assms(5)
    by (simp add: CdromVolume_Read_def assms(2) [symmetric] ReadSectorsCD_def Let_def word_less_nat_alt)
qed

text \<open>
  C32: What a read from the volume does, for every offset and size below 2 to the power of 43, with a
  drive that behaves as documented and a driver buffer that is physically contiguous.  The driver asks for the
  sectors that hold the bytes and one more behind them.  If these are fewer than 256 and all on the disc, the
  bytes of the disc from the offset on are returned, all that were asked for, and the drive is
  ready again; if they are fewer than 256 but the disc ends before, as for every read that needs the
  last sector of the disc, nothing is returned and the buffer stays as it was; for 256 sectors and more the
  kernel stops.
\<close>

theorem CdromVolume_Read_correct:
  assumes "conforming_drive hw ready p disc sectors" and "port_ready p"
    and "s1 = grow_buffer heap (sector_bound offset n * sectorSize) s"
    and "port_at (unat (CdPort s1)) s1 = Inr p" and "ready (Drive s1)"
    and "contiguous (Host s1) (GTempCDRomBuffer s1) pa (2048 * unat (sector_bound offset n))"
    and "unat offset < 2 ^ 43" and "unat n < 2 ^ 43" and "unat n \<le> length buffer"
    and "asked = 1 + ((unat offset + unat n + 2047) div 2048 - unat offset div 2048)"
    and "fits \<longleftrightarrow> unat offset div 2048 + asked \<le> sectors"
  shows "\<exists>s'. CdromVolume_Read hw heap offset buffer n s =
      (if 256 \<le> asked then Some (Inl (AssertionFailed ''READ(12) limited to 255 sectors.''))
       else if fits then Some (Inr (n, map disc [unat offset ..< unat offset + unat n] @ drop (unat n) buffer, s'))
       else Some (Inr (0, buffer, s')))
    \<and> (asked < 256 \<and> fits \<longrightarrow> ready (Drive s'))"
proof -
  have asked: "unat (sector_bound offset n) = asked"
    unfolding assms(10) using assms(7,8) by (intro sector_bound_unat) simp
  have fits: "fits \<longleftrightarrow> unat (start_sector offset) + unat (sector_bound offset n) \<le> sectors"
    by (simp add: assms(11) asked start_sector_unat)
  consider (many) "256 \<le> asked" | (reads) "asked < 256" "fits" | (ends) "asked < 256" "\<not> fits" by linarith
  then show ?thesis
  proof cases
    case many
    then show ?thesis using CdromVolume_too_many [OF assms(1,3-5)] asked by simp
  next
    case reads
    then show ?thesis
      using CdromVolume_reads [OF assms(1-7) _ _ assms(8,9)] asked fits by simp
  next
    case ends
    then show ?thesis
      using CdromVolume_past_end [OF assms(1-7) _ assms(8)] asked fits by simp
  qed
qed

text \<open>
  A read whose last sector is the last one of the disc fails.  The driver asks for one
  sector more than it needs, so that a drive with exactly the sectors that hold the bytes
  rejects the command, and the read returns no bytes.
\<close>

theorem CdromVolume_Read_at_end:
  assumes "conforming_drive hw ready p disc sectors" and "port_ready p"
    and "s1 = grow_buffer heap (sector_bound offset n * sectorSize) s"
    and "port_at (unat (CdPort s1)) s1 = Inr p" and "ready (Drive s1)"
    and "contiguous (Host s1) (GTempCDRomBuffer s1) pa (2048 * unat (sector_bound offset n))"
    and "unat offset < 2 ^ 43" and "unat (sector_bound offset n) < 256" and "unat n < 2 ^ 43"
    and "sectors = (unat offset + unat n + 2047) div 2048"
  shows "\<exists>s'. CdromVolume_Read hw heap offset buffer n s = Some (Inr (0, buffer, s'))"
  by (rule CdromVolume_at_end [OF assms])

end
