(* ===== verification/CdromDemo.thy ===== *)
theory CdromDemo
  imports CdromCorrect TimeCorrect
begin

text \<open>A concrete drive, and reads from it.\<close>

section \<open>A drive\<close>

text \<open>
  The drive shows a command as issued for two more reads; a command that it rejects stays
  issued, with the error bit set.
\<close>

datatype demo_drive = Ready | Working nat | Failed

definition demo_read :: "Register \<Rightarrow> demo_drive disk \<Rightarrow> u32 \<times> demo_drive disk" where
  "demo_read r s =
     (case r of
        PortAt n SATAStatus \<Rightarrow> (0x123, s)
      | PortAt n Signature \<Rightarrow> (0xEB140101, s)
      | PortAt n TaskFileData \<Rightarrow> (0x50, s)
      | PortAt n InterruptStatus \<Rightarrow> (if Drive s = Failed then 0x40000000 else 0, s)
      | PortAt n CommandIssue \<Rightarrow>
          (case Drive s of
             Ready \<Rightarrow> (0, s)
           | Working k \<Rightarrow> (2, s\<lparr>Drive := (case k of 0 \<Rightarrow> Ready | Suc j \<Rightarrow> Working j)\<rparr>)
           | Failed \<Rightarrow> (2, s))
      | _ \<Rightarrow> (0, s))"

definition demo_transfer :: "(nat \<Rightarrow> u8) \<Rightarrow> u64 \<Rightarrow> nat \<Rightarrow> nat \<Rightarrow> u64 \<Rightarrow> 'd disk \<Rightarrow> 'd disk" where
  "demo_transfer disc header lba n pa s = s\<lparr>
     Host := (Host s)\<lparr>Physical := (\<lambda>a. if unat (a - pa) < 2048 * n then disc (2048 * lba + unat (a - pa))
       else Physical (Host s) a)\<rparr>,
     Headers := (Headers s)(header := (Headers s header)\<lparr>PRDByteCount := of_nat (2048 * n)\<rparr>)\<rparr>"

definition demo_write ::
  "cdrom_port \<Rightarrow> (nat \<Rightarrow> u8) \<Rightarrow> nat \<Rightarrow> Register \<Rightarrow> u32 \<Rightarrow> demo_drive disk \<Rightarrow> demo_drive disk" where
  "demo_write p disc sectors r v s =
     (if r = PortAt (PortNumber p) CommandIssue \<and> bit v 1 then
        (case decode_read12 (slot_header p 1 s) (CommandTableAt s (CommandTables p ! 1)) of
           None \<Rightarrow> s\<lparr>Drive := Failed\<rparr>
         | Some (lba, n, pa, bytes) \<Rightarrow>
             if lba + n \<le> sectors
             then (demo_transfer disc (CommandLists p + 32) lba n pa s)\<lparr>Drive := Working 1\<rparr>
             else s\<lparr>Drive := Failed\<rparr>)
      else s)"

definition demo_hba :: "cdrom_port \<Rightarrow> (nat \<Rightarrow> u8) \<Rightarrow> nat \<Rightarrow> demo_drive hba" where
  "demo_hba p disc sectors = \<lparr>ReadRegister = demo_read, WriteRegister = demo_write p disc sectors\<rparr>"

lemma demo_completes: "completes (demo_hba p disc sectors) n 1 (s\<lparr>Drive := Working k\<rparr>) (s\<lparr>Drive := Ready\<rparr>)"
proof (induction k)
  case 0
  have "completes (demo_hba p disc sectors) n 1 (s\<lparr>Drive := Ready\<rparr>) (s\<lparr>Drive := Ready\<rparr>)"
    by (rule completes_done [where ci = 0 and status = 0 and ?s1.0 = "s\<lparr>Drive := Ready\<rparr>"]) (simp_all add: demo_hba_def demo_read_def)
  then show ?case
    by (rule completes_busy [where ci = 2 and status = 0 and ?s1.0 = "s\<lparr>Drive := Ready\<rparr>", rotated -1])
      (simp_all add: demo_hba_def demo_read_def bit_numeral_rec)
next
  case (Suc k)
  then show ?case
    by (rule completes_busy [where ci = 2 and status = 0 and ?s1.0 = "s\<lparr>Drive := Working k\<rparr>", rotated -1])
      (simp_all add: demo_hba_def demo_read_def bit_numeral_rec)
qed

lemma demo_fails: "fails (demo_hba p disc sectors) n 1 (s\<lparr>Drive := Failed\<rparr>) (s\<lparr>Drive := Failed\<rparr>)"
  by (rule fails_now [where ci = 2 and status = "0x40000000" and ?s1.0 = "s\<lparr>Drive := Failed\<rparr>"])
    (simp_all add: demo_hba_def demo_read_def bit_numeral_rec)

lemma demo_conforming: "conforming_drive (demo_hba p disc sectors) (\<lambda>d. d = Ready) p disc sectors"
  unfolding conforming_drive_def
proof
  show "idle_drive (demo_hba p disc sectors) (\<lambda>d. d = Ready) (PortNumber p)"
    by (auto simp: idle_drive_def steady_def demo_hba_def demo_read_def demo_write_def bit_numeral_rec
        intro: exI [of _ Ready])
  show "reads_disc (demo_hba p disc sectors) (\<lambda>d. d = Ready) p disc sectors"
    unfolding reads_disc_def
  proof (intro allI impI)
    fix s :: "demo_drive disk" and v :: u32 and lba n pa
    assume a: "Drive s = Ready" "bit v 1"
      "decode_read12 (slot_header p 1 s) (CommandTableAt s (CommandTables p ! 1)) = Some (lba, n, pa, 2048 * n)"
    let ?issued = "WriteRegister (demo_hba p disc sectors) (PortAt (PortNumber p) CommandIssue) v s"
    let ?t = "demo_transfer disc (CommandLists p + 32) lba n pa s"
    have w: "?issued = (if lba + n \<le> sectors then ?t\<lparr>Drive := Working 1\<rparr> else s\<lparr>Drive := Failed\<rparr>)"
      using a(2,3) by (simp add: demo_hba_def demo_write_def)
    show "\<exists>s'. let issued = ?issued in
       if lba + n \<le> sectors
       then completes (demo_hba p disc sectors) (PortNumber p) 1 issued s' \<and> Drive s' = Ready
         \<and> transferred disc (CommandLists p + 32) lba n pa s s'
       else fails (demo_hba p disc sectors) (PortNumber p) 1 issued s' \<and> (\<exists>d. s' = s\<lparr>Drive := d\<rparr>)"
    proof (cases "lba + n \<le> sectors")
      case True
      have "transferred disc (CommandLists p + 32) lba n pa s (?t\<lparr>Drive := Ready\<rparr>)"
        unfolding transferred_def demo_transfer_def by (rule exI [of _ Ready]) simp
      then show ?thesis
        using True demo_completes [of p disc sectors "PortNumber p" 1 ?t]
        by (intro exI [of _ "?t\<lparr>Drive := Ready\<rparr>"]) (simp add: w)
    next
      case False
      then show ?thesis
        using demo_fails [of p disc sectors "PortNumber p" s]
        by (intro exI [of _ "s\<lparr>Drive := Failed\<rparr>"]) (auto simp: w)
    qed
  qed
qed

section \<open>A buffer\<close>

lemma contiguous_mapped:
  assumes vr: "page_range ms va n" and pa: "unat pa + unat n < 2 ^ 64 - 1"
    and hit: "\<forall>i < unat n div 4096. \<forall>a. same_page a (page va i) \<longrightarrow>
      GetPhysicalAddress a True (Tables h) = Inr (page pa i + (a AND (PAGE_SIZE - 1)))"
  shows "contiguous h va pa (unat n)"
  unfolding contiguous_def
proof (intro allI impI conjI)
  fix j assume j: "j < unat n"
  then have u: "unat (of_nat j :: u64) = j"
    using pa by (intro unat_of_nat_u64) simp
  then have "unat (of_nat j :: u64) < unat n"
    using j by simp
  note sp = split_page [OF vr this]
  show "GetPhysicalAddress (va + of_nat j) True (Tables h) = Inr (pa + of_nat j)"
    using hit [rule_format, OF sp(1,3)] sp(4) sp(2) by (simp add: page_def add.assoc)
  have "unat (pa + of_nat j) = unat pa + j"
    using pa j u by (subst unat_add_no_wrap) simp_all
  moreover have "unat INVALID_ADDRESS = 2 ^ 64 - 1"
    by (simp add: INVALID_ADDRESS_def unsigned_minus_1_eq_mask mask_eq_exp_minus_1)
  ultimately show "pa + of_nat j \<noteq> INVALID_ADDRESS"
    using pa j by auto
qed

lemma demo_block: "\<exists>t. contiguous (demo_host\<lparr>Tables := t\<rparr>) 0x1000 0x1000 0x42000"
proof -
  have f: "FindMinimumSizeFreeBlock (PhysicalMemoryState demo_manager) 0x42000 = Inr 0x1000"
    "FindMinimumSizeFreeBlock (VirtualMemoryState demo_manager) 0x42000 = Inr 0x1000"
    by (simp_all add: demo_manager_fields FindMinimumSizeFreeBlock_def demo_used_def demo_tracker_ok PAGE_MASK_def)
  have ok: "manager_ok demo_manager (Suc 9) 2048"
    using demo_manager_ok(1) by simp
  have n: "3 * (unat (0x42000 :: u64) div 4096) \<le> 2048" "unat (0x42000 :: u64) mod 4096 = 0"
    by simp_all
  obtain t where "page_range (VirtualMemoryState demo_manager) 0x1000 0x42000"
    "\<forall>i < unat (0x42000 :: u64) div 4096. \<forall>a. same_page a (page 0x1000 i) \<longrightarrow>
       GetPhysicalAddress a True t = Inr (page 0x1000 i + (a AND (PAGE_SIZE - 1)))"
    using VirtualAlloc_core [OF ok n(1) demo_manager_ok(2) f(1) _ f(2) _ n(2), of 1 demo_rpmalloc Kernel PageFlags_None]
    by auto
  then show ?thesis
    using contiguous_mapped [of "VirtualMemoryState demo_manager" "0x1000" "0x42000" "0x1000" "demo_host\<lparr>Tables := t\<rparr>"]
    by (intro exI [of _ t]) simp
qed

lemma demo_buffer: "\<exists>t. contiguous (demo_host\<lparr>Tables := t\<rparr>) 0x1000 0x1000 0x1000"
proof -
  obtain t where "contiguous (demo_host\<lparr>Tables := t\<rparr>) 0x1000 0x1000 0x42000"
    using demo_block by blast
  then have "contiguous (demo_host\<lparr>Tables := t\<rparr>) 0x1000 0x1000 0x1000"
    by (simp add: contiguous_def)
  then show ?thesis ..
qed

definition demo_port :: cdrom_port where
  "demo_port = \<lparr>PortNumber = 2, IsEnabled = True, CommandLists = 0x8800, CommandTableAlloc = 0x10000,
     FIS = 0x10000, CommandTables = map (\<lambda>i. 0x10100 + 8320 * of_nat i) [0 ..< 32]\<rparr>"

definition demo_disk :: "paging \<Rightarrow> demo_drive disk" where
  "demo_disk t = \<lparr>Drive = Ready, Host = demo_host\<lparr>Tables := t\<rparr>, Clock = demo_timer,
     Headers = (\<lambda>a. \<lparr>CommandFISLength = 0, Atapi = False, WriteCommand = False, PRDTLength = 0,
       PRDByteCount = 0, CommandTableBaseLow = 0, CommandTableBaseHigh = 0\<rparr>),
     CommandTableAt = (\<lambda>a. zero_table), PciId = demo_pci, HbaMemory = 0x9000, CommandList = 0x8000,
     CdromPorts = replicate 2 empty_port @ [demo_port], CdPort = 2, VolumeId = 0,
     GTempCDRomBufferSize = 0, GTempCDRomBuffer = 0\<rparr>"

definition demo_heap :: "demo_drive heap" where
  "demo_heap = \<lparr>heap_alloc = (\<lambda>n s. (0x1000, s)), heap_free = (\<lambda>a s. s)\<rparr>"

lemma demo_sectors: "sector_bound 5 16 = 2" "start_sector 5 = 0"
  by (simp_all add: sector_bound_def start_sector_def sectorSize_def AlignSize_def)

lemma demo_grown:
  "grow_buffer demo_heap (2 * sectorSize) (demo_disk t)
    = (demo_disk t)\<lparr>GTempCDRomBufferSize := 0x1000, GTempCDRomBuffer := 0x1000\<rparr>"
  by (simp add: grow_buffer_def demo_sectors demo_heap_def demo_disk_def sectorSize_def)

lemma demo_port_ready: "port_ready demo_port"
  by (simp add: port_ready_def demo_port_def)

lemma CdromVolume_Read_correct_witness:
  "(\<exists>s s'. CdromVolume_Read (demo_hba demo_port (\<lambda>i. of_nat i) 2) demo_heap 5 (replicate 20 0) 16 s
      = Some (Inr (16, map of_nat [5 ..< 21] @ replicate 4 0, s')))
    \<and> (\<exists>s s'. CdromVolume_Read (demo_hba demo_port (\<lambda>i. of_nat i) 1) demo_heap 5 (replicate 20 0) 16 s
      = Some (Inr (0, replicate 20 0, s')))"
proof -
  obtain t where t: "contiguous (demo_host\<lparr>Tables := t\<rparr>) 0x1000 0x1000 0x1000"
    using demo_buffer by blast
  let ?s = "grow_buffer demo_heap (sector_bound 5 16 * sectorSize) (demo_disk t)"
  have s: "port_at (unat (CdPort ?s)) ?s = Inr demo_port" "Drive ?s = Ready"
    "contiguous (Host ?s) (GTempCDRomBuffer ?s) 0x1000 (2048 * unat (sector_bound 5 16))"
    using t unfolding demo_sectors demo_grown by (simp_all add: port_at_def) (simp_all add: demo_disk_def nth_append)
  have asked: "2 = 1 + ((unat (5 :: u64) + unat (16 :: u64) + 2047) div 2048 - unat (5 :: u64) div 2048)"
    by simp
  have "\<exists>s'. CdromVolume_Read (demo_hba demo_port (\<lambda>i. of_nat i) 2) demo_heap 5 (replicate 20 0) 16 (demo_disk t)
      = Some (Inr (16, map of_nat [unat (5 :: u64) ..< unat (5 :: u64) + unat (16 :: u64)]
          @ drop (unat (16 :: u64)) (replicate 20 0), s'))"
    using CdromVolume_Read_correct [OF demo_conforming [where disc = "\<lambda>i. of_nat i" and sectors = 2] demo_port_ready refl s,
        where buffer = "replicate 20 0" and fits = True, OF _ _ _ asked]
    by (simp del: upt_rec_numeral) blast
  moreover have "\<exists>s'. CdromVolume_Read (demo_hba demo_port (\<lambda>i. of_nat i) 1) demo_heap 5 (replicate 20 0) 16 (demo_disk t)
      = Some (Inr (0, replicate 20 0, s'))"
    using CdromVolume_Read_correct [OF demo_conforming [where disc = "\<lambda>i. of_nat i" and sectors = 1] demo_port_ready refl s,
        where buffer = "replicate 20 0" and fits = False, OF _ _ _ asked]
    by (simp del: upt_rec_numeral)
  moreover have "map of_nat [unat (5 :: u64) ..< unat (5 :: u64) + unat (16 :: u64)]
      @ drop (unat (16 :: u64)) (replicate 20 (0 :: u8)) = map of_nat [5 ..< 21] @ replicate 4 0"
    by simp
  ultimately show ?thesis
    by (metis (no_types))
qed

lemma CdromVolume_Read_at_end_witness:
  "\<exists>s s'. CdromVolume_Read (demo_hba demo_port (\<lambda>i. of_nat i) 1) demo_heap 5 (replicate 20 0) 16 s
    = Some (Inr (0, replicate 20 0, s'))"
proof -
  obtain t where t: "contiguous (demo_host\<lparr>Tables := t\<rparr>) 0x1000 0x1000 0x1000"
    using demo_buffer by blast
  let ?s = "grow_buffer demo_heap (sector_bound 5 16 * sectorSize) (demo_disk t)"
  have "port_at (unat (CdPort ?s)) ?s = Inr demo_port" "Drive ?s = Ready"
    "contiguous (Host ?s) (GTempCDRomBuffer ?s) 0x1000 (2048 * unat (sector_bound 5 16))"
    using t unfolding demo_sectors demo_grown by (simp_all add: port_at_def) (simp_all add: demo_disk_def nth_append)
  from CdromVolume_Read_at_end [OF demo_conforming [where disc = "\<lambda>i. of_nat i" and sectors = 1] demo_port_ready refl this(1) this(2) this(3), where buffer = "replicate 20 0"]
  show ?thesis
    by (auto simp: demo_sectors)
qed

lemma setup_commands_layout_witness:
  "\<exists>s p' s'. setup_commands MaxCommands 0 (0x1000 + FISSize) empty_port (s :: demo_drive disk) = Inr (p', s')
    \<and> disk_physical (CommandTables p' ! 31) s = Inr (header_base (slot_header p' 31 s'))"
proof -
  obtain t where t: "contiguous (demo_host\<lparr>Tables := t\<rparr>) 0x1000 0x1000 0x42000"
    using demo_block by blast
  have "disk_physical (slot_table 0x1000 i) (demo_disk t) = Inr (0x1000 + of_nat (256 + 8320 * i))" if "i < 32" for i
    using t [unfolded contiguous_def, rule_format, of "256 + 8320 * i"] that
    by (simp add: disk_physical_def demo_disk_def slot_table_def sizes add.assoc)
  moreover have "length (CommandTables empty_port) = MaxCommands"
    by (simp add: empty_port_def)
  ultimately obtain p' s' where "setup_commands MaxCommands 0 (0x1000 + FISSize) empty_port (demo_disk t) = Inr (p', s')"
    "disk_physical (CommandTables p' ! 31) (demo_disk t) = Inr (header_base (slot_header p' 31 s'))"
    using setup_commands_layout [of "0x1000" empty_port "demo_disk t"]
    by (auto simp: MaxCommands_def sizes(3) Let_def)
  then show ?thesis
    by blast
qed

end
