(* ===== verification/FatCorrect.thy ===== *)
theory FatCorrect
  imports FatDisk CdromDemo VolumesCorrect
begin

text \<open>
  From the sectors of the file system down to the disc: \<^verbatim>\<open>disk_read\<close> through the table of volumes
  and the CD-ROM driver; and a file system of one file for the positional reads.
\<close>

section \<open>Sectors of the disc\<close>

definition sector_offset :: "u32 \<Rightarrow> u64" where
  "sector_offset sector = GCDPartitionStartSector * 2048 + ucast (sector * 512)"

lemma sector_offset_unat:
  assumes "unat sector < 2 ^ 23"
  shows "unat (sector_offset sector) = 67584 + 512 * unat sector"
proof -
  have "unat (sector * 512) = 512 * unat sector"
    using assms by (simp add: unat_word_ariths)
  then have "unat (ucast (sector * 512) :: u64) = 512 * unat sector"
    using assms by (simp add: unsigned_ucast_eq take_bit_nat_eq_self)
  then show ?thesis
    using assms unfolding sector_offset_def GCDPartitionStartSector_def
    by (subst unat_add_no_wrap) simp_all
qed

lemma sector_bytes_unat:
  assumes "unat count < 2 ^ 23"
  shows "unat (ucast (count * 512 :: u32) :: u64) = 512 * unat count"
proof -
  have "unat (count * 512) = 512 * unat count"
    using assms by (simp add: unat_word_ariths)
  then show ?thesis
    using assms by (simp add: unsigned_ucast_eq take_bit_nat_eq_self)
qed

lemma disk_read_cdrom:
  assumes "array_get drives (unat pdrv) = Inr drive"
    and "GetVolumeIndex vols drive = Inr \<lparr>RootHash = hash, VolumeImplementation = Some (CdromVolume hw heap), Context = ctx\<rparr>"
    and "CdromVolume_Read hw heap (sector_offset sector) buffer (ucast (count * 512)) s = Some (Inr (n, buffer', s'))"
  shows "disk_read vols drives pdrv buffer sector count s = Inr (RES_OK, buffer', s')"
  using assms by (simp add: disk_read_def VolumeRead_def call_def CdromVolume_def no_wait_def sector_offset_def)

text \<open>
  C37: The file system gets the sectors of its partition: through the table of volumes and the
  driver, a read of sectors of 512 bytes returns the bytes of the disc behind the start of the
  partition, for sectors below 4 GiB and under the conditions of the driver.
\<close>

theorem disk_read_returns_sectors:
  assumes "array_get drives (unat pdrv) = Inr drive"
    and "GetVolumeIndex vols drive = Inr \<lparr>RootHash = hash, VolumeImplementation = Some (CdromVolume hw heap), Context = ctx\<rparr>"
    and "offset = sector_offset sector" and "n = ucast (count * 512)"
    and "conforming_drive hw ready p disc sectors" and "port_ready p"
    and "s1 = grow_buffer heap (sector_bound offset n * sectorSize) s"
    and "port_at (unat (CdPort s1)) s1 = Inr p" and "ready (Drive s1)"
    and "contiguous (Host s1) (GTempCDRomBuffer s1) pa (2048 * unat (sector_bound offset n))"
    and "unat sector < 2 ^ 23" and "unat count < 2 ^ 23" and "unat (sector_bound offset n) < 256"
    and "unat (start_sector offset) + unat (sector_bound offset n) \<le> sectors"
    and "512 * unat count \<le> length buffer"
  shows "\<exists>s'. disk_read vols drives pdrv buffer sector count s
      = Inr (RES_OK, map disc [67584 + 512 * unat sector ..< 67584 + 512 * (unat sector + unat count)]
          @ drop (512 * unat count) buffer, s')
    \<and> ready (Drive s')"
proof -
  have o: "unat offset = 67584 + 512 * unat sector" and n: "unat n = 512 * unat count"
    using sector_offset_unat [OF assms(11)] sector_bytes_unat [OF assms(12)] by (simp_all add: assms(3,4))
  then have "unat offset < 2 ^ 43" "unat n < 2 ^ 43" "unat n \<le> length buffer"
    using assms(11,12,15) by simp_all
  from CdromVolume_reads [OF assms(5-10) this(1) assms(13,14) this(2,3)] obtain s' where
    "CdromVolume_Read hw heap offset buffer n s
      = Some (Inr (n, map disc [unat offset ..< unat offset + unat n] @ drop (unat n) buffer, s'))" "ready (Drive s')"
    by blast
  then show ?thesis
    using disk_read_cdrom [OF assms(1,2), where sector = sector and count = count and s = s]
    by (simp add: o n assms(3,4) [symmetric] distrib_left add.assoc)
qed

text \<open>
  C38: A read that fails is reported as a success: for sectors in the last sector of the disc,
  which the driver cannot read, \<^verbatim>\<open>disk_read\<close> answers \<^verbatim>\<open>RES_OK\<close> and leaves the buffer as it was.
\<close>

theorem disk_read_hides_failure:
  assumes "array_get drives (unat pdrv) = Inr drive"
    and "GetVolumeIndex vols drive = Inr \<lparr>RootHash = hash, VolumeImplementation = Some (CdromVolume hw heap), Context = ctx\<rparr>"
    and "offset = sector_offset sector" and "n = ucast (count * 512)"
    and "conforming_drive hw ready p disc sectors" and "port_ready p"
    and "s1 = grow_buffer heap (sector_bound offset n * sectorSize) s"
    and "port_at (unat (CdPort s1)) s1 = Inr p" and "ready (Drive s1)"
    and "contiguous (Host s1) (GTempCDRomBuffer s1) pa (2048 * unat (sector_bound offset n))"
    and "unat sector < 2 ^ 23" and "unat count < 2 ^ 23" and "unat (sector_bound offset n) < 256"
    and "sectors = (67584 + 512 * (unat sector + unat count) + 2047) div 2048"
  shows "\<exists>s'. disk_read vols drives pdrv buffer sector count s = Inr (RES_OK, buffer, s')"
proof -
  have o: "unat offset = 67584 + 512 * unat sector" and n: "unat n = 512 * unat count"
    using sector_offset_unat [OF assms(11)] sector_bytes_unat [OF assms(12)] by (simp_all add: assms(3,4))
  then have "unat offset < 2 ^ 43" "unat n < 2 ^ 43" "sectors = (unat offset + unat n + 2047) div 2048"
    using assms(11,12,14) by (simp_all add: distrib_left add.assoc)
  from CdromVolume_at_end [OF assms(5-10) this(1) assms(13) this(2,3)] obtain s' where
    "CdromVolume_Read hw heap offset buffer n s = Some (Inr (0, buffer, s'))"
    by blast
  then show ?thesis
    using disk_read_cdrom [OF assms(1,2), where sector = sector and count = count and s = s]
    by (auto simp: assms(3,4))
qed

section \<open>Examples\<close>

definition demo_disc :: "nat \<Rightarrow> u8" where "demo_disc i = of_nat (i div 512)"

definition demo_volumes :: "demo_drive disk volumes \<Rightarrow> nat \<Rightarrow> bool" where
  "demo_volumes vols sectors \<longleftrightarrow> GetVolumeIndex vols 0x10000000 = Inr \<lparr>RootHash = 7,
     VolumeImplementation = Some (CdromVolume (demo_hba demo_port demo_disc sectors) demo_heap), Context = 5\<rparr>"

lemma demo_mounted: "\<exists>vols. demo_volumes vols sectors"
proof -
  let ?v = "\<lparr>RootHash = 7,
     VolumeImplementation = Some (CdromVolume (demo_hba demo_port demo_disc sectors) demo_heap), Context = 5\<rparr>"
  have "demo_volumes [[], [?v]] sectors"
    by (simp add: demo_volumes_def GetVolumeIndex_def handle_segments_def handle_volume_def get_field_def mask_eq_exp_minus_1)
  then show ?thesis ..
qed

lemma demo_start: "sector_offset 1 = 68096" "(ucast ((1 :: u32) * 512) :: u64) = 512"
  "sector_bound 68096 512 = 2" "start_sector 68096 = 33"
  by (simp_all add: sector_offset_def GCDPartitionStartSector_def sector_bound_def start_sector_def sectorSize_def AlignSize_def)

lemma demo_ready:
  assumes "contiguous (demo_host\<lparr>Tables := t\<rparr>) 0x1000 0x1000 0x1000"
  defines "s1 \<equiv> grow_buffer demo_heap (sector_bound 68096 512 * sectorSize) (demo_disk t)"
  shows "port_at (unat (CdPort s1)) s1 = Inr demo_port" and "Drive s1 = Ready"
    and "contiguous (Host s1) (GTempCDRomBuffer s1) 0x1000 (2048 * unat (sector_bound 68096 512))"
  using assms(1) unfolding s1_def demo_start demo_grown
  by (simp_all add: port_at_def) (simp_all add: demo_disk_def nth_append)

lemma disk_read_returns_sectors_witness:
  "\<exists>vols s s'. demo_volumes vols 35 \<and> disk_read vols [0x10000000] 0 (replicate 512 0) 1 1 s
    = Inr (RES_OK, replicate 512 133, s')"
proof -
  obtain t where t: "contiguous (demo_host\<lparr>Tables := t\<rparr>) 0x1000 0x1000 0x1000"
    using demo_buffer by blast
  obtain vols where v: "demo_volumes vols 35"
    using demo_mounted by blast
  note ready = demo_ready [OF t]
  obtain s' where "disk_read vols [0x10000000] 0 (replicate 512 0) 1 1 (demo_disk t)
    = Inr (RES_OK, map demo_disc [68096 ..< 68608], s')"
    using disk_read_returns_sectors [OF _ v [unfolded demo_volumes_def] demo_start(1) [symmetric] demo_start(2) [symmetric]
        demo_conforming demo_port_ready refl ready, of "[0x10000000]" 0 "replicate 512 0"]
    by (auto simp: demo_start simp del: upt_rec_numeral)
  moreover have "map demo_disc [68096 ..< 68608] = replicate 512 133"
  proof (rule nth_equalityI)
    fix i assume "i < length (map demo_disc [68096 ..< 68608])"
    then have i: "i < 512"
      by (simp del: upt_rec_numeral)
    then have "(68096 + i) div 512 = 133"
      by (intro div_nat_eqI) simp_all
    then show "map demo_disc [68096 ..< 68608] ! i = replicate 512 133 ! i"
      using i by (simp add: demo_disc_def del: upt_rec_numeral)
  qed (simp del: upt_rec_numeral)
  ultimately show ?thesis
    using v by auto
qed

lemma disk_read_hides_failure_witness:
  "\<exists>vols s s'. demo_volumes vols 34 \<and> disk_read vols [0x10000000] 0 (replicate 512 0) 1 1 s
    = Inr (RES_OK, replicate 512 0, s')"
proof -
  obtain t where t: "contiguous (demo_host\<lparr>Tables := t\<rparr>) 0x1000 0x1000 0x1000"
    using demo_buffer by blast
  obtain vols where v: "demo_volumes vols 34"
    using demo_mounted by blast
  note ready = demo_ready [OF t]
  obtain s' where "disk_read vols [0x10000000] 0 (replicate 512 0) 1 1 (demo_disk t) = Inr (RES_OK, replicate 512 0, s')"
    using disk_read_hides_failure [OF _ v [unfolded demo_volumes_def] demo_start(1) [symmetric] demo_start(2) [symmetric]
        demo_conforming demo_port_ready refl ready, of "[0x10000000]" 0 "replicate 512 0"]
    by (auto simp: demo_start)
  then show ?thesis
    using v by auto
qed

text \<open>A library with one file, the bytes 10 to 19, that is open under every entry, each with its position.\<close>

definition demo_file :: "u8 list" where "demo_file = map of_nat [10 ..< 20]"

definition demo_fatfs :: "(nat \<Rightarrow> nat) fatfs" where
  "demo_fatfs = \<lparr>f_mount = (\<lambda>i path l. l), f_open = (\<lambda>i path l. (True, l)), f_tell = (\<lambda>i l. of_nat (min (l i) 10)),
     f_size = (\<lambda>i l. 10), f_lseek = (\<lambda>i o1 l. l(i := min (unat o1) 10)),
     f_read = (\<lambda>i n l. let data = take (unat n) (drop (min (l i) 10) demo_file)
       in (True, data, l(i := min (l i) 10 + length data))),
     f_write = (\<lambda>i data l. (False, 0, l))\<rparr>"

lemma demo_fatfs_ok: "reads_files demo_fatfs (\<lambda>l i. demo_file) (\<lambda>l i. min (l i) 10)"
proof -
  have n: "length demo_file = 10"
    by (simp add: demo_file_def)
  have "\<exists>l'. f_read demo_fatfs i n l = (True, take (unat n) (drop (min (l i) 10) demo_file), l')
    \<and> (\<lambda>j. min (l' j) 10) = (\<lambda>j. min (l j) 10)(i := min (l i) 10 + length (take (unat n) (drop (min (l i) 10) demo_file)))"
    for i n l
    using n by (intro exI [of _ "l(i := min (l i) 10 + length (take (unat n) (drop (min (l i) 10) demo_file)))"])
      (auto simp: demo_fatfs_def Let_def fun_eq_iff)
  then show ?thesis
    unfolding reads_files_def using n by (auto simp: Let_def) (auto simp: demo_fatfs_def fun_eq_iff)
qed

lemma FatVolume_Read_positional_witness:
  "\<exists>s s'. FatVolume_Read demo_fatfs 0x6 3 (replicate 6 0) 4 s = Inr (4, [13, 14, 15, 16] @ replicate 2 0, s')
    \<and> min (Library s 3) 10 = 5 \<and> min (Library s' 3) 10 = 5"
proof -
  let ?s = "\<lparr>FileHandles = replicate 4 True, FatDriveVolumes = [], MountedFatDrives = 0, Library = (\<lambda>i. 5)\<rparr>"
  have "open_file 0x6 ?s = Inr 3"
    by (simp add: open_file_def handle_file_def get_field_def mask_eq_exp_minus_1)
  from FatVolume_Read_positional [OF demo_fatfs_ok this, of 4 3 3 "[13, 14, 15, 16]" "replicate 6 0"]
  obtain s' where "FatVolume_Read demo_fatfs 0x6 3 (replicate 6 0) 4 ?s = Inr (4, [13, 14, 15, 16] @ replicate 2 0, s')"
    "(\<lambda>i. min (Library s' i) 10) = (\<lambda>i. 5)"
    by (auto simp: demo_file_def upt_rec)
  then show ?thesis
    by (intro exI [of _ ?s] exI [of _ s']) (simp add: fun_eq_iff)
qed

end
