(* ===== verification/Pic.thy ===== *)
theory Pic
  imports AcpiOs
begin

text \<open>
  The interrupt controller of the old kind, \<^verbatim>\<open>src/kernel/init/pic.cpp\<close>: a pair of chips that turn
  sixteen lines into interrupt vectors.  The ports are a parameter; the theorems are about
  ports with two such chips behind them.
\<close>

section \<open>Programming the chips\<close>

definition out8 :: "'h ports \<Rightarrow> u16 \<Rightarrow> u8 \<Rightarrow> 'h \<Rightarrow> 'h" where
  "out8 io port v h = sys_out8 io v port h"

definition RemapPIC :: "'h ports \<Rightarrow> 'h \<Rightarrow> 'h" where
  "RemapPIC io h =
     (let (a1, h) = InPort io 0xA1 h;
          (a21, h) = InPort io 0x21 h;
          h = out8 io 0x20 0x11 h;
          h = out8 io 0xA0 0x11 h;
          h = out8 io 0x21 0x20 h;
          h = out8 io 0xA1 0x28 h;
          h = out8 io 0x21 0x04 h;
          h = out8 io 0xA1 0x02 h;
          h = out8 io 0x21 0x01 h;
          h = out8 io 0xA1 0x01 h;
          h = out8 io 0x21 a21 h
      in out8 io 0xA1 a1 h)"

definition SetIRQEnabled :: "'h ports \<Rightarrow> u8 \<Rightarrow> bool \<Rightarrow> 'h \<Rightarrow> fault + 'h" where
  "SetIRQEnabled io irq enabled h =
     (if irq > 15 then Inl (AssertionFailed ''Invalid IRQ'')
      else
        let (port, irq) = (if irq \<ge> 8 then (0xA1, irq - 8) else (0x21, irq));
            (mask, h) = InPort io port h;
            mask = (if enabled then mask AND NOT (push_bit (unat irq) 1) else mask OR push_bit (unat irq) 1)
        in Inr (out8 io port mask h))"

definition InitPIC :: "'h ports \<Rightarrow> 'h \<Rightarrow> fault + 'h" where
  "InitPIC io h = SetIRQEnabled io 0 True (RemapPIC io h)"

definition DisablePIC :: "'h ports \<Rightarrow> 'h \<Rightarrow> 'h" where
  "DisablePIC io h = out8 io 0xA1 0xFF (out8 io 0x21 0xFF h)"

section \<open>The chips\<close>

text \<open>
  One chip: the mask, the vector of its first line, and how many words of the initialisation
  are still to come.  The first word of it, a command with bit 4, clears the mask; the second
  one, the first that goes to the data port, is the vector; two more follow, for the connection
  of the chips and the mode.  Afterwards the data port is the mask.
\<close>

record pic =
  IrqMask :: u8
  VectorBase :: u8
  WordsLeft :: nat

definition pic_command :: "u8 \<Rightarrow> pic \<Rightarrow> pic" where
  "pic_command v c = (if bit v 4 then c\<lparr>IrqMask := 0, WordsLeft := 3\<rparr> else c)"

definition pic_data :: "u8 \<Rightarrow> pic \<Rightarrow> pic" where
  "pic_data v c =
     (if WordsLeft c = 0 then c\<lparr>IrqMask := v\<rparr>
      else if WordsLeft c = 3 then c\<lparr>VectorBase := v AND 0xF8, WordsLeft := 2\<rparr>
      else c\<lparr>WordsLeft := WordsLeft c - 1\<rparr>)"

definition pic_write :: "u16 \<Rightarrow> u8 \<Rightarrow> pic \<times> pic \<Rightarrow> pic \<times> pic" where
  "pic_write port v c =
     (if port = 0x20 then apfst (pic_command v) c
      else if port = 0x21 then apfst (pic_data v) c
      else if port = 0xA0 then apsnd (pic_command v) c
      else if port = 0xA1 then apsnd (pic_data v) c
      else c)"

definition pic_read :: "u16 \<Rightarrow> pic \<times> pic \<Rightarrow> u8" where
  "pic_read port c = IrqMask (if port = 0x21 then fst c else snd c)"

text \<open>The ports have the chips behind them: \<^verbatim>\<open>view\<close> is what the device state says of the chips.\<close>

definition drives_pics :: "'h ports \<Rightarrow> ('h \<Rightarrow> pic \<times> pic) \<Rightarrow> bool" where
  "drives_pics io view \<longleftrightarrow>
     (\<forall>h v. \<forall>port \<in> {0x20, 0x21, 0xA0, 0xA1}. view (sys_out8 io v port h) = pic_write port v (view h)) \<and>
     (\<forall>h. \<forall>port \<in> {0x21, 0xA1}. fst (InPort io port h) = pic_read port (view h) \<and> view (snd (InPort io port h)) = view h)"

definition pics_ready :: "pic \<times> pic \<Rightarrow> bool" where
  "pics_ready c \<longleftrightarrow> WordsLeft (fst c) = 0 \<and> WordsLeft (snd c) = 0"

text \<open>The vector that a line raises, if it is not masked.\<close>

definition irq_vector :: "pic \<times> pic \<Rightarrow> nat \<Rightarrow> nat option" where
  "irq_vector c irq =
     (let (chip, line) = (if irq < 8 then (fst c, irq) else (snd c, irq - 8)) in
      if irq < 16 \<and> \<not> bit (IrqMask chip) line then Some (unat (VectorBase chip) + line) else None)"

lemma pics_write:
  assumes "drives_pics io view" and "port \<in> {0x20, 0x21, 0xA0, 0xA1}"
  shows "view (out8 io port v h) = pic_write port v (view h)"
  using assms by (auto simp: drives_pics_def out8_def)

lemma pics_read:
  assumes "drives_pics io view" and "port \<in> {0x21, 0xA1}"
  shows "fst (InPort io port h) = pic_read port (view h)" and "view (snd (InPort io port h)) = view h"
  using assms by (auto simp: drives_pics_def)

section \<open>Moving the lines\<close>

lemma RemapPIC_view:
  assumes "drives_pics io view" and "pics_ready (view h)"
  shows "view (RemapPIC io h) =
    (fst (view h)\<lparr>VectorBase := 0x20\<rparr>, snd (view h)\<lparr>VectorBase := 0x28\<rparr>)"
proof -
  let ?h = "snd (InPort io 0x21 (snd (InPort io 0xA1 h)))"
  have v: "view ?h = view h" "fst (InPort io 0xA1 h) = IrqMask (snd (view h))"
    "fst (InPort io 0x21 (snd (InPort io 0xA1 h))) = IrqMask (fst (view h))"
    using pics_read [OF assms(1)] by (simp_all add: pic_read_def)
  obtain a b where c: "view h = (a, b)" by fastforce
  then have "view (RemapPIC io h) = (let c = (a, b) in
     pic_write 0xA1 (IrqMask b) (pic_write 0x21 (IrqMask a) (pic_write 0xA1 0x01 (pic_write 0x21 0x01
      (pic_write 0xA1 0x02 (pic_write 0x21 0x04 (pic_write 0xA1 0x28 (pic_write 0x21 0x20
       (pic_write 0xA0 0x11 (pic_write 0x20 0x11 c))))))))))"
    using v by (simp add: RemapPIC_def case_prod_unfold Let_def pics_write [OF assms(1)])
  moreover have "WordsLeft a = 0" "WordsLeft b = 0"
    using assms(2) c by (simp_all add: pics_ready_def)
  ultimately show ?thesis
    by (simp add: c pic_write_def pic_command_def pic_data_def bit_numeral_rec)
qed

lemma bit_switch:
  "i < 8 \<Longrightarrow> bit (if enabled then m AND NOT (push_bit k 1) else m OR push_bit k 1 :: u8) i
    \<longleftrightarrow> (if i = k then \<not> enabled else bit m i)"
  by (auto simp: bit_simps)

lemma SetIRQEnabled_line:
  assumes "drives_pics io view" and "pics_ready (view h)" and irq: "unat irq < 16"
  shows "\<exists>h'. SetIRQEnabled io irq enabled h = Inr h' \<and> pics_ready (view h')
    \<and> (\<forall>i. i \<noteq> unat irq \<longrightarrow> irq_vector (view h') i = irq_vector (view h) i)
    \<and> (irq_vector (view h') (unat irq) \<noteq> None \<longleftrightarrow> enabled)
    \<and> map_prod VectorBase VectorBase (view h') = map_prod VectorBase VectorBase (view h)"
proof -
  have no_error: "\<not> irq > 15"
    using irq by (simp add: word_less_nat_alt)
  obtain a b where c: "view h = (a, b)" by fastforce
  then have w: "WordsLeft a = 0" "WordsLeft b = 0"
    using assms(2) by (simp_all add: pics_ready_def)
  let ?h = "\<lambda>port m. out8 io port m (snd (InPort io port h))"
  show ?thesis
  proof (cases "irq \<ge> 8")
    case True
    then have n: "unat (irq - 8) = unat irq - 8" "8 \<le> unat irq"
      by (simp_all add: unat_sub word_le_nat_alt)
    define m where "m = (if enabled then IrqMask b AND NOT (push_bit (unat irq - 8) 1)
      else IrqMask b OR push_bit (unat irq - 8) 1)"
    have r: "SetIRQEnabled io irq enabled h = Inr (?h 0xA1 m)"
      using no_error True pics_read [OF assms(1), of "0xA1" h] c n
      by (simp add: SetIRQEnabled_def case_prod_unfold Let_def pic_read_def m_def)
    have "view (?h 0xA1 m) = (a, b\<lparr>IrqMask := m\<rparr>)"
      using pics_read [OF assms(1), of "0xA1" h] pics_write [OF assms(1), of "0xA1"] c w
      by (simp add: pic_write_def pic_data_def)
    then show ?thesis
      using r c w irq n bit_switch [of _ enabled "IrqMask b" "unat irq - 8"]
      by (auto simp: irq_vector_def pics_ready_def m_def [symmetric] split: if_splits)
  next
    case small: False
    then have n: "unat irq < 8"
      by (simp add: word_le_nat_alt)
    define m where "m = (if enabled then IrqMask a AND NOT (push_bit (unat irq) 1)
      else IrqMask a OR push_bit (unat irq) 1)"
    have r: "SetIRQEnabled io irq enabled h = Inr (?h 0x21 m)"
      using no_error small pics_read [OF assms(1), of "0x21" h] c
      by (simp add: SetIRQEnabled_def case_prod_unfold Let_def pic_read_def m_def)
    have "view (?h 0x21 m) = (a\<lparr>IrqMask := m\<rparr>, b)"
      using pics_read [OF assms(1), of "0x21" h] pics_write [OF assms(1), of "0x21"] c w
      by (simp add: pic_write_def pic_data_def)
    then show ?thesis
      using r c w irq n bit_switch [of _ enabled "IrqMask a" "unat irq"]
      by (auto simp: irq_vector_def pics_ready_def m_def [symmetric] split: if_splits)
  qed
qed

text \<open>
  Switching a line on or off switches this line and no other; a number above 15 is
  refused.
\<close>

theorem SetIRQEnabled_correct:
  assumes "drives_pics io view" and "pics_ready (view h)"
  shows "if unat irq < 16
    then \<exists>h'. SetIRQEnabled io irq enabled h = Inr h' \<and> pics_ready (view h')
        \<and> (\<forall>i. i \<noteq> unat irq \<longrightarrow> irq_vector (view h') i = irq_vector (view h) i)
        \<and> (irq_vector (view h') (unat irq) \<noteq> None \<longleftrightarrow> enabled)
        \<and> map_prod VectorBase VectorBase (view h') = map_prod VectorBase VectorBase (view h)
    else SetIRQEnabled io irq enabled h = Inl (AssertionFailed ''Invalid IRQ'')"
  using SetIRQEnabled_line [OF assms, of irq enabled]
  by (cases "unat irq < 16") (simp_all add: SetIRQEnabled_def word_less_nat_alt)

lemma InitPIC_steps:
  assumes "drives_pics io view" and "pics_ready (view h)"
  shows "\<exists>h'. InitPIC io h = Inr h' \<and> pics_ready (view h')
    \<and> (\<forall>i. i \<noteq> 0 \<longrightarrow> irq_vector (view h') i = irq_vector (view (RemapPIC io h)) i)
    \<and> irq_vector (view h') 0 \<noteq> None \<and> map_prod VectorBase VectorBase (view h') = (0x20, 0x28)"
proof -
  have v: "view (RemapPIC io h) = (fst (view h)\<lparr>VectorBase := 0x20\<rparr>, snd (view h)\<lparr>VectorBase := 0x28\<rparr>)"
    by (rule RemapPIC_view [OF assms])
  then have b: "map_prod VectorBase VectorBase (view (RemapPIC io h)) = (0x20, 0x28)"
    and ready: "pics_ready (view (RemapPIC io h))"
    using assms(2) by (simp_all add: pics_ready_def)
  have z: "unat (0 :: u8) = 0"
    by simp
  show ?thesis
    using SetIRQEnabled_line [OF assms(1) ready, of 0 True, unfolded z eq_True, OF zero_less_numeral]
    unfolding InitPIC_def b by blast
qed

lemma InitPIC_ready:
  assumes "drives_pics io view" and "pics_ready (view h)"
  shows "\<exists>h'. InitPIC io h = Inr h' \<and> pics_ready (view h') \<and> map_prod VectorBase VectorBase (view h') = (0x20, 0x28)"
  using InitPIC_steps [OF assms] by blast

text \<open>
  After the start the lines raise the vectors from 32 on, behind those of the processor
  itself.  The line of the timer is open, all others are as open as they were.
\<close>

theorem InitPIC_correct:
  assumes "drives_pics io view" and "pics_ready (view h)"
  shows "\<exists>h'. InitPIC io h = Inr h' \<and> pics_ready (view h')
    \<and> (\<forall>irq < 16. irq_vector (view h') irq
        = (if irq = 0 \<or> irq_vector (view h) irq \<noteq> None then Some (0x20 + irq) else None))"
proof -
  obtain a b where c: "view h = (a, b)" by fastforce
  have v: "view (RemapPIC io h) = (a\<lparr>VectorBase := 0x20\<rparr>, b\<lparr>VectorBase := 0x28\<rparr>)"
    using RemapPIC_view [OF assms] c by simp
  obtain h' where h': "InitPIC io h = Inr h'" "pics_ready (view h')"
    "\<forall>i. i \<noteq> 0 \<longrightarrow> irq_vector (view h') i = irq_vector (view (RemapPIC io h)) i"
    "irq_vector (view h') 0 \<noteq> None" "map_prod VectorBase VectorBase (view h') = (0x20, 0x28)"
    using InitPIC_steps [OF assms] by blast
  have "irq_vector (view h') irq = (if irq = 0 \<or> irq_vector (view h) irq \<noteq> None then Some (0x20 + irq) else None)"
    if "irq < 16" for irq
  proof (cases "irq = 0")
    case True
    then show ?thesis
      using h'(4,5) by (cases "view h'") (simp add: irq_vector_def v split: if_splits)
  next
    case False
    then show ?thesis
      using h'(3) [rule_format, of irq] that by (simp add: irq_vector_def v c)
  qed
  then show ?thesis
    using h'(1,2) by blast
qed

lemma full_byte: "(0xFF :: u8) = mask 8"
  by (simp add: mask_eq_exp_minus_1)

lemma DisablePIC_view:
  assumes "drives_pics io view" and "pics_ready (view h)"
  shows "view (DisablePIC io h) = (fst (view h)\<lparr>IrqMask := 0xFF\<rparr>, snd (view h)\<lparr>IrqMask := 0xFF\<rparr>)"
proof -
  obtain a b where c: "view h = (a, b)" by fastforce
  then show ?thesis
    using assms(2) pics_write [OF assms(1)]
    by (simp add: DisablePIC_def pics_ready_def pic_write_def pic_data_def)
qed

lemma DisablePIC_masks_all:
  assumes "drives_pics io view" and "pics_ready (view h)"
  shows "irq_vector (view (DisablePIC io h)) irq = None" and "pics_ready (view (DisablePIC io h))"
  using assms(2) unfolding DisablePIC_view [OF assms]
  by (simp_all add: irq_vector_def pics_ready_def full_byte bit_mask_iff) arith

lemma DisablePIC_bases:
  assumes "drives_pics io view" and "pics_ready (view h)"
  shows "map_prod VectorBase VectorBase (view (DisablePIC io h)) = map_prod VectorBase VectorBase (view h)"
  unfolding DisablePIC_view [OF assms] by (cases "view h") simp

section \<open>Ports with the two chips and nothing else\<close>

definition pic_ports :: "(pic \<times> pic) ports" where
  "pic_ports = \<lparr>InPort = (\<lambda>port c. (pic_read port c, c)), sys_out8 = (\<lambda>v port. pic_write port v),
     sys_out16 = (\<lambda>v port c. c), sys_out32 = (\<lambda>v port c. c)\<rparr>"

definition demo_pics :: "pic \<times> pic" where
  "demo_pics = (\<lparr>IrqMask = 0xFD, VectorBase = 8, WordsLeft = 0\<rparr>, \<lparr>IrqMask = 0xFF, VectorBase = 0x70, WordsLeft = 0\<rparr>)"

lemma demo_pics_ok: "drives_pics pic_ports id" "pics_ready (id demo_pics)"
  by (simp_all add: drives_pics_def pic_ports_def pics_ready_def demo_pics_def)

lemma SetIRQEnabled_correct_witness:
  "\<exists>c. SetIRQEnabled pic_ports 12 True demo_pics = Inr c \<and> irq_vector c 12 \<noteq> None \<and> irq_vector c 13 = None"
proof -
  have n: "unat (12 :: u8) = 12"
    by simp
  obtain c where c: "SetIRQEnabled pic_ports 12 True demo_pics = Inr c" "irq_vector c 12 \<noteq> None"
    "\<forall>i. i \<noteq> 12 \<longrightarrow> irq_vector c i = irq_vector demo_pics i"
    using SetIRQEnabled_correct [OF demo_pics_ok, of 12 True] unfolding n by auto
  moreover have "irq_vector demo_pics 13 = None"
    by (simp add: irq_vector_def demo_pics_def full_byte bit_mask_iff)
  ultimately show ?thesis
    by simp
qed

lemma InitPIC_correct_witness:
  "\<exists>c. InitPIC pic_ports demo_pics = Inr c \<and> irq_vector c 1 = Some 0x21 \<and> irq_vector c 8 = None"
proof -
  obtain c where c: "InitPIC pic_ports demo_pics = Inr c" "\<forall>irq < 16. irq_vector c irq
      = (if irq = 0 \<or> irq_vector demo_pics irq \<noteq> None then Some (0x20 + irq) else None)"
    using InitPIC_correct [OF demo_pics_ok] by auto
  moreover have "irq_vector demo_pics 1 \<noteq> None" "irq_vector demo_pics 8 = None"
    by (simp_all add: irq_vector_def demo_pics_def full_byte bit_mask_iff bit_numeral_rec)
  ultimately show ?thesis
    by simp
qed

end
