(* ===== verification/KeyboardLine.thy ===== *)
theory KeyboardLine
  imports Pic InterruptsCorrect BritishLayout DeviceVolumesCorrect
begin

text \<open>
  From the line of the keyboard to its handler: \<^verbatim>\<open>InitKeyboard\<close> of \<^verbatim>\<open>devices/keyboard.cpp\<close> over the
  interrupt controller, the table of interrupts and the callbacks.
\<close>

text \<open>
  The handler with its reads of the ports; it works on the state of the keys, the device
  buffers and the hardware.  The context pointer is not used.
\<close>

definition keyboard_handler ::
  "'h ports \<Rightarrow> fault + u8 \<Rightarrow> KeyLayout \<Rightarrow> (KeyState \<times> drivers \<times> 'h) handler" where
  "keyboard_handler io stray layout context = (\<lambda>(ks, d, h).
     let (status, h) = InPort io 0x64 h;
         (scancode, h) = (if status AND 1 \<noteq> 0 then InPort io 0x60 h else (0, h))
     in ok_bind (KeyboardInterrupt stray layout status scancode ks d) (\<lambda>(ks, d). Inr (ks, d, h)))"

definition InitKeyboard ::
  "'h ports \<Rightarrow> fault + u8 \<Rightarrow> KeyLayout \<Rightarrow> (KeyState \<times> drivers \<times> 'h) callbacks \<times> KeyState \<times> drivers \<times> 'h
    \<Rightarrow> fault + (KeyState \<times> drivers \<times> 'h) callbacks \<times> KeyState \<times> drivers \<times> 'h" where
  "InitKeyboard io stray layout = (\<lambda>(c, ks, d, h).
     ok_bind (SetInterruptHandler 0x21 (keyboard_handler io stray layout) 0 c) (\<lambda>c.
     ok_bind (SetIRQEnabled io 1 True h) (\<lambda>h. Inr (c, init_key_state, d, h))))"

text \<open>What happens when a device raises a line: the chips say which vector, the table which code.\<close>

definition raise_irq ::
  "(isr \<Rightarrow> u64) \<Rightarrow> memory \<Rightarrow> u64 \<Rightarrow> pic \<times> pic \<Rightarrow> nat \<Rightarrow> 'w callbacks \<times> 'w \<Rightarrow> (fault + 'w callbacks \<times> 'w) option" where
  "raise_irq isr_address m idt chips irq cw =
     Option.bind (irq_vector chips irq) (\<lambda>v. deliver_interrupt isr_address m idt v cw)"

text \<open>
  C34: The start-up connects the keyboard: after the set-up of the interrupt table and of the
  controller, whose lines are then all masked when the local controller takes over, and of the
  keyboard, a key runs the handler of the keyboard and the interrupt is acknowledged; no other
  line raises an interrupt.
\<close>

theorem keyboard_line_connected:
  assumes "InitIDT isr_address target codeSelector t = (n, t')"
    and "\<forall>g \<in> set default_gates. isr_address (snd (snd g)) = isr_address (Callback 0x21) \<longrightarrow> snd (snd g) = Callback 0x21"
    and "length (ISR_Callbacks c) = 256" and "length (ISR_Contexts c) = 256"
    and "drives_pics io view" and "pics_ready (view h)"
  shows "\<exists>h1 c' h2. InitPIC io h = Inr h1
    \<and> InitKeyboard io stray layout (c, ks, d, DisablePIC io h1) = Inr (c', init_key_state, d, h2)
    \<and> (\<forall>w. raise_irq isr_address (Storage t') target (view h2) 1 (c', w)
        = Some (ok_bind (keyboard_handler io stray layout 0 w) (\<lambda>w. Inr (OutPort 0x20 0x20 c', w))))
    \<and> (\<forall>irq w. irq \<noteq> 1 \<longrightarrow> raise_irq isr_address (Storage t') target (view h2) irq (c', w) = None)"
proof -
  obtain h1 where h1: "InitPIC io h = Inr h1" "pics_ready (view h1)"
    "map_prod VectorBase VectorBase (view h1) = (0x20, 0x28)"
    using InitPIC_ready [OF assms(5,6)] by blast
  let ?h = "DisablePIC io h1"
  note off = DisablePIC_masks_all [OF assms(5) h1(2)]
  have one: "unat (1 :: u8) = 1" and lt: "(1 :: nat) < 16"
    by simp_all
  obtain h2 where h2: "SetIRQEnabled io 1 True ?h = Inr h2"
    "\<forall>i. i \<noteq> 1 \<longrightarrow> irq_vector (view h2) i = irq_vector (view ?h) i" "irq_vector (view h2) 1 \<noteq> None"
    "map_prod VectorBase VectorBase (view h2) = map_prod VectorBase VectorBase (view ?h)"
    using SetIRQEnabled_line [OF assms(5) off(2), of 1 True, unfolded one eq_True, OF lt] by blast
  obtain c' where c': "SetInterruptHandler (int 0x21) (keyboard_handler io stray layout) 0 c = Inr c'"
    "\<forall>w. deliver_interrupt isr_address (Storage t') target 0x21 (c', w) =
      (if 0x21 \<in> set callback_vectors then Some (ok_bind (keyboard_handler io stray layout 0 w) (\<lambda>w. Inr (OutPort 0x20 0x20 c', w))) else None)"
    using handler_delivers [OF assms(1-4), where h = "keyboard_handler io stray layout" and ctxt = 0] by auto
  have "fst (map_prod VectorBase VectorBase (view h2)) = 0x20"
    using h1(3) h2(4) DisablePIC_bases [OF assms(5) h1(2)] by simp
  then have "irq_vector (view h2) 1 = Some 0x21"
    using h2(3) by (simp add: irq_vector_def Let_def split: if_splits)
  moreover have "0x21 \<in> set callback_vectors"
    by (simp add: set_callback_vectors)
  ultimately show ?thesis
    using h1(1) h2(1,2) c' off(1) by (auto simp: InitKeyboard_def raise_irq_def)
qed

lemma keyboard_line_connected_witness:
  "\<exists>c c' :: (KeyState \<times> drivers \<times> pic \<times> pic) callbacks. \<exists>h1 h2 n t'.
    InitIDT (\<lambda>h. if h = Callback 33 then 0x8000 else 7) 0x9000 1 demo_tables = (n, t')
    \<and> InitPIC pic_ports demo_pics = Inr h1
    \<and> InitKeyboard pic_ports (Inr 0) KeyboardLayout_British (c, init_key_state, demo_drivers, DisablePIC pic_ports h1)
      = Inr (c', init_key_state, demo_drivers, h2)
    \<and> (\<forall>w. raise_irq (\<lambda>h. if h = Callback 33 then 0x8000 else 7) (Storage t') 0x9000 h2 1 (c', w) \<noteq> None)"
proof -
  let ?c = "\<lparr>ISR_Callbacks = replicate 256 None, ISR_Contexts = replicate 256 0, PortOutput = []\<rparr>
    :: (KeyState \<times> drivers \<times> pic \<times> pic) callbacks"
  obtain n t' where t': "InitIDT (\<lambda>h. if h = Callback 33 then 0x8000 else 7) 0x9000 1 demo_tables = (n, t')"
    by (cases "InitIDT (\<lambda>h. if h = Callback 33 then 0x8000 else 7) 0x9000 1 demo_tables")
  have hyp: "\<forall>g \<in> set default_gates. (if snd (snd g) = Callback 33 then 0x8000 else 7 :: u64)
      = (if Callback 33 = Callback 33 then 0x8000 else 7) \<longrightarrow> snd (snd g) = Callback 33"
    by simp
  have l: "length (ISR_Callbacks ?c) = 256" "length (ISR_Contexts ?c) = 256"
    by simp_all
  obtain h1 c' h2 where "InitPIC pic_ports demo_pics = Inr h1"
    "InitKeyboard pic_ports (Inr 0) KeyboardLayout_British (?c, init_key_state, demo_drivers, DisablePIC pic_ports h1)
      = Inr (c', init_key_state, demo_drivers, h2)"
    "\<forall>w. raise_irq (\<lambda>h. if h = Callback 33 then 0x8000 else 7) (Storage t') 0x9000 h2 1 (c', w) \<noteq> None"
    using keyboard_line_connected [OF t' hyp l demo_pics_ok, of "Inr 0" KeyboardLayout_British init_key_state demo_drivers]
    unfolding id_apply by force
  then show ?thesis
    using t' by blast
qed

end
