(* ===== verification/Apic.thy ===== *)
theory Apic
  imports Ahci Pic
begin

text \<open>
  The local interrupt controller and the start of the other processors,
  \<^verbatim>\<open>src/kernel/init/apic.cpp\<close>.  The registers of the controller, the model specific registers
  and what the other processors do are parameters.  The tables of the firmware and the code for
  the other processors are bytes in memory, with the layouts of the ACPI specification and of
  \<^verbatim>\<open>struct APInitData\<close>.
\<close>

section \<open>State\<close>

record 'c apic =
  Cores :: 'c
  ApicHost :: host
  ApicClock :: timer
  LocalApicPhysical :: u64
  LocalApicVirtual :: u64
  ProcessorIds :: "u8 list"
  BSPId :: u32
  ProcessorCount :: u32
  APSignal :: u64
  CoreIndex :: int

text \<open>\<^verbatim>\<open>OtherCores\<close> is what the other processors do while this one waits.\<close>

record 'c cpus =
  ReadApic :: "u32 \<Rightarrow> 'c apic \<Rightarrow> u32 \<times> 'c apic"
  WriteApic :: "u32 \<Rightarrow> u32 \<Rightarrow> 'c apic \<Rightarrow> 'c apic"
  GetMSR :: "u32 \<Rightarrow> 'c apic \<Rightarrow> u64 \<times> 'c apic"
  SetMSR :: "u32 \<Rightarrow> u64 \<Rightarrow> 'c apic \<Rightarrow> 'c apic"
  OtherCores :: "'c apic \<Rightarrow> 'c apic"

text \<open>Addresses that the linker or the loader chose, and the code for the other processors.\<close>

record ap_image =
  ap_bin_data :: "u8 list"
  APBootstrapStart :: u64
  TablesStart :: u64
  PML4Address :: u64
  APEntryFunctionAddress :: u64
  GDTLimitsAddress :: u64
  IDTLimitsAddress :: u64

definition IA32_APIC_BASE_MSR :: u32 where "IA32_APIC_BASE_MSR = 0x1B"
definition APIC_ENABLE :: u32 where "APIC_ENABLE = 0x100"
definition DELIVERY_MODE_INIT :: u32 where "DELIVERY_MODE_INIT = 0x500"
definition DELIVERY_MODE_STARTUP :: u32 where "DELIVERY_MODE_STARTUP = 0x600"
definition LEVEL_TRIGGER :: u32 where "LEVEL_TRIGGER = 0x8000"
definition LEVEL_ASSERT :: u32 where "LEVEL_ASSERT = 0x4000"
definition MaxProcessors :: nat where "MaxProcessors = 256"

definition LocalApicIdRegister :: u32 where "LocalApicIdRegister = 0x020"
definition SpuriousInterruptVectorRegister :: u32 where "SpuriousInterruptVectorRegister = 0x0F0"
definition ErrorStatusRegister :: u32 where "ErrorStatusRegister = 0x280"
definition InterruptCommandRegisterLow :: u32 where "InterruptCommandRegisterLow = 0x300"
definition InterruptCommandRegisterHigh :: u32 where "InterruptCommandRegisterHigh = 0x310"

text \<open>What a started processor does before it halts for ever.\<close>

definition APEntryFunction :: "'c apic \<Rightarrow> fault + 'c apic" where
  "APEntryFunction s =
     assertf ((0xBADF00C :: u32) + 1 = 0xBADF00D) ''Sentinel mismatch''
       (Inr (s\<lparr>CoreIndex := CoreIndex s + 1, APSignal := 1\<rparr>))"

section \<open>Registers\<close>

definition WriteLocalApic :: "'c cpus \<Rightarrow> u32 \<Rightarrow> u32 \<Rightarrow> u32 \<Rightarrow> 'c apic \<Rightarrow> 'c apic" where
  "WriteLocalApic hw offset v bits s =
     (let (existing, s) = ReadApic hw offset s
      in WriteApic hw offset ((existing AND NOT bits) OR (v AND bits)) s)"

definition ReadLocalApic :: "'c cpus \<Rightarrow> u32 \<Rightarrow> 'c apic \<Rightarrow> u32 \<times> 'c apic" where
  "ReadLocalApic hw offset s = ReadApic hw offset s"

definition CheckLAPICErrorStatus :: "'c cpus \<Rightarrow> 'c apic \<Rightarrow> fault + 'c apic" where
  "CheckLAPICErrorStatus hw s =
     (let (status, s) = ReadLocalApic hw ErrorStatusRegister s in assertf (status = 0) ''APIC error'' (Inr s))"

partial_function (option) WaitForIdleIPI :: "'c cpus \<Rightarrow> 'c apic \<Rightarrow> 'c apic option" where
  "WaitForIdleIPI hw s =
     (let (selector, s) = ReadLocalApic hw InterruptCommandRegisterLow s
      in if bit selector 12 then WaitForIdleIPI hw s else Some s)"

partial_function (option) wait_signal :: "'c cpus \<Rightarrow> 'c apic \<Rightarrow> 'c apic option" where
  "wait_signal hw s = (if APSignal s = 0 then wait_signal hw (OtherCores hw s) else Some s)"

section \<open>Starting one processor\<close>

text \<open>\<^verbatim>\<open>struct APInitData\<close>: the bytes of the fields, counted from its start.\<close>

definition AnchorValue :: u64 where "AnchorValue = 0xBADF00DA77C0FFEE"
definition sizeof_APInitData :: u64 where "sizeof_APInitData = 96"
definition anchor_offsets :: "u64 list" where "anchor_offsets = [0, 16, 40, 64, 88]"

fun check_anchors :: "u64 list \<Rightarrow> u64 \<Rightarrow> string \<Rightarrow> host \<Rightarrow> fault + unit" where
  "check_anchors [] block msg h = Inr ()"
| "check_anchors (o1 # os) block msg h =
     ok_bind (read_width 8 (block + o1) h) (\<lambda>v. assertf (v = AnchorValue) msg (check_anchors os block msg h))"

definition check_field :: "nat \<Rightarrow> u64 \<Rightarrow> u64 \<Rightarrow> host \<Rightarrow> fault + unit" where
  "check_field n a expected h =
     ok_bind (read_width n a h) (\<lambda>v. assertf (v = expected) ''Misaligned anchor'' (Inr ()))"

text \<open>The code is copied to the page for it, and the addresses are filled in.\<close>

definition fill_block :: "ap_image \<Rightarrow> u64 \<Rightarrow> u64 \<Rightarrow> u64 \<Rightarrow> host \<Rightarrow> fault + host" where
  "fill_block ap temp_stack stack block h =
     ok_bind (check_anchors anchor_offsets block ''Misaligned anchor'' h) (\<lambda>_.
     ok_bind (check_field 4 (block + 8) 0xAAAAAAAA h) (\<lambda>_.
     ok_bind (check_field 8 (block + 24) 0xAAAAAAAAAAAAAAAA h) (\<lambda>_.
     ok_bind (check_field 4 (block + 12) 0xBBBBBBBB h) (\<lambda>_.
     ok_bind (write_width 4 (block + 8) temp_stack h) (\<lambda>h.
     ok_bind (write_width 8 (block + 24) stack h) (\<lambda>h.
     ok_bind (write_width 4 (block + 12) (PML4Address ap) h) (\<lambda>h.
     ok_bind (write_width 8 (block + 32) (APEntryFunctionAddress ap) h) (\<lambda>h.
     ok_bind (read_bytes 10 (GDTLimitsAddress ap) h) (\<lambda>gdt.
     ok_bind (write_bytes gdt (block + 48) h) (\<lambda>h.
     ok_bind (read_bytes 10 (IDTLimitsAddress ap) h) (\<lambda>idt.
     ok_bind (write_bytes idt (block + 72) h) (\<lambda>h.
     ok_bind (check_anchors anchor_offsets block ''Corrupted anchor'' h) (\<lambda>_. Inr h)))))))))))))"

definition protect :: "page_source \<Rightarrow> u64 \<Rightarrow> MemoryProtection \<Rightarrow> PageFlags \<Rightarrow> host \<Rightarrow> fault + host" where
  "protect get a prot flags h =
     ok_bind (VirtualProtect get a PAGE_SIZE prot flags Keep (Tables h)) (\<lambda>p. Inr (h\<lparr>Tables := p\<rparr>))"

definition prepare_trampoline :: "page_source \<Rightarrow> ap_image \<Rightarrow> u64 \<Rightarrow> u64 \<Rightarrow> host \<Rightarrow> fault + u64 \<times> host" where
  "prepare_trampoline get ap temp_stack stack h =
     (let trampoline = APBootstrapStart ap in
      ok_bind (protect get trampoline ReadWrite PageFlags_Cache_WriteThrough h) (\<lambda>h.
      ok_bind (GetPhysicalAddress trampoline True (Tables h)) (\<lambda>pa.
      assertf (pa = trampoline) ''Expected identity address''
        (ok_bind (write_bytes (ap_bin_data ap) trampoline h) (\<lambda>h.
         ok_bind (fill_block ap temp_stack stack
           (trampoline + of_nat (length (ap_bin_data ap)) - sizeof_APInitData) h) (\<lambda>h.
         ok_bind (protect get trampoline Execute PageFlags_None h) (\<lambda>h.
         ok_bind (GetPhysicalAddress trampoline True (Tables h)) (\<lambda>pa.
         let vector = pa div PAGE_SIZE in
         assertf (vector AND 0xFF = vector) ''Misaligned AP startup vector'' (Inr (vector, h))))))))))"

text \<open>The interrupts that reset the processor and start it.\<close>

definition select_processor :: "'c cpus \<Rightarrow> u8 \<Rightarrow> 'c apic \<Rightarrow> 'c apic" where
  "select_processor hw i s =
     WriteLocalApic hw InterruptCommandRegisterHigh (push_bit 24 (ucast i)) (push_bit 24 0xFF)
       (WriteLocalApic hw ErrorStatusRegister 0 (- 1) s)"

definition sleep_apic :: "(timer \<Rightarrow> timer option) \<Rightarrow> 'c apic \<Rightarrow> 'c apic option" where
  "sleep_apic sleep s = map_option (\<lambda>t. s\<lparr>ApicClock := t\<rparr>) (sleep (ApicClock s))"

definition send_init :: "'c cpus \<Rightarrow> u8 \<Rightarrow> 'c apic \<Rightarrow> (fault + 'c apic) option" where
  "send_init hw i s =
     (let s = WriteLocalApic hw InterruptCommandRegisterLow
           (LEVEL_TRIGGER OR LEVEL_ASSERT OR DELIVERY_MODE_INIT) 0xFFFFF (select_processor hw i s)
      in io_bind (io_wait (WaitForIdleIPI hw s)) (\<lambda>s.
      let s = WriteLocalApic hw InterruptCommandRegisterLow
           (LEVEL_TRIGGER OR DELIVERY_MODE_INIT) 0xFFFFF (select_processor hw i s)
      in io_bind (io_wait (sleep_apic (HpetSleepMS 10) s)) (\<lambda>s.
      io_bind (io_wait (WaitForIdleIPI hw s)) (\<lambda>s.
      Some (CheckLAPICErrorStatus hw s)))))"

definition send_startup :: "'c cpus \<Rightarrow> u8 \<Rightarrow> u64 \<Rightarrow> 'c apic \<Rightarrow> (fault + 'c apic) option" where
  "send_startup hw i vector s =
     (let s = WriteLocalApic hw InterruptCommandRegisterLow
           (ucast (ucast DELIVERY_MODE_STARTUP OR vector)) (- 1) (select_processor hw i s)
      in io_bind (io_wait (sleep_apic (HpetSleepUS 200) s)) (\<lambda>s. io_wait (WaitForIdleIPI hw s)))"

definition wake_processor :: "'c cpus \<Rightarrow> u8 \<Rightarrow> u64 \<Rightarrow> 'c apic \<Rightarrow> (fault + 'c apic) option" where
  "wake_processor hw i vector s =
     io_bind (send_init hw i s) (\<lambda>s.
     io_bind (send_startup hw i vector (s\<lparr>APSignal := 0\<rparr>)) (\<lambda>s.
     io_bind (send_startup hw i vector s) (\<lambda>s. io_wait (wait_signal hw s))))"

definition start_processor ::
  "page_source \<Rightarrow> 'c cpus \<Rightarrow> ap_image \<Rightarrow> u64 \<Rightarrow> u64 \<Rightarrow> u8 \<Rightarrow> 'c apic \<Rightarrow> (fault + 'c apic) option" where
  "start_processor get hw ap temp_stack stack i s =
     io_bind (Some (prepare_trampoline get ap temp_stack stack (ApicHost s))) (\<lambda>(vector, h).
       wake_processor hw i vector (s\<lparr>ApicHost := h\<rparr>))"

section \<open>Starting all processors\<close>

fun start_processors ::
  "page_source \<Rightarrow> 'c cpus \<Rightarrow> ap_image \<Rightarrow> u64 \<Rightarrow> u64 \<Rightarrow> nat list \<Rightarrow> 'c apic \<Rightarrow> (fault + 'c apic) option" where
  "start_processors get hw ap temp_stack stack [] s = Some (Inr s)"
| "start_processors get hw ap temp_stack stack (p # ps) s =
     io_bind (Some (array_get (ProcessorIds s) p)) (\<lambda>i.
     if ucast i = BSPId s then start_processors get hw ap temp_stack stack ps s
     else io_bind (start_processor get hw ap temp_stack stack i s)
       (start_processors get hw ap temp_stack stack ps))"

definition fill :: "u64 \<Rightarrow> u8 \<Rightarrow> nat \<Rightarrow> host \<Rightarrow> fault + host" where
  "fill a v n h = write_bytes (replicate n v) a h"

text \<open>One stack serves all processors; they use it one after the other.\<close>

definition InitAPs :: "page_source \<Rightarrow> 'c cpus \<Rightarrow> ap_image \<Rightarrow> 'c apic \<Rightarrow> (fault + 'c apic) option" where
  "InitAPs get hw ap s =
     (let temp_stack = TablesStart ap + 2 * PAGE_SIZE - 64 in
      io_bind (Some (host_alloc get (16 * 1024) PageFlags_None (ApicHost s))) (\<lambda>(stack, h).
      io_bind (Some (read_width 8 stack h)) (\<lambda>_.
      io_bind (Some (fill stack 0xC1 4096 h)) (\<lambda>h.
      io_bind (Some (read_width 8 stack h)) (\<lambda>_.
      io_bind (Some (fill (temp_stack - 0x200) 0xCD 0x200 h)) (\<lambda>h.
      start_processors get hw ap temp_stack (stack + 16 * 1024) [0 ..< unat (ProcessorCount s)]
        (s\<lparr>ApicHost := h\<rparr>)))))))"

section \<open>The table of processors\<close>

text \<open>One record of the table: its type, its length, and what depends on the type.\<close>

definition madt_record :: "u64 \<Rightarrow> 'c apic \<Rightarrow> fault + u8 \<times> 'c apic" where
  "madt_record data s =
     ok_bind (load8 data (ApicHost s)) (\<lambda>kind.
     ok_bind (load8 (data + 1) (ApicHost s)) (\<lambda>n.
     if kind = 0 then
       ok_bind (load8 (data + 3) (ApicHost s)) (\<lambda>i.
       ok_bind (array_set (ProcessorIds s) (unat (ProcessorCount s)) i) (\<lambda>ids.
       Inr (n, s\<lparr>ProcessorIds := ids, ProcessorCount := ProcessorCount s + 1\<rparr>)))
     else if kind = 5 then
       ok_bind (read_width 8 (data + 4) (ApicHost s)) (\<lambda>a. Inr (n, s\<lparr>LocalApicPhysical := a\<rparr>))
     else Inr (n, s)))"

partial_function (option) madt_records :: "int \<Rightarrow> u64 \<Rightarrow> 'c apic \<Rightarrow> (fault + int \<times> 'c apic) option" where
  "madt_records left data s =
     (if 0 < left then
        (case madt_record data s of
           Inl e \<Rightarrow> Some (Inl e)
         | Inr (n, s) \<Rightarrow> madt_records (left - int (unat n)) (data + ucast n) s)
      else Some (Inr (left, s)))"

text \<open>
  The flags of the mapping, the disjunction of two, are neither of the two that \<^verbatim>\<open>MapPages\<close>
  compares them with: the mapping is an ordinary one.
\<close>

definition enable_apic :: "page_source \<Rightarrow> 'c cpus \<Rightarrow> 'c apic \<Rightarrow> fault + 'c apic" where
  "enable_apic get hw s =
     ok_bind (PhysicalAlloc get (LocalApicPhysical s) 4096 Kernel PageFlags_None (Tables (ApicHost s))) (\<lambda>(va, p).
     let s = s\<lparr>ApicHost := (ApicHost s)\<lparr>Tables := p\<rparr>, LocalApicVirtual := va\<rparr>;
         (msr, s) = GetMSR hw IA32_APIC_BASE_MSR s;
         s = SetMSR hw IA32_APIC_BASE_MSR ((msr AND NOT 0xFFF) OR 0x800) s;
         (msr, s) = GetMSR hw IA32_APIC_BASE_MSR s
     in assertf (bit msr 11) ''APIC not enabled''
       (let (i, s) = ReadLocalApic hw LocalApicIdRegister s;
            s = s\<lparr>BSPId := i\<rparr>
        in Inr (WriteLocalApic hw SpuriousInterruptVectorRegister (APIC_ENABLE OR 0xFF) 0x1FF s)))"

definition InitMADT ::
  "page_source \<Rightarrow> 'c cpus \<Rightarrow> ap_image \<Rightarrow> u64 \<Rightarrow> 'c apic \<Rightarrow> (fault + 'c apic) option" where
  "InitMADT get hw ap madt s =
     io_bind (Some (read_width 4 (madt + 36) (ApicHost s))) (\<lambda>physical.
     io_bind (Some (read_width 4 (madt + 4) (ApicHost s))) (\<lambda>n.
     io_bind (madt_records (sint (ucast (n - 44) :: u32)) (madt + 44)
         (s\<lparr>LocalApicPhysical := physical, ProcessorCount := 0\<rparr>)) (\<lambda>(left, s).
     io_bind (Some (enable_apic get hw s)) (\<lambda>s.
     if left \<noteq> 0 then Some (Inl (AssertionFailed ''Overshot MADT end'')) else InitAPs get hw ap s))))"

section \<open>Finding the tables\<close>

definition MADT_SIGNATURE :: u64 where "MADT_SIGNATURE = 0x43495041"
definition FADT_SIGNATURE :: u64 where "FADT_SIGNATURE = 0x50434146"
definition HPET_SIGNATURE :: u64 where "HPET_SIGNATURE = 0x54455048"

text \<open>The addresses of the tables found so far, 0 for a table that was not found.\<close>

record acpi_tables =
  MADT :: u64
  FACP :: u64
  HPET :: u64

definition note_table :: "u64 \<Rightarrow> u64 \<Rightarrow> acpi_tables \<Rightarrow> acpi_tables" where
  "note_table signature a t =
     (let t = (if signature = MADT_SIGNATURE then t\<lparr>MADT := a\<rparr> else t)
      in if signature = FADT_SIGNATURE then t\<lparr>FACP := a\<rparr>
         else if signature = HPET_SIGNATURE then t\<lparr>HPET := a\<rparr> else t)"

fun scan_tables :: "nat \<Rightarrow> u64 \<Rightarrow> host \<Rightarrow> acpi_tables \<Rightarrow> fault + acpi_tables" where
  "scan_tables 0 entry h t = Inr t"
| "scan_tables (Suc n) entry h t =
     ok_bind (read_width 8 entry h) (\<lambda>a.
     ok_bind (read_width 4 a h) (\<lambda>signature. scan_tables n (entry + 8) h (note_table signature a t)))"

text \<open>The number of entries is computed without sign and converted to a signed number.\<close>

definition InitApic ::
  "page_source \<Rightarrow> 'c cpus \<Rightarrow> 'c ports \<Rightarrow> ap_image \<Rightarrow> u64 \<Rightarrow> 'c apic \<Rightarrow> (fault + 'c apic) option" where
  "InitApic get hw io ap xsdt s =
     io_bind (Some (read_width 4 (xsdt + 4) (ApicHost s))) (\<lambda>n.
     io_bind (Some (scan_tables (nat (sint (ucast ((n - 36) div 8) :: u32))) (xsdt + 36) (ApicHost s)
         \<lparr>MADT = 0, FACP = 0, HPET = 0\<rparr>)) (\<lambda>t.
     if FACP t = 0 then Some (Inl (AssertionFailed ''FACP was not found in XSDT''))
     else if HPET t = 0 then Some (Inl (AssertionFailed ''HPET was not found in XSDT''))
     else
       io_bind (Some (read_width 8 (HPET t + 44) (ApicHost s))) (\<lambda>a.
       io_bind (InitHPET get a (Tables (ApicHost s), ApicClock s)) (\<lambda>(p, clock).
       let s = s\<lparr>ApicHost := (ApicHost s)\<lparr>Tables := p\<rparr>, ApicClock := clock,
                 Cores := DisablePIC io (Cores s)\<rparr>
       in if MADT t = 0 then Some (Inl (AssertionFailed ''MADT was not found in XSDT''))
          else InitMADT get hw ap (MADT t) s))))"

end
