(* ===== verification/ApicWake.thy ===== *)
theory ApicWake
  imports ApicCorrect
begin

text \<open>
  Waking a processor, seen from the other end: the interrupts that its local controller
  receives, and that the wait for its answer ends.
\<close>

section \<open>Interrupts between processors\<close>

text \<open>
  A write to the low half of the command register sends an interrupt to the processor that the
  high half names; the format is that of the processor's manual.
\<close>

datatype ipi = INIT u8 bool | STARTUP u8 u8 | OtherIPI u8 u32

definition decode_ipi :: "u32 \<Rightarrow> u32 \<Rightarrow> ipi" where
  "decode_ipi high low =
     (let target = ucast (drop_bit 24 high); mode = drop_bit 8 low AND 7 in
      if mode = 5 then INIT target (bit low 14)
      else if mode = 6 then STARTUP target (ucast low)
      else OtherIPI target low)"

fun ipis :: "u32 \<Rightarrow> (u32 \<times> u32) list \<Rightarrow> ipi list" where
  "ipis high [] = []"
| "ipis high ((r, v) # ws) =
     (if r = InterruptCommandRegisterHigh then ipis v ws
      else if r = InterruptCommandRegisterLow then decode_ipi high v # ipis high ws
      else ipis high ws)"

text \<open>The high half after some writes.\<close>

fun high_half :: "u32 \<Rightarrow> (u32 \<times> u32) list \<Rightarrow> u32" where
  "high_half high [] = high"
| "high_half high ((r, v) # ws) = high_half (if r = InterruptCommandRegisterHigh then v else high) ws"

lemma high_half_append: "high_half high (ws @ ws') = high_half (high_half high ws) ws'"
  by (induction high ws rule: high_half.induct) auto

lemma ipis_append: "ipis high (ws @ ws') = ipis high ws @ ipis (high_half high ws) ws'"
  by (induction high ws rule: ipis.induct) auto

section \<open>The hardware\<close>

text \<open>
  A local controller: it records the writes, no error occurs, and after at most as many reads as
  it says it is idle.  Nothing but the state of the processors changes.
\<close>

definition local_controller :: "'c cpus \<Rightarrow> ('c \<Rightarrow> (u32 \<times> u32) list) \<Rightarrow> ('c \<Rightarrow> nat) \<Rightarrow> bool" where
  "local_controller hw written busy \<longleftrightarrow>
     (\<forall>r s. \<exists>v c. ReadApic hw r s = (v, s\<lparr>Cores := c\<rparr>) \<and> written c = written (Cores s)
        \<and> (r = ErrorStatusRegister \<longrightarrow> v = 0)
        \<and> (r = InterruptCommandRegisterLow \<longrightarrow> (if busy (Cores s) = 0 then \<not> bit v 12 else busy c < busy (Cores s)))) \<and>
     (\<forall>r v s. \<exists>c. WriteApic hw r v s = s\<lparr>Cores := c\<rparr> \<and> written c = written (Cores s) @ [(r, v)])"

text \<open>
  The other processors: a processor that was started sets the signal sooner or later; they send
  nothing themselves.
\<close>

definition answers :: "'c cpus \<Rightarrow> ('c \<Rightarrow> (u32 \<times> u32) list) \<Rightarrow> bool" where
  "answers hw written \<longleftrightarrow>
     (\<forall>s. written (Cores (OtherCores hw s)) = written (Cores s)) \<and>
     (\<forall>s ws i vector. ipis 0 (written (Cores s)) = ws @ [STARTUP i vector] \<longrightarrow>
        (\<exists>k. APSignal ((OtherCores hw ^^ k) s) \<noteq> 0))"

text \<open>The counter reaches the end of every delay, after a wrap-around if need be.\<close>

definition clock_runs :: "timer \<Rightarrow> bool" where
  "clock_runs t \<longleftrightarrow>
     (\<forall>delay n. \<exists>k > n. HpetCounter t !! n + delay * HpetTicksPerNanosecond t div (1000 * 1000) \<le> HpetCounter t !! k)"

lemma spin_until_returns:
  assumes "\<exists>k. finish \<le> HpetCounter t !! k"
  shows "\<exists>k. spin_until finish t = Some (t\<lparr>HpetCounter := sdrop (Suc k) (HpetCounter t)\<rparr>)"
proof -
  let ?k = "LEAST k. finish \<le> HpetCounter t !! k"
  have "finish \<le> HpetCounter t !! ?k"
    using assms by (rule LeastI_ex)
  moreover have "\<forall>j < ?k. HpetCounter t !! j < finish"
    using not_less_Least by (metis (mono_tags, lifting) not_le)
  ultimately show ?thesis
    using spin_until_first [of ?k t finish] by (auto simp: not_less)
qed

lemma HpetSleepUS_returns:
  assumes "clock_runs t"
  shows "\<exists>t'. HpetSleepUS n t = Some t' \<and> clock_runs t'"
proof -
  let ?c = "HpetCounter t" and ?t = "t\<lparr>HpetCounter := stl (HpetCounter t)\<rparr>"
  have runs: "clock_runs (t\<lparr>HpetCounter := sdrop m ?c\<rparr>)" for m
    unfolding clock_runs_def
  proof (intro allI)
    fix delay n
    from assms obtain k where k: "n + m < k"
      "?c !! (n + m) + delay * HpetTicksPerNanosecond t div (1000 * 1000) \<le> ?c !! k"
      unfolding clock_runs_def by blast
    then show "\<exists>k > n. HpetCounter (t\<lparr>HpetCounter := sdrop m ?c\<rparr>) !! n
        + delay * HpetTicksPerNanosecond (t\<lparr>HpetCounter := sdrop m ?c\<rparr>) div (1000 * 1000)
        \<le> HpetCounter (t\<lparr>HpetCounter := sdrop m ?c\<rparr>) !! k"
      by (intro exI [of _ "k - m"]) (simp add: sdrop_snth add.commute)
  qed
  from assms obtain k where "0 < k" "?c !! 0 + n * HpetTicksPerNanosecond t div (1000 * 1000) \<le> ?c !! k"
    unfolding clock_runs_def by blast
  then have "shd ?c + n * HpetTicksPerNanosecond t div (1000 * 1000) \<le> HpetCounter ?t !! (k - 1)"
    by (cases k) simp_all
  from spin_until_returns [OF exI, OF this] obtain j where
    "HpetSleepUS n t = Some (t\<lparr>HpetCounter := sdrop (Suc (Suc j)) ?c\<rparr>)"
    by (auto simp: HpetSleepUS_def read_counter_def)
  then show ?thesis
    using runs by blast
qed

section \<open>The steps\<close>

text \<open>One step: the writes that it adds, while the clock keeps running.\<close>

definition goes_on :: "('c \<Rightarrow> (u32 \<times> u32) list) \<Rightarrow> (u32 \<times> u32) list \<Rightarrow> 'c apic \<Rightarrow> 'c apic \<Rightarrow> bool" where
  "goes_on written ws s s' \<longleftrightarrow> written (Cores s') = written (Cores s) @ ws \<and> clock_runs (ApicClock s')"

lemma controller_read:
  assumes "local_controller hw written busy"
  obtains v c where "ReadApic hw r s = (v, s\<lparr>Cores := c\<rparr>)" and "written c = written (Cores s)"
    and "r = ErrorStatusRegister \<Longrightarrow> v = 0"
    and "r = InterruptCommandRegisterLow \<Longrightarrow> if busy (Cores s) = 0 then \<not> bit v 12 else busy c < busy (Cores s)"
  using assms unfolding local_controller_def by metis

lemma controller_write:
  assumes "local_controller hw written busy"
  obtains c where "WriteApic hw r v s = s\<lparr>Cores := c\<rparr>" and "written c = written (Cores s) @ [(r, v)]"
  using assms unfolding local_controller_def by metis

lemma WriteLocalApic_writes:
  assumes "local_controller hw written busy" and "clock_runs (ApicClock s)"
  shows "\<exists>old. goes_on written [(r, (old AND NOT bits) OR (v AND bits))] s (WriteLocalApic hw r v bits s)"
proof -
  obtain old c where r: "ReadApic hw r s = (old, s\<lparr>Cores := c\<rparr>)" "written c = written (Cores s)"
    using controller_read [OF assms(1)] by metis
  obtain c' where "WriteApic hw r ((old AND NOT bits) OR (v AND bits)) (s\<lparr>Cores := c\<rparr>) = (s\<lparr>Cores := c\<rparr>)\<lparr>Cores := c'\<rparr>"
    "written c' = written (Cores (s\<lparr>Cores := c\<rparr>)) @ [(r, (old AND NOT bits) OR (v AND bits))]"
    using controller_write [OF assms(1)] by metis
  then show ?thesis
    using r assms(2) by (intro exI [of _ old]) (simp add: goes_on_def WriteLocalApic_def)
qed

lemma WaitForIdleIPI_returns:
  assumes "local_controller hw written busy"
  shows "\<exists>s'. WaitForIdleIPI hw s = Some s' \<and> written (Cores s') = written (Cores s) \<and> ApicClock s' = ApicClock s"
proof (induction "busy (Cores s)" arbitrary: s rule: less_induct)
  case less
  obtain v c where r: "ReadApic hw InterruptCommandRegisterLow s = (v, s\<lparr>Cores := c\<rparr>)" "written c = written (Cores s)"
    "if busy (Cores s) = 0 then \<not> bit v 12 else busy c < busy (Cores s)"
    using controller_read [OF assms, of InterruptCommandRegisterLow s] by metis
  show ?case
  proof (cases "bit v 12")
    case True
    then have "busy (Cores (s\<lparr>Cores := c\<rparr>)) < busy (Cores s)"
      using r(3) by (auto split: if_splits)
    from less [OF this] show ?thesis
      using True r(1,2) by (subst WaitForIdleIPI.simps) (auto simp: ReadLocalApic_def)
  next
    case False
    then show ?thesis
      using r(1,2) by (subst WaitForIdleIPI.simps) (auto simp: ReadLocalApic_def)
  qed
qed

lemma target_bits: "ucast (drop_bit 24 ((old AND NOT (push_bit 24 0xFF)) OR (push_bit 24 (ucast i) AND push_bit 24 0xFF :: u32))) = (i :: u8)"
proof (rule bit_word_eqI)
  fix n assume "n < LENGTH(8)"
  have m: "(0xFF :: u32) = mask 8"
    by (simp add: mask_eq_exp_minus_1)
  show "bit (ucast (drop_bit 24 ((old AND NOT (push_bit 24 0xFF)) OR (push_bit 24 (ucast i) AND push_bit 24 0xFF :: u32))) :: u8) n = bit i n"
    using \<open>n < LENGTH(8)\<close> unfolding m by (auto simp: bit_simps)
qed

lemma low_half_bits:
  assumes "n < 20"
  shows "bit ((old AND NOT 0xFFFFF) OR (v AND 0xFFFFF) :: u32) n = bit v n"
proof -
  have m: "(0xFFFFF :: u32) = mask 20"
    by (simp add: mask_eq_exp_minus_1)
  show ?thesis
    using assms unfolding m by (auto simp: bit_simps)
qed

lemma decode_same:
  assumes "\<And>n. n < 20 \<Longrightarrow> bit w n = bit (v :: u32) n"
  shows "drop_bit 8 w AND 7 = drop_bit 8 v AND 7" and "bit w 14 = bit v 14" and "(ucast w :: u8) = ucast v"
proof -
  have seven: "(7 :: u32) = mask 3"
    by (simp add: mask_eq_exp_minus_1)
  show "drop_bit 8 w AND 7 = drop_bit 8 v AND 7"
    unfolding seven by (rule bit_word_eqI) (auto simp: bit_and_iff bit_mask_iff bit_drop_bit_eq assms)
  show "(ucast w :: u8) = ucast v"
    by (rule bit_word_eqI) (simp add: bit_unsigned_iff assms)
  show "bit w 14 = bit v 14"
    by (rule assms) simp
qed

lemma decode_masked:
  "decode_ipi high ((old AND NOT 0xFFFFF) OR (v AND 0xFFFFF)) =
     (if drop_bit 8 v AND 7 = 5 then INIT (ucast (drop_bit 24 high)) (bit v 14)
      else if drop_bit 8 v AND 7 = 6 then STARTUP (ucast (drop_bit 24 high)) (ucast v)
      else OtherIPI (ucast (drop_bit 24 high)) ((old AND NOT 0xFFFFF) OR (v AND 0xFFFFF)))"
proof -
  define w where "w = (old AND NOT 0xFFFFF) OR (v AND 0xFFFFF)"
  have "\<And>n. n < 20 \<Longrightarrow> bit w n = bit v n"
    unfolding w_def by (rule low_half_bits)
  from decode_same [OF this] show ?thesis
    unfolding w_def [symmetric] by (simp add: decode_ipi_def)
qed

lemma decode_init:
  "decode_ipi high ((old AND NOT 0xFFFFF) OR ((LEVEL_TRIGGER OR LEVEL_ASSERT OR DELIVERY_MODE_INIT) AND 0xFFFFF))
     = INIT (ucast (drop_bit 24 high)) True"
  "decode_ipi high ((old AND NOT 0xFFFFF) OR ((LEVEL_TRIGGER OR DELIVERY_MODE_INIT) AND 0xFFFFF))
     = INIT (ucast (drop_bit 24 high)) False"
  unfolding decode_masked
  by (simp_all add: LEVEL_TRIGGER_def LEVEL_ASSERT_def DELIVERY_MODE_INIT_def bit_numeral_rec)

lemma startup_bits: "bit DELIVERY_MODE_STARTUP n \<longleftrightarrow> n = 9 \<or> n = 10" "bit (6 :: u32) n \<longleftrightarrow> n = 1 \<or> n = 2"
proof -
  have three: "(3 :: u32) = mask 2"
    by (simp add: mask_eq_exp_minus_1)
  have p: "bit (push_bit k (mask 2) :: u32) n \<longleftrightarrow> k \<le> n \<and> n < k + 2 \<and> n < 32" for k
    by (auto simp: bit_simps)
  have "DELIVERY_MODE_STARTUP = push_bit 9 3" "(6 :: u32) = push_bit 1 3"
    by (simp_all add: push_bit_eq_mult DELIVERY_MODE_STARTUP_def)
  moreover have "bit (push_bit 9 3 :: u32) n \<longleftrightarrow> n = 9 \<or> n = 10" "bit (push_bit 1 3 :: u32) n \<longleftrightarrow> n = 1 \<or> n = 2"
    unfolding three p by auto
  ultimately show "bit DELIVERY_MODE_STARTUP n \<longleftrightarrow> n = 9 \<or> n = 10" "bit (6 :: u32) n \<longleftrightarrow> n = 1 \<or> n = 2"
    by (simp_all only:)
qed

lemma decode_startup:
  assumes "vector AND 0xFF = vector"
  shows "decode_ipi high ((old AND NOT (- 1)) OR (ucast (ucast DELIVERY_MODE_STARTUP OR vector) AND (- 1)))
     = STARTUP (ucast (drop_bit 24 high)) (ucast (vector :: u64))"
proof -
  have m: "(0xFF :: u64) = mask 8" and seven: "(7 :: u32) = mask 3"
    by (simp_all add: mask_eq_exp_minus_1)
  have small: "\<not> bit vector n" if "8 \<le> n" for n
    using assms that unfolding m by (metis bit_and_iff bit_mask_iff not_le)
  let ?w = "ucast (ucast DELIVERY_MODE_STARTUP OR vector) :: u32"
  have "drop_bit 8 ?w AND 7 = 6"
    unfolding seven
    by (rule bit_word_eqI, unfold startup_bits(2))
      (auto simp: bit_and_iff bit_or_iff bit_mask_iff bit_drop_bit_eq bit_unsigned_iff startup_bits(1) small)
  moreover have "(ucast ?w :: u8) = ucast vector"
    by (rule bit_word_eqI) (auto simp: bit_or_iff bit_unsigned_iff startup_bits)
  ultimately show ?thesis
    by (simp add: decode_ipi_def)
qed

text \<open>Selecting a processor and writing the low half sends one interrupt to it.\<close>

lemma send_one:
  assumes "local_controller hw written busy" and "clock_runs (ApicClock s)"
  shows "\<exists>old ws. goes_on written ws s
      (WriteLocalApic hw InterruptCommandRegisterLow v bits (select_processor hw i s))
    \<and> (\<forall>high. \<exists>high'. ipis high ws = [decode_ipi high' ((old AND NOT bits) OR (v AND bits))]
        \<and> ucast (drop_bit 24 high') = i)"
proof -
  let ?s1 = "WriteLocalApic hw ErrorStatusRegister 0 (- 1) s"
  obtain old1 where w1: "goes_on written [(ErrorStatusRegister, (old1 AND NOT (- 1)) OR (0 AND (- 1)))] s ?s1"
    using WriteLocalApic_writes [OF assms] by blast
  let ?s2 = "select_processor hw i s"
  let ?high = "\<lambda>old. (old AND NOT (push_bit 24 0xFF)) OR (push_bit 24 (ucast i) AND push_bit 24 0xFF) :: u32"
  obtain old2 where w2: "goes_on written [(InterruptCommandRegisterHigh, ?high old2)] ?s1 ?s2"
    using WriteLocalApic_writes [OF assms(1), of ?s1] w1 unfolding select_processor_def goes_on_def by blast
  obtain old3 where w3: "goes_on written [(InterruptCommandRegisterLow, (old3 AND NOT bits) OR (v AND bits))] ?s2
      (WriteLocalApic hw InterruptCommandRegisterLow v bits ?s2)"
    using WriteLocalApic_writes [OF assms(1), of ?s2] w2 unfolding goes_on_def by blast
  let ?ws = "[(ErrorStatusRegister, (old1 AND NOT (- 1)) OR (0 AND (- 1))), (InterruptCommandRegisterHigh, ?high old2),
    (InterruptCommandRegisterLow, (old3 AND NOT bits) OR (v AND bits))]"
  have "goes_on written ?ws s (WriteLocalApic hw InterruptCommandRegisterLow v bits ?s2)"
    using w1 w2 w3 by (simp add: goes_on_def)
  moreover have "ipis high ?ws = [decode_ipi (?high old2) ((old3 AND NOT bits) OR (v AND bits))]" for high
    by (simp add: ErrorStatusRegister_def InterruptCommandRegisterHigh_def InterruptCommandRegisterLow_def)
  ultimately show ?thesis
    using target_bits by blast
qed

text \<open>The sequence as a whole.\<close>

lemma sleep_and_wait:
  assumes "local_controller hw written busy" and "clock_runs (ApicClock s)"
  shows "\<exists>s'. sleep_apic (HpetSleepUS n) s = Some s' \<and> written (Cores s') = written (Cores s) \<and> clock_runs (ApicClock s')"
    and "\<exists>s'. WaitForIdleIPI hw s = Some s' \<and> written (Cores s') = written (Cores s) \<and> clock_runs (ApicClock s')"
proof -
  show "\<exists>s'. sleep_apic (HpetSleepUS n) s = Some s' \<and> written (Cores s') = written (Cores s) \<and> clock_runs (ApicClock s')"
    using HpetSleepUS_returns [OF assms(2), of n] by (auto simp: sleep_apic_def)
  show "\<exists>s'. WaitForIdleIPI hw s = Some s' \<and> written (Cores s') = written (Cores s) \<and> clock_runs (ApicClock s')"
    using WaitForIdleIPI_returns [OF assms(1), of s] assms(2) by auto
qed

lemma send_init_sends:
  assumes "local_controller hw written busy" and "clock_runs (ApicClock s)"
  shows "\<exists>s' ws. send_init hw i s = Some (Inr s') \<and> goes_on written ws s s'
    \<and> (\<forall>high. ipis high ws = [INIT i True, INIT i False])"
proof -
  let ?a = "WriteLocalApic hw InterruptCommandRegisterLow (LEVEL_TRIGGER OR LEVEL_ASSERT OR DELIVERY_MODE_INIT) 0xFFFFF
    (select_processor hw i s)"
  obtain ws1 where a: "goes_on written ws1 s ?a" "\<forall>high. ipis high ws1 = [INIT i True]"
    using send_one [OF assms, of "LEVEL_TRIGGER OR LEVEL_ASSERT OR DELIVERY_MODE_INIT" "0xFFFFF" i] decode_init(1)
    by metis
  obtain s1 where s1: "WaitForIdleIPI hw ?a = Some s1" "written (Cores s1) = written (Cores ?a)" "clock_runs (ApicClock s1)"
    using sleep_and_wait(2) [OF assms(1), of ?a] a(1) unfolding goes_on_def by blast
  let ?b = "WriteLocalApic hw InterruptCommandRegisterLow (LEVEL_TRIGGER OR DELIVERY_MODE_INIT) 0xFFFFF
    (select_processor hw i s1)"
  obtain ws2 where b: "goes_on written ws2 s1 ?b" "\<forall>high. ipis high ws2 = [INIT i False]"
    using send_one [OF assms(1) s1(3), of "LEVEL_TRIGGER OR DELIVERY_MODE_INIT" "0xFFFFF" i] decode_init(2)
    by metis
  obtain s2 where s2: "sleep_apic (HpetSleepMS 10) ?b = Some s2" "written (Cores s2) = written (Cores ?b)"
    "clock_runs (ApicClock s2)"
    using sleep_and_wait(1) [OF assms(1), of ?b "1000 * 10"] b(1)
    unfolding goes_on_def sleep_apic_def HpetSleepMS_def by blast
  obtain s3 where s3: "WaitForIdleIPI hw s2 = Some s3" "written (Cores s3) = written (Cores s2)" "clock_runs (ApicClock s3)"
    using sleep_and_wait(2) [OF assms(1) s2(3)] by blast
  obtain v c where c: "ReadApic hw ErrorStatusRegister s3 = (0, s3\<lparr>Cores := c\<rparr>)" "written c = written (Cores s3)"
    using controller_read [OF assms(1), of ErrorStatusRegister s3] by metis
  have "send_init hw i s = Some (Inr (s3\<lparr>Cores := c\<rparr>))"
    using s1(1) s2(1) s3(1) c(1) by (simp add: send_init_def Let_def CheckLAPICErrorStatus_def ReadLocalApic_def assertf_def)
  moreover have "goes_on written (ws1 @ ws2) s (s3\<lparr>Cores := c\<rparr>)"
    using a(1) b(1) s1(2) s2(2) s3(2,3) c(2) by (simp add: goes_on_def)
  moreover have "\<forall>high. ipis high (ws1 @ ws2) = [INIT i True, INIT i False]"
    using a(2) b(2) by (simp add: ipis_append)
  ultimately show ?thesis
    by blast
qed

lemma send_startup_sends:
  assumes "local_controller hw written busy" and "clock_runs (ApicClock s)" and "vector AND 0xFF = vector"
  shows "\<exists>s' ws. send_startup hw i vector s = Some (Inr s') \<and> goes_on written ws s s'
    \<and> (\<forall>high. ipis high ws = [STARTUP i (ucast vector)])"
proof -
  let ?a = "WriteLocalApic hw InterruptCommandRegisterLow (ucast (ucast DELIVERY_MODE_STARTUP OR vector)) (- 1)
    (select_processor hw i s)"
  obtain ws where a: "goes_on written ws s ?a" "\<forall>high. ipis high ws = [STARTUP i (ucast vector)]"
    using send_one [OF assms(1,2), of "ucast (ucast DELIVERY_MODE_STARTUP OR vector)" "- 1" i] decode_startup [OF assms(3)]
    by metis
  obtain s1 where s1: "sleep_apic (HpetSleepUS 200) ?a = Some s1" "written (Cores s1) = written (Cores ?a)"
    "clock_runs (ApicClock s1)"
    using sleep_and_wait(1) [OF assms(1), of ?a 200] a(1) unfolding goes_on_def by blast
  obtain s2 where s2: "WaitForIdleIPI hw s1 = Some s2" "written (Cores s2) = written (Cores s1)" "clock_runs (ApicClock s2)"
    using sleep_and_wait(2) [OF assms(1) s1(3)] by blast
  have "send_startup hw i vector s = Some (Inr s2)"
    using s1(1) s2(1) by (simp add: send_startup_def Let_def)
  moreover have "goes_on written ws s s2"
    using a(1) s1(2) s2(2,3) by (simp add: goes_on_def)
  ultimately show ?thesis
    using a(2) by blast
qed

lemma wait_signal_returns:
  assumes "APSignal ((OtherCores hw ^^ k) s) \<noteq> 0" and "\<forall>s. written (Cores (OtherCores hw s)) = written (Cores s)"
  shows "\<exists>s'. wait_signal hw s = Some s' \<and> APSignal s' \<noteq> 0 \<and> written (Cores s') = written (Cores s)"
  using assms(1)
proof (induction k arbitrary: s)
  case 0
  then show ?case
    by (subst wait_signal.simps) simp
next
  case (Suc k)
  then have "APSignal ((OtherCores hw ^^ k) (OtherCores hw s)) \<noteq> 0"
    by (simp add: funpow_swap1)
  from Suc.IH [OF this] show ?case
    using assms(2) by (subst wait_signal.simps) auto
qed

text \<open>
  C36: Waking a processor resets it and starts it twice at the given page, in this order and
  with nothing in between, and comes back once the processor has answered; the waits for the
  controller, the clock and the answer end.
\<close>

theorem wake_processor_sequence:
  assumes "local_controller hw written busy" and "answers hw written" and "clock_runs (ApicClock s)"
    and "vector AND 0xFF = vector"
  shows "\<exists>s'. wake_processor hw i vector s = Some (Inr s') \<and> APSignal s' \<noteq> 0
    \<and> ipis 0 (written (Cores s')) = ipis 0 (written (Cores s))
        @ [INIT i True, INIT i False, STARTUP i (ucast vector), STARTUP i (ucast vector)]"
proof -
  obtain s1 ws1 where s1: "send_init hw i s = Some (Inr s1)" "goes_on written ws1 s s1"
    "\<forall>high. ipis high ws1 = [INIT i True, INIT i False]"
    using send_init_sends [OF assms(1,3)] by blast
  have "clock_runs (ApicClock (s1\<lparr>APSignal := 0\<rparr>))"
    using s1(2) by (simp add: goes_on_def)
  then obtain s2 ws2 where s2: "send_startup hw i vector (s1\<lparr>APSignal := 0\<rparr>) = Some (Inr s2)"
    "goes_on written ws2 (s1\<lparr>APSignal := 0\<rparr>) s2" "\<forall>high. ipis high ws2 = [STARTUP i (ucast vector)]"
    using send_startup_sends [OF assms(1) _ assms(4)] by blast
  then obtain s3 ws3 where s3: "send_startup hw i vector s2 = Some (Inr s3)" "goes_on written ws3 s2 s3"
    "\<forall>high. ipis high ws3 = [STARTUP i (ucast vector)]"
    using send_startup_sends [OF assms(1) _ assms(4)] unfolding goes_on_def by blast
  have w: "written (Cores s3) = written (Cores s) @ ws1 @ ws2 @ ws3"
    using s1(2) s2(2) s3(2) by (simp add: goes_on_def)
  have sent: "ipis 0 (written (Cores s3)) = ipis 0 (written (Cores s))
      @ [INIT i True, INIT i False, STARTUP i (ucast vector), STARTUP i (ucast vector)]"
    unfolding w using s1(3) s2(3) s3(3) by (simp add: ipis_append)
  then have "ipis 0 (written (Cores s3)) = (ipis 0 (written (Cores s))
      @ [INIT i True, INIT i False, STARTUP i (ucast vector)]) @ [STARTUP i (ucast vector)]"
    by simp
  then obtain k where "APSignal ((OtherCores hw ^^ k) s3) \<noteq> 0"
    using assms(2) unfolding answers_def by blast
  then obtain s' where "wait_signal hw s3 = Some s'" "APSignal s' \<noteq> 0" "written (Cores s') = written (Cores s3)"
    using wait_signal_returns assms(2) unfolding answers_def by blast
  then show ?thesis
    using s1(1) s2(1) s3(1) sent by (simp add: wake_processor_def)
qed

end
