(* ===== verification/ApicDemo.thy ===== *)
theory ApicDemo
  imports ApicWake CdromDemo
begin

text \<open>A concrete machine with two processors, for the theorems about the local controller.\<close>

definition demo_cpus :: "(u32 \<times> u32) list cpus" where
  "demo_cpus = \<lparr>ReadApic = (\<lambda>r s. (0, s)), WriteApic = (\<lambda>r v s. s\<lparr>Cores := Cores s @ [(r, v)]\<rparr>),
     GetMSR = (\<lambda>r s. (0x800, s)), SetMSR = (\<lambda>r v s. s),
     OtherCores = (\<lambda>s. case APEntryFunction s of Inr s \<Rightarrow> s | Inl e \<Rightarrow> s)\<rparr>"

definition demo_clock :: timer where
  "demo_clock = \<lparr>HpetCounter = sconst (- 1), HpetConfig = 1, HpetTicksPerNanosecond = 10 ^ 8,
     Arrivals = sconst True, PITReceived = False, Ports = []\<rparr>"

definition demo_apic :: "host \<Rightarrow> (u32 \<times> u32) list apic" where
  "demo_apic h = \<lparr>Cores = [], ApicHost = h, ApicClock = demo_clock, LocalApicPhysical = 0xFEE00000,
     LocalApicVirtual = 0, ProcessorIds = replicate 256 0, BSPId = 0, ProcessorCount = 0, APSignal = 0, CoreIndex = 0\<rparr>"

lemma demo_cpus_ok: "local_controller demo_cpus id (\<lambda>c. 0)" "answers demo_cpus id" "clock_runs demo_clock"
proof -
  show "local_controller demo_cpus id (\<lambda>c. 0)"
    by (auto simp: local_controller_def demo_cpus_def intro: exI [of _ "Cores _"])
  have "APSignal ((OtherCores demo_cpus ^^ 1) s) \<noteq> 0" for s
    by (simp add: demo_cpus_def APEntryFunction_def assertf_def)
  moreover have "Cores (OtherCores demo_cpus s) = Cores s" for s
    by (simp add: demo_cpus_def APEntryFunction_def assertf_def)
  ultimately show "answers demo_cpus id"
    unfolding answers_def id_apply by blast
  show "clock_runs demo_clock"
    unfolding clock_runs_def by (auto simp: demo_clock_def word_order.extremum intro: exI [of _ "Suc _"])
qed

lemma wake_processor_sequence_witness:
  "\<exists>s'. wake_processor demo_cpus 1 8 (demo_apic demo_host) = Some (Inr s')
    \<and> ipis 0 (Cores s') = [INIT 1 True, INIT 1 False, STARTUP 1 8, STARTUP 1 8]"
proof -
  have "clock_runs (ApicClock (demo_apic demo_host))"
    using demo_cpus_ok(3) by (simp add: demo_apic_def)
  from wake_processor_sequence [OF demo_cpus_ok(1,2) this, of 8 1] show ?thesis
    by (auto simp: demo_apic_def)
qed

definition demo_madt :: "madt_item list" where
  "demo_madt = [ProcessorApic 0 0 1, OtherRecord 1 [0, 0, 0, 0], ProcessorApic 1 2 1, AddressOverride 0xFEE01000]"

lemma demo_madt_encoded: "encode_items demo_madt = [0, 8, 0, 0, 1, 0, 0, 0, 1, 6, 0, 0, 0, 0, 0, 8, 1, 2, 1, 0, 0, 0,
    5, 12, 0, 0, 0x00, 0x10, 0xE0, 0xFE, 0, 0, 0, 0]"
  by (simp add: demo_madt_def encode_items_def byte_of_def upt_rec)

lemma madt_records_roundtrip_witness:
  "\<exists>h s'. madt_records 34 0x1000 (demo_apic h) = Some (Inr (0, s'))
    \<and> take 2 (ProcessorIds s') = [0, 2] \<and> ProcessorCount s' = 2 \<and> LocalApicPhysical s' = 0xFEE01000"
proof -
  obtain t where t: "contiguous (demo_host\<lparr>Tables := t\<rparr>) 0x1000 0x1000 0x1000"
    using demo_buffer by blast
  let ?h = "demo_host\<lparr>Tables := t, Physical := (\<lambda>a. encode_items demo_madt ! unat (a - 0x1000))\<rparr>"
  have l: "length (encode_items demo_madt) = 34"
    by (simp add: demo_madt_encoded)
  have "read_bytes 34 0x1000 ?h = Inr (map (\<lambda>j. Physical ?h (0x1000 + of_nat j)) [0 ..< 34])"
    using t by (intro read_bytes_mapped) (simp_all add: contiguous_def)
  also have "map (\<lambda>j. Physical ?h (0x1000 + of_nat j)) [0 ..< 34] = encode_items demo_madt"
    using l by (intro nth_equalityI) (simp_all add: unat_of_nat_u64)
  finally have "read_bytes (length (encode_items demo_madt)) 0x1000 (ApicHost (demo_apic ?h)) = Inr (encode_items demo_madt)"
    by (simp add: l demo_apic_def)
  then have "madt_records (int (length (encode_items demo_madt))) 0x1000 (demo_apic ?h)
    = Some (Inr (0, (put_ids (processor_ids demo_madt) (demo_apic ?h))
        \<lparr>LocalApicPhysical := final_address demo_madt (LocalApicPhysical (demo_apic ?h))\<rparr>))"
    by (rule madt_records_roundtrip) (simp_all add: demo_madt_def demo_apic_def processor_ids_def MaxProcessors_def)
  moreover have "processor_ids demo_madt = [0, 2]" "final_address demo_madt a = 0xFEE01000" for a
    by (simp_all add: demo_madt_def processor_ids_def)
  moreover have "take 2 (ProcessorIds (put_ids [0, 2] (demo_apic ?h))) = [0, 2]"
    "ProcessorCount (put_ids [0, 2] (demo_apic ?h)) = 2"
    by (simp_all add: put_ids_def demo_apic_def)
  ultimately show ?thesis
    by (intro exI [of _ ?h]) (simp add: l)
qed

end
