(* ===== verification/BmFont.thy ===== *)
theory BmFont
  imports Waiting CStrings DeviceVolumes
begin

text \<open>
  The bitmap fonts, \<^verbatim>\<open>src/kernel/font/details/bmfont.cpp\<close>: the font file is a list of bytes and a
  pointer into it the offset from its start; the pixels of the framebuffer are a list of 32 bit
  colours, the first at \<^verbatim>\<open>Base\<close>.
\<close>

section \<open>The font file\<close>

definition little_endian :: "u8 list \<Rightarrow> u64" where
  "little_endian bs = foldr (\<lambda>b v. ucast b OR push_bit 8 v) bs 0"

definition file_value :: "nat \<Rightarrow> u64 \<Rightarrow> u8 list \<Rightarrow> fault + u64" where
  "file_value n at file =
     (if unat at + n \<le> length file then Inr (little_endian (take n (drop (unat at) file)))
      else Inl OutOfBounds)"

record BMFont =
  FontFile :: "u8 list"
  TotalCharacters :: u32
  TotalKerningPairs :: u32
  FontHeader :: "u64 option"
  FontInfo :: "u64 option"
  FontCommon :: "u64 option"
  FontChars :: "u64 option"
  KerningPairs :: "u64 option"
  PageTextureData :: "u8 list option list"

definition sizeof_BMFontHeader :: u32 where "sizeof_BMFontHeader = 4"
definition sizeof_BMFontBlock :: u32 where "sizeof_BMFontBlock = 5"
definition sizeof_BMFontChar :: u64 where "sizeof_BMFontChar = 20"
definition sizeof_BMFontKerningPair :: u64 where "sizeof_BMFontKerningPair = 10"

text \<open>What the \<^verbatim>\<open>switch\<close> notes of a block with this number and this (signed) size.\<close>

definition note_block :: "u8 \<Rightarrow> u32 \<Rightarrow> u64 \<Rightarrow> BMFont \<Rightarrow> BMFont" where
  "note_block ident n at font =
     (if ident = 1 then font\<lparr>FontInfo := Some at\<rparr>
      else if ident = 2 then font\<lparr>FontCommon := Some at\<rparr>
      else if ident = 4 then
        font\<lparr>TotalCharacters := ucast ((scast n :: u64) div sizeof_BMFontChar), FontChars := Some at\<rparr>
      else if ident = 5 then
        font\<lparr>TotalKerningPairs := ucast ((scast n :: u64) div sizeof_BMFontKerningPair),
          KerningPairs := Some at\<rparr>
      else font)"

partial_function (option) load_blocks :: "u64 \<Rightarrow> u32 \<Rightarrow> BMFont \<Rightarrow> (fault + BMFont) option" where
  "load_blocks block left font =
     (if left > sizeof_BMFontBlock then
        io_bind (Some (file_value 1 block (FontFile font))) (\<lambda>ident.
        io_bind (Some (file_value 4 (block + 1) (FontFile font))) (\<lambda>size.
        let n = (ucast size :: u32); at = block + ucast sizeof_BMFontBlock in
        load_blocks (at + scast n) (left - sizeof_BMFontBlock - n) (note_block (ucast ident) n at font)))
      else Some (Inr font))"

definition BMFont_Load :: "u8 list \<Rightarrow> u32 \<Rightarrow> (fault + BMFont) option" where
  "BMFont_Load file FileSize =
     load_blocks (ucast sizeof_BMFontHeader) (FileSize - sizeof_BMFontHeader)
       \<lparr>FontFile = file, TotalCharacters = 0, TotalKerningPairs = 0, FontHeader = Some 0,
         FontInfo = None, FontCommon = None, FontChars = None, KerningPairs = None,
         PageTextureData = replicate 8 None\<rparr>"

section \<open>Glyphs\<close>

record BMFontChar =
  CharId :: u32
  CharX :: u16
  CharY :: u16
  CharWidth :: u16
  CharHeight :: u16
  XOffset :: int
  YOffset :: int
  XAdvance :: int
  CharPage :: u8
  CharChannel :: u8

definition int16 :: "u64 \<Rightarrow> int" where "int16 v = sint (ucast v :: u16)"

text \<open>The glyph with this index: \<^verbatim>\<open>Font->Chars[i]\<close>, packed in 20 bytes.\<close>

definition font_char :: "BMFont \<Rightarrow> u32 \<Rightarrow> fault + BMFontChar" where
  "font_char font i =
     (case FontChars font of
        None \<Rightarrow> Inl NullPointer
      | Some chars \<Rightarrow>
          let p = chars + sizeof_BMFontChar * ucast i; get = (\<lambda>n k. file_value n (p + k) (FontFile font)) in
          ok_bind (get 4 0) (\<lambda>ident.
          ok_bind (get 2 4) (\<lambda>x. ok_bind (get 2 6) (\<lambda>y.
          ok_bind (get 2 8) (\<lambda>width. ok_bind (get 2 10) (\<lambda>height.
          ok_bind (get 2 12) (\<lambda>xoffset. ok_bind (get 2 14) (\<lambda>yoffset.
          ok_bind (get 2 16) (\<lambda>advance.
          ok_bind (get 1 18) (\<lambda>page. ok_bind (get 1 19) (\<lambda>channel.
          Inr \<lparr>CharId = ucast ident, CharX = ucast x, CharY = ucast y, CharWidth = ucast width,
            CharHeight = ucast height, XOffset = int16 xoffset, YOffset = int16 yoffset,
            XAdvance = int16 advance, CharPage = ucast page, CharChannel = ucast channel\<rparr>)))))))))))"

partial_function (option) find_glyph :: "BMFont \<Rightarrow> u32 \<Rightarrow> u32 \<Rightarrow> u32 \<Rightarrow> (fault + u32 option) option" where
  "find_glyph font ident start finish =
     (if start \<le> finish then
        let mid = start + (finish - start) div 2 in
        io_bind (Some (font_char font mid)) (\<lambda>g.
        if CharId g = ident then Some (Inr (Some mid))
        else if CharId g < ident then find_glyph font ident (mid + 1) finish
        else if mid = 0 then Some (Inr None)
        else find_glyph font ident start (mid - 1))
      else Some (Inr None))"

definition BMFont_FindGlyph :: "BMFont \<Rightarrow> u32 \<Rightarrow> (fault + u32 option) option" where
  "BMFont_FindGlyph font ident = find_glyph font ident 0 (TotalCharacters font - 1)"

text \<open>The measures of a line of text and of the pages, from the common block.\<close>

definition common_value :: "u64 \<Rightarrow> BMFont \<Rightarrow> fault + u16" where
  "common_value k font =
     (case FontCommon font of
        None \<Rightarrow> Inl NullPointer
      | Some common \<Rightarrow> ok_bind (file_value 2 (common + k) (FontFile font)) (\<lambda>v. Inr (ucast v)))"

definition LineHeight :: "BMFont \<Rightarrow> fault + u16" where "LineHeight = common_value 0"
definition ScaleW :: "BMFont \<Rightarrow> fault + u16" where "ScaleW = common_value 4"

section \<open>Drawing a glyph\<close>

record BMFontColor =
  Red :: u8
  Green :: u8
  Blue :: u8

definition channel_mask :: "u8 \<Rightarrow> u32 \<times> nat" where
  "channel_mask channel =
     (if channel = 1 then (0x000000FF, 0)
      else if channel = 2 then (0x0000FF00, 8)
      else if channel = 4 then (0x00FF0000, 16)
      else if channel = 8 then (0xFF000000, 24)
      else (0xFFFFFF00, 0))"

definition glyph_color :: "BMFontColor \<Rightarrow> u32 \<Rightarrow> u32" where
  "glyph_color color cover =
     (let red = (ucast (Red color) * cover) div 255; green = (ucast (Green color) * cover) div 255;
          blue = (ucast (Blue color) * cover) div 255
      in blue OR push_bit 8 green OR push_bit 16 red)"

text \<open>
  A pixel of a picture, which is a file of four bytes for each pixel behind a header of 18 bytes.
\<close>

definition texel :: "u8 list option \<Rightarrow> u32 \<Rightarrow> fault + u32" where
  "texel picture i =
     (case picture of
        None \<Rightarrow> Inl NullPointer
      | Some bytes \<Rightarrow>
          if 18 + 4 * unat i + 4 \<le> length bytes
          then Inr (ucast (little_endian (take 4 (drop (18 + 4 * unat i) bytes))))
          else Inl OutOfBounds)"

definition put_glyph_pixel ::
  "BMFontChar \<Rightarrow> u8 list option \<Rightarrow> u32 \<Rightarrow> u32 \<Rightarrow> u32 \<Rightarrow> BMFontColor \<Rightarrow> int \<Rightarrow> int \<Rightarrow> nat \<Rightarrow> nat \<Rightarrow> u32 list \<Rightarrow>
   fault + u32 list" where
  "put_glyph_pixel g page pitch quad_pitch height color x y gx gy px =
     ok_bind (int32 (int gy + y)) (\<lambda>row.
     if row < 0 then Inr px
     else if row \<ge> sint height then Inr px
     else
       ok_bind (texel page ((of_nat gy + ucast (CharY g)) * pitch + of_nat gx + ucast (CharX g))) (\<lambda>t.
       let (mask, shift) = channel_mask (CharChannel g); cover = drop_bit shift (t AND mask) in
       if cover \<noteq> 0
       then array_set px (unat (of_int row * quad_pitch + of_nat gx + of_int x)) (glyph_color color cover)
       else Inr px))"

definition put_glyph_column ::
  "BMFontChar \<Rightarrow> u8 list option \<Rightarrow> u32 \<Rightarrow> FramebufferLayout \<Rightarrow> BMFontColor \<Rightarrow> int \<Rightarrow> int \<Rightarrow> nat \<Rightarrow> u32 list \<Rightarrow>
   fault + u32 list" where
  "put_glyph_column g page pitch fb color x y gx px =
     ok_bind (int32 (int gx + x)) (\<lambda>column.
     if column < 0 then Inr px
     else if column \<ge> sint (Width fb) then Inr px
     else
       each_ok (put_glyph_pixel g page pitch (Pitch fb div 4) (Height fb) color x y gx)
         [0 ..< unat (CharHeight g)] px)"

definition BMFont_RenderGlyph ::
  "BMFont \<Rightarrow> BMFontChar \<Rightarrow> FramebufferLayout \<Rightarrow> int \<Rightarrow> int \<Rightarrow> BMFontColor \<Rightarrow> u32 list \<Rightarrow> fault + u32 list" where
  "BMFont_RenderGlyph font g fb x y color px =
     ok_bind (array_get (PageTextureData font) (unat (CharPage g))) (\<lambda>page.
     ok_bind (ScaleW font) (\<lambda>scale.
     each_ok (put_glyph_column g page (ucast scale) fb color x y) [0 ..< unat (CharWidth g)] px))"

section \<open>Drawing text\<close>

record pen =
  PenX :: int
  PenY :: int
  NextOffset :: int
  BreakAfterChar :: int

text \<open>
  The width of the next word; where it grows wider than the framebuffer, the loop is left with
  the index of the character that no longer fits.
\<close>

fun word_pixels ::
  "BMFont \<Rightarrow> u32 \<Rightarrow> wstr \<Rightarrow> nat \<Rightarrow> nat \<Rightarrow> u32 \<Rightarrow> (fault + u32 \<times> nat option) option" where
  "word_pixels font width s k 0 len = Some (Inr (len, None))"
| "word_pixels font width s k (Suc n) len =
     io_bind (Some (array_get s k)) (\<lambda>c.
     io_bind (BMFont_FindGlyph font (ucast c)) (\<lambda>found.
     case found of
       None \<Rightarrow> word_pixels font width s (Suc k) n len
     | Some i \<Rightarrow>
         io_bind (Some (font_char font i)) (\<lambda>g.
         if len + of_int (XAdvance g) > width then Some (Inr (len, Some k))
         else word_pixels font width s (Suc k) n (len + of_int (XAdvance g)))))"

definition new_line :: "BMFont \<Rightarrow> int \<Rightarrow> pen \<Rightarrow> fault + pen" where
  "new_line font ReturnX p =
     ok_bind (LineHeight font) (\<lambda>h.
     ok_bind (int32 (PenY p + uint h)) (\<lambda>y. Inr (p\<lparr>PenX := ReturnX, PenY := y\<rparr>)))"

definition next_word :: "wstr \<Rightarrow> fault + int" where
  "next_word s =
     ok_bind (IndexOfWhitespace16 s 0) (\<lambda>n.
     if sint (ucast n :: u32) = - 1
     then ok_bind (strlen16 s) (\<lambda>n. Inr (sint (of_nat n :: u32)))
     else Inr (sint (ucast n :: u32)))"

text \<open>The look for a break before the next character; true is the \<^verbatim>\<open>continue\<close> on a new line.\<close>

definition look_ahead ::
  "BMFont \<Rightarrow> FramebufferLayout \<Rightarrow> int \<Rightarrow> wstr \<Rightarrow> pen \<Rightarrow> (fault + bool \<times> pen) option" where
  "look_ahead font fb ReturnX s p =
     (if NextOffset p = - 1 then
        io_bind (Some (next_word s)) (\<lambda>n.
        let p = p\<lparr>NextOffset := n\<rparr> in
        io_bind (word_pixels font (Width fb) s 0 (nat n) 0) (\<lambda>(len, stop).
        case stop of
          Some k \<Rightarrow> Some (Inr (False, p\<lparr>BreakAfterChar := int k\<rparr>))
        | None \<Rightarrow>
            if of_int (PenX p) + len > Width fb \<and> \<not> len > Width fb
            then io_bind (Some (new_line font ReturnX p)) (\<lambda>p. Some (Inr (True, p)))
            else Some (Inr (False, p))))
      else Some (Inr (False, p)))"

text \<open>A character is drawn as its glyph, or as the replacement character, or ends the text.\<close>

definition text_glyph :: "BMFont \<Rightarrow> u16 \<Rightarrow> (fault + u32 option) option" where
  "text_glyph font c =
     io_bind (BMFont_FindGlyph font (ucast c)) (\<lambda>found.
     case found of None \<Rightarrow> BMFont_FindGlyph font 0xFFFD | Some i \<Rightarrow> Some (Inr (Some i)))"

definition put_character ::
  "BMFont \<Rightarrow> FramebufferLayout \<Rightarrow> BMFontColor \<Rightarrow> BMFontChar \<Rightarrow> pen \<Rightarrow> u32 list \<Rightarrow> fault + pen \<times> u32 list" where
  "put_character font fb color g p px =
     ok_bind (int32 (PenX p + XOffset g)) (\<lambda>x.
     ok_bind (int32 (PenY p + YOffset g)) (\<lambda>y.
     ok_bind (BMFont_RenderGlyph font g fb x y color px) (\<lambda>px.
     ok_bind (int32 (PenX p + XAdvance g)) (\<lambda>x.
     Inr (p\<lparr>PenX := x,
       NextOffset := (if NextOffset p \<noteq> - 1 then NextOffset p - 1 else NextOffset p)\<rparr>, px)))))"

definition skip_space :: "wstr \<Rightarrow> fault + wstr" where
  "skip_space s = ok_bind (array_get s 0) (\<lambda>c. Inr (if c = 32 then tl s else s))"

partial_function (option) render_text ::
  "BMFont \<Rightarrow> FramebufferLayout \<Rightarrow> BMFontColor \<Rightarrow> int \<Rightarrow> wstr \<Rightarrow> pen \<Rightarrow> u32 list \<Rightarrow>
   (fault + int \<times> int \<times> u32 list) option" where
  "render_text font fb color ReturnX s p px =
     io_bind (Some (array_get s 0)) (\<lambda>c.
     if c = 0 then Some (Inr (PenX p, PenY p, px))
     else if c = 13 then render_text font fb color ReturnX (tl s) p px
     else
       io_bind (look_ahead font fb ReturnX s p) (\<lambda>ahead.
       if fst ahead then render_text font fb color ReturnX s (snd ahead) px
       else
         let counts = BreakAfterChar (snd ahead) \<noteq> - 1;
             p = (if counts then (snd ahead)\<lparr>BreakAfterChar := BreakAfterChar (snd ahead) - 1\<rparr> else snd ahead)
         in
         if counts \<and> BreakAfterChar p = 0 then
           io_bind (Some (new_line font ReturnX (p\<lparr>BreakAfterChar := - 1, NextOffset := - 1\<rparr>))) (\<lambda>p.
           render_text font fb color ReturnX s p px)
         else if c = 10 then
           io_bind (Some (new_line font ReturnX (p\<lparr>BreakAfterChar := - 1\<rparr>))) (\<lambda>p.
           io_bind (Some (skip_space (tl s))) (\<lambda>s.
           render_text font fb color ReturnX s p px))
         else
           io_bind (text_glyph font c) (\<lambda>found.
           case found of
             None \<Rightarrow> Some (Inr (PenX p, PenY p, px))
           | Some i \<Rightarrow>
               io_bind (Some (font_char font i)) (\<lambda>g.
               io_bind (Some (put_character font fb color g p px)) (\<lambda>q.
               render_text font fb color ReturnX (tl s) (fst q) (snd q))))))"

definition BMFont_Render ::
  "BMFont \<Rightarrow> FramebufferLayout \<Rightarrow> int \<Rightarrow> int \<Rightarrow> int \<Rightarrow> wstr \<Rightarrow> BMFontColor \<Rightarrow> u32 list \<Rightarrow>
   (fault + int \<times> int \<times> u32 list) option" where
  "BMFont_Render font fb StartX StartY ReturnX s color px =
     render_text font fb color ReturnX s
       \<lparr>PenX = StartX, PenY = StartY, NextOffset = - 1, BreakAfterChar = - 1\<rparr> px"

end
