(* ===== verification/Pixels.thy ===== *)
theory Pixels
  imports Waiting
begin

text \<open>
  Drawing into a list of pixels: the effect of a drawing loop is one map from the positions that
  it paints to their colours.
\<close>

definition paint :: "(nat \<Rightarrow> 'c option) \<Rightarrow> 'c list \<Rightarrow> 'c list" where
  "paint f px = map (\<lambda>i. case f i of None \<Rightarrow> px ! i | Some c \<Rightarrow> c) [0 ..< length px]"

lemma length_paint [simp]: "length (paint f px) = length px"
  by (simp add: paint_def)

lemma nth_paint [simp]: "i < length px \<Longrightarrow> paint f px ! i = (case f i of None \<Rightarrow> px ! i | Some c \<Rightarrow> c)"
  by (simp add: paint_def del: upt_Suc split: option.splits)

lemma paint_empty [simp]: "paint (\<lambda>i. None) px = px"
  by (rule nth_equalityI) simp_all

lemma paint_single: "px[p := c] = paint (\<lambda>i. if i = p then Some c else None) px"
  by (rule nth_equalityI) (auto simp: nth_list_update)

lemma paint_paint: "paint g (paint f px) = paint (f ++ g) px"
  by (rule nth_equalityI) (auto simp: map_add_def split: option.splits)

text \<open>A loop whose rounds each paint a part of the picture g paints g.\<close>

lemma each_paint_part:
  assumes "\<And>i px. i \<in> set is \<Longrightarrow> length px = n \<Longrightarrow> body i px = Inr (paint (part i) px)"
    and "\<And>i. i \<in> set is \<Longrightarrow> part i \<subseteq>\<^sub>m g"
    and "length px = n"
  shows "each_ok body is px = Inr (paint (\<lambda>p. if \<exists>i \<in> set is. p \<in> dom (part i) then g p else None) px)"
  using assms
proof (induction "is" arbitrary: px)
  case (Cons i "is")
  have "part i ++ (\<lambda>p. if \<exists>i \<in> set is. p \<in> dom (part i) then g p else None) =
    (\<lambda>p. if \<exists>i \<in> set (i # is). p \<in> dom (part i) then g p else None)"
    using Cons.prems(2) [of i]
    by (rule_tac ext) (auto simp: map_add_def map_le_def dom_def split: option.splits)
  moreover have "each_ok body is (paint (part i) px) =
    Inr (paint (\<lambda>p. if \<exists>i \<in> set is. p \<in> dom (part i) then g p else None) (paint (part i) px))"
    using Cons.prems by (intro Cons.IH) simp_all
  ultimately show ?case using Cons.prems by (simp add: paint_paint)
qed simp

lemma each_paint:
  assumes "\<And>i px. i \<in> set is \<Longrightarrow> length px = n \<Longrightarrow> body i px = Inr (paint (part i) px)"
    and "\<And>i. i \<in> set is \<Longrightarrow> part i \<subseteq>\<^sub>m g"
    and "\<And>p. p \<in> dom g \<Longrightarrow> \<exists>i \<in> set is. p \<in> dom (part i)"
    and "length px = n"
  shows "each_ok body is px = Inr (paint g px)"
proof -
  have "(if \<exists>i \<in> set is. p \<in> dom (part i) then g p else None) = g p" for p
    using assms(3) [of p] by (cases "g p") auto
  then have "(\<lambda>p. if \<exists>i \<in> set is. p \<in> dom (part i) then g p else None) = g" by (rule ext)
  then show ?thesis using each_paint_part [OF assms(1,2,4)] by simp
qed

text \<open>A loop of which each round paints the positions with its own key paints all that have a key.\<close>

lemma each_paint_key:
  assumes "\<And>i px. i \<in> set is \<Longrightarrow> length px = n \<Longrightarrow>
      body i px = Inr (paint (\<lambda>p. if P p \<and> key p = i then g p else None) px)"
    and "\<And>p. p \<in> dom g \<Longrightarrow> P p \<Longrightarrow> key p \<in> set is"
    and "length px = n"
  shows "each_ok body is px = Inr (paint (\<lambda>p. if P p then g p else None) px)"
proof (rule each_paint [where part = "\<lambda>i p. if P p \<and> key p = i then g p else None"])
  fix p assume "p \<in> dom (\<lambda>p. if P p then g p else None)"
  then show "\<exists>i \<in> set is. p \<in> dom (\<lambda>p. if P p \<and> key p = i then g p else None)"
    using assms(2) [of p] by (intro bexI [of _ "key p"]) (auto simp: domIff split: if_splits)
qed (use assms in \<open>auto simp: map_le_def split: if_splits\<close>)

text \<open>The same for drawing that looks at the old colour, when no two rounds draw at one position.\<close>

definition repaint :: "(nat \<Rightarrow> 'c \<Rightarrow> 'c) \<Rightarrow> 'c list \<Rightarrow> 'c list" where
  "repaint f px = map (\<lambda>i. f i (px ! i)) [0 ..< length px]"

lemma length_repaint [simp]: "length (repaint f px) = length px"
  by (simp add: repaint_def)

lemma nth_repaint [simp]: "i < length px \<Longrightarrow> repaint f px ! i = f i (px ! i)"
  by (simp add: repaint_def del: upt_Suc)

lemma repaint_same [simp]: "repaint (\<lambda>p c. c) px = px"
  by (rule nth_equalityI) simp_all

lemma repaint_single:
  "p < length px \<Longrightarrow> px[p := f (px ! p)] = repaint (\<lambda>i c. if i = p then f c else c) px"
  by (rule nth_equalityI) (auto simp: nth_list_update)

lemma repaint_repaint: "repaint g (repaint f px) = repaint (\<lambda>p c. g p (f p c)) px"
  by (rule nth_equalityI) auto

lemma each_repaint_key:
  assumes "\<And>i px. i \<in> set is \<Longrightarrow> length px = n \<Longrightarrow>
      body i px = Inr (repaint (\<lambda>p c. if P p \<and> key p = i then g p c else c) px)"
    and "distinct is" and "length px = n"
  shows "each_ok body is px = Inr (repaint (\<lambda>p c. if P p \<and> key p \<in> set is then g p c else c) px)"
  using assms
proof (induction "is" arbitrary: px)
  case (Cons i "is")
  have "(\<lambda>p c. if P p \<and> key p \<in> set is then g p (if P p \<and> key p = i then g p c else c)
      else (if P p \<and> key p = i then g p c else c)) =
    (\<lambda>p c. if P p \<and> key p \<in> set (i # is) then g p c else c)"
    using Cons.prems(2) by (intro ext) auto
  moreover have "each_ok body is (repaint (\<lambda>p c. if P p \<and> key p = i then g p c else c) px) =
    Inr (repaint (\<lambda>p c. if P p \<and> key p \<in> set is then g p c else c)
      (repaint (\<lambda>p c. if P p \<and> key p = i then g p c else c) px))"
    using Cons.prems by (intro Cons.IH) simp_all
  ultimately show ?case using Cons.prems by (simp add: repaint_repaint)
qed simp

text \<open>A round that faults whatever was drawn before makes the loop fault.\<close>

lemma each_ok_faults:
  assumes "i \<in> set is" and "\<And>px. length px = n \<Longrightarrow> \<not> returns (body i px)"
    and "\<And>j px px'. length px = n \<Longrightarrow> body j px = Inr px' \<Longrightarrow> length px' = n" and "length px = n"
  shows "\<not> returns (each_ok body is px)"
  using assms(1,4)
proof (induction "is" arbitrary: px)
  case (Cons j "is")
  show ?case
  proof (cases "body j px")
    case (Inr px')
    moreover have "\<not> returns (body i px)" by (rule assms(2) [OF Cons.prems(2)])
    ultimately have "i \<noteq> j" by auto
    then show ?thesis using Cons.IH Cons.prems Inr assms(3) [OF Cons.prems(2) Inr] by simp
  qed simp
qed simp

section \<open>Pictures by row and column\<close>

text \<open>A picture of rows of q positions, of which the columns below width and rows below height show.\<close>

definition picture :: "nat \<Rightarrow> nat \<Rightarrow> nat \<Rightarrow> (int \<Rightarrow> int \<Rightarrow> 'c option) \<Rightarrow> nat \<Rightarrow> 'c option" where
  "picture q width height f p =
     (if p mod q < width \<and> p div q < height then f (int (p mod q)) (int (p div q)) else None)"

lemma picture_at:
  assumes "col < width" and "row < height" and "width \<le> q"
  shows "picture q width height f (row * q + col) = f (int col) (int row)"
  using assms by (simp add: picture_def)

lemma position_of:
  fixes p q col row :: nat
  assumes "col < q"
  shows "p = row * q + col \<longleftrightarrow> p div q = row \<and> p mod q = col"
  using assms by (auto simp: div_mult_mod_eq)

lemma position_inside:
  fixes q :: nat
  assumes "row < height" and "col < q" and "height * q \<le> n"
  shows "row * q + col < n"
proof -
  have "Suc row * q \<le> height * q" using assms(1) by (intro mult_le_mono1) simp
  then show ?thesis using assms(2,3) by simp
qed

end
