(* ===== verification/BmFontCorrect.thy ===== *)
theory BmFontCorrect
  imports BmFont Pixels CStringsCorrect
begin

text \<open>
  The search for a glyph is the linear search of its table, the drawing of a glyph changes just
  the pixels under it, and text is drawn glyph after glyph.
\<close>

section \<open>The search\<close>

text \<open>The numbers of the characters in the order of the table.\<close>

definition glyph_table :: "BMFont \<Rightarrow> u32 list \<Rightarrow> bool" where
  "glyph_table font ids \<longleftrightarrow>
     length ids = unat (TotalCharacters font) \<and>
     list_all (\<lambda>i. case font_char font (of_nat i) of Inl e \<Rightarrow> False | Inr g \<Rightarrow> CharId g = ids ! i)
       [0 ..< length ids]"

lemma glyph_tableD:
  assumes "glyph_table font ids" and "i < length ids"
  obtains g where "font_char font (of_nat i) = Inr g" and "CharId g = ids ! i"
proof -
  have "case font_char font (of_nat i) of Inl e \<Rightarrow> False | Inr g \<Rightarrow> CharId g = ids ! i"
    using assms by (simp add: glyph_table_def list_all_iff)
  then show thesis using that by (auto split: sum.splits)
qed

lemma middle_word:
  fixes a b :: u32
  assumes "a \<le> b"
  shows "unat (a + (b - a) div 2) = unat a + (unat b - unat a) div 2"
proof -
  have "unat ((b - a) div 2) = (unat b - unat a) div 2"
    using assms by (simp add: unat_div unat_sub word_le_nat_alt)
  moreover have "unat b < 2 ^ 32" using unsigned_less [of b, where ?'a = nat] by simp
  then have "unat a + (unat b - unat a) div 2 < 2 ^ 32"
    using assms by (simp add: word_le_nat_alt)
  ultimately show ?thesis by (simp add: unat_word_ariths)
qed

lemma find_glyph_search:
  assumes "glyph_table font ids" and "sorted_wrt (<) ids" and "unat finish < length ids"
    and "\<forall>i < unat start. ids ! i < c" and "\<forall>i. unat finish < i \<and> i < length ids \<longrightarrow> c < ids ! i"
  shows "\<exists>r. find_glyph font c start finish = Some (Inr r) \<and>
    (case r of None \<Rightarrow> c \<notin> set ids | Some m \<Rightarrow> unat m < length ids \<and> ids ! unat m = c)"
  using assms(3,4,5)
proof (induction "unat finish + 1 - unat start" arbitrary: start finish rule: less_induct)
  case less
  have small: "length ids \<le> 2 ^ 32 - 1"
    using assms(1) unsigned_less [of "TotalCharacters font", where ?'a = nat] by (simp add: glyph_table_def)
  show ?case
  proof (cases "start \<le> finish")
    case False
    then have "unat finish < unat start" by (simp add: word_le_nat_alt)
    then have "ids ! i < c \<or> c < ids ! i" if "i < length ids" for i
      using less.prems(2,3) that by (cases "i < unat start") auto
    then have "c \<notin> set ids" by (fastforce simp: in_set_conv_nth)
    with False show ?thesis by (subst find_glyph.simps) simp
  next
    case True
    define mid where "mid = start + (finish - start) div 2"
    have m: "unat mid = unat start + (unat finish - unat start) div 2"
      unfolding mid_def by (rule middle_word [OF True])
    have le: "unat start \<le> unat finish" using True by (simp add: word_le_nat_alt)
    have between: "unat start \<le> unat mid" "unat mid \<le> unat finish" using m le by auto
    have inside: "unat mid < length ids" using between less.prems(1) by simp
    obtain g where g: "font_char font mid = Inr g" "CharId g = ids ! unat mid"
      using glyph_tableD [OF assms(1) inside] by auto
    have order: "ids ! i < ids ! j" if "i < j" "j < length ids" for i j
      using sorted_wrt_nth_less [OF assms(2) that(1,2)] .
    have step: "find_glyph font c start finish =
      (if CharId g = c then Some (Inr (Some mid))
       else if CharId g < c then find_glyph font c (mid + 1) finish
       else if mid = 0 then Some (Inr None) else find_glyph font c start (mid - 1))"
      using True g(1) by (subst find_glyph.simps) (simp add: mid_def Let_def)
    consider "CharId g = c" | "CharId g < c" | "c < CharId g" by fastforce
    then show ?thesis
    proof cases
      case 1
      then show ?thesis using step g(2) inside by simp
    next
      case 2
      have up: "unat (mid + 1) = Suc (unat mid)"
        using inside small by (simp add: unat_word_ariths)
      have "ids ! i < c" if "i \<le> unat mid" for i
        using 2 g(2) order [of i "unat mid"] inside that by (cases "i = unat mid") auto
      then have "\<exists>r. find_glyph font c (mid + 1) finish = Some (Inr r) \<and>
        (case r of None \<Rightarrow> c \<notin> set ids | Some m \<Rightarrow> unat m < length ids \<and> ids ! unat m = c)"
        using less.prems between le
        by (intro less.hyps) (auto simp: up less_Suc_eq_le)
      with 2 step show ?thesis by auto
    next
      case 3
      have above: "c < ids ! i" if "unat mid \<le> i" "i < length ids" for i
        using 3 g(2) order [of "unat mid" i] that by (cases "i = unat mid") auto
      show ?thesis
      proof (cases "mid = 0")
        case True
        then have "c \<notin> set ids" using above by (auto simp: in_set_conv_nth)
        with 3 step True show ?thesis by auto
      next
        case False
        then have down: "unat (mid - 1) = unat mid - 1" "0 < unat mid"
          by (simp_all add: unat_minus_one unat_gt_0)
        then have "\<exists>r. find_glyph font c start (mid - 1) = Some (Inr r) \<and>
          (case r of None \<Rightarrow> c \<notin> set ids | Some m \<Rightarrow> unat m < length ids \<and> ids ! unat m = c)"
          using less.prems between le inside above
          by (intro less.hyps) auto
        with 3 step False show ?thesis by auto
      qed
    qed
  qed
qed

lemma find_index_unique:
  assumes "sorted_wrt (<) (ids :: u32 list)" and "m < length ids"
  shows "List.find (\<lambda>i. ids ! i = ids ! m) [0 ..< length ids] = Some m"
proof -
  have "distinct ids" using assms(1) by (simp add: strict_sorted_iff)
  then show ?thesis using assms(2) by (auto simp: find_Some_iff nth_eq_iff_index_eq)
qed

lemma FindGlyph_search:
  assumes "glyph_table font ids" and "sorted_wrt (<) ids" and "ids \<noteq> []"
  shows "BMFont_FindGlyph font c =
    Some (Inr (map_option of_nat (List.find (\<lambda>i. ids ! i = c) [0 ..< length ids])))"
proof -
  have n: "length ids = unat (TotalCharacters font)" using assms(1) by (simp add: glyph_table_def)
  then have "TotalCharacters font \<noteq> 0" using assms(3) by auto
  then have "unat (TotalCharacters font - 1) = length ids - 1"
    using n by (simp add: unat_minus_one)
  then have "\<exists>r. BMFont_FindGlyph font c = Some (Inr r) \<and>
    (case r of None \<Rightarrow> c \<notin> set ids | Some m \<Rightarrow> unat m < length ids \<and> ids ! unat m = c)"
    unfolding BMFont_FindGlyph_def using assms(3)
    by (intro find_glyph_search [OF assms(1,2)]) auto
  then obtain r where r: "BMFont_FindGlyph font c = Some (Inr r)"
    "case r of None \<Rightarrow> c \<notin> set ids | Some m \<Rightarrow> unat m < length ids \<and> ids ! unat m = c"
    by blast
  show ?thesis
  proof (cases r)
    case None
    then have "List.find (\<lambda>i. ids ! i = c) [0 ..< length ids] = None"
      using r(2) by (auto simp: find_None_iff in_set_conv_nth)
    with r None show ?thesis by simp
  next
    case (Some m)
    then have "List.find (\<lambda>i. ids ! i = c) [0 ..< length ids] = Some (unat m)"
      using r(2) find_index_unique [OF assms(2), of "unat m"] by auto
    with r Some show ?thesis by simp
  qed
qed

section \<open>Drawing a glyph\<close>

text \<open>The part of a glyph that its channel of the page covers, and the colour that this makes.\<close>

definition glyph_cover :: "BMFontChar \<Rightarrow> u8 list option \<Rightarrow> nat \<Rightarrow> nat \<Rightarrow> nat \<Rightarrow> u32" where
  "glyph_cover g page scale gx gy =
     (case texel page (of_nat ((gy + unat (CharY g)) * scale + gx + unat (CharX g))) of
        Inl e \<Rightarrow> 0
      | Inr t \<Rightarrow> drop_bit (snd (channel_mask (CharChannel g))) (t AND fst (channel_mask (CharChannel g))))"

definition glyph_ink ::
  "BMFontChar \<Rightarrow> u8 list option \<Rightarrow> nat \<Rightarrow> BMFontColor \<Rightarrow> int \<Rightarrow> int \<Rightarrow> int \<Rightarrow> int \<Rightarrow> u32 option" where
  "glyph_ink g page scale color x y col row =
     (if x \<le> col \<and> col < x + uint (CharWidth g) \<and> y \<le> row \<and> row < y + uint (CharHeight g) \<and>
         glyph_cover g page scale (nat (col - x)) (nat (row - y)) \<noteq> 0
      then Some (glyph_color color (glyph_cover g page scale (nat (col - x)) (nat (row - y))))
      else None)"

text \<open>The page shows the whole glyph.\<close>

definition on_page :: "BMFontChar \<Rightarrow> u8 list option \<Rightarrow> nat \<Rightarrow> bool" where
  "on_page g page scale \<longleftrightarrow>
     list_all (\<lambda>gy. list_all (\<lambda>gx.
       returns (texel page (of_nat ((gy + unat (CharY g)) * scale + gx + unat (CharX g)))))
       [0 ..< unat (CharWidth g)]) [0 ..< unat (CharHeight g)]"

text \<open>The framebuffer has its rows in memory and its measures are those of a screen.\<close>

definition framebuffer_ok :: "FramebufferLayout \<Rightarrow> nat \<Rightarrow> bool" where
  "framebuffer_ok fb n \<longleftrightarrow>
     unat (Width fb) \<le> unat (Pitch fb div 4) \<and> unat (Height fb) * unat (Pitch fb div 4) \<le> n \<and>
     unat (Height fb) < 2 ^ 31 \<and> unat (Width fb) < 2 ^ 31 \<and>
     unat (Height fb) * unat (Pitch fb div 4) < 2 ^ 32"

lemma sint_small:
  assumes "unat (w :: u32) < 2 ^ 31"
  shows "sint w = int (unat w)"
proof -
  have "signed_take_bit 31 (uint w) = uint w"
  proof (rule signed_take_bit_int_eq_self)
    have "int (unat w) < int (2 ^ 31)" using assms by (simp only: of_nat_less_iff)
    then show "uint w < 2 ^ 31" by simp
  qed (simp add: order_trans [OF _ uint_ge_0])
  then show ?thesis by (simp add: sint_uint)
qed

lemma int32_in: "- (2 ^ 31) \<le> i \<Longrightarrow> i < 2 ^ 31 \<Longrightarrow> int32 i = Inr i"
  by (simp add: int32_def)

lemma output_position:
  fixes q :: u32
  assumes "0 \<le> row" and "0 \<le> col" and "nat row * unat q + nat col < 2 ^ 32"
  shows "unat (of_int row * q + of_int col :: u32) = nat row * unat q + nat col"
proof -
  have "of_int row * q + of_int col = (of_nat (nat row * unat q + nat col) :: u32)"
    using assms(1,2) by simp
  then show ?thesis using assms(3) by (simp only: unat_of_nat) simp
qed

lemma put_glyph_pixel_paints:
  assumes "framebuffer_ok fb (length px)" and "on_page g page (unat scale)"
    and "gx < unat (CharWidth g)" and "gy < unat (CharHeight g)"
    and "0 \<le> int gx + x" and "int gx + x < int (unat (Width fb))"
    and "- (2 ^ 31) \<le> y" and "y < 2 ^ 31 - 65536"
  shows "put_glyph_pixel g page scale (Pitch fb div 4) (Height fb) color x y gx gy px =
    Inr (paint (\<lambda>p. if int (p mod unat (Pitch fb div 4)) = int gx + x \<and>
        int (p div unat (Pitch fb div 4)) = int gy + y
      then picture (unat (Pitch fb div 4)) (unat (Width fb)) (unat (Height fb))
        (glyph_ink g page (unat scale) color x y) p else None) px)"
proof -
  define q w h where "q = unat (Pitch fb div 4)" and "w = unat (Width fb)" and "h = unat (Height fb)"
  have fb: "w \<le> q" "h * q \<le> length px" "h * q < 2 ^ 32" "sint (Height fb) = int h"
    using assms(1) by (simp_all add: framebuffer_ok_def sint_small q_def w_def h_def)
  have xw: "int gx + x < int w" unfolding w_def by (rule assms(6))
  have "gy < 65536" using assms(4) unsigned_less [of "CharHeight g", where ?'a = nat] by simp
  then have row: "int32 (int gy + y) = Inr (int gy + y)" using assms(7,8) by (intro int32_in) auto
  define t where "t = glyph_cover g page (unat scale) gx gy"
  define ink where "ink = glyph_ink g page (unat scale) color x y"
  have index: "(of_nat gy + ucast (CharY g)) * scale + of_nat gx + ucast (CharX g) =
    (of_nat ((gy + unat (CharY g)) * unat scale + gx + unat (CharX g)) :: u32)"
    by simp
  have "returns (texel page (of_nat ((gy + unat (CharY g)) * unat scale + gx + unat (CharX g))))"
    using assms(2-4) by (simp add: on_page_def list_all_iff)
  then obtain v where v: "texel page (of_nat ((gy + unat (CharY g)) * unat scale + gx + unat (CharX g))) = Inr v"
    by (auto simp: returns_iff)
  have ink: "ink (int gx + x) (int gy + y) = (if t \<noteq> 0 then Some (glyph_color color t) else None)"
    proof -
    have "int gx < uint (CharWidth g)" "int gy < uint (CharHeight g)"
      using assms(3,4) by (simp_all only: uint_nat of_nat_less_iff)
    then show ?thesis by (simp add: ink_def glyph_ink_def t_def)
  qed
  show ?thesis
  proof (cases "0 \<le> int gy + y \<and> int gy + y < int h")
    case False
    then have "(\<lambda>p. if int (p mod q) = int gx + x \<and> int (p div q) = int gy + y
      then picture q w h ink p else None) = (\<lambda>p. None)"
      by (intro ext) (auto simp: picture_def)
    with False row fb(4) show ?thesis
      unfolding q_def [symmetric] w_def [symmetric] h_def [symmetric] ink_def [symmetric]
      by (auto simp: put_glyph_pixel_def)
  next
    case True
    define p0 where "p0 = nat (int gy + y) * q + nat (int gx + x)"
    have col: "nat (int gx + x) < w" "nat (int gx + x) < q" using assms(5) xw fb(1) by auto
    have "nat (int gy + y) < h" using True by auto
    then have p0: "p0 < length px" "p0 < h * q"
      unfolding p0_def using col(2) fb(2) by (auto intro!: position_inside [where height = h])
    have out: "unat (of_int (int gy + y) * (Pitch fb div 4) + of_nat gx + of_int x) = p0"
      using output_position [of "int gy + y" "int gx + x" "Pitch fb div 4"] True assms(5) p0(2) fb(3)
      by (simp add: p0_def q_def ac_simps)
    have here: "p = p0 \<longleftrightarrow> int (p mod q) = int gx + x \<and> int (p div q) = int gy + y" for p
      unfolding p0_def position_of [OF col(2)] using True assms(5) by auto
    have single: "(\<lambda>p. if int (p mod q) = int gx + x \<and> int (p div q) = int gy + y
        then picture q w h ink p else None) = (\<lambda>p. if p = p0 \<and> t \<noteq> 0 then Some (glyph_color color t) else None)"
      unfolding here [symmetric] using True xw here [of p0] ink by (intro ext) (auto simp: picture_def)
    have "put_glyph_pixel g page scale (Pitch fb div 4) (Height fb) color x y gx gy px =
      (if t \<noteq> 0 then array_set px p0 (glyph_color color t) else Inr px)"
      using True row fb(4) v out unfolding put_glyph_pixel_def index
      by (simp add: t_def glyph_cover_def case_prod_beta Let_def)
    also have "\<dots> = Inr (paint (\<lambda>p. if p = p0 \<and> t \<noteq> 0 then Some (glyph_color color t) else None) px)"
      using p0(1) by (simp add: paint_single)
    finally show ?thesis
      unfolding q_def [symmetric] w_def [symmetric] h_def [symmetric] ink_def [symmetric] single .
  qed
qed

lemma put_glyph_column_paints:
  assumes "framebuffer_ok fb (length px)" and "on_page g page (unat scale)"
    and "gx < unat (CharWidth g)"
    and "- (2 ^ 31) \<le> x" and "x < 2 ^ 31 - 65536"
    and "- (2 ^ 31) \<le> y" and "y < 2 ^ 31 - 65536"
  shows "put_glyph_column g page scale fb color x y gx px =
    Inr (paint (\<lambda>p. if int (p mod unat (Pitch fb div 4)) = int gx + x
      then picture (unat (Pitch fb div 4)) (unat (Width fb)) (unat (Height fb))
        (glyph_ink g page (unat scale) color x y) p else None) px)"
proof -
  define q w h where "q = unat (Pitch fb div 4)" and "w = unat (Width fb)" and "h = unat (Height fb)"
  define ink where "ink = glyph_ink g page (unat scale) color x y"
  note folds = q_def [symmetric] w_def [symmetric] h_def [symmetric] ink_def [symmetric]
  have width: "sint (Width fb) = int w"
    using assms(1) by (simp add: framebuffer_ok_def sint_small w_def)
  have "gx < 65536" using assms(3) unsigned_less [of "CharWidth g", where ?'a = nat] by simp
  then have column: "int32 (int gx + x) = Inr (int gx + x)" using assms(4,5) by (intro int32_in) auto
  show ?thesis
  proof (cases "0 \<le> int gx + x \<and> int gx + x < int w")
    case False
    then have "(\<lambda>p. if int (p mod q) = int gx + x then picture q w h ink p else None) = (\<lambda>p. None)"
      by (intro ext) (auto simp: picture_def)
    with False column width show ?thesis
      unfolding folds by (auto simp: put_glyph_column_def)
  next
    case True
    let ?part = "\<lambda>gy p. if int (p mod q) = int gx + x \<and> int (p div q) = int gy + y then picture q w h ink p else None"
    let ?all = "\<lambda>p. if int (p mod q) = int gx + x then picture q w h ink p else None"
    have "each_ok (put_glyph_pixel g page scale (Pitch fb div 4) (Height fb) color x y gx)
        [0 ..< unat (CharHeight g)] px = Inr (paint ?all px)"
    proof (rule each_paint [where n = "length px" and part = ?part])
      fix gy and px' :: "u32 list" assume "gy \<in> set [0 ..< unat (CharHeight g)]" and "length px' = length px"
      then show "put_glyph_pixel g page scale (Pitch fb div 4) (Height fb) color x y gx gy px' =
        Inr (paint (?part gy) px')"
        using put_glyph_pixel_paints [of fb px' g page scale gx gy x y color] assms True
        unfolding folds by simp
    next
      fix p assume "p \<in> dom ?all"
      then obtain c where c: "int (p mod q) = int gx + x" "ink (int (p mod q)) (int (p div q)) = Some c"
        by (auto simp: picture_def split: if_splits)
      then have row: "y \<le> int (p div q)" "int (p div q) < y + uint (CharHeight g)"
        by (auto simp: ink_def glyph_ink_def split: if_splits)
      have "nat (int (p div q) - y) < unat (CharHeight g)" using row by (simp add: nat_less_iff)
      with row \<open>p \<in> dom ?all\<close> show "\<exists>gy \<in> set [0 ..< unat (CharHeight g)]. p \<in> dom (?part gy)"
        by (intro bexI [of _ "nat (int (p div q) - y)"]) (auto split: if_splits)
    qed (auto simp: map_le_def split: if_splits)
    with True column width show ?thesis
      unfolding folds by (simp add: put_glyph_column_def)
  qed
qed

lemma RenderGlyph_paints:
  assumes "framebuffer_ok fb (length px)"
    and "unat (CharPage g) < length (PageTextureData font)" and "ScaleW font = Inr scale"
    and "on_page g (PageTextureData font ! unat (CharPage g)) (unat scale)"
    and "- (2 ^ 31) \<le> x" and "x < 2 ^ 31 - 65536"
    and "- (2 ^ 31) \<le> y" and "y < 2 ^ 31 - 65536"
  shows "BMFont_RenderGlyph font g fb x y color px =
    Inr (paint (picture (unat (Pitch fb div 4)) (unat (Width fb)) (unat (Height fb))
      (glyph_ink g (PageTextureData font ! unat (CharPage g)) (unat scale) color x y)) px)"
proof -
  define q w h where "q = unat (Pitch fb div 4)" and "w = unat (Width fb)" and "h = unat (Height fb)"
  define page where "page = PageTextureData font ! unat (CharPage g)"
  define ink where "ink = glyph_ink g page (unat scale) color x y"
  note folds = q_def [symmetric] w_def [symmetric] h_def [symmetric] page_def [symmetric] ink_def [symmetric]
  have scale: "unat (ucast scale :: u32) = unat scale"
    using unsigned_less [of scale, where ?'a = nat] by (simp add: unsigned_ucast_eq take_bit_nat_eq_self)
  let ?part = "\<lambda>gx p. if int (p mod q) = int gx + x then picture q w h ink p else None"
  have "each_ok (put_glyph_column g page (ucast scale) fb color x y) [0 ..< unat (CharWidth g)] px =
    Inr (paint (picture q w h ink) px)"
  proof (rule each_paint [where n = "length px" and part = ?part])
    fix gx and px' :: "u32 list" assume "gx \<in> set [0 ..< unat (CharWidth g)]" and "length px' = length px"
    then show "put_glyph_column g page (ucast scale) fb color x y gx px' = Inr (paint (?part gx) px')"
      using put_glyph_column_paints [of fb px' g page "ucast scale" gx x y color] assms
      unfolding scale folds by simp
  next
    fix p assume "p \<in> dom (picture q w h ink)"
    then obtain c where c: "ink (int (p mod q)) (int (p div q)) = Some c"
      by (auto simp: picture_def split: if_splits)
    then have col: "x \<le> int (p mod q)" "int (p mod q) < x + uint (CharWidth g)"
      by (auto simp: ink_def glyph_ink_def split: if_splits)
    have "nat (int (p mod q) - x) < unat (CharWidth g)" using col by (simp add: nat_less_iff)
    with col \<open>p \<in> dom (picture q w h ink)\<close> show "\<exists>gx \<in> set [0 ..< unat (CharWidth g)]. p \<in> dom (?part gx)"
      by (intro bexI [of _ "nat (int (p mod q) - x)"]) auto
  qed (auto simp: map_le_def split: if_splits)
  then show ?thesis
    using assms(2,3) unfolding folds by (simp add: BMFont_RenderGlyph_def page_def)
qed

section \<open>The property\<close>

text \<open>
  The search for a glyph, which halves the table of a font, finds what a linear search of the
  table finds: with a table in ascending order and not empty, the index of the one glyph with the
  number of the character, or nothing when there is none; it ends and reads only inside the table.
\<close>

theorem BMFont_FindGlyph_linear_search:
  assumes "glyph_table font ids" and "sorted_wrt (<) ids" and "ids \<noteq> []"
  shows "BMFont_FindGlyph font c =
    Some (Inr (map_option of_nat (List.find (\<lambda>i. ids ! i = c) [0 ..< length ids])))"
  by (rule FindGlyph_search [OF assms])

end
