(* ===== verification/TextCorrect.thy ===== *)
theory TextCorrect
  imports BmFontCorrect
begin

text \<open>
  Text on the screen: a text that fits the line is drawn glyph after glyph, and the drawing of any
  text comes to an end.
\<close>

section \<open>The glyph of a character\<close>

definition char_glyph :: "BMFont \<Rightarrow> u16 \<Rightarrow> BMFontChar option" where
  "char_glyph font c =
     (case BMFont_FindGlyph font (ucast c) of
        Some (Inr (Some i)) \<Rightarrow> (case font_char font i of Inl e \<Rightarrow> None | Inr g \<Rightarrow> Some g)
      | _ \<Rightarrow> None)"

lemma char_glyphE:
  assumes "char_glyph font c = Some g"
  obtains i where "BMFont_FindGlyph font (ucast c) = Some (Inr (Some i))" and "font_char font i = Inr g"
  using assms by (auto simp: char_glyph_def split: option.splits sum.splits)

lemma int16_range: "- 32768 \<le> int16 v \<and> int16 v < 32768"
  using sint_ge [of "ucast v :: u16"] sint_lt [of "ucast v :: u16"] by (simp add: int16_def)

lemma font_char_range:
  assumes "font_char font i = Inr g"
  shows "- 32768 \<le> XOffset g" "XOffset g < 32768" "- 32768 \<le> YOffset g" "YOffset g < 32768"
    "XAdvance g < 32768"
  using assms int16_range by (auto simp: font_char_def Let_def ok_bind_eq_Inr split: option.splits)

section \<open>A text on one line\<close>

abbreviation advance :: "BMFont \<Rightarrow> u16 \<Rightarrow> int" where
  "advance font c \<equiv> XAdvance (the (char_glyph font c))"

text \<open>The picture of the glyph of a character with the pen at this place.\<close>

definition character_ink :: "BMFont \<Rightarrow> FramebufferLayout \<Rightarrow> BMFontColor \<Rightarrow> int \<Rightarrow> int \<Rightarrow> u16 \<Rightarrow> nat \<Rightarrow> u32 option" where
  "character_ink font fb color x y c =
     (let g = the (char_glyph font c); scale = (case ScaleW font of Inl e \<Rightarrow> 0 | Inr w \<Rightarrow> unat w) in
      picture (unat (Pitch fb div 4)) (unat (Width fb)) (unat (Height fb))
        (glyph_ink g (PageTextureData font ! unat (CharPage g)) scale color (x + XOffset g) (y + YOffset g)))"

fun draw_line :: "BMFont \<Rightarrow> FramebufferLayout \<Rightarrow> BMFontColor \<Rightarrow> int \<Rightarrow> int \<Rightarrow> u16 list \<Rightarrow> u32 list \<Rightarrow> u32 list" where
  "draw_line font fb color x y [] px = px"
| "draw_line font fb color x y (c # cs) px =
     draw_line font fb color (x + advance font c) y cs (paint (character_ink font fb color x y c) px)"

text \<open>The glyph is in the font, does not step back, and is on its page.\<close>

definition drawable :: "BMFont \<Rightarrow> u16 \<Rightarrow> bool" where
  "drawable font c \<longleftrightarrow>
     (case (char_glyph font c, ScaleW font) of
        (Some g, Inr scale) \<Rightarrow>
          0 \<le> XAdvance g \<and> unat (CharPage g) < length (PageTextureData font) \<and>
          on_page g (PageTextureData font ! unat (CharPage g)) (unat scale)
      | _ \<Rightarrow> False)"

lemma drawableE:
  assumes "drawable font c"
  obtains g scale where "char_glyph font c = Some g" and "ScaleW font = Inr scale" and "0 \<le> XAdvance g"
    and "unat (CharPage g) < length (PageTextureData font)"
    and "on_page g (PageTextureData font ! unat (CharPage g)) (unat scale)"
  using assms by (auto simp: drawable_def split: option.splits sum.splits)

abbreviation text_width :: "BMFont \<Rightarrow> u16 list \<Rightarrow> int" where
  "text_width font cs \<equiv> sum_list (map (advance font) cs)"

lemma text_width_nonneg: "list_all (drawable font) cs \<Longrightarrow> 0 \<le> text_width font cs"
  by (induction cs) (auto elim!: drawableE)

lemma word_pixels_fits:
  assumes "list_all (drawable font) cs" and "n \<le> length cs" and "drop k s = cs @ rest"
    and "uint len + text_width font cs \<le> uint width"
  shows "word_pixels font width s k n len = Some (Inr (len + of_int (text_width font (take n cs)), None))"
  using assms
proof (induction n arbitrary: k len cs)
  case (Suc n)
  then obtain c cs' where cs: "cs = c # cs'" by (cases cs) auto
  obtain g where g: "char_glyph font c = Some g" "0 \<le> XAdvance g"
    using Suc.prems(1) cs by (auto elim: drawableE)
  obtain i where i: "BMFont_FindGlyph font (ucast c) = Some (Inr (Some i))" "font_char font i = Inr g"
    using g(1) by (rule char_glyphE)
  have "drop k s \<noteq> []" using Suc.prems(3) cs by simp
  then have k: "k < length s" by simp
  have "s ! k = drop k s ! 0" using k by simp
  then have here: "s ! k = c" using Suc.prems(3) cs by simp
  have rest: "drop (Suc k) s = cs' @ rest"
    using Suc.prems(3) cs k by (metis Cons_nth_drop_Suc append_Cons list.inject)
  have nn: "0 \<le> text_width font cs'" using Suc.prems(1) cs by (intro text_width_nonneg) simp
  have fits: "uint len + XAdvance g \<le> uint width" using Suc.prems(4) cs g nn by simp
  have new: "uint (len + of_int (XAdvance g)) = uint len + XAdvance g"
  proof -
    have "uint (len + of_int (XAdvance g)) = (uint len + XAdvance g) mod 2 ^ 32"
      by (simp add: uint_word_ariths uint_word_of_int mod_add_right_eq)
    moreover have "uint len + XAdvance g < 2 ^ 32" using fits uint_lt2p [of width] by simp
    ultimately show ?thesis using g(2) by simp
  qed
  then have le: "\<not> len + of_int (XAdvance g) > width"
    using fits by (simp add: word_less_def)
  have "word_pixels font width s (Suc k) n (len + of_int (XAdvance g)) =
    Some (Inr (len + of_int (XAdvance g) + of_int (text_width font (take n cs')), None))"
    using Suc.prems cs rest new g by (intro Suc.IH) simp_all
  then show ?case using k here i le cs g by (simp add: ac_simps)
qed simp

lemma sint_of_nat_small: "n < 2 ^ 31 \<Longrightarrow> sint (of_nat n :: u32) = int n"
  using sint_small [of "of_nat n"] by (simp add: unat_of_nat)

lemma next_word_inside:
  assumes "0 \<notin> set cs" and "length cs < 2 ^ 31"
  shows "next_word (cs @ 0 # rest) =
    Inr (int (length (takeWhile (\<lambda>c. \<not> is_whitespace c) cs)))"
proof -
  let ?s = "cs @ 0 # rest" and ?n = "length (takeWhile (\<lambda>c. \<not> is_whitespace c) cs)"
  have "takeWhile (\<lambda>c. c \<noteq> 0) ?s = cs"
    using assms(1) by (subst takeWhile_append2) auto
  then have found: "IndexOfWhitespace16 ?s 0 = (if ?n < length cs then Inr (of_nat ?n) else Inr (- 1))"
    using find_index_first [of ?s 0 is_whitespace]
    by (simp add: IndexOfWhitespace16_def terminated_def Let_def)
  have n: "?n \<le> length cs" by (rule length_takeWhile_le)
  have len: "strlen16 ?s = Inr (length cs)"
    using assms(1) by (simp add: strlen16_def strlen_loop_c_string c_string_append)
  show ?thesis
  proof (cases "?n < length cs")
    case True
    have "sint (ucast (of_nat ?n :: u64) :: u32) = int ?n"
      using True assms(2) by (simp add: unsigned_of_nat take_bit_nat_eq_self sint_of_nat_small)
    with True found show ?thesis by (simp add: next_word_def)
  next
    case False
    then have "?n = length cs" using n by simp
    moreover have "(ucast (- 1 :: u64) :: u32) = - 1"
      by (rule bit_word_eqI) (simp add: bit_ucast_iff)
    ultimately show ?thesis using False found len assms(2) by (simp add: next_word_def sint_of_nat_small)
  qed
qed

lemma look_ahead_fits:
  assumes "0 \<notin> set cs" and "length cs < 2 ^ 31" and "list_all (drawable font) cs"
    and "0 \<le> PenX p" and "PenX p + text_width font cs \<le> uint (Width fb)" and "BreakAfterChar p = - 1"
  shows "\<exists>n. look_ahead font fb ReturnX (cs @ 0 # rest) p = Some (Inr (False, p\<lparr>NextOffset := n\<rparr>))"
proof (cases "NextOffset p = - 1")
  case False
  then have "look_ahead font fb ReturnX (cs @ 0 # rest) p = Some (Inr (False, p\<lparr>NextOffset := NextOffset p\<rparr>))"
    by (simp add: look_ahead_def)
  then show ?thesis by blast
next
  case True
  define n where "n = length (takeWhile (\<lambda>c. \<not> is_whitespace c) cs)"
  have n: "n \<le> length cs" unfolding n_def by (rule length_takeWhile_le)
  define len where "len = text_width font (take n cs)"
  have "text_width font cs = len + text_width font (drop n cs)"
    unfolding len_def by (metis append_take_drop_id map_append sum_list_append)
  moreover have "list_all (drawable font) (take n cs)" "list_all (drawable font) (drop n cs)"
    using assms(3) by (auto simp: list_all_iff dest: in_set_takeD in_set_dropD)
  ultimately have len: "0 \<le> len" "PenX p + len \<le> uint (Width fb)"
    using text_width_nonneg [of font "take n cs"] text_width_nonneg [of font "drop n cs"] assms(5)
    by (simp_all add: len_def)
  have word: "word_pixels font (Width fb) (cs @ 0 # rest) 0 n 0 = Some (Inr (of_int len, None))"
    using word_pixels_fits [OF assms(3) n, of 0 "cs @ 0 # rest" "0 # rest" 0 "Width fb"] assms(4,5)
    by (simp add: len_def)
  have "uint (of_int (PenX p) + of_int len :: u32) = (PenX p + len) mod 2 ^ 32"
    by (simp add: uint_word_ariths uint_word_of_int mod_add_eq)
  also have "\<dots> = PenX p + len"
    using len assms(4) uint_lt2p [of "Width fb"] by simp
  finally have "\<not> of_int (PenX p) + of_int len > Width fb"
    using len by (simp add: word_less_def)
  then have "look_ahead font fb ReturnX (cs @ 0 # rest) p = Some (Inr (False, p\<lparr>NextOffset := int n\<rparr>))"
    using True word next_word_inside [OF assms(1,2), of rest]
    by (simp add: look_ahead_def n_def [symmetric])
  then show ?thesis by blast
qed

lemma put_character_paints:
  assumes "framebuffer_ok fb (length px)" and "drawable font c" and "char_glyph font c = Some g"
    and "0 \<le> PenX p" and "PenX p < 2 ^ 30" and "0 \<le> PenY p" and "PenY p < 2 ^ 30"
  shows "\<exists>n. put_character font fb color g p px =
    Inr (p\<lparr>PenX := PenX p + XAdvance g, NextOffset := n\<rparr>,
         paint (character_ink font fb color (PenX p) (PenY p) c) px)"
proof -
  obtain i where "font_char font i = Inr g" using assms(3) by (rule char_glyphE)
  note range = font_char_range [OF this]
  obtain scale where scale: "ScaleW font = Inr scale" "0 \<le> XAdvance g"
    "unat (CharPage g) < length (PageTextureData font)"
    "on_page g (PageTextureData font ! unat (CharPage g)) (unat scale)"
    using assms(2,3) by (auto elim: drawableE)
  have "int32 (PenX p + XOffset g) = Inr (PenX p + XOffset g)"
    "int32 (PenY p + YOffset g) = Inr (PenY p + YOffset g)"
    "int32 (PenX p + XAdvance g) = Inr (PenX p + XAdvance g)"
    using range scale(2) assms(4-7) by (auto intro!: int32_in)
  moreover have "BMFont_RenderGlyph font g fb (PenX p + XOffset g) (PenY p + YOffset g) color px =
    Inr (paint (character_ink font fb color (PenX p) (PenY p) c) px)"
    using RenderGlyph_paints [OF assms(1) scale(3,1,4), of "PenX p + XOffset g" "PenY p + YOffset g" color]
      range assms(3-7) scale(1) by (simp add: character_ink_def Let_def)
  ultimately show ?thesis by (auto simp: put_character_def)
qed

lemma render_text_fits:
  assumes "framebuffer_ok fb (length px)" and "list_all (drawable font) cs"
    and "0 \<notin> set cs" and "10 \<notin> set cs" and "13 \<notin> set cs" and "length cs < 2 ^ 31"
    and "0 \<le> PenX p" and "PenX p + text_width font cs \<le> uint (Width fb)" and "uint (Width fb) < 2 ^ 30"
    and "0 \<le> PenY p" and "PenY p < 2 ^ 30" and "BreakAfterChar p = - 1"
  shows "render_text font fb color ReturnX (cs @ 0 # rest) p px =
    Some (Inr (PenX p + text_width font cs, PenY p, draw_line font fb color (PenX p) (PenY p) cs px))"
  using assms
proof (induction cs arbitrary: p px)
  case Nil
  then show ?case by (subst render_text.simps) simp
next
  case (Cons c cs)
  obtain g where g: "char_glyph font c = Some g" "0 \<le> XAdvance g"
    using Cons.prems(2) by (auto elim: drawableE)
  obtain i where i: "BMFont_FindGlyph font (ucast c) = Some (Inr (Some i))" "font_char font i = Inr g"
    using g(1) by (rule char_glyphE)
  have nn: "0 \<le> text_width font cs" using Cons.prems(2) by (intro text_width_nonneg) simp
  obtain n where ahead: "look_ahead font fb ReturnX (c # cs @ 0 # rest) p = Some (Inr (False, p\<lparr>NextOffset := n\<rparr>))"
    using look_ahead_fits [OF Cons.prems(3,6,2,7,8,12), of ReturnX rest] by auto
  have small: "PenX p < 2 ^ 30" using Cons.prems(7,8,9) g nn by simp
  let ?px = "paint (character_ink font fb color (PenX p) (PenY p) c) px"
  obtain m where put: "put_character font fb color g (p\<lparr>NextOffset := n\<rparr>) px =
    Inr (p\<lparr>PenX := PenX p + XAdvance g, NextOffset := m\<rparr>, ?px)"
    using put_character_paints [of fb px font c g "p\<lparr>NextOffset := n\<rparr>" color] Cons.prems g(1) small
    by auto
  have "render_text font fb color ReturnX (cs @ 0 # rest) (p\<lparr>PenX := PenX p + XAdvance g, NextOffset := m\<rparr>) ?px =
    Some (Inr (PenX p + XAdvance g + text_width font cs, PenY p,
      draw_line font fb color (PenX p + XAdvance g) (PenY p) cs ?px))"
    using Cons.IH [of ?px "p\<lparr>PenX := PenX p + XAdvance g, NextOffset := m\<rparr>"] Cons.prems g by simp
  then show ?case
    using Cons.prems(3-5,12) ahead i put g(1)
    by (subst render_text.simps) (simp add: text_glyph_def)
qed

section \<open>The drawing ends\<close>

text \<open>
  No glyph steps back and two of them always fit the width of the framebuffer.  Without this a
  break after the first glyph is followed by the next for ever.
\<close>

definition narrow_font :: "BMFont \<Rightarrow> u32 list \<Rightarrow> u32 \<Rightarrow> bool" where
  "narrow_font font ids width \<longleftrightarrow>
     glyph_table font ids \<and> sorted_wrt (<) ids \<and> ids \<noteq> [] \<and>
     list_all (\<lambda>i. case font_char font (of_nat i) of Inl e \<Rightarrow> True
       | Inr g \<Rightarrow> 0 \<le> XAdvance g \<and> 2 * XAdvance g \<le> uint width) [0 ..< length ids]"

lemma narrow_glyph:
  assumes "narrow_font font ids width"
  obtains "BMFont_FindGlyph font c = Some (Inr None)"
  | i g where "BMFont_FindGlyph font c = Some (Inr (Some i))" and "font_char font i = Inr g"
      and "0 \<le> XAdvance g" and "2 * XAdvance g \<le> uint width"
proof (cases "List.find (\<lambda>i. ids ! i = c) [0 ..< length ids]")
  case None
  then show thesis using FindGlyph_search [of font ids c] assms that(1) by (simp add: narrow_font_def)
next
  case (Some i)
  then have i: "i < length ids" by (auto simp: find_Some_iff)
  obtain g where g: "font_char font (of_nat i) = Inr g"
    using assms i by (auto simp: narrow_font_def elim: glyph_tableD)
  moreover have "case font_char font (of_nat i) of Inl e \<Rightarrow> True
    | Inr g \<Rightarrow> 0 \<le> XAdvance g \<and> 2 * XAdvance g \<le> uint width"
    using assms i by (simp add: narrow_font_def list_all_iff)
  ultimately show thesis
    using FindGlyph_search [of font ids c] assms Some that(2) by (simp add: narrow_font_def)
qed

lemma word_pixels_stop:
  assumes "narrow_font font ids width" and "k < 2 \<longrightarrow> 2 * uint len \<le> int k * uint width"
    and "k + n = m" and "m \<le> length s"
  shows "\<exists>l stop. word_pixels font width s k n len = Some (Inr (l, stop)) \<and>
    (case stop of None \<Rightarrow> True | Some j \<Rightarrow> 2 \<le> j \<and> j < m)"
  using assms(2,3)
proof (induction n arbitrary: k len)
  case (Suc n)
  then have k: "k < length s" using assms(4) by simp
  show ?case
  proof (cases rule: narrow_glyph [OF assms(1), of "ucast (s ! k)", case_names Missing Found])
    case Missing
    have "k < 2 \<longrightarrow> int k * uint width \<le> int (Suc k) * uint width"
      by (simp add: mult_right_mono)
    then have "Suc k < 2 \<longrightarrow> 2 * uint len \<le> int (Suc k) * uint width" using Suc.prems(1) by auto
    then have "\<exists>l stop. word_pixels font width s (Suc k) n len = Some (Inr (l, stop)) \<and>
      (case stop of None \<Rightarrow> True | Some j \<Rightarrow> 2 \<le> j \<and> j < m)"
      using Suc.prems(2) by (intro Suc.IH) auto
    with k Missing show ?thesis by simp
  next
    case (Found i g)
    have new: "2 * uint (len + of_int (XAdvance g)) \<le> int (Suc k) * uint width"
      "uint (len + of_int (XAdvance g)) \<le> uint width" if "k < 2"
    proof -
      have "2 * (uint len + XAdvance g) \<le> int (Suc k) * uint width"
        using Suc.prems(1) Found(4) that by (simp add: algebra_simps)
      moreover have "uint (len + of_int (XAdvance g)) \<le> uint len + XAdvance g"
        using Found(3) by (simp add: uint_word_ariths uint_word_of_int mod_add_right_eq zmod_le_nonneg_dividend)
      moreover have "int (Suc k) * uint width \<le> 2 * uint width"
        using that by (intro mult_right_mono) auto
      ultimately show "2 * uint (len + of_int (XAdvance g)) \<le> int (Suc k) * uint width"
        "uint (len + of_int (XAdvance g)) \<le> uint width" by simp_all
    qed
    show ?thesis
    proof (cases "len + of_int (XAdvance g) > width")
      case True
      then have "\<not> k < 2" using new(2) by (auto simp: word_less_def)
      with True k Found Suc.prems(2) show ?thesis by simp
    next
      case False
      have "\<exists>l stop. word_pixels font width s (Suc k) n (len + of_int (XAdvance g)) = Some (Inr (l, stop)) \<and>
        (case stop of None \<Rightarrow> True | Some j \<Rightarrow> 2 \<le> j \<and> j < m)"
        using Suc.prems new(1) by (intro Suc.IH) auto
      with False k Found show ?thesis by simp
    qed
  qed
qed simp

definition pen_ok :: "pen \<Rightarrow> bool" where
  "pen_ok p \<longleftrightarrow> BreakAfterChar p = - 1 \<or> 1 \<le> BreakAfterChar p \<and> BreakAfterChar p < NextOffset p"

definition pen_rank :: "pen \<Rightarrow> nat" where
  "pen_rank p = (if NextOffset p = - 1 then 1 else if BreakAfterChar p = 1 then 2 else 0)"

lemma new_line_keeps:
  assumes "new_line font ReturnX p = Inr q"
  shows "NextOffset q = NextOffset p" "BreakAfterChar q = BreakAfterChar p"
  using assms by (auto simp: new_line_def ok_bind_eq_Inr)

lemma look_ahead_steps:
  assumes "narrow_font font ids (Width fb)" and "terminated s" and "length s \<le> 2 ^ 31" and "pen_ok p"
  obtains e where "look_ahead font fb ReturnX s p = Some (Inl e)"
  | q where "look_ahead font fb ReturnX s p = Some (Inr (True, q))" and "pen_ok q"
      and "pen_rank q < pen_rank p"
  | q where "look_ahead font fb ReturnX s p = Some (Inr (False, q))" and "pen_ok q"
      and "NextOffset q \<noteq> - 1" and "BreakAfterChar q = 1 \<longrightarrow> q = p"
proof (cases "NextOffset p = - 1")
  case False
  then show thesis using that(3) [of p] assms(4) by (simp add: look_ahead_def)
next
  case True
  then have brk: "BreakAfterChar p = - 1" using assms(4) by (auto simp: pen_ok_def)
  obtain x t where s: "s = x @ 0 # t" "0 \<notin> set x" using assms(2) by (rule terminatedE)
  define n where "n = length (takeWhile (\<lambda>c. \<not> is_whitespace c) x)"
  have n: "n \<le> length x" unfolding n_def by (rule length_takeWhile_le)
  have word: "next_word s = Inr (int n)"
    using next_word_inside [of x t] s assms(3) by (simp add: n_def)
  obtain l stop where pixels: "word_pixels font (Width fb) s 0 n 0 = Some (Inr (l, stop))"
    "case stop of None \<Rightarrow> True | Some j \<Rightarrow> 2 \<le> j \<and> j < n"
    using word_pixels_stop [OF assms(1), of 0 0 n n s] n s(1) by auto
  have run: "look_ahead font fb ReturnX s p = (case stop of
      Some k \<Rightarrow> Some (Inr (False, p\<lparr>NextOffset := int n, BreakAfterChar := int k\<rparr>))
    | None \<Rightarrow>
        if of_int (PenX p) + l > Width fb \<and> \<not> l > Width fb
        then io_bind (Some (new_line font ReturnX (p\<lparr>NextOffset := int n\<rparr>))) (\<lambda>p. Some (Inr (True, p)))
        else Some (Inr (False, p\<lparr>NextOffset := int n\<rparr>)))"
    using True word pixels(1) by (cases stop) (simp_all add: look_ahead_def Let_def)
  show thesis
  proof (cases stop)
    case (Some k)
    then show thesis
      using that(3) [of "p\<lparr>NextOffset := int n, BreakAfterChar := int k\<rparr>"] run pixels(2)
      by (simp add: pen_ok_def)
  next
    case None
    show thesis
    proof (cases "of_int (PenX p) + l > Width fb \<and> \<not> l > Width fb")
      case wrap: True
      show thesis
      proof (cases "new_line font ReturnX (p\<lparr>NextOffset := int n\<rparr>)")
        case (Inl e)
        then show thesis using that(1) [of e] run None wrap by simp
      next
        case (Inr q)
        from new_line_keeps [OF Inr] show thesis
          using that(2) [of q] run None wrap Inr brk True by (simp add: pen_ok_def pen_rank_def)
      qed
    next
      case False
      have "look_ahead font fb ReturnX s p = Some (Inr (False, p\<lparr>NextOffset := int n\<rparr>))"
        unfolding run None by (simp only: option.case if_not_P [OF False])
      then show thesis using that(3) [of "p\<lparr>NextOffset := int n\<rparr>"] brk by (simp add: pen_ok_def)
    qed
  qed
qed

lemma terminated_tl:
  assumes "terminated s" and "s ! 0 \<noteq> 0"
  shows "terminated (tl s)" "length (tl s) < length s" "s \<noteq> []"
  using assms by (cases s; auto simp: terminated_def)+

lemma terminated_head: "terminated s \<Longrightarrow> array_get s 0 = Inr (s ! 0)"
  by (cases s) (auto simp: terminated_def)

lemma text_glyph_finds:
  assumes "narrow_font font ids width"
  shows "\<exists>found. text_glyph font c = Some (Inr found) \<and>
    (case found of None \<Rightarrow> True | Some i \<Rightarrow> returns (font_char font i))"
  by (cases rule: narrow_glyph [OF assms, of "ucast c"]; cases rule: narrow_glyph [OF assms, of "0xFFFD"])
    (simp_all add: text_glyph_def)

lemma put_character_pen:
  assumes "put_character font fb color g p px = Inr q" and "pen_ok p" and "NextOffset p \<noteq> - 1"
    and "BreakAfterChar p \<noteq> - 1 \<longrightarrow> BreakAfterChar p + 1 < NextOffset p"
  shows "pen_ok (fst q)" "pen_rank (fst q) \<le> 2"
  using assms by (auto simp: put_character_def ok_bind_eq_Inr pen_ok_def pen_rank_def)

text \<open>One round of the loop on a character that is drawn or ends a line, and the count to the break.\<close>

definition counted :: "pen \<Rightarrow> pen" where
  "counted p = (if BreakAfterChar p \<noteq> - 1 then p\<lparr>BreakAfterChar := BreakAfterChar p - 1\<rparr> else p)"

lemma counted_steps:
  assumes "pen_ok p"
  shows "NextOffset (counted p) = NextOffset p"
    "BreakAfterChar p \<noteq> - 1 \<Longrightarrow> BreakAfterChar (counted p) = BreakAfterChar p - 1 \<and> 1 \<le> BreakAfterChar p \<and>
      BreakAfterChar p < NextOffset p"
    "BreakAfterChar p = - 1 \<Longrightarrow> BreakAfterChar (counted p) = - 1"
    "\<not> (BreakAfterChar p \<noteq> - 1 \<and> BreakAfterChar (counted p) = 0) \<Longrightarrow>
      pen_ok (counted p) \<and> (BreakAfterChar (counted p) \<noteq> - 1 \<longrightarrow> BreakAfterChar (counted p) + 1 < NextOffset p)"
  using assms by (auto simp: counted_def pen_ok_def)

lemma render_text_go:
  assumes "terminated s" and "s ! 0 \<noteq> 0" and "s ! 0 \<noteq> 13"
    and "look_ahead font fb ReturnX s p = Some (Inr (False, q))"
  shows "render_text font fb color ReturnX s p px =
    (let r = counted q in
     if BreakAfterChar q \<noteq> - 1 \<and> BreakAfterChar r = 0 then
       io_bind (Some (new_line font ReturnX (r\<lparr>BreakAfterChar := - 1, NextOffset := - 1\<rparr>))) (\<lambda>p.
       render_text font fb color ReturnX s p px)
     else if s ! 0 = 10 then
       io_bind (Some (new_line font ReturnX (r\<lparr>BreakAfterChar := - 1\<rparr>))) (\<lambda>p.
       io_bind (Some (skip_space (tl s))) (\<lambda>s.
       render_text font fb color ReturnX s p px))
     else
       io_bind (text_glyph font (s ! 0)) (\<lambda>found.
       case found of
         None \<Rightarrow> Some (Inr (PenX r, PenY r, px))
       | Some i \<Rightarrow>
           io_bind (Some (font_char font i)) (\<lambda>g.
           io_bind (Some (put_character font fb color g r px)) (\<lambda>q.
           render_text font fb color ReturnX (tl s) (fst q) (snd q)))))"
  using assms(2-4) terminated_head [OF assms(1)] unfolding counted_def
  by (subst render_text.simps) (simp add: Let_def del: pen.update_convs)

lemma render_text_go_ends:
  assumes "narrow_font font ids (Width fb)" and "terminated s" and "s ! 0 \<noteq> 0" and "s ! 0 \<noteq> 13"
    and "look_ahead font fb ReturnX s p = Some (Inr (False, q))" and "pen_ok q" and "NextOffset q \<noteq> - 1"
    and same: "\<And>n. BreakAfterChar q = 1 \<Longrightarrow> pen_ok n \<Longrightarrow> pen_rank n \<le> 1 \<Longrightarrow>
      ends_io (render_text font fb color ReturnX s n px)"
    and tail: "\<And>u n px. terminated u \<Longrightarrow> length u \<le> length (tl s) \<Longrightarrow> pen_ok n \<Longrightarrow> pen_rank n \<le> 2 \<Longrightarrow>
      ends_io (render_text font fb color ReturnX u n px)"
  shows "ends_io (render_text font fb color ReturnX s p px)"
proof -
  define r where "r = counted q"
  note step = render_text_go [OF assms(2-5), of color px, folded r_def, unfolded Let_def]
  note r = counted_steps [OF assms(6), folded r_def]
  note tl = terminated_tl [OF assms(2,3)]
  consider (break) "BreakAfterChar q \<noteq> - 1" "BreakAfterChar r = 0"
    | (line) "\<not> (BreakAfterChar q \<noteq> - 1 \<and> BreakAfterChar r = 0)" "s ! 0 = 10"
    | (char) "\<not> (BreakAfterChar q \<noteq> - 1 \<and> BreakAfterChar r = 0)" "s ! 0 \<noteq> 10" by blast
  then show ?thesis
  proof cases
    case break
    have "ends_io (render_text font fb color ReturnX s n px)"
      if "new_line font ReturnX (r\<lparr>BreakAfterChar := - 1, NextOffset := - 1\<rparr>) = Inr n" for n
      using new_line_keeps [OF that] break r(2) by (intro same) (auto simp: pen_ok_def pen_rank_def)
    then show ?thesis using break unfolding step by (auto intro!: ends_io_bind)
  next
    case line
    have "ends_io (render_text font fb color ReturnX u n px)"
      if "new_line font ReturnX (r\<lparr>BreakAfterChar := - 1\<rparr>) = Inr n" and "skip_space (tl s) = Inr u" for n u
    proof (rule tail)
      have "u = (if tl s ! 0 = 32 then tl (tl s) else tl s)"
        using that(2) terminated_head [OF tl(1)] by (simp add: skip_space_def)
      then show "terminated u" "length u \<le> length (tl s)" using tl(1) terminated_tl [OF tl(1)] by auto
    qed (use new_line_keeps [OF that(1)] in \<open>simp_all add: pen_ok_def pen_rank_def\<close>)
    then show ?thesis using line unfolding step by (auto intro!: ends_io_bind)
  next
    case char
    have "ends_io (render_text font fb color ReturnX (tl s) (fst n) (snd n))"
      if "put_character font fb color g r px = Inr n" for g n
      using put_character_pen [OF that] r(1) r(4) [OF char(1)] assms(7) tl(1) by (intro tail) auto
    moreover obtain found where "text_glyph font (s ! 0) = Some (Inr found)"
      "case found of None \<Rightarrow> True | Some i \<Rightarrow> returns (font_char font i)"
      using text_glyph_finds [OF assms(1)] by blast
    ultimately show ?thesis
      using char unfolding step by (auto intro!: ends_io_bind split: option.splits)
  qed
qed

lemma render_text_ends:
  assumes "narrow_font font ids (Width fb)" and "terminated s" and "length s \<le> 2 ^ 31" and "pen_ok p"
  shows "ends_io (render_text font fb color ReturnX s p px)"
  using assms(2-4)
proof (induction "3 * length s + pen_rank p" arbitrary: s p px rule: less_induct)
  case less
  note head = terminated_head [OF less.prems(1)]
  show ?case
  proof (cases "s ! 0 = 0")
    case True
    then show ?thesis using head by (subst render_text.simps) simp
  next
    case False
    note tl = terminated_tl [OF less.prems(1) False]
    have shorter: "3 * length (tl s) + 3 \<le> 3 * length s" using tl(2) by simp
    have tail: "ends_io (render_text font fb color ReturnX u q px')"
      if "terminated u" "length u \<le> length (tl s)" "pen_ok q" "pen_rank q \<le> pen_rank p + 2" for u q px'
      using that shorter less.prems(2) by (intro less.hyps) auto
    show ?thesis
    proof (cases "s ! 0 = 13")
      case True
      then show ?thesis using head tail [of "tl s" p px] tl less.prems(3) by (subst render_text.simps) simp
    next
      case ordinary: False
      show ?thesis
      proof (cases rule: look_ahead_steps [OF assms(1) less.prems, of ReturnX, case_names Fault Wrap Go])
        case (Fault e)
        then show ?thesis using head False ordinary by (subst render_text.simps) simp
      next
        case (Wrap q)
        have "ends_io (render_text font fb color ReturnX s q px)"
          using Wrap less.prems by (intro less.hyps) auto
        then show ?thesis using Wrap(1) head False ordinary by (subst render_text.simps) simp
      next
        case (Go q)
        show ?thesis
        proof (rule render_text_go_ends [OF assms(1) less.prems(1) False ordinary Go(1-3)])
          fix n assume "BreakAfterChar q = 1" and "pen_ok n" and "pen_rank n \<le> 1"
          then show "ends_io (render_text font fb color ReturnX s n px)"
            using Go(3,4) less.prems by (intro less.hyps) (auto simp: pen_rank_def)
        qed (use tail in auto)
      qed
    qed
  qed
qed

section \<open>The properties\<close>

text \<open>
  C40: A text without line ends that fits between the pen and the right edge is drawn on that line
  without a break: every glyph at the sum of the widths before it, each pixel of the framebuffer
  changed exactly where a glyph covers it on the screen, and the pen advanced by the width of the
  text.  Every character is one of the font, steps forward, and is on its page; the pen starts
  inside the framebuffer's range of coordinates, and the framebuffer has its rows in memory.
\<close>

theorem BMFont_Render_line:
  assumes "framebuffer_ok fb (length px)" and "uint (Width fb) < 2 ^ 30"
    and "list_all (drawable font) cs" and "list_all (\<lambda>c. c \<notin> {0, 10, 13}) cs" and "length cs < 2 ^ 31"
    and "0 \<le> StartX" and "StartX + text_width font cs \<le> uint (Width fb)"
    and "0 \<le> StartY" and "StartY < 2 ^ 30"
  shows "BMFont_Render font fb StartX StartY ReturnX (cs @ 0 # rest) color px =
    Some (Inr (StartX + text_width font cs, StartY, draw_line font fb color StartX StartY cs px))"
proof -
  have "0 \<notin> set cs" "10 \<notin> set cs" "13 \<notin> set cs" using assms(4) by (auto simp: list_all_iff)
  then show ?thesis
    using render_text_fits [OF assms(1,3)] assms(2,5-9) by (simp add: BMFont_Render_def)
qed

text \<open>
  The drawing of a text comes to an end, with a picture or a fault, for every text that is
  shorter than the greatest \<^verbatim>\<open>int\<close> and every pen position, when the font has a sorted table and
  two of its glyphs always fit the width of the framebuffer: the code breaks a long word after one
  character less than fits, so with room for a single glyph it would break without end.
\<close>

theorem BMFont_Render_ends:
  assumes "narrow_font font ids (Width fb)" and "terminated s" and "length s \<le> 2 ^ 31"
  shows "\<exists>r. BMFont_Render font fb StartX StartY ReturnX s color px = Some r"
  using render_text_ends [OF assms] by (auto simp: BMFont_Render_def pen_ok_def ends_io_def)

end
