(* ===== verification/TextDemo.thy ===== *)
theory TextDemo
  imports TextCorrect
begin

text \<open>
  The properties of the fonts and of text, each shown on a font of two letters, A and B, of one by
  two pixels, and a framebuffer of four by two.
\<close>

definition demo_font_file :: "u8 list" where
  "demo_font_file =
     [66, 77, 70, 3,
      2, 15, 0, 0, 0, 2, 0, 2, 0, 4, 0, 2, 0, 1, 0, 0, 0, 0, 0, 0,
      4, 40, 0, 0, 0,
      65, 0, 0, 0, 0, 0, 0, 0, 1, 0, 2, 0, 0, 0, 0, 0, 1, 0, 0, 4,
      66, 0, 0, 0, 1, 0, 0, 0, 1, 0, 2, 0, 0, 0, 0, 0, 1, 0, 0, 4]"

definition demo_page :: "u8 list" where
  "demo_page = replicate 18 0 @
     [0, 0, 255, 0, 0, 0, 255, 0, 0, 0, 255, 0, 0, 0, 255, 0,
      0, 0, 255, 0, 0, 0, 255, 0, 0, 0, 255, 0, 0, 0, 255, 0]"

definition demo_font :: BMFont where
  "demo_font = \<lparr>FontFile = demo_font_file, TotalCharacters = 2, TotalKerningPairs = 0, FontHeader = Some 0,
     FontInfo = None, FontCommon = Some 9, FontChars = Some 29, KerningPairs = None,
     PageTextureData = [Some demo_page, None, None, None, None, None, None, None]\<rparr>"

definition demo_framebuffer :: FramebufferLayout where
  "demo_framebuffer = \<lparr>Base = 0x80000000, Width = 4, Height = 2, Pitch = 16\<rparr>"

definition demo_letter :: "nat \<Rightarrow> BMFontChar" where
  "demo_letter i = \<lparr>CharId = 65 + of_nat i, CharX = of_nat i, CharY = 0, CharWidth = 1, CharHeight = 2,
     XOffset = 0, YOffset = 0, XAdvance = 1, CharPage = 0, CharChannel = 4\<rparr>"

lemma demo_chars: "font_char demo_font 0 = Inr (demo_letter 0)" "font_char demo_font 1 = Inr (demo_letter 1)"
  by (simp_all add: font_char_def demo_font_def demo_font_file_def file_value_def little_endian_def
      demo_letter_def int16_def sizeof_BMFontChar_def)

lemma demo_font_loads:
  "BMFont_Load demo_font_file 69 = Some (Inr (demo_font\<lparr>PageTextureData := replicate 8 None\<rparr>))"
  by (simp add: BMFont_Load_def load_blocks.simps demo_font_def demo_font_file_def file_value_def
      little_endian_def note_block_def sizeof_BMFontHeader_def sizeof_BMFontBlock_def sizeof_BMFontChar_def)

lemma demo_narrow: "narrow_font demo_font [65, 66] 4"
proof -
  have "[0 ..< length [65, 66 :: u32]] = [0, 1]" by (simp add: upt_rec)
  then show ?thesis
    by (simp add: narrow_font_def glyph_table_def demo_chars demo_letter_def)
      (simp add: demo_font_def)
qed

lemma BMFont_FindGlyph_linear_search_witness:
  "BMFont_FindGlyph demo_font 66 = Some (Inr (Some 1)) \<and> BMFont_FindGlyph demo_font 67 = Some (Inr None)"
proof -
  have "glyph_table demo_font [65, 66]" "sorted_wrt (<) [65, 66 :: u32]"
    using demo_narrow by (simp_all add: narrow_font_def)
  from BMFont_FindGlyph_linear_search [OF this] show ?thesis by (simp add: upt_rec)
qed

lemma demo_found:
  "BMFont_FindGlyph demo_font 65 = Some (Inr (Some 0))" "BMFont_FindGlyph demo_font 66 = Some (Inr (Some 1))"
  using FindGlyph_search [of demo_font "[65, 66]" 65] FindGlyph_search [of demo_font "[65, 66]" 66] demo_narrow
  by (simp_all add: narrow_font_def upt_rec)

lemma demo_glyphs: "char_glyph demo_font 65 = Some (demo_letter 0)" "char_glyph demo_font 66 = Some (demo_letter 1)"
  by (simp_all add: char_glyph_def demo_found demo_chars)

lemma demo_scale: "ScaleW demo_font = Inr 4"
  by (simp add: ScaleW_def common_value_def demo_font_def demo_font_file_def file_value_def little_endian_def)

lemma demo_drawable: "drawable demo_font 65" "drawable demo_font 66"
  by (simp_all add: drawable_def demo_glyphs demo_scale demo_letter_def)
    (simp_all add: demo_font_def on_page_def texel_def demo_page_def upt_rec)

definition demo_color :: BMFontColor where
  "demo_color = \<lparr>Red = 255, Green = 128, Blue = 0\<rparr>"

lemma demo_covers: "gx < 1 \<Longrightarrow> gy < 2 \<Longrightarrow> i < 2 \<Longrightarrow>
  glyph_cover (demo_letter i) (Some demo_page) 4 gx gy = 255"
  by (auto simp: glyph_cover_def demo_letter_def texel_def demo_page_def channel_mask_def
      little_endian_def less_2_cases_iff)

lemma demo_letter_fields:
  "XOffset (demo_letter i) = 0" "YOffset (demo_letter i) = 0" "XAdvance (demo_letter i) = 1"
  "CharWidth (demo_letter i) = 1" "CharHeight (demo_letter i) = 2" "CharPage (demo_letter i) = 0"
  by (simp_all add: demo_letter_def)

lemma demo_page_of: "PageTextureData demo_font ! 0 = Some demo_page"
  by (simp add: demo_font_def)

lemma BMFont_Render_line_witness:
  "BMFont_Render demo_font demo_framebuffer 1 0 0 [65, 66, 0] demo_color (replicate 8 0) =
    Some (Inr (3, 0, [0, 0xFF8000, 0xFF8000, 0, 0, 0xFF8000, 0xFF8000, 0]))"
proof -
  have "framebuffer_ok demo_framebuffer 8" by (simp add: framebuffer_ok_def demo_framebuffer_def)
  then have "BMFont_Render demo_font demo_framebuffer 1 0 0 ([65, 66] @ 0 # []) demo_color (replicate 8 0) =
    Some (Inr (1 + text_width demo_font [65, 66], 0,
      draw_line demo_font demo_framebuffer demo_color 1 0 [65, 66] (replicate 8 0)))"
    using demo_drawable
    by (intro BMFont_Render_line) (simp_all add: demo_framebuffer_def demo_glyphs demo_letter_def)
  moreover have "draw_line demo_font demo_framebuffer demo_color 1 0 [65, 66] (replicate 8 0) =
    [0, 0xFF8000, 0xFF8000, 0, 0, 0xFF8000, 0xFF8000, 0]"
    by (simp add: paint_def character_ink_def demo_glyphs demo_scale demo_framebuffer_def picture_def
        glyph_ink_def demo_letter_fields demo_page_of demo_covers demo_color_def glyph_color_def upt_rec)
  ultimately show ?thesis by (simp add: demo_glyphs demo_letter_def)
qed

lemma BMFont_Render_ends_witness:
  "\<exists>r. BMFont_Render demo_font demo_framebuffer 3 0 0 [65, 66, 65, 66, 65, 66, 32, 65, 10, 0] demo_color [] = Some r"
  by (rule BMFont_Render_ends [where ids = "[65, 66]"])
    (simp_all add: demo_framebuffer_def demo_narrow terminated_def)

end
