(* ===== verification/Textures.thy ===== *)
theory Textures
  imports BmFontCorrect
begin

text \<open>
  Pictures and QR codes on the screen, \<^verbatim>\<open>src/kernel/texture/render.cpp\<close>.  The picture is the list
  of the bytes of a TGA file, a header of 18 bytes and four bytes for each pixel.  The QR code
  generator is a library; the code asks it for the size of a code and for its modules.
\<close>

section \<open>Mixing colours\<close>

definition BlendColourComponent :: "u8 \<Rightarrow> u8 \<Rightarrow> u8 \<Rightarrow> u8" where
  "BlendColourComponent src dst alpha =
     of_int ((uint src * uint alpha + uint dst * (255 - uint alpha)) div 255)"

definition ApplyTransparency :: "u32 \<Rightarrow> u8 \<Rightarrow> u32 \<Rightarrow> u32" where
  "ApplyTransparency color alpha background =
     (let component = (\<lambda>k. BlendColourComponent (ucast (drop_bit k color AND 0xFF))
                             (ucast (drop_bit k background AND 0xFF)) alpha)
      in push_bit 16 (ucast (component 16)) OR push_bit 8 (ucast (component 8)) OR ucast (component 0))"

section \<open>Pictures\<close>

text \<open>\<^verbatim>\<open>Left\<close> and \<^verbatim>\<open>Top\<close> are the same value, as are \<^verbatim>\<open>Right\<close> and \<^verbatim>\<open>Bottom\<close>.\<close>

datatype AlignImage = AlignStart | AlignMiddle | AlignEnd

definition align_start :: "AlignImage \<Rightarrow> int \<Rightarrow> int \<Rightarrow> fault + int" where
  "align_start a start extent =
     (case a of
        AlignStart \<Rightarrow> Inr start
      | AlignMiddle \<Rightarrow> int32 (start - extent div 2)
      | AlignEnd \<Rightarrow> int32 (start - extent))"

definition tga_width :: "u8 list \<Rightarrow> fault + u16" where
  "tga_width tga = ok_bind (file_value 2 12 tga) (\<lambda>v. Inr (ucast v))"

definition tga_height :: "u8 list \<Rightarrow> fault + u16" where
  "tga_height tga = ok_bind (file_value 2 14 tga) (\<lambda>v. Inr (ucast v))"

definition tga_pixel ::
  "u8 list \<Rightarrow> bool \<Rightarrow> nat \<Rightarrow> nat \<Rightarrow> FramebufferLayout \<Rightarrow> int \<Rightarrow> int \<Rightarrow> nat \<Rightarrow> nat \<Rightarrow> u32 list \<Rightarrow> fault + u32 list" where
  "tga_pixel tga transparent width height fb StartX StartY y x px =
     ok_bind (int32 (int x + StartX)) (\<lambda>column.
     if column < 0 then Inr px
     else if column \<ge> sint (Width fb) then Inr px
     else
       ok_bind (texel (Some tga) (of_nat y * of_nat width + of_nat x)) (\<lambda>t.
       let mask = (if transparent then 0x00FFFFFF else 0xFFFFFFFF); channel = t AND mask;
           transparency = drop_bit 24 (t AND NOT mask)
       in
       if channel \<noteq> 0 then
         ok_bind (int32 (int height - int y + StartY)) (\<lambda>row.
         let out = unat (of_int row * (Pitch fb div 4) + of_nat x + of_int StartX) in
         if transparency \<noteq> 0 then
           ok_bind (array_get px out) (\<lambda>old.
           array_set px out (ApplyTransparency channel (ucast transparency) old))
         else array_set px out channel)
       else Inr px))"

definition tga_row ::
  "u8 list \<Rightarrow> bool \<Rightarrow> nat \<Rightarrow> nat \<Rightarrow> FramebufferLayout \<Rightarrow> int \<Rightarrow> int \<Rightarrow> nat \<Rightarrow> u32 list \<Rightarrow> fault + u32 list" where
  "tga_row tga transparent width height fb StartX StartY y px =
     ok_bind (int32 (int y + StartY)) (\<lambda>row.
     if row < 0 then Inr px
     else if row \<ge> sint (Height fb) then Inr px
     else each_ok (tga_pixel tga transparent width height fb StartX StartY y) [0 ..< width] px)"

definition RenderTGA ::
  "FramebufferLayout \<Rightarrow> u8 list \<Rightarrow> int \<Rightarrow> int \<Rightarrow> AlignImage \<Rightarrow> AlignImage \<Rightarrow> bool \<Rightarrow> u32 list \<Rightarrow>
   fault + u32 list" where
  "RenderTGA fb tga StartX StartY AlignX AlignY transparent px =
     ok_bind (tga_width tga) (\<lambda>width.
     ok_bind (tga_height tga) (\<lambda>height.
     ok_bind (align_start AlignX StartX (uint width)) (\<lambda>StartX.
     ok_bind (align_start AlignY StartY (uint height)) (\<lambda>StartY.
     each_ok (tga_row tga transparent (unat width) (unat height) fb StartX StartY)
       (rev [0 ..< unat height]) px))))"

section \<open>QR codes\<close>

record 'q qrcodegen =
  qr_isAlphanumeric :: "cstr \<Rightarrow> bool"
  qr_encodeText :: "cstr \<Rightarrow> 'q option"
  qr_getSize :: "'q \<Rightarrow> nat"
  qr_getModule :: "'q \<Rightarrow> nat \<Rightarrow> nat \<Rightarrow> bool"

definition qr_border :: nat where "qr_border = 2"

text \<open>
  One pixel of a module; the loops run from \<^verbatim>\<open>-borderwidth\<close>, so that a module is counted from the
  border.
\<close>

definition qr_pixel ::
  "FramebufferLayout \<Rightarrow> u32 \<Rightarrow> u32 \<Rightarrow> u32 \<Rightarrow> u32 \<Rightarrow> nat \<Rightarrow> nat \<Rightarrow> nat \<Rightarrow> nat \<Rightarrow> u32 list \<Rightarrow> fault + u32 list" where
  "qr_pixel fb StartX StartY ppm color j i my mx px =
     (let posX = of_int (int i - int qr_border) * ppm + of_nat qr_border;
          posY = of_int (int j - int qr_border) * ppm + of_nat qr_border
      in array_set px (unat ((posY + of_nat my + StartY) * (Pitch fb div 4) + posX + of_nat mx + StartX)) color)"

definition qr_set :: "'q qrcodegen \<Rightarrow> 'q \<Rightarrow> nat \<Rightarrow> nat \<Rightarrow> bool" where
  "qr_set lib qr j i =
     (let size = qr_getSize lib qr in
      qr_border \<le> i \<and> i < size + qr_border \<and> qr_border \<le> j \<and> j < size + qr_border \<and>
      qr_getModule lib qr (i - qr_border) (j - qr_border))"

definition qr_module ::
  "'q qrcodegen \<Rightarrow> 'q \<Rightarrow> FramebufferLayout \<Rightarrow> u32 \<Rightarrow> u32 \<Rightarrow> u32 \<Rightarrow> u32 \<Rightarrow> u32 \<Rightarrow> nat \<Rightarrow> nat \<Rightarrow> u32 list \<Rightarrow>
   fault + u32 list" where
  "qr_module lib qr fb StartX StartY ppm module_color background j i px =
     each_ok (\<lambda>my. each_ok
       (qr_pixel fb StartX StartY ppm (if qr_set lib qr j i then module_color else background) j i my)
       [0 ..< unat ppm]) [0 ..< unat ppm] px"

definition RenderQR ::
  "'q qrcodegen \<Rightarrow> FramebufferLayout \<Rightarrow> cstr \<Rightarrow> u32 \<Rightarrow> u32 \<Rightarrow> u32 \<Rightarrow> bool \<Rightarrow> int \<Rightarrow> u32 list \<Rightarrow>
   fault + bool \<times> u32 list" where
  "RenderQR lib fb text StartX StartY PixelsPerModule BlackModules contrast px =
     assertf (qr_isAlphanumeric lib text) ''Input data for QR code is not base45''
     (case qr_encodeText lib text of
        None \<Rightarrow> Inl (AssertionFailed ''Failed to generate QR code'')
      | Some qr \<Rightarrow>
          ok_bind (int32 (contrast * 0x11111111)) (\<lambda>grey.
          let Black = 0; White = 0xFFFFFFFF - of_int grey;
              module_color = (if BlackModules then Black else White);
              background = (if BlackModules then White else Black);
              modules = [0 ..< qr_getSize lib qr + 2 * qr_border]
          in
          ok_bind (each_ok (\<lambda>j. each_ok
              (qr_module lib qr fb StartX StartY PixelsPerModule module_color background j) modules) modules px)
            (\<lambda>px. Inr (True, px))))"

end
