(* ===== verification/TexturesCorrect.thy ===== *)
theory TexturesCorrect
  imports Textures
begin

text \<open>
  Where the pictures go: a picture is drawn upside down, as its file is, and one row lower than
  asked; a QR code shows its modules as squares with a border.
\<close>

section \<open>Colours\<close>

text \<open>The result of mixing two colours lies between them.\<close>

lemma blend_between:
  fixes a b c :: int
  assumes "0 \<le> a" and "a \<le> 255" and "0 \<le> b" and "b \<le> c"
  shows "b \<le> (c * a + b * (255 - a)) div 255" and "(c * a + b * (255 - a)) div 255 \<le> c"
proof -
  have low: "b * 255 \<le> c * a + b * (255 - a)" and high: "c * a + b * (255 - a) \<le> c * 255"
    using mult_right_mono [OF assms(4), of a] mult_right_mono [OF assms(4), of "255 - a"] assms(1,2)
    by (simp_all add: algebra_simps)
  show "b \<le> (c * a + b * (255 - a)) div 255" using zdiv_mono1 [OF low, of 255] by simp
  show "(c * a + b * (255 - a)) div 255 \<le> c" using zdiv_mono1 [OF high, of 255] by simp
qed

lemma BlendColourComponent_bounds:
  "min (uint src) (uint dst) \<le> uint (BlendColourComponent src dst alpha)"
  "uint (BlendColourComponent src dst alpha) \<le> max (uint src) (uint dst)"
proof -
  define v where "v = (uint src * uint alpha + uint dst * (255 - uint alpha)) div 255"
  have alpha: "0 \<le> uint alpha" "uint alpha \<le> 255" using uint_lt2p [of alpha] by simp_all
  have "min (uint src) (uint dst) \<le> v \<and> v \<le> max (uint src) (uint dst)"
  proof (cases "uint dst \<le> uint src")
    case True
    then show ?thesis
      using blend_between [OF alpha _ True] by (simp add: v_def min_def max_def)
  next
    case False
    then have "uint src \<le> uint dst" by simp
    then show ?thesis
      using blend_between [of "255 - uint alpha" "uint src" "uint dst"] alpha False
      by (simp add: v_def min_def max_def add.commute)
  qed
  moreover have "0 \<le> min (uint src) (uint dst)" "max (uint src) (uint dst) < 256"
    using uint_lt2p [of src] uint_lt2p [of dst] by simp_all
  with calculation have "0 \<le> v" "v < 256" by linarith+
  ultimately have "uint (BlendColourComponent src dst alpha) = v"
    by (simp add: BlendColourComponent_def v_def [symmetric] uint_word_of_int)
  then show "min (uint src) (uint dst) \<le> uint (BlendColourComponent src dst alpha)"
    "uint (BlendColourComponent src dst alpha) \<le> max (uint src) (uint dst)"
    using \<open>min (uint src) (uint dst) \<le> v \<and> v \<le> max (uint src) (uint dst)\<close> by simp_all
qed

section \<open>Pictures\<close>

text \<open>The colour that a pixel of a picture leaves on a pixel of the screen.\<close>

definition stamp :: "bool \<Rightarrow> u32 \<Rightarrow> u32 \<Rightarrow> u32" where
  "stamp transparent t old =
     (let mask = (if transparent then 0x00FFFFFF else 0xFFFFFFFF); transparency = drop_bit 24 (t AND NOT mask) in
      if t AND mask = 0 then old
      else if transparency \<noteq> 0 then ApplyTransparency (t AND mask) (ucast transparency) old
      else t AND mask)"

definition tga_color :: "u8 list \<Rightarrow> nat \<Rightarrow> nat \<Rightarrow> nat \<Rightarrow> u32" where
  "tga_color tga width y x =
     (case texel (Some tga) (of_nat (y * width + x)) of Inl e \<Rightarrow> 0 | Inr t \<Rightarrow> t)"

lemma texel_inside:
  assumes "y < height" and "x < width" and "18 + 4 * (width * height) \<le> length tga" and "width * height < 2 ^ 32"
  shows "texel (Some tga) (of_nat (y * width + x)) = Inr (tga_color tga width y x)"
proof -
  have "y * width + x < height * width"
    using position_inside [OF assms(1,2)] by simp
  then have "y * width + x < width * height" by (simp add: mult.commute)
  moreover from this have "unat (of_nat (y * width + x) :: u32) = y * width + x"
    using assms(4) by (simp only: unat_of_nat) simp
  ultimately show ?thesis using assms(3) by (simp add: texel_def tga_color_def)
qed

text \<open>The screen behind a picture whose start, after alignment, is x and y.\<close>

definition tga_screen ::
  "u8 list \<Rightarrow> bool \<Rightarrow> nat \<Rightarrow> nat \<Rightarrow> FramebufferLayout \<Rightarrow> int \<Rightarrow> int \<Rightarrow> nat \<Rightarrow> u32 \<Rightarrow> u32" where
  "tga_screen tga transparent width height fb x y p old =
     (let q = unat (Pitch fb div 4); col = int (p mod q); row = int (p div q) in
      if x \<le> col \<and> col < x + int width \<and> col < uint (Width fb) \<and> y < row \<and> row \<le> y + int height
      then stamp transparent (tga_color tga width (nat (y + int height - row)) (nat (col - x))) old
      else old)"

text \<open>The whole picture, drawn from the row below y, is on the screen or cut off at its sides.\<close>

definition tga_fits :: "u8 list \<Rightarrow> nat \<Rightarrow> nat \<Rightarrow> FramebufferLayout \<Rightarrow> int \<Rightarrow> int \<Rightarrow> bool" where
  "tga_fits tga width height fb x y \<longleftrightarrow>
     width < 65536 \<and> height < 65536 \<and> 18 + 4 * (width * height) \<le> length tga \<and>
     - (2 ^ 31) \<le> x \<and> x < 2 ^ 31 - 65536 \<and> 0 \<le> y \<and> y + int height < uint (Height fb)"

lemma tga_pixel_repaints:
  assumes "framebuffer_ok fb (length px)" and "tga_fits tga width height fb X Y"
    and "y < height" and "x < width"
  shows "tga_pixel tga transparent width height fb X Y y x px = Inr (repaint (\<lambda>p old.
    if (int (p div unat (Pitch fb div 4)) = Y + int height - int y) \<and> int (p mod unat (Pitch fb div 4)) - X = int x
    then tga_screen tga transparent width height fb X Y p old else old) px)"
proof -
  define q w h where "q = unat (Pitch fb div 4)" and "w = unat (Width fb)" and "h = unat (Height fb)"
  note folds = q_def [symmetric] w_def [symmetric] h_def [symmetric]
  have fb: "w \<le> q" "h * q \<le> length px" "h * q < 2 ^ 32" "sint (Width fb) = int w" "h < 2 ^ 31" "w < 2 ^ 31"
    using assms(1) by (simp_all add: framebuffer_ok_def sint_small q_def w_def h_def)
  have uw: "uint (Width fb) = int w" "uint (Height fb) = int h" by (simp_all add: w_def h_def)
  have fits: "width < 65536" "height < 65536" "18 + 4 * (width * height) \<le> length tga"
    "- (2 ^ 31) \<le> X" "X < 2 ^ 31 - 65536" "0 \<le> Y" "Y + int height < int h"
    using assms(2) by (simp_all add: tga_fits_def uw)
  have area: "width * height < 2 ^ 32"
    using mult_strict_mono [of width 65536 height 65536] fits(1,2) by simp
  define t where "t = tga_color tga width y x"
  define row where "row = Y + int height - int y"
  have row: "0 \<le> row" "row < int h" "int32 (int height - int y + Y) = Inr row"
    using fits assms(3) fb(5) by (auto simp: row_def intro!: int32_in) (simp add: int32_def)
  have column: "int32 (int x + X) = Inr (int x + X)"
    using fits assms(4) by (intro int32_in) auto
  have texel: "texel (Some tga) (of_nat y * of_nat width + of_nat x) = Inr t"
    using texel_inside [OF assms(3,4) fits(3) area] by (simp add: t_def)
  show ?thesis
  proof (cases "0 \<le> int x + X \<and> int x + X < int w")
    case False
    then have "tga_screen tga transparent width height fb X Y p old = old"
      if "int (p mod q) - X = int x" for p old
      using that unfolding tga_screen_def folds uw by auto
    then have "(\<lambda>p old. if int (p div q) = row \<and> int (p mod q) - X = int x
      then tga_screen tga transparent width height fb X Y p old else old) = (\<lambda>p old. old)"
      by (intro ext) auto
    with False column fb(4) show ?thesis
      unfolding folds row_def [symmetric] by (auto simp: tga_pixel_def)
  next
    case True
    define p0 where "p0 = nat row * q + nat (int x + X)"
    have col: "nat (int x + X) < q" using True fb(1) by auto
    have "nat row < h" using row by auto
    then have p0: "p0 < length px" "p0 < h * q"
      unfolding p0_def using col fb(2) by (auto intro!: position_inside [where height = h])
    have out: "unat (of_int row * (Pitch fb div 4) + of_nat x + of_int X) = p0"
      using output_position [of row "int x + X" "Pitch fb div 4"] True row p0(2) fb(3)
      by (simp add: p0_def q_def ac_simps)
    have here: "p = p0 \<longleftrightarrow> int (p div q) = row \<and> int (p mod q) - X = int x" for p
      unfolding p0_def position_of [OF col] using True row(1) by auto
    have ink: "tga_screen tga transparent width height fb X Y p0 old = stamp transparent t old" for old
    proof -
      have "int (p0 div q) = row" "int (p0 mod q) = int x + X" using here [of p0] by auto
      moreover have "nat (Y + int height - row) = y" by (simp add: row_def)
      ultimately show ?thesis
        using True assms(3,4) unfolding tga_screen_def folds uw by (simp add: t_def row_def)
    qed
    have "tga_pixel tga transparent width height fb X Y y x px = Inr (px[p0 := stamp transparent t (px ! p0)])"
      using True column fb(4) texel row(3) out p0(1)
      by (auto simp: tga_pixel_def Let_def stamp_def)
    also have "\<dots> = Inr (repaint (\<lambda>p old. if p = p0 then stamp transparent t old else old) px)"
      using p0(1) by (simp add: repaint_single)
    also have "(\<lambda>p old. if p = p0 then stamp transparent t old else old) =
      (\<lambda>p old. if int (p div q) = row \<and> int (p mod q) - X = int x
        then tga_screen tga transparent width height fb X Y p old else old)"
      unfolding here [symmetric] by (intro ext) (simp add: ink)
    finally show ?thesis unfolding folds row_def .
  qed
qed

lemma tga_rows_repaint:
  assumes "framebuffer_ok fb (length px)" and "tga_fits tga width height fb X Y"
  shows "each_ok (tga_row tga transparent width height fb X Y) (rev [0 ..< height]) px =
    Inr (repaint (tga_screen tga transparent width height fb X Y) px)"
proof -
  define q where "q = unat (Pitch fb div 4)"
  let ?screen = "tga_screen tga transparent width height fb X Y"
  let ?row = "\<lambda>p. nat (Y + int height - int (p div q))" and ?col = "\<lambda>p. nat (int (p mod q) - X)"
  let ?on = "\<lambda>p. X \<le> int (p mod q) \<and> Y < int (p div q) \<and> int (p div q) \<le> Y + int height"
  have rows: "tga_row tga transparent width height fb X Y y px' =
    Inr (repaint (\<lambda>p old. if ?on p \<and> ?row p = y then ?screen p old else old) px')"
    if y: "y < height" and len: "length px' = length px" for y px'
  proof -
    have "int (unat (Height fb)) < int (2 ^ 31)"
      using assms(1) by (simp only: framebuffer_ok_def of_nat_less_iff)
    then have "uint (Height fb) < 2 ^ 31" by simp
    then have go: "int32 (int y + Y) = Inr (int y + Y)" "\<not> int y + Y < 0" "\<not> int y + Y \<ge> sint (Height fb)"
      using assms y sint_small [of "Height fb"]
      by (auto simp: framebuffer_ok_def tga_fits_def int32_def)
    have "each_ok (tga_pixel tga transparent width height fb X Y y) [0 ..< width] px' =
      Inr (repaint (\<lambda>p old. if (?on p \<and> ?row p = y) \<and> ?col p \<in> set [0 ..< width] then ?screen p old else old) px')"
    proof (rule each_repaint_key)
      fix x and px'' :: "u32 list" assume "x \<in> set [0 ..< width]" and "length px'' = length px"
      moreover have "(\<lambda>p old. if int (p div q) = Y + int height - int y \<and> int (p mod q) - X = int x
          then ?screen p old else old) =
        (\<lambda>p old. if (?on p \<and> ?row p = y) \<and> ?col p = x then ?screen p old else old)"
        using y by (intro ext) auto
      ultimately show "tga_pixel tga transparent width height fb X Y y x px'' =
        Inr (repaint (\<lambda>p old. if (?on p \<and> ?row p = y) \<and> ?col p = x then ?screen p old else old) px'')"
        using tga_pixel_repaints [of fb px'' tga width height X Y y x] assms y by (simp add: q_def)
    qed (use len in simp_all)
    moreover have "?screen p old = old" if "?on p" "\<not> ?col p < width" for p old
      using that by (auto simp: tga_screen_def Let_def q_def)
    then have "(\<lambda>p old. if (?on p \<and> ?row p = y) \<and> ?col p \<in> set [0 ..< width] then ?screen p old else old) =
      (\<lambda>p old. if ?on p \<and> ?row p = y then ?screen p old else old)"
      by (intro ext) auto
    ultimately show ?thesis using go by (simp add: tga_row_def)
  qed
  have "each_ok (tga_row tga transparent width height fb X Y) (rev [0 ..< height]) px =
    Inr (repaint (\<lambda>p old. if ?on p \<and> ?row p \<in> set (rev [0 ..< height]) then ?screen p old else old) px)"
    by (rule each_repaint_key) (use rows in simp_all)
  moreover have "?screen p old = old" if "\<not> (?on p \<and> ?row p < height)" for p old
    using that by (auto simp: tga_screen_def Let_def q_def)
  then have "(\<lambda>p old. if ?on p \<and> ?row p \<in> set (rev [0 ..< height]) then ?screen p old else old) = ?screen"
    by (intro ext) auto
  ultimately show ?thesis by simp
qed

end
