(* ===== verification/Spec2Isabelle.thy ===== *)
theory Spec2Isabelle
  imports MemoryManager BootMapCorrect RingBuffer CStringsCorrect MemoryOps VolumesCorrect DeviceVolumesCorrect KeyboardCorrect
    Base45Correct ThreadLocalCorrect ElfCorrect ElfTable InterruptsCorrect ProcessCorrect TimeCorrect SyscallsDemo FatCorrect KeyboardLine ApicDemo TextDemo TexturesCorrect
begin

text \<open>
  Verification development for the Enkel kernel, an x86-64 operating system kernel in C++
  (directory \<^verbatim>\<open>src/\<close> of the repository, with the headers in \<^verbatim>\<open>inc/\<close>).

  \<^bold>\<open>The program.\<close>  The boot loader hands a memory map to the kernel, which builds page tables from it
  and keeps two trackers of page states, one for physical and one for virtual memory.  On top of
  them are the allocation interface, a mount table whose volumes are tables of function pointers,
  the console and keyboard devices, and the loader that puts ELF programs and their threads' data
  into memory, builds their first stack and runs them until they exit.  Exceptions and interrupts
  go through the descriptor tables and a table of callbacks.

  \<^bold>\<open>Conventions.\<close>  A pointer is a 64 bit word, memory a function from addresses to bytes, an array a
  list whose accesses are checked, an operation a function to \<^verbatim>\<open>fault + result\<close>, where the faults are
  failed assertions, accesses outside of arrays, null and dangling pointers, divisions by zero and
  page faults (\<^verbatim>\<open>Prelude\<close>).  Integers keep their width.  Loops are recursive functions with a
  termination proof; where a loop of the code may run for ever, the result is an option
  (\<^verbatim>\<open>partial_function\<close>) or the function takes fuel, and the theorems say when it returns.

  \<^bold>\<open>Theories and sources.\<close>
  \<^item> \<^verbatim>\<open>RangeTree\<close>, \<^verbatim>\<open>RangeTreeCorrect\<close>, \<^verbatim>\<open>PageTracker\<close>: \<^verbatim>\<open>kernel/memory/state.cpp\<close> and \<^verbatim>\<open>state.h\<close>, the tracker
    as a tree of ranges with pools of nodes.  The lemmas relate a well-formed tree to the map from
    pages to states: tagging changes the pages of the range, the search is first fit over the free
    ranges.
  \<^item> \<^verbatim>\<open>Paging\<close>, \<^verbatim>\<open>VirtualMem\<close>, \<^verbatim>\<open>PagingCorrect\<close>, \<^verbatim>\<open>MappingCorrect\<close>, \<^verbatim>\<open>MemoryManager\<close>: \<^verbatim>\<open>pml4.cpp\<close>, \<^verbatim>\<open>virtual.cpp\<close>,
    \<^verbatim>\<open>physical.cpp\<close>, page tables in a heap of pages, with the refill of the list of free pages.  The
    source of new pages takes a depth of nested refills; one is enough for every allocation that
    the free list covers, as the hypotheses on the room of the list say.
  \<^item> \<^verbatim>\<open>BootMap\<close>, \<^verbatim>\<open>BootMapCorrect\<close>: the part of \<^verbatim>\<open>pml4.cpp\<close> that walks the boot memory map.
  \<^item> \<^verbatim>\<open>RingBuffer\<close>: \<^verbatim>\<open>inc/common/ring_buffer.h\<close>, as a refinement of a bounded queue.
  \<^item> \<^verbatim>\<open>CStrings\<close>, \<^verbatim>\<open>CStringsCorrect\<close>: \<^verbatim>\<open>common/string.cpp\<close>; \<^verbatim>\<open>MemoryOps\<close>: \<^verbatim>\<open>memory/memory.cpp\<close>.
  \<^item> \<^verbatim>\<open>Volumes\<close>, \<^verbatim>\<open>VolumesCorrect\<close>: \<^verbatim>\<open>fs/volume.cpp\<close>, mounting, path resolution and dispatch.
    \<^verbatim>\<open>DeviceVolumes\<close>, \<^verbatim>\<open>DeviceVolumesCorrect\<close>: the volumes of \<^verbatim>\<open>fs/volumes/\<close>.
  \<^item> \<^verbatim>\<open>Keyboard\<close>, \<^verbatim>\<open>BritishLayout\<close>, \<^verbatim>\<open>KeyboardCorrect\<close>: \<^verbatim>\<open>devices/keyboard.cpp\<close> and the British layout.
  \<^item> \<^verbatim>\<open>Base45\<close>, \<^verbatim>\<open>Base45Correct\<close>: \<^verbatim>\<open>utilities/base45.cpp\<close> and its use in \<^verbatim>\<open>qrdump.cpp\<close>; the decoder is
    ours and follows the published format.
  \<^item> \<^verbatim>\<open>Machine\<close>: the state that the process components share, and \<^verbatim>\<open>DemoMachine\<close>, a concrete machine
    for the witnesses.  \<^verbatim>\<open>ThreadLocal\<close>, \<^verbatim>\<open>ThreadLocalCorrect\<close>: \<^verbatim>\<open>init/tls.cpp\<close>.
  \<^item> \<^verbatim>\<open>ElfLoader\<close>: \<^verbatim>\<open>user_mode/elf.cpp\<close>; \<^verbatim>\<open>ElfCorrect\<close>: the memory image as a specification and the bounds
    of what the loader writes; \<^verbatim>\<open>ElfTable\<close>: the table of loaded binaries.
  \<^item> \<^verbatim>\<open>Process\<close>, \<^verbatim>\<open>ProcessCorrect\<close>: \<^verbatim>\<open>process/process.cpp\<close>, the stack a program starts with.
  \<^item> \<^verbatim>\<open>Descriptors\<close>, \<^verbatim>\<open>DescriptorsCorrect\<close>: \<^verbatim>\<open>init/gdt.cpp\<close> and the interrupt table of \<^verbatim>\<open>init/interrupts.cpp\<close>
    byte for byte, read back by a model of the processor.  \<^verbatim>\<open>Interrupts\<close>, \<^verbatim>\<open>InterruptsCorrect\<close>: the
    handlers, callbacks and the stack trace of \<^verbatim>\<open>utilities/termination.cpp\<close>.

  \<^item> Timers, \<^verbatim>\<open>scheduling/time.cpp\<close>: theories \<^verbatim>\<open>Time\<close>, \<^verbatim>\<open>TimeCorrect\<close>.  The readings of the counter and
    the arrivals of the interrupt are streams; the loops are \<^verbatim>\<open>partial_function\<close>s, and that they
    end is proved from the assumption that the hardware goes on.
  \<^item> System calls, \<^verbatim>\<open>user_mode/syscalls.cpp\<close> and the choice in \<^verbatim>\<open>user_mode/dispatcher.asm\<close>: theories
    \<^verbatim>\<open>Syscalls\<close> (one definition per routine), \<^verbatim>\<open>SyscallTable\<close> (the 400 entries, the dispatch and the
    start-up), \<^verbatim>\<open>SyscallsCorrect\<close> and \<^verbatim>\<open>SyscallsDemo\<close>.  They use the volumes, the memory manager,
    the processes, the thread pointer, the timers and the descriptor tables.
  \<^item> What the kernel offers to the ACPI library, \<^verbatim>\<open>acpi_os/acpi_os_interface.cpp\<close>, with the configuration
    space of \<^verbatim>\<open>devices/pci.cpp\<close>: theories \<^verbatim>\<open>AcpiOs\<close>, \<^verbatim>\<open>AcpiOsCorrect\<close>.  Memory is by physical
    address there, and every access is translated by the page tables.
  \<^item> The disk controller, \<^verbatim>\<open>devices/ahci/sata.cpp\<close>: theory \<^verbatim>\<open>Ahci\<close>, with the structures of \<^verbatim>\<open>ahci.h\<close>; the
    CD-ROM drive and its volume, \<^verbatim>\<open>devices/ahci/cdrom.cpp\<close>: theories \<^verbatim>\<open>Cdrom\<close>, \<^verbatim>\<open>CdromVolume\<close>,
    \<^verbatim>\<open>CdromSetup\<close> (the memory of a port), \<^verbatim>\<open>CdromCorrect\<close> (reading) and \<^verbatim>\<open>CdromDemo\<close> (a drive for the
    witnesses).  The registers are a parameter; the theorems assume of the drive that it behaves as
    documented, \<^verbatim>\<open>conforming_drive\<close>, and show that the volume has the bytes of the disc.
  \<^item> The glue to the FatFs library, \<^verbatim>\<open>fs/fat/diskio.cpp\<close>: theory \<^verbatim>\<open>FatDisk\<close>, with the volume of files;
    \<^verbatim>\<open>FatCorrect\<close> joins it with the table of volumes and the driver.
  \<^item> The interrupt controllers: \<^verbatim>\<open>Pic\<close> is \<^verbatim>\<open>init/pic.cpp\<close> with a model of the two chips, \<^verbatim>\<open>KeyboardLine\<close>
    follows the line of the keyboard to its handler; \<^verbatim>\<open>Apic\<close> is \<^verbatim>\<open>init/apic.cpp\<close>, the local controller,
    the table of processors and their start, \<^verbatim>\<open>ApicCorrect\<close> reads the table back, \<^verbatim>\<open>ApicWake\<close> follows the
    interrupts to a processor, and \<^verbatim>\<open>ApicDemo\<close> has the machine for the witnesses.
  \<^item> Text and pictures on the framebuffer, which is the list of its pixels: \<^verbatim>\<open>BmFont\<close> is
    \<^verbatim>\<open>font/details/bmfont.cpp\<close> (the font file, the search for a glyph, a glyph, a text with its line
    breaks), \<^verbatim>\<open>Textures\<close> is \<^verbatim>\<open>texture/render.cpp\<close> (blending, pictures, QR codes, whose generator is a
    library and a parameter).  \<^verbatim>\<open>Pixels\<close> has the lemmas on loops that paint; \<^verbatim>\<open>BmFontCorrect\<close> shows that
    the search is the linear search of the table and what a glyph changes, \<^verbatim>\<open>TextCorrect\<close> that a text that fits
    is drawn on its line and that every text comes to an end, \<^verbatim>\<open>TexturesCorrect\<close> where the rows of a
    picture go; \<^verbatim>\<open>TextDemo\<close> has a font for the witnesses.
  \<^item> \<^verbatim>\<open>Waiting\<close> has the sequencing of steps that may wait for ever, or fail, which the disk drivers and
    the drawing of text share, and the range of \<^verbatim>\<open>int\<close>.

  \<^bold>\<open>Interfaces.\<close>  Contracts are locales, each interpreted on the model's own operations: \<^verbatim>\<open>page_tracker\<close>,
  what tagging and searching promise to their clients; \<^verbatim>\<open>page_provider\<close>, where the mapping of pages gets
  new table pages; and \<^verbatim>\<open>bounded_queue\<close>, which the ring buffer implements.

  \<^bold>\<open>Arguments of the model.\<close>  \<^verbatim>\<open>rpmalloc\<close> (the addresses it returns), \<^verbatim>\<open>XXH64\<close>, zlib, what a user program
  does until it exits, the addresses the linker chooses, and the values read from devices.

  \<^bold>\<open>Not modelled.\<close>  The FatFs library itself, the calls of the ACPI library, the console (\<^verbatim>\<open>console/console.cpp\<close>, which joins the fonts and the serial port), the callbacks of the allocator (\<^verbatim>\<open>init/malloc.cpp\<close>), the boot loader (calls of the firmware), the assembly entry code, the user programs for tests, and all vendored libraries.
\<close>

end
